(* ===== verification/Wakaama_Base.thy ===== *)
theory Wakaama_Base
  imports Main "HOL-Library.Word" "HOL-Library.Monad_Syntax"
begin

unbundle bit_operations_syntax

text \<open>
  Shared vocabulary of the development: the C integer types the sources use, the
  option monad in which \<open>None\<close> stands for undefined behaviour of C (an access outside an
  object, a \<open>NULL\<close> dereference, a signed overflow), byte buffers with checked reads and
  writes, the constants of \<^verbatim>\<open>include/liblwm2m.h\<close> that several components use, and the
  generic lemmas on lists, options and words that the component theories share.
\<close>

section \<open>Integer types and result types\<close>

type_synonym u8 = "8 word"
type_synonym u16 = "16 word"
type_synonym u32 = "32 word"
type_synonym u64 = "64 word"
type_synonym bytes = "u8 list"

text \<open>A computation of C that may have undefined behaviour: \<open>None\<close> is undefined behaviour.\<close>

type_synonym 'a c = "'a option"

named_theorems byte_simps \<open>evaluation of byte arithmetic\<close>
named_theorems safe_intros \<open>introduction rules for: the computation is defined\<close>

definition guard_c :: "bool \<Rightarrow> unit c" where
  "guard_c b = (if b then Some () else None)"

text \<open>The range of a C \<open>int\<close> (32 bits) and of \<open>int64_t\<close>.\<close>

definition INT_MAX :: int where "INT_MAX = 2 ^ 31 - 1"
definition INT_MIN :: int where "INT_MIN = - (2 ^ 31)"
definition INT64_MAX :: int where "INT64_MAX = 2 ^ 63 - 1"
definition INT64_MIN :: int where "INT64_MIN = - (2 ^ 63)"
definition UINT64_MAX :: nat where "UINT64_MAX = 2 ^ 64 - 1"

lemmas c_limits = INT_MAX_def INT_MIN_def INT64_MAX_def INT64_MIN_def UINT64_MAX_def

text \<open>Arithmetic on \<open>int\<close>: a result outside the range is undefined behaviour.\<close>

definition int_c :: "int \<Rightarrow> int c" where
  "int_c x = (if INT_MIN \<le> x \<and> x \<le> INT_MAX then Some x else None)"

section \<open>Checked buffer accesses\<close>

text \<open>A pointer into a buffer is the buffer and an index; an index outside it is undefined.\<close>

definition rd :: "'a list \<Rightarrow> nat \<Rightarrow> 'a c" where
  "rd b i = (if i < length b then Some (b ! i) else None)"

definition wr :: "'a list \<Rightarrow> nat \<Rightarrow> 'a \<Rightarrow> 'a list c" where
  "wr b i v = (if i < length b then Some (b[i := v]) else None)"

text \<open>\<open>memcpy(b + i, src, length src)\<close>.\<close>

definition wr_range :: "'a list \<Rightarrow> nat \<Rightarrow> 'a list \<Rightarrow> 'a list c" where
  "wr_range b i src = (if i + length src \<le> length b
     then Some (take i b @ src @ drop (i + length src) b) else None)"

text \<open>\<open>n\<close> bytes starting at \<open>i\<close>, as \<open>memcpy\<close> reads them.\<close>

definition rd_range :: "'a list \<Rightarrow> nat \<Rightarrow> nat \<Rightarrow> 'a list c" where
  "rd_range b i n = (if i + n \<le> length b then Some (take n (drop i b)) else None)"

text \<open>Calling a function with the pointer \<open>b + i\<close>: it works on the rest of the buffer.\<close>

definition on_tail :: "nat \<Rightarrow> ('a list \<Rightarrow> ('a list \<times> 'r) c) \<Rightarrow> 'a list \<Rightarrow> ('a list \<times> 'r) c" where
  "on_tail i f b = (if i \<le> length b then do { (t, r) \<leftarrow> f (drop i b); Some (take i b @ t, r) } else None)"

lemma rd_Some_iff: "rd b i = Some v \<longleftrightarrow> i < length b \<and> v = b ! i"
  by (auto simp: rd_def)

lemma rd_defined [simp, safe_intros]: "i < length b \<Longrightarrow> rd b i = Some (b ! i)"
  by (simp add: rd_def)

lemma rd_undefined [simp]: "length b \<le> i \<Longrightarrow> rd b i = None"
  by (simp add: rd_def)

lemma rd_Cons_0 [simp]: "rd (x # xs) 0 = Some x"
  by (simp add: rd_def)

lemma rd_Cons_Suc [simp]: "rd (x # xs) (Suc i) = rd xs i"
  by (simp add: rd_def)

lemma wr_defined [simp]: "i < length b \<Longrightarrow> wr b i v = Some (b[i := v])"
  by (simp add: wr_def)

lemma wr_undefined [simp]: "length b \<le> i \<Longrightarrow> wr b i v = None"
  by (simp add: wr_def)

lemma wr_length: "wr b i v = Some b' \<Longrightarrow> length b' = length b"
  by (auto simp: wr_def split: if_splits)

lemma wr_range_length: "wr_range b i src = Some b' \<Longrightarrow> length b' = length b"
  by (auto simp: wr_range_def split: if_splits)

lemma wr_range_defined [simp]:
  "i + length src \<le> length b \<Longrightarrow>
   wr_range b i src = Some (take i b @ src @ drop (i + length src) b)"
  by (simp add: wr_range_def)

lemma rd_range_defined [simp]:
  "i + n \<le> length b \<Longrightarrow> rd_range b i n = Some (take n (drop i b))"
  by (simp add: rd_range_def)

section \<open>Characters as bytes\<close>

text \<open>C character constants and string literals as byte values.\<close>

definition chr :: "char \<Rightarrow> u8" where
  "chr c = of_nat (of_char c)"

definition str :: "string \<Rightarrow> bytes" where
  "str s = map chr s"

lemma length_str [simp]: "length (str s) = length s"
  by (simp add: str_def)

lemma unat_chr: "unat (chr c) = of_char c"
proof -
  have "(of_char c :: nat) < 256"
    by (rule nat_of_char_less_256)
  then show ?thesis by (simp add: chr_def unat_of_nat)
qed

lemma chr_inject [simp]: "chr c = chr d \<longleftrightarrow> c = d"
  by (metis unat_chr of_char_eq_iff)

text \<open>Decimal digits: \<open>'0' + d\<close> as a byte.\<close>

definition digit_char :: "nat \<Rightarrow> u8" where
  "digit_char d = 48 + of_nat d"

definition is_digit :: "u8 \<Rightarrow> bool" where
  "is_digit b \<longleftrightarrow> 48 \<le> b \<and> b \<le> 57"

definition digit_val :: "u8 \<Rightarrow> nat" where
  "digit_val b = unat b - 48"

lemma unat_digit_char: "d < 10 \<Longrightarrow> unat (digit_char d) = 48 + d"
  by (simp add: digit_char_def unat_word_ariths unat_of_nat)

lemma is_digit_digit_char [simp]: "d < 10 \<Longrightarrow> is_digit (digit_char d)"
  by (simp add: is_digit_def word_le_nat_alt unat_digit_char)

lemma digit_val_digit_char [simp]: "d < 10 \<Longrightarrow> digit_val (digit_char d) = d"
  by (simp add: digit_val_def unat_digit_char)

lemma is_digit_unat: "is_digit b \<longleftrightarrow> 48 \<le> unat b \<and> unat b \<le> 57"
  by (simp add: is_digit_def word_le_nat_alt)

lemma digit_val_less: "is_digit b \<Longrightarrow> digit_val b < 10"
  by (auto simp: is_digit_unat digit_val_def)

lemma digit_char_digit_val: "is_digit b \<Longrightarrow> digit_char (digit_val b) = b"
  by (rule word_unat_eq_iff [THEN iffD2])
     (simp add: unat_digit_char digit_val_less, auto simp: is_digit_unat digit_val_def)

section \<open>Constants of the public header\<close>

definition LWM2M_MAX_ID :: u16 where "LWM2M_MAX_ID = 0xFFFF"

text \<open>CoAP codes as \<open>uint8_t\<close>.\<close>

definition COAP_NO_ERROR :: u8 where "COAP_NO_ERROR = 0x00"
definition COAP_IGNORE :: u8 where "COAP_IGNORE = 0x01"
definition COAP_RETRANSMISSION :: u8 where "COAP_RETRANSMISSION = 0x02"
definition COAP_201_CREATED :: u8 where "COAP_201_CREATED = 0x41"
definition COAP_202_DELETED :: u8 where "COAP_202_DELETED = 0x42"
definition COAP_204_CHANGED :: u8 where "COAP_204_CHANGED = 0x44"
definition COAP_205_CONTENT :: u8 where "COAP_205_CONTENT = 0x45"
definition COAP_231_CONTINUE :: u8 where "COAP_231_CONTINUE = 0x5F"
definition COAP_400_BAD_REQUEST :: u8 where "COAP_400_BAD_REQUEST = 0x80"
definition COAP_401_UNAUTHORIZED :: u8 where "COAP_401_UNAUTHORIZED = 0x81"
definition COAP_402_BAD_OPTION :: u8 where "COAP_402_BAD_OPTION = 0x82"
definition COAP_404_NOT_FOUND :: u8 where "COAP_404_NOT_FOUND = 0x84"
definition COAP_405_METHOD_NOT_ALLOWED :: u8 where "COAP_405_METHOD_NOT_ALLOWED = 0x85"
definition COAP_406_NOT_ACCEPTABLE :: u8 where "COAP_406_NOT_ACCEPTABLE = 0x86"
definition COAP_408_REQ_ENTITY_INCOMPLETE :: u8 where "COAP_408_REQ_ENTITY_INCOMPLETE = 0x88"
definition COAP_413_ENTITY_TOO_LARGE :: u8 where "COAP_413_ENTITY_TOO_LARGE = 0x8D"
definition COAP_500_INTERNAL_SERVER_ERROR :: u8 where "COAP_500_INTERNAL_SERVER_ERROR = 0xA0"
definition COAP_505_PROXYING_NOT_SUPPORTED :: u8 where "COAP_505_PROXYING_NOT_SUPPORTED = 0xA5"

lemmas coap_codes = COAP_NO_ERROR_def COAP_IGNORE_def COAP_RETRANSMISSION_def
  COAP_201_CREATED_def COAP_202_DELETED_def COAP_204_CHANGED_def COAP_205_CONTENT_def
  COAP_231_CONTINUE_def COAP_400_BAD_REQUEST_def COAP_401_UNAUTHORIZED_def
  COAP_402_BAD_OPTION_def COAP_404_NOT_FOUND_def COAP_405_METHOD_NOT_ALLOWED_def
  COAP_406_NOT_ACCEPTABLE_def COAP_408_REQ_ENTITY_INCOMPLETE_def COAP_413_ENTITY_TOO_LARGE_def
  COAP_500_INTERNAL_SERVER_ERROR_def COAP_505_PROXYING_NOT_SUPPORTED_def

section \<open>Generic lemmas\<close>

lemma guard_c_bind [simp]:
  "Option.bind (guard_c b) f = (if b then f () else None)"
  by (simp add: guard_c_def)

text \<open>Evaluation in the option monad: the continuation is not simplified before its argument.\<close>

lemma bind_weak_cong: "x = y \<Longrightarrow> Option.bind x f = Option.bind y f"
  by simp

lemma take_list_update_ge: "n \<le> i \<Longrightarrow> take n (xs[i := v]) = take n xs"
  by simp

lemma list_update_append_length: "(xs @ y # ys)[length xs := z] = xs @ z # ys"
  by simp

lemma unat_of_nat_small:
  "n < 2 ^ LENGTH('a) \<Longrightarrow> unat (of_nat n :: 'a::len word) = n"
  by (simp add: unat_of_nat)

lemma unat_ucast_up:
  "LENGTH('a) \<le> LENGTH('b) \<Longrightarrow> unat (ucast (w :: 'a::len word) :: 'b::len word) = unat w"
  by (simp add: unsigned_ucast_eq take_bit_nat_eq_self_iff)
     (metis order_less_le_trans power_increasing_iff one_less_numeral_iff semiring_norm(76) unsigned_less)

lemma unat_ucast_down:
  "unat w < 2 ^ LENGTH('b) \<Longrightarrow> unat (ucast (w :: 'a::len word) :: 'b::len word) = unat w"
  by (simp add: unsigned_ucast_eq take_bit_nat_eq_self)

lemma ucast_of_nat_small:
  "n < 2 ^ LENGTH('a) \<Longrightarrow> (ucast (of_nat n :: 'a::len word) :: 'b::len word) = of_nat n"
  by (metis of_nat_unat unat_of_nat_small)

lemma unat_u8_less: "unat (b :: u8) < 256"
  using unsigned_less [of b, where 'a = nat] by simp

lemma unat_u16_less: "unat (w :: u16) < 65536"
  using unsigned_less [of w, where 'a = nat] by simp

lemma unat_u32_less: "unat (w :: u32) < 4294967296"
  using unsigned_less [of w, where 'a = nat] by simp

lemma ucast_ucast_up [simp]:
  "LENGTH('a) \<le> LENGTH('b) \<Longrightarrow> (ucast (ucast (x :: 'a::len word) :: 'b::len word) :: 'a word) = x"
  by (rule bit_word_eqI) (simp add: bit_simps)

section \<open>The contract of the formats\<close>

text \<open>
  What the components rely on in a format (CoAP messages, TLV records, Base64, decimal texts): the
  bytes of a well-formed value are decoded to what a receiver sees of it.
\<close>

locale format =
  fixes ok :: "'m \<Rightarrow> bool" and bytes_of :: "'m \<Rightarrow> bytes" and decode :: "bytes \<Rightarrow> 'r option" and view :: "'m \<Rightarrow> 'r"
  assumes decode_bytes: "ok m \<Longrightarrow> decode (bytes_of m) = Some (view m)"
begin

text \<open>A receiver cannot confuse two values that it would see differently.\<close>

lemma bytes_determine:
  assumes "ok m" and "ok m'" and "bytes_of m = bytes_of m'"
  shows "view m = view m'"
  using decode_bytes [OF assms(1)] decode_bytes [OF assms(2)] assms(3) by simp

end

text \<open>
  A function that writes the format into a buffer of the caller: it returns the number of bytes
  and leaves the size of the buffer alone when there is the space it asks for.
\<close>

locale buffer_format = format +
  fixes space :: "'a \<Rightarrow> nat" and put :: "'a \<Rightarrow> bytes \<Rightarrow> (bytes \<times> nat) c"
  assumes put_bytes: "ok m \<Longrightarrow> space m \<le> length b \<Longrightarrow>
    \<exists>b'. put m b = Some (b', length (bytes_of m)) \<and> length b' = length b \<and> take (length (bytes_of m)) b' = bytes_of m"
begin

lemma write_decode:
  assumes "ok m" and "space m \<le> length b"
  shows "\<exists>b'. put m b = Some (b', length (bytes_of m)) \<and> length b' = length b \<and>
    decode (take (length (bytes_of m)) b') = Some (view m)"
  using put_bytes [OF assms] decode_bytes [OF assms(1)] by auto

end

end
