(* ===== verification/Utils_Text.thy ===== *)
theory Utils_Text
  imports Wakaama_Base
begin

text \<open>
  Conversion between numbers and decimal text, \<^verbatim>\<open>core/utils.c\<close>: \<open>utils_textToInt\<close>,
  \<open>utils_textToUInt\<close>, \<open>utils_textToObjLink\<close>, \<open>utils_intToText\<close>, \<open>utils_uintToText\<close>,
  \<open>utils_objLinkToText\<close>.  A parser takes the bytes \<open>buffer[0..length)\<close> and returns
  \<open>None\<close> where the code returns 0, \<open>Some v\<close> where it stores \<open>v\<close> and returns 1; an
  \<open>int64_t\<close> is the 64-bit word with the same representation.  A printer works in place on
  the buffer \<open>string[0..length)\<close> and returns the buffer and the size.
\<close>

section \<open>Parsing\<close>

text \<open>The digit loop of \<open>utils_textToInt\<close> and \<open>utils_textToUInt\<close>.\<close>

fun text_digits_loop :: "bytes \<Rightarrow> u64 \<Rightarrow> u64 option" where
  "text_digits_loop [] result = Some result"
| "text_digits_loop (b # bs) result =
     (if 48 \<le> b \<and> b \<le> 57
      then if result > 0xFFFFFFFFFFFFFFFF div 10 then None
           else text_digits_loop bs (result * 10 + (ucast b - 48))
      else None)"

definition utils_textToUInt :: "bytes \<Rightarrow> u64 option" where
  "utils_textToUInt buffer = (if buffer = [] then None else text_digits_loop buffer 0)"

definition utils_textToInt :: "bytes \<Rightarrow> u64 option" where
  "utils_textToInt buffer =
     (case buffer of
        [] \<Rightarrow> None
      | b # bs \<Rightarrow>
          let neg = (b = chr CHR ''-'') in
          (case text_digits_loop (if neg then bs else buffer) 0 of
             None \<Rightarrow> None
           | Some result \<Rightarrow>
               if result > 0x7FFFFFFFFFFFFFFF + (if neg then 1 else 0) then None
               else Some (if neg then 0 - result else result)))"

text \<open>The separator search and the two numbers of an object link.\<close>

definition utils_textToObjLink :: "bytes \<Rightarrow> (u16 \<times> u16) option" where
  "utils_textToObjLink buffer =
     (let sep = length (takeWhile (\<lambda>b. b \<noteq> chr CHR '':'') buffer) in
      if sep = 0 \<or> sep = length buffer then None
      else case utils_textToUInt (take sep buffer) of
        None \<Rightarrow> None
      | Some object \<Rightarrow>
          (case utils_textToUInt (drop (sep + 1) buffer) of
             None \<Rightarrow> None
           | Some inst \<Rightarrow>
               if object > ucast LWM2M_MAX_ID \<or> inst > ucast LWM2M_MAX_ID then None
               else Some (ucast object, ucast inst)))"

section \<open>Printing\<close>

text \<open>The \<open>do\<close> loop of \<open>utils_uintToText\<close>: digits are written backwards from \<open>index\<close>; the
  result is the buffer, the index of the first digit and what is left of the number.\<close>

fun uint_digits_loop :: "bytes \<Rightarrow> nat \<Rightarrow> u64 \<Rightarrow> (bytes \<times> nat \<times> u64) c" where
  "uint_digits_loop buf index d =
     do { buf' \<leftarrow> wr buf index (48 + ucast (d mod 10));
          let d' = d div 10;
          if 0 < index \<and> 0 < d' then uint_digits_loop buf' (index - 1) d'
          else Some (buf', index, d') }"

declare uint_digits_loop.simps [simp del]

definition utils_uintToText :: "u64 \<Rightarrow> bytes \<Rightarrow> (bytes \<times> nat) c" where
  "utils_uintToText d string =
     (if length string = 0 then Some (string, 0)
      else do { (b, index, rest) \<leftarrow> uint_digits_loop string (length string - 1) d;
                if rest > 0 then Some (b, 0)
                else let result = length string - index in
                     if result < length string
                     then do { src \<leftarrow> rd_range b index result;
                               b1 \<leftarrow> wr_range b 0 src;
                               b2 \<leftarrow> wr b1 result 0;
                               Some (b2, result) }
                     else Some (b, result) })"

definition int64_min_str :: bytes where
  "int64_min_str = str ''-9223372036854775808''"

definition utils_intToText :: "u64 \<Rightarrow> bytes \<Rightarrow> (bytes \<times> nat) c" where
  "utils_intToText d string =
     (if sint d < 0
      then if length string = 0 then Some (string, 0)
           else do { b \<leftarrow> wr string 0 (chr CHR ''-'');
                     if sint d = INT64_MIN
                     then if length int64_min_str \<ge> length string then Some (b, 0)
                          else do { b1 \<leftarrow> wr_range b 0 int64_min_str;
                                    b2 \<leftarrow> wr b1 (length int64_min_str) 0;
                                    Some (b2, length int64_min_str) }
                     else do { (b1, result) \<leftarrow> on_tail 1 (utils_uintToText (word_of_int \<bar>sint d\<bar>)) b;
                               Some (b1, if result \<noteq> 0 then result + 1 else result) } }
      else utils_uintToText d string)"

definition utils_objLinkToText :: "u16 \<Rightarrow> u16 \<Rightarrow> bytes \<Rightarrow> (bytes \<times> nat) c" where
  "utils_objLinkToText objectId objectInstanceId string =
     do { (b, head) \<leftarrow> utils_uintToText (ucast objectId) string;
          if head = 0 then Some (b, 0)
          else if length string - head < 1 then Some (b, 0)
          else do { b1 \<leftarrow> wr b head (chr CHR '':'');
                    (b2, res) \<leftarrow> on_tail (head + 1) (utils_uintToText (ucast objectInstanceId)) b1;
                    if res = 0 then Some (b2, 0) else Some (b2, head + 1 + res) } }"

section \<open>Decimal notation as a specification\<close>

fun dec_text :: "nat \<Rightarrow> bytes" where
  "dec_text n = (if n < 10 then [digit_char n] else dec_text (n div 10) @ [digit_char (n mod 10)])"

declare dec_text.simps [simp del]

definition dec_val_from :: "nat \<Rightarrow> bytes \<Rightarrow> nat" where
  "dec_val_from r bs = foldl (\<lambda>acc b. acc * 10 + digit_val b) r bs"

abbreviation dec_val :: "bytes \<Rightarrow> nat" where
  "dec_val \<equiv> dec_val_from 0"

lemma dec_val_from_simps [simp]:
  "dec_val_from r [] = r"
  "dec_val_from r (b # bs) = dec_val_from (r * 10 + digit_val b) bs"
  "dec_val_from r (bs @ cs) = dec_val_from (dec_val_from r bs) cs"
  by (simp_all add: dec_val_from_def)

lemma dec_text_digits: "b \<in> set (dec_text n) \<Longrightarrow> is_digit b"
  by (induction n rule: dec_text.induct) (subst (asm) dec_text.simps, auto split: if_splits)

lemma dec_text_not_Nil [simp]: "dec_text n \<noteq> []"
  by (subst dec_text.simps) simp

lemma dec_val_dec_text [simp]: "dec_val (dec_text n) = n"
proof (induction n rule: dec_text.induct)
  case (1 n)
  then show ?case by (subst dec_text.simps) auto
qed

lemma dec_val_from_ge: "r \<le> dec_val_from r bs"
proof (induction bs arbitrary: r)
  case (Cons b bs)
  have "r \<le> r * 10 + digit_val b" by simp
  also have "\<dots> \<le> dec_val_from (r * 10 + digit_val b) bs" by (rule Cons.IH)
  finally show ?case by simp
qed simp

lemma dec_text_length_less: "n < 10 ^ k \<Longrightarrow> 0 < k \<Longrightarrow> length (dec_text n) \<le> k"
proof (induction n arbitrary: k rule: dec_text.induct)
  case (1 n)
  show ?case
  proof (cases "n < 10")
    case True
    with 1 show ?thesis by (subst dec_text.simps) auto
  next
    case False
    then obtain j where k: "k = Suc j" "0 < j"
      using "1.prems" by (cases k; cases "k - 1") auto
    have "n div 10 < 10 ^ j" using "1.prems" k by (simp add: less_mult_imp_div_less mult.commute)
    with "1.IH" False k show ?thesis by (subst dec_text.simps) simp
  qed
qed

section \<open>What the parsers compute\<close>

lemma digit_test: "48 \<le> b \<and> b \<le> 57 \<longleftrightarrow> is_digit b" for b :: u8
  by (simp add: is_digit_def)

lemma digit_ucast: "is_digit b \<Longrightarrow> (ucast b - 48 :: u64) = of_nat (digit_val b)"
  by (auto simp: is_digit_unat digit_val_def word_unat_eq_iff unat_sub word_le_nat_alt unat_of_nat
        unat_ucast_up)

lemma text_digits_loop_Some:
  "text_digits_loop bs r = Some v \<Longrightarrow>
   (\<forall>b\<in>set bs. is_digit b) \<and> v = of_nat (dec_val_from (unat r) bs)"
proof (induction bs arbitrary: r)
  case (Cons b bs)
  from Cons.prems have d: "is_digit b" and
    rec: "text_digits_loop bs (r * 10 + (ucast b - 48)) = Some v"
    by (auto simp: digit_test split: if_splits)
  let ?r' = "r * 10 + (ucast b - 48)"
  have "(of_nat (dec_val_from (unat ?r') bs) :: u64) = of_nat (dec_val_from (unat r * 10 + digit_val b) bs)"
  proof -
    have "(of_nat (unat ?r') :: u64) = of_nat (unat r * 10 + digit_val b)"
      using d by (simp add: digit_ucast)
    then have "(of_nat (dec_val_from k bs) :: u64) = of_nat (dec_val_from l bs)"
      if "(of_nat k :: u64) = of_nat l" for k l
      using that by (induction bs arbitrary: k l) (auto simp: dec_val_from_def)
    then show ?thesis using \<open>(of_nat (unat ?r') :: u64) = of_nat (unat r * 10 + digit_val b)\<close> by blast
  qed
  with Cons.IH [OF rec] d show ?case by simp
qed simp

lemma text_digits_loop_exact:
  "(\<forall>b\<in>set bs. is_digit b) \<Longrightarrow> dec_val_from (unat r) bs < 2 ^ 64 \<Longrightarrow>
   text_digits_loop bs r = Some (of_nat (dec_val_from (unat r) bs))"
proof (induction bs arbitrary: r)
  case (Cons b bs)
  then have d: "is_digit b" by simp
  have le: "unat r * 10 + digit_val b < 2 ^ 64"
    using Cons.prems(2) dec_val_from_ge [of "unat r * 10 + digit_val b" bs] by simp
  let ?r' = "r * 10 + (ucast b - 48)"
  have un: "unat ?r' = unat r * 10 + digit_val b"
  proof -
    have "?r' = of_nat (unat r * 10 + digit_val b)" using d by (simp add: digit_ucast)
    moreover have "unat (of_nat (unat r * 10 + digit_val b) :: u64) = unat r * 10 + digit_val b"
      using le by (intro unat_of_nat_small) simp
    ultimately show ?thesis by (simp only:)
  qed
  have "\<not> r > 0xFFFFFFFFFFFFFFFF div 10"
    using le by (simp add: word_less_nat_alt unat_div)
  moreover have "text_digits_loop bs ?r' = Some (of_nat (dec_val_from (unat ?r') bs))"
    using Cons.prems un by (intro Cons.IH) auto
  ultimately show ?case using d un by (simp add: digit_test)
qed simp

lemma utils_textToUInt_exact:
  assumes "bs \<noteq> []" and "\<forall>b\<in>set bs. is_digit b" and "dec_val bs < 2 ^ 64"
  shows "utils_textToUInt bs = Some (of_nat (dec_val bs))"
  using assms text_digits_loop_exact [of bs 0] by (simp add: utils_textToUInt_def)

lemma utils_textToUInt_dec_text:
  "n < 2 ^ 64 \<Longrightarrow> utils_textToUInt (dec_text n) = Some (of_nat n)"
  using utils_textToUInt_exact [of "dec_text n"] dec_text_digits by auto

section \<open>What the printers write\<close>

lemma dec_text_unat_step:
  "dec_text (unat d) = (if unat d < 10 then [] else dec_text (unat (d div 10))) @ [48 + ucast (d mod 10)]"
  for d :: u64
proof -
  have "(ucast (d mod 10) :: u8) = of_nat (unat d mod 10)"
    using of_nat_unat [of "d mod 10", where ?'a = "8 word", symmetric] by (simp only: unat_mod) simp
  then have "(48 + ucast (d mod 10) :: u8) = digit_char (unat d mod 10)"
    by (simp add: digit_char_def)
  then show ?thesis by (subst dec_text.simps) (auto simp: unat_div)
qed

text \<open>The loop writes the decimal digits right-aligned at \<open>index\<close> when they fit and reports
  a remainder when they do not; it never leaves the buffer.\<close>

lemma uint_digits_loop_fits:
  "index < length buf \<Longrightarrow> length (dec_text (unat d)) \<le> index + 1 \<Longrightarrow>
   uint_digits_loop buf index d =
     Some (take (index + 1 - length (dec_text (unat d))) buf @ dec_text (unat d) @ drop (index + 1) buf,
           index + 1 - length (dec_text (unat d)), 0)"
proof (induction buf index d rule: uint_digits_loop.induct)
  case (1 buf index d)
  let ?c = "48 + ucast (d mod 10) :: u8" and ?b = "buf[index := 48 + ucast (d mod 10)]"
  show ?case
  proof (cases "unat d < 10")
    case True
    then have "d div 10 = 0" by (simp add: word_unat_eq_iff unat_div)
    moreover have "take index buf @ ?c # drop (Suc index) buf = ?b"
      using "1.prems"(1) by (simp add: upd_conv_take_nth_drop)
    ultimately show ?thesis
      using "1.prems" True by (subst uint_digits_loop.simps) (simp add: dec_text_unat_step [of d])
  next
    case False
    then have pos: "0 < d div 10" by (simp add: word_less_nat_alt unat_div)
    let ?k = "length (dec_text (unat (d div 10)))"
    have len: "length (dec_text (unat d)) = ?k + 1"
      using False by (simp add: dec_text_unat_step [of d])
    have k: "?k \<le> index" "0 < ?k" using "1.prems"(2) len by auto
    have IH: "uint_digits_loop ?b (index - 1) (d div 10) =
      Some (take (index - ?k) ?b @ dec_text (unat (d div 10)) @ drop index ?b, index - ?k, 0)"
      using "1.IH" [of ?b] "1.prems"(1) k pos by simp
    have "drop index ?b = ?c # drop (Suc index) buf"
      using "1.prems"(1) by (simp add: drop_update_swap Cons_nth_drop_Suc [symmetric])
    then show ?thesis
      using "1.prems" IH False pos k len
      by (subst uint_digits_loop.simps) (auto simp: dec_text_unat_step [of d] Let_def)
  qed
qed

lemma uint_digits_loop_too_long:
  "index < length buf \<Longrightarrow> index + 1 < length (dec_text (unat d)) \<Longrightarrow>
   \<exists>b rest. uint_digits_loop buf index d = Some (b, 0, rest) \<and> 0 < rest \<and> length b = length buf"
proof (induction buf index d rule: uint_digits_loop.induct)
  case (1 buf index d)
  have ge: "\<not> unat d < 10" using "1.prems"(2) by (auto simp: dec_text_unat_step [of d])
  then have pos: "0 < d div 10" by (simp add: word_less_nat_alt unat_div)
  have "length (dec_text (unat d)) = length (dec_text (unat (d div 10))) + 1"
    using ge by (simp add: dec_text_unat_step [of d])
  then show ?case
    using "1.IH" [of "buf[index := 48 + ucast (d mod 10)]"] "1.prems" pos
    by (cases index) (subst uint_digits_loop.simps, simp)+
qed

text \<open>\<open>utils_uintToText\<close> on a buffer of any size.\<close>

lemma utils_uintToText_spec:
  "\<exists>b r. utils_uintToText d string = Some (b, r) \<and> length b = length string \<and>
     (if length (dec_text (unat d)) \<le> length string
      then r = length (dec_text (unat d)) \<and> take r b = dec_text (unat d) else r = 0)"
proof (cases "length string")
  case 0
  then show ?thesis by (simp add: utils_uintToText_def)
next
  case (Suc n)
  let ?t = "dec_text (unat d)"
  show ?thesis
  proof (cases "length ?t \<le> length string")
    case True
    let ?i = "length string - length ?t"
    have loop: "uint_digits_loop string n d = Some (take ?i string @ ?t, ?i, 0)"
      using uint_digits_loop_fits [of n string d] Suc True by simp
    show ?thesis
    proof (cases "length ?t < length string")
      case True
      let ?b1 = "?t @ drop (length ?t) (take ?i string @ ?t)"
      have "utils_uintToText d string = Some (?b1[length ?t := 0], length ?t)"
        using loop Suc True by (simp add: utils_uintToText_def Let_def)
      then show ?thesis using True Suc by (simp add: list_update_append1)
    next
      case False
      with True have "length ?t = length string" by simp
      then show ?thesis using loop Suc by (simp add: utils_uintToText_def)
    qed
  next
    case False
    then obtain b rest where "uint_digits_loop string n d = Some (b, 0, rest)" "0 < rest"
      "length b = length string"
      using uint_digits_loop_too_long [of n string d] Suc by auto
    then show ?thesis using Suc False by (simp add: utils_uintToText_def)
  qed
qed

lemma utils_uintToText_fits:
  "length (dec_text (unat d)) \<le> length string \<Longrightarrow>
   \<exists>b. utils_uintToText d string = Some (b, length (dec_text (unat d))) \<and>
     length b = length string \<and> take (length (dec_text (unat d))) b = dec_text (unat d)"
  using utils_uintToText_spec [of d string] by auto

text \<open>\<open>utils_intToText\<close>: the text of a signed number.\<close>

definition int_text :: "int \<Rightarrow> bytes" where
  "int_text i = (if i < 0 then chr CHR ''-'' # dec_text (nat (- i)) else dec_text (nat i))"

lemma on_tail_eq:
  "f (drop i b) = Some (t, r) \<Longrightarrow> i \<le> length b \<Longrightarrow> on_tail i f b = Some (take i b @ t, r)"
  by (simp add: on_tail_def)

lemma int_text_INT64_MIN: "int_text INT64_MIN = int64_min_str"
  by (simp add: int_text_def int64_min_str_def str_def INT64_MIN_def chr_def digit_char_def dec_text.simps)

lemma sint_u64_range: "- (2 ^ 63) \<le> sint d" "sint d < 2 ^ 63" for d :: u64
  using sint_ge [of d] sint_lt [of d] by simp_all

lemma unat_word_of_int_small:
  "0 \<le> k \<Longrightarrow> k < 2 ^ 64 \<Longrightarrow> unat (word_of_int k :: u64) = nat k"
  by (simp only: unat_eq_nat_uint uint_word_of_int) simp

lemma sint_nonneg_unat: "0 \<le> sint d \<Longrightarrow> unat d = nat (sint d)" for d :: u64
  using unat_word_of_int_small [of "sint d"] sint_u64_range(2) [of d] by simp

lemma unat_abs_sint:
  "sint d < 0 \<Longrightarrow> unat (word_of_int \<bar>sint d\<bar> :: u64) = nat (- sint d)" for d :: u64
  using unat_word_of_int_small [of "- sint d"] sint_u64_range(1) [of d] by (simp only: abs_of_neg) simp

text \<open>For every \<open>int64_t\<close> (the minimum included) and every buffer size: the text when it
  fits (the minimum needs one byte more, for the terminator), 0 otherwise.\<close>

lemma utils_intToText_spec:
  "\<exists>b r. utils_intToText d string = Some (b, r) \<and> length b = length string \<and>
     (if length (int_text (sint d)) + (if sint d = INT64_MIN then 1 else 0) \<le> length string
      then r = length (int_text (sint d)) \<and> take r b = int_text (sint d) else r = 0)"
proof (cases "sint d < 0")
  case False
  then have "unat d = nat (sint d)" and "sint d \<noteq> INT64_MIN"
    by (simp_all add: sint_nonneg_unat INT64_MIN_def)
  moreover obtain b r where "utils_uintToText d string = Some (b, r)" "length b = length string"
    "if length (dec_text (unat d)) \<le> length string
     then r = length (dec_text (unat d)) \<and> take r b = dec_text (unat d) else r = 0"
    using utils_uintToText_spec [of d string] by blast
  ultimately show ?thesis
    using False by (auto simp: utils_intToText_def int_text_def split: if_splits)
next
  case neg: True
  show ?thesis
  proof (cases string)
    case Nil
    then show ?thesis using neg by (simp add: utils_intToText_def int_text_def)
  next
    case (Cons c cs)
    show ?thesis
    proof (cases "sint d = INT64_MIN")
      case True
      have len: "length int64_min_str = 20" by (simp add: int64_min_str_def)
      show ?thesis
        using True neg Cons int_text_INT64_MIN len by (simp add: utils_intToText_def)
    next
      case False
      obtain b r where u: "utils_uintToText (word_of_int \<bar>sint d\<bar>) cs = Some (b, r)"
        "length b = length cs"
        "if length (dec_text (nat (- sint d))) \<le> length cs
         then r = length (dec_text (nat (- sint d))) \<and> take r b = dec_text (nat (- sint d)) else r = 0"
        using utils_uintToText_spec [of "word_of_int \<bar>sint d\<bar>" cs, unfolded unat_abs_sint [OF neg]]
        by blast
      have "on_tail 1 (utils_uintToText (word_of_int \<bar>sint d\<bar>)) (chr CHR ''-'' # cs)
          = Some (chr CHR ''-'' # b, r)"
        using u(1) on_tail_eq [of "utils_uintToText (word_of_int \<bar>sint d\<bar>)" 1 "chr CHR ''-'' # cs" b r]
        by simp
      then show ?thesis
        using Cons neg False u(2,3) by (auto simp: utils_intToText_def int_text_def split: if_splits)
    qed
  qed
qed

lemma utils_textToInt_int_text:
  assumes "INT64_MIN \<le> i" and "i \<le> INT64_MAX"
  shows "utils_textToInt (int_text i) = Some (word_of_int i)"
proof (cases "i < 0")
  case True
  let ?n = "nat (- i)"
  have n: "?n \<le> 2 ^ 63" using assms by (simp add: INT64_MIN_def)
  have loop: "text_digits_loop (dec_text ?n) 0 = Some (of_nat ?n)"
    using text_digits_loop_exact [of "dec_text ?n" 0] dec_text_digits n by auto
  have "\<not> (of_nat ?n :: u64) > 0x7FFFFFFFFFFFFFFF + 1"
    using n unat_of_nat_small [where 'a = 64, of ?n] by (simp add: word_less_nat_alt)
  moreover have "0 - of_nat ?n = (word_of_int i :: u64)"
    using True by (simp add: of_nat_nat)
  ultimately show ?thesis
    using True loop by (simp add: utils_textToInt_def int_text_def)
next
  case False
  let ?n = "nat i"
  have n: "?n < 2 ^ 63" using assms False by (simp add: INT64_MAX_def)
  have loop: "text_digits_loop (dec_text ?n) 0 = Some (of_nat ?n)"
    using text_digits_loop_exact [of "dec_text ?n" 0] dec_text_digits n by auto
  obtain b bs where t: "dec_text ?n = b # bs" by (cases "dec_text ?n") auto
  then have "is_digit b" using dec_text_digits [of b ?n] by simp
  then have b: "b \<noteq> chr CHR ''-''" by (auto simp: is_digit_unat unat_chr)
  have "\<not> (of_nat ?n :: u64) > 0x7FFFFFFFFFFFFFFF"
    using n unat_of_nat_small [where 'a = 64, of ?n] by (simp add: word_less_nat_alt)
  then show ?thesis
    using False loop b by (simp add: utils_textToInt_def int_text_def t [symmetric] split: list.split)
      (simp add: t of_nat_nat)
qed

lemma utils_textToObjLink_text:
  fixes a b :: u16
  shows "utils_textToObjLink (dec_text (unat a) @ chr CHR '':'' # dec_text (unat b)) = Some (a, b)"
proof -
  have nc: "c \<noteq> chr CHR '':''" if "is_digit c" for c
    using that by (auto simp: is_digit_unat unat_chr)
  have tw: "takeWhile (\<lambda>c. c \<noteq> chr CHR '':'') (dec_text (unat a) @ chr CHR '':'' # dec_text (unat b))
      = dec_text (unat a)"
    using dec_text_digits nc by (subst takeWhile_append2) auto
  have parse: "utils_textToUInt (dec_text (unat x)) = Some (ucast x)" for x :: u16
  proof -
    have "unat x < 2 ^ 64" by (rule order_less_trans [OF unsigned_less]) simp
    then show ?thesis using utils_textToUInt_dec_text [of "unat x"] by simp
  qed
  have small: "\<not> (ucast x :: u64) > ucast LWM2M_MAX_ID" for x :: u16
    using unat_u16_less [of x] by (simp add: word_less_nat_alt unat_ucast_up LWM2M_MAX_ID_def)
  have bk: "(ucast (ucast x :: u64) :: u16) = x" for x :: u16
    by simp
  show ?thesis
    by (simp add: utils_textToObjLink_def tw parse small bk)
qed

section \<open>Properties\<close>

lemma int_text_length: "length (int_text (sint (d :: u64))) \<le> 20" "int_text (sint (d :: u64)) \<noteq> []"
proof -
  have "nat \<bar>sint d\<bar> < 10 ^ 19" using sint_u64_range [of d] by simp
  then have "length (dec_text (nat \<bar>sint d\<bar>)) \<le> 19" by (intro dec_text_length_less) auto
  then show "length (int_text (sint d)) \<le> 20" by (cases "sint d < 0") (simp_all add: int_text_def)
  show "int_text (sint d) \<noteq> []" by (simp add: int_text_def)
qed

text \<open>The decimal texts of \<open>int64_t\<close> values are a format.\<close>

interpretation int_format: buffer_format "\<lambda>d :: u64. True" "\<lambda>d. int_text (sint d)" utils_textToInt "\<lambda>d. d" "\<lambda>d. 21" utils_intToText
proof (unfold_locales, goal_cases)
  case (1 d)
  show ?case
    using utils_textToInt_int_text [of "sint d"] sint_u64_range [of d] by (simp add: INT64_MIN_def INT64_MAX_def)
next
  case (2 d b)
  then show ?case using utils_intToText_spec [of d b] int_text_length(1) [of d] by (auto split: if_splits)
qed

text \<open>C18: Printing any \<open>int64_t\<close> with \<open>utils_intToText\<close> into a buffer of at least 21 bytes
  never writes outside the buffer, and \<open>utils_textToInt\<close> reads the printed text back as the
  same number.\<close>

theorem int_text_roundtrip:
  assumes "21 \<le> length string"
  shows "\<exists>b r. utils_intToText d string = Some (b, r) \<and> length b = length string \<and>
    0 < r \<and> utils_textToInt (take r b) = Some d"
  using int_format.write_decode [of string d] int_text_length(2) [of d] assms by auto

theorem int_text_roundtrip_witness:
  "\<exists>b r. utils_intToText (word_of_int (- 42)) (replicate 21 0) = Some (b, r) \<and>
    length b = length (replicate 21 (0 :: u8)) \<and> 0 < r \<and>
    utils_textToInt (take r b) = Some (word_of_int (- 42))"
  by (rule int_text_roundtrip) simp

text \<open>\<open>utils_uintToText\<close> never writes outside its buffer, whatever its size; it writes the
  decimal digits and returns their number when they fit and returns 0 when they do not.\<close>

theorem utils_uintToText_total:
  "\<exists>b r. utils_uintToText d string = Some (b, r) \<and> length b = length string \<and>
     (if length (dec_text (unat d)) \<le> length string
      then r = length (dec_text (unat d)) \<and> take r b = dec_text (unat d) else r = 0)"
  by (rule utils_uintToText_spec)

text \<open>A text that denotes a number below \<open>2^64\<close> is parsed exactly by
  \<open>utils_textToUInt\<close>, and whatever is accepted consists of digits only and is the denoted
  number modulo \<open>2^64\<close>.\<close>

theorem utils_textToUInt_correct:
  "(bs \<noteq> [] \<and> (\<forall>b\<in>set bs. is_digit b) \<and> dec_val bs < 2 ^ 64
      \<longrightarrow> utils_textToUInt bs = Some (of_nat (dec_val bs))) \<and>
   (utils_textToUInt bs = Some v
      \<longrightarrow> bs \<noteq> [] \<and> (\<forall>b\<in>set bs. is_digit b) \<and> unat v = dec_val bs mod 2 ^ 64)"
proof -
  have m: "unat (of_nat (dec_val bs) :: u64) = dec_val bs mod 2 ^ 64"
    using unat_of_nat [of "dec_val bs", where 'a = 64] by simp
  have "bs \<noteq> [] \<and> (\<forall>b\<in>set bs. is_digit b) \<and> unat v = dec_val bs mod 2 ^ 64"
    if "utils_textToUInt bs = Some v"
  proof -
    have "bs \<noteq> []" and l: "text_digits_loop bs 0 = Some v"
      using that by (auto simp: utils_textToUInt_def split: if_splits)
    then show ?thesis using text_digits_loop_Some [OF l] m by simp
  qed
  then show ?thesis using utils_textToUInt_exact [of bs] by blast
qed

theorem utils_textToUInt_correct_witness:
  "utils_textToUInt (str ''12'') = Some 12 \<and> unat (12 :: u64) = dec_val (str ''12'') mod 2 ^ 64"
  using utils_textToUInt_correct [of "str ''12''" 12]
  by (simp add: str_def chr_def is_digit_def digit_val_def)

text \<open>The overflow test of the digit loop compares with \<open>UINT64_MAX / 10\<close> before the
  digit is added, so the texts 18446744073709551616 to 18446744073709551619 (which denote
  numbers above \<open>UINT64_MAX\<close>) are accepted and wrap to 0 to 3, by both parsers.\<close>

theorem text_overflow_accepted:
  "map utils_textToUInt [str ''18446744073709551615'', str ''18446744073709551616'',
     str ''18446744073709551619'', str ''18446744073709551620'']
     = [Some 0xFFFFFFFFFFFFFFFF, Some 0, Some 3, None] \<and>
   map utils_textToInt [str ''9223372036854775807'', str ''9223372036854775808'',
     str ''18446744073709551617'', str ''-18446744073709551617'']
     = [Some 0x7FFFFFFFFFFFFFFF, None, Some 1, Some (- 1)]"
  by code_simp

text \<open>An object link printed by \<open>utils_objLinkToText\<close> into a buffer of at least 12 bytes
  is written inside the buffer and read back by \<open>utils_textToObjLink\<close> as the same pair of
  identifiers, 65535 included.\<close>

theorem objlink_text_roundtrip:
  assumes "12 \<le> length string"
  shows "\<exists>b r. utils_objLinkToText oid iid string = Some (b, r) \<and> length b = length string \<and>
    utils_textToObjLink (take r b) = Some (oid, iid)"
proof -
  let ?t = "dec_text (unat oid)" and ?u = "dec_text (unat iid)"
  have len: "length (dec_text (unat x)) \<le> 5" for x :: u16
    using unat_u16_less [of x] by (intro dec_text_length_less) simp_all
  have un: "unat (ucast x :: u64) = unat x" for x :: u16
    by (simp add: unat_ucast_up)
  obtain b where b: "utils_uintToText (ucast oid) string = Some (b, length ?t)"
    "length b = length string" "take (length ?t) b = ?t"
    using utils_uintToText_fits [of "ucast oid" string, unfolded un] len [of oid] assms by auto
  let ?b1 = "b[length ?t := chr CHR '':'']"
  have "length ?u \<le> length (drop (length ?t + 1) ?b1)"
    using len [of oid] len [of iid] assms b(2) by simp
  then obtain c where c: "utils_uintToText (ucast iid) (drop (length ?t + 1) ?b1) = Some (c, length ?u)"
    "length c = length (drop (length ?t + 1) ?b1)" "take (length ?u) c = ?u"
    using utils_uintToText_fits [of "ucast iid" "drop (length ?t + 1) ?b1", unfolded un] by blast
  have room: "length ?t + 1 \<le> length string" using len [of oid] assms by simp
  have "take (length ?t + 1) ?b1 = ?t @ [chr CHR '':'']"
    using b(2,3) room by (simp add: take_Suc_conv_app_nth)
  then have "utils_objLinkToText oid iid string = Some (?t @ chr CHR '':'' # c, length ?t + 1 + length ?u)"
    using b c(1) room
      on_tail_eq [of "utils_uintToText (ucast iid)" "length ?t + 1" ?b1 c "length ?u"]
    by (simp add: utils_objLinkToText_def)
  moreover have "take (length ?t + 1 + length ?u) (?t @ chr CHR '':'' # c) = ?t @ chr CHR '':'' # ?u"
    using c(3) by simp
  ultimately show ?thesis
    using utils_textToObjLink_text [of oid iid] c(2) b(2) room by simp
qed

theorem objlink_text_roundtrip_witness:
  "\<exists>b r. utils_objLinkToText 65535 7 (replicate 12 0) = Some (b, r) \<and>
    length b = length (replicate 12 (0 :: u8)) \<and> utils_textToObjLink (take r b) = Some (65535, 7)"
  by (rule objlink_text_roundtrip) simp

end
