(* ===== verification/Uri.thy ===== *)
theory Uri
  imports Utils_Text
begin

text \<open>
  LwM2M paths, \<^verbatim>\<open>core/uri.c\<close>: \<open>prv_parseNumber\<close>, \<open>uri_getNumber\<close>, \<open>uri_decode\<close> (from the
  Uri-Path options of a request), \<open>lwm2m_stringToUri\<close>, \<open>lwm2m_uriToString\<close> and
  \<open>uri_logging_to_string\<close>, for LwM2M 1.1 (four levels).  A segment of a path option is its
  bytes (\<open>data[0..len)\<close>); a read behind them is undefined, as is the overflow of the \<open>int\<close>
  accumulator.
\<close>

section \<open>Data\<close>

record lwm2m_uri_t =
  objectId :: u16
  instanceId :: u16
  resourceId :: u16
  resourceInstanceId :: u16

datatype uri_depth_t = URI_DEPTH_NONE | URI_DEPTH_OBJECT | URI_DEPTH_OBJECT_INSTANCE
  | URI_DEPTH_RESOURCE | URI_DEPTH_RESOURCE_INSTANCE

datatype lwm2m_request_type_t = LWM2M_REQUEST_TYPE_UNKNOWN | LWM2M_REQUEST_TYPE_DM
  | LWM2M_REQUEST_TYPE_REGISTRATION | LWM2M_REQUEST_TYPE_BOOTSTRAP
  | LWM2M_REQUEST_TYPE_DELETE_ALL | LWM2M_REQUEST_TYPE_SEND

definition LWM2M_URI_RESET :: lwm2m_uri_t where
  "LWM2M_URI_RESET = \<lparr>objectId = 0xFFFF, instanceId = 0xFFFF, resourceId = 0xFFFF,
     resourceInstanceId = 0xFFFF\<rparr>"

definition LWM2M_URI_IS_SET_OBJECT :: "lwm2m_uri_t \<Rightarrow> bool" where
  "LWM2M_URI_IS_SET_OBJECT u \<longleftrightarrow> objectId u \<noteq> LWM2M_MAX_ID"

definition LWM2M_URI_IS_SET_INSTANCE :: "lwm2m_uri_t \<Rightarrow> bool" where
  "LWM2M_URI_IS_SET_INSTANCE u \<longleftrightarrow> instanceId u \<noteq> LWM2M_MAX_ID"

definition LWM2M_URI_IS_SET_RESOURCE :: "lwm2m_uri_t \<Rightarrow> bool" where
  "LWM2M_URI_IS_SET_RESOURCE u \<longleftrightarrow> resourceId u \<noteq> LWM2M_MAX_ID"

definition LWM2M_URI_IS_SET_RESOURCE_INSTANCE :: "lwm2m_uri_t \<Rightarrow> bool" where
  "LWM2M_URI_IS_SET_RESOURCE_INSTANCE u \<longleftrightarrow> resourceInstanceId u \<noteq> LWM2M_MAX_ID"

lemmas uri_set_defs = LWM2M_URI_IS_SET_OBJECT_def LWM2M_URI_IS_SET_INSTANCE_def
  LWM2M_URI_IS_SET_RESOURCE_def LWM2M_URI_IS_SET_RESOURCE_INSTANCE_def

section \<open>Numbers in a path\<close>

text \<open>The loop of \<open>prv_parseNumber\<close>; \<open>result\<close> is a C \<open>int\<close>.\<close>

function parse_number_loop :: "bytes \<Rightarrow> nat \<Rightarrow> nat \<Rightarrow> int \<Rightarrow> (int \<times> nat) c" where
  "parse_number_loop s uriLength head result =
     (if head < uriLength
      then do { b \<leftarrow> rd s head;
                if b \<noteq> chr CHR ''/''
                then if 48 \<le> b \<and> b \<le> 57
                     then do { r1 \<leftarrow> int_c (result * 10);
                               r2 \<leftarrow> int_c (r1 + (int (unat b) - 48));
                               parse_number_loop s uriLength (head + 1) r2 }
                     else Some (- 1, head)
                else Some (result, head) }
      else Some (result, head))"
  by pat_completeness auto
termination by (relation "measure (\<lambda>(s, n, h, r). n - h)") auto

declare parse_number_loop.simps [simp del]

definition prv_parseNumber :: "bytes \<Rightarrow> nat \<Rightarrow> nat \<Rightarrow> (int \<times> nat) c" where
  "prv_parseNumber uriString uriLength head =
     do { b \<leftarrow> rd uriString head;
          if b = chr CHR ''/'' then Some (- 1, head)
          else parse_number_loop uriString uriLength head 0 }"

definition uri_getNumber :: "bytes \<Rightarrow> int c" where
  "uri_getNumber seg = do { (n, _) \<leftarrow> prv_parseNumber seg (length seg) 0; Some n }"

section \<open>Decoding the Uri-Path options\<close>

text \<open>Reading one identifier: \<open>None\<close> inside is the \<open>goto error\<close> of the code.\<close>

definition uri_read_id :: "bytes \<Rightarrow> u16 option c" where
  "uri_read_id seg = do { readNum \<leftarrow> uri_getNumber seg;
     Some (if readNum < 0 \<or> readNum \<ge> int (unat LWM2M_MAX_ID) then None else Some (of_int readNum)) }"

definition uri_error :: "(lwm2m_request_type_t \<times> lwm2m_uri_t) c" where
  "uri_error = Some (LWM2M_REQUEST_TYPE_UNKNOWN, LWM2M_URI_RESET)"

text \<open>The resource instance level.\<close>

definition uri_decode_ri :: "lwm2m_request_type_t \<Rightarrow> lwm2m_uri_t \<Rightarrow> bytes list \<Rightarrow>
    (lwm2m_request_type_t \<times> lwm2m_uri_t) c" where
  "uri_decode_ri rt u path =
     (case path of
        [] \<Rightarrow> Some (rt, u)
      | seg # rest \<Rightarrow>
          if length seg \<noteq> 0
          then if \<not> LWM2M_URI_IS_SET_RESOURCE u then uri_error
               else do { n \<leftarrow> uri_read_id seg;
                         (case n of None \<Rightarrow> uri_error
                          | Some i \<Rightarrow> if rest = [] then Some (rt, u\<lparr>resourceInstanceId := i\<rparr>) else uri_error) }
          else if rest = [] then Some (rt, u) else uri_error)"

text \<open>The resource level.\<close>

definition uri_decode_res :: "lwm2m_request_type_t \<Rightarrow> lwm2m_uri_t \<Rightarrow> bytes list \<Rightarrow>
    (lwm2m_request_type_t \<times> lwm2m_uri_t) c" where
  "uri_decode_res rt u path =
     (case path of
        [] \<Rightarrow> Some (rt, u)
      | seg # rest \<Rightarrow>
          if length seg \<noteq> 0
          then if \<not> LWM2M_URI_IS_SET_INSTANCE u then uri_error
               else do { n \<leftarrow> uri_read_id seg;
                         (case n of None \<Rightarrow> uri_error
                          | Some i \<Rightarrow> uri_decode_ri rt (u\<lparr>resourceId := i\<rparr>) rest) }
          else uri_decode_ri rt u rest)"

text \<open>The object and instance levels; \<open>path\<close> is not empty here.\<close>

definition uri_decode_ids :: "lwm2m_request_type_t \<Rightarrow> bytes \<Rightarrow> bytes list \<Rightarrow>
    (lwm2m_request_type_t \<times> lwm2m_uri_t) c" where
  "uri_decode_ids rt seg path =
     do { n \<leftarrow> uri_read_id seg;
          (case n of
             None \<Rightarrow> uri_error
           | Some oid \<Rightarrow>
               let u = LWM2M_URI_RESET\<lparr>objectId := oid\<rparr> in
               if rt = LWM2M_REQUEST_TYPE_REGISTRATION
               then if path \<noteq> [] then uri_error else Some (rt, u)
               else (case path of
                       [] \<Rightarrow> Some (rt, u)
                     | iseg # rest \<Rightarrow>
                         if length iseg \<noteq> 0
                         then do { m \<leftarrow> uri_read_id iseg;
                                   (case m of None \<Rightarrow> uri_error
                                    | Some i \<Rightarrow> uri_decode_res rt (u\<lparr>instanceId := i\<rparr>) rest) }
                         else uri_decode_res rt u rest)) }"

text \<open>The comparison of the first segment with the alternative path: \<open>altPath\<close> is the C
  string with its terminating zero, and only \<open>len\<close> bytes are compared.\<close>

fun alt_path_match :: "bytes \<Rightarrow> bytes \<Rightarrow> nat \<Rightarrow> bool c" where
  "alt_path_match altPath [] i = Some True"
| "alt_path_match altPath (d # ds) i =
     do { a \<leftarrow> rd altPath (i + 1);
          if d \<noteq> a then Some False else alt_path_match altPath ds (i + 1) }"

definition COAP_DELETE :: u8 where "COAP_DELETE = 4"

definition uri_decode :: "bytes option \<Rightarrow> bytes list \<Rightarrow> u8 \<Rightarrow> (lwm2m_request_type_t \<times> lwm2m_uri_t) c" where
  "uri_decode altPath uriPath code =
     (let after_alt = (\<lambda>path. case path of
              [] \<Rightarrow> Some (if code = COAP_DELETE then LWM2M_REQUEST_TYPE_DELETE_ALL
                           else LWM2M_REQUEST_TYPE_DM, LWM2M_URI_RESET)
            | seg # rest \<Rightarrow>
                if length seg = 0
                then Some (if code = COAP_DELETE then LWM2M_REQUEST_TYPE_DELETE_ALL
                           else LWM2M_REQUEST_TYPE_DM, LWM2M_URI_RESET)
                else uri_decode_ids LWM2M_REQUEST_TYPE_DM seg rest);
          dm = (case altPath of
              None \<Rightarrow> after_alt uriPath
            | Some ap \<Rightarrow>
                (case uriPath of
                   [] \<Rightarrow> Some (LWM2M_REQUEST_TYPE_UNKNOWN, LWM2M_URI_RESET)
                 | seg # rest \<Rightarrow>
                     do { ok \<leftarrow> alt_path_match ap seg 0;
                          if ok then after_alt rest
                          else Some (LWM2M_REQUEST_TYPE_UNKNOWN, LWM2M_URI_RESET) }))
      in case uriPath of
           [] \<Rightarrow> dm
         | seg # rest \<Rightarrow>
             if seg = str ''rd''
             then (case rest of
                     [] \<Rightarrow> Some (LWM2M_REQUEST_TYPE_REGISTRATION, LWM2M_URI_RESET)
                   | seg2 # rest2 \<Rightarrow> uri_decode_ids LWM2M_REQUEST_TYPE_REGISTRATION seg2 rest2)
             else if seg = str ''bs''
             then if rest \<noteq> [] then uri_error else Some (LWM2M_REQUEST_TYPE_BOOTSTRAP, LWM2M_URI_RESET)
             else if seg = str ''dp''
             then if rest \<noteq> [] then uri_error else Some (LWM2M_REQUEST_TYPE_SEND, LWM2M_URI_RESET)
             else dm)"

section \<open>Paths as text\<close>

definition isspace :: "u8 \<Rightarrow> bool" where
  "isspace b \<longleftrightarrow> b = 32 \<or> (9 \<le> b \<and> b \<le> 13)"

text \<open>One identifier of \<open>lwm2m_stringToUri\<close>; \<open>None\<close> inside is \<open>return 0\<close>.\<close>

definition string_read_id :: "bytes \<Rightarrow> nat \<Rightarrow> (u16 \<times> nat) option c" where
  "string_read_id buffer head = do { (readNum, h) \<leftarrow> prv_parseNumber buffer (length buffer) head;
     Some (if readNum < 0 \<or> readNum \<ge> int (unat LWM2M_MAX_ID) then None else Some (of_int readNum, h)) }"

definition skip_slash :: "bytes \<Rightarrow> nat \<Rightarrow> nat" where
  "skip_slash buffer head =
     (if head < length buffer \<and> buffer ! head = chr CHR ''/'' then head + 1 else head)"

text \<open>The result is the number of characters read (0 on error) and \<open>*uriP\<close>.\<close>

definition lwm2m_stringToUri :: "bytes \<Rightarrow> (nat \<times> lwm2m_uri_t) c" where
  "lwm2m_stringToUri buffer =
     (let n = length buffer; u0 = LWM2M_URI_RESET in
      if n = 0 then Some (0, u0)
      else let head = length (takeWhile isspace buffer) in
      if head = n then Some (0, u0)
      else do { b \<leftarrow> rd buffer head;
        if b \<noteq> chr CHR ''/'' then Some (0, u0)
        else let head = head + 1 in
        if \<not> head < n then Some (head, u0)
        else do { r \<leftarrow> string_read_id buffer head;
          (case r of None \<Rightarrow> Some (0, u0)
           | Some (oid, h1) \<Rightarrow>
               let u1 = u0\<lparr>objectId := oid\<rparr>; h1 = skip_slash buffer h1 in
               if \<not> h1 < n then Some (h1, u1)
               else do { r \<leftarrow> string_read_id buffer h1;
                 (case r of None \<Rightarrow> Some (0, u1)
                  | Some (iid, h2) \<Rightarrow>
                      let u2 = u1\<lparr>instanceId := iid\<rparr>; h2 = skip_slash buffer h2 in
                      if \<not> h2 < n then Some (h2, u2)
                      else do { r \<leftarrow> string_read_id buffer h2;
                        (case r of None \<Rightarrow> Some (0, u2)
                         | Some (rid, h3) \<Rightarrow>
                             let u3 = u2\<lparr>resourceId := rid\<rparr>; h3 = skip_slash buffer h3 in
                             if \<not> h3 < n then Some (if h3 \<noteq> n then 0 else h3, u3)
                             else do { r \<leftarrow> string_read_id buffer h3;
                               (case r of None \<Rightarrow> Some (0, u3)
                                | Some (riid, h4) \<Rightarrow>
                                    Some (if h4 \<noteq> n then 0 else h4, u3\<lparr>resourceInstanceId := riid\<rparr>)) }) }) }) } })"

text \<open>\<open>bufferLen - 1\<close> in \<open>size_t\<close> arithmetic.\<close>

definition size_pred :: "nat \<Rightarrow> nat" where
  "size_pred n = (n + (2 ^ 64 - 1)) mod 2 ^ 64"

text \<open>One level of \<open>lwm2m_uriToString\<close>: the separator and the identifier at \<open>head\<close>.
  The second component is the new \<open>head\<close>, \<open>None\<close> for \<open>return -1\<close>.\<close>

definition uri_put_level :: "u16 \<Rightarrow> bytes \<Rightarrow> nat \<Rightarrow> (bytes \<times> nat option) c" where
  "uri_put_level i buffer head =
     (if head \<ge> size_pred (length buffer) then Some (buffer, None)
      else do { b1 \<leftarrow> wr buffer head (chr CHR ''/'');
                (b2, res) \<leftarrow> on_tail (head + 1) (utils_intToText (ucast i)) b1;
                Some (b2, if res = 0 then None else Some (head + 1 + res)) })"

text \<open>The buffer is \<open>buffer[0..bufferLen)\<close>; the result is the buffer, the returned value and
  \<open>*depthP\<close> (unchanged, here \<open>None\<close>, on error).  \<open>uriP\<close> may be \<open>NULL\<close>.\<close>

definition lwm2m_uriToString :: "lwm2m_uri_t option \<Rightarrow> bytes \<Rightarrow> (bytes \<times> int \<times> uri_depth_t option) c" where
  "lwm2m_uriToString uriP buffer =
     (case uriP of
        None \<Rightarrow> Some (buffer, 0, Some URI_DEPTH_NONE)
      | Some u \<Rightarrow>
          if \<not> LWM2M_URI_IS_SET_OBJECT u
          then if 0 \<ge> size_pred (length buffer) then Some (buffer, - 1, None)
               else do { b \<leftarrow> wr buffer 0 (chr CHR ''/''); Some (b, 1, Some URI_DEPTH_NONE) }
          else do { (b, h) \<leftarrow> uri_put_level (objectId u) buffer 0;
            (case h of None \<Rightarrow> Some (b, - 1, None)
             | Some h \<Rightarrow>
               if \<not> LWM2M_URI_IS_SET_INSTANCE u then Some (b, int h, Some URI_DEPTH_OBJECT)
               else do { (b, h) \<leftarrow> uri_put_level (instanceId u) b h;
                 (case h of None \<Rightarrow> Some (b, - 1, None)
                  | Some h \<Rightarrow>
                    if \<not> LWM2M_URI_IS_SET_RESOURCE u
                    then Some (b, int h, Some URI_DEPTH_OBJECT_INSTANCE)
                    else do { (b, h) \<leftarrow> uri_put_level (resourceId u) b h;
                      (case h of None \<Rightarrow> Some (b, - 1, None)
                       | Some h \<Rightarrow>
                         if \<not> LWM2M_URI_IS_SET_RESOURCE_INSTANCE u
                         then Some (b, int h, Some URI_DEPTH_RESOURCE)
                         else do { (b, h) \<leftarrow> uri_put_level (resourceInstanceId u) b h;
                           (case h of None \<Rightarrow> Some (b, - 1, None)
                            | Some h \<Rightarrow> Some (b, int h, Some URI_DEPTH_RESOURCE_INSTANCE)) }) }) }) })"

definition URI_MAX_STRING_LEN :: nat where "URI_MAX_STRING_LEN = 24"

definition uri_logging_to_string :: "lwm2m_uri_t option \<Rightarrow> bytes c" where
  "uri_logging_to_string uri =
     (let s = replicate (URI_MAX_STRING_LEN + 1) 0 in
      case uri of
        None \<Rightarrow> wr s URI_MAX_STRING_LEN 0
      | Some u \<Rightarrow>
          do { (b, _, _) \<leftarrow> lwm2m_uriToString (Some u) (take URI_MAX_STRING_LEN s);
               wr (b @ drop URI_MAX_STRING_LEN s) URI_MAX_STRING_LEN 0 })"

section \<open>Well-formed paths\<close>

text \<open>A level is set only when the levels above it are.\<close>

definition uri_wf :: "lwm2m_uri_t \<Rightarrow> bool" where
  "uri_wf u \<longleftrightarrow>
     (LWM2M_URI_IS_SET_INSTANCE u \<longrightarrow> LWM2M_URI_IS_SET_OBJECT u) \<and>
     (LWM2M_URI_IS_SET_RESOURCE u \<longrightarrow> LWM2M_URI_IS_SET_INSTANCE u) \<and>
     (LWM2M_URI_IS_SET_RESOURCE_INSTANCE u \<longrightarrow> LWM2M_URI_IS_SET_RESOURCE u)"

definition uri_of :: "u16 list \<Rightarrow> lwm2m_uri_t" where
  "uri_of ids = (let get = (\<lambda>k. if k < length ids then ids ! k else LWM2M_MAX_ID) in
     \<lparr>objectId = get 0, instanceId = get 1, resourceId = get 2, resourceInstanceId = get 3\<rparr>)"

definition uri_ids :: "u16 list \<Rightarrow> bool" where
  "uri_ids ids \<longleftrightarrow> length ids \<le> 4 \<and> list_all (\<lambda>i. i \<noteq> LWM2M_MAX_ID) ids"

fun depth_of :: "nat \<Rightarrow> uri_depth_t" where
  "depth_of 0 = URI_DEPTH_NONE"
| "depth_of (Suc 0) = URI_DEPTH_OBJECT"
| "depth_of (Suc (Suc 0)) = URI_DEPTH_OBJECT_INSTANCE"
| "depth_of (Suc (Suc (Suc 0))) = URI_DEPTH_RESOURCE"
| "depth_of _ = URI_DEPTH_RESOURCE_INSTANCE"

lemma uri_wf_RESET [simp]: "uri_wf LWM2M_URI_RESET"
  by (simp add: uri_wf_def uri_set_defs LWM2M_URI_RESET_def LWM2M_MAX_ID_def)

lemma uri_ids_cases:
  assumes "uri_ids ids"
  obtains "ids = []" | a where "ids = [a]" "a \<noteq> LWM2M_MAX_ID"
  | a b where "ids = [a, b]" "a \<noteq> LWM2M_MAX_ID" "b \<noteq> LWM2M_MAX_ID"
  | a b c where "ids = [a, b, c]" "a \<noteq> LWM2M_MAX_ID" "b \<noteq> LWM2M_MAX_ID" "c \<noteq> LWM2M_MAX_ID"
  | a b c d where "ids = [a, b, c, d]" "a \<noteq> LWM2M_MAX_ID" "b \<noteq> LWM2M_MAX_ID" "c \<noteq> LWM2M_MAX_ID"
      "d \<noteq> LWM2M_MAX_ID"
proof -
  have "length ids \<le> 4" using assms by (simp add: uri_ids_def)
  then have "length ids \<in> {0, 1, 2, 3, 4}" by (simp only: insert_iff empty_iff) arith
  then show thesis
    using assms that
    by (auto simp: uri_ids_def length_Suc_conv numeral_eq_Suc)
qed

text \<open>The well-formed paths are exactly those of identifier sequences.\<close>

lemma uri_wf_iff: "uri_wf u \<longleftrightarrow> (\<exists>ids. uri_ids ids \<and> u = uri_of ids)"
proof
  assume wf: "uri_wf u"
  obtain a b c d where u: "u = \<lparr>objectId = a, instanceId = b, resourceId = c, resourceInstanceId = d\<rparr>"
    by (cases u) auto
  let ?ids = "takeWhile (\<lambda>i. i \<noteq> LWM2M_MAX_ID) [a, b, c, d]"
  have "length ?ids \<le> length [a, b, c, d]" by (rule length_takeWhile_le)
  then have "uri_ids ?ids" by (auto simp: uri_ids_def list_all_iff dest: set_takeWhileD)
  moreover have "u = uri_of ?ids"
    using wf by (auto simp: u uri_of_def uri_wf_def uri_set_defs Let_def)
  ultimately show "\<exists>ids. uri_ids ids \<and> u = uri_of ids" by blast
next
  assume "\<exists>ids. uri_ids ids \<and> u = uri_of ids"
  then obtain ids where "uri_ids ids" "u = uri_of ids" by blast
  then show "uri_wf u"
    by (elim uri_ids_cases) (simp_all add: uri_wf_def uri_of_def uri_set_defs)
qed

section \<open>Numbers\<close>

lemma slash_not_digit: "is_digit b \<Longrightarrow> b \<noteq> chr CHR ''/''"
  by (auto simp: is_digit_unat unat_chr)

text \<open>A run of digits that ends at a slash or at the end is read exactly while it fits an \<open>int\<close>.\<close>

lemma parse_number_loop_exact:
  assumes "\<forall>b\<in>set ds. is_digit b" and "post = [] \<or> hd post = chr CHR ''/''"
    and "int (dec_val_from r ds) \<le> INT_MAX"
  shows "parse_number_loop (pre @ ds @ post) (length (pre @ ds @ post)) (length pre) (int r)
    = Some (int (dec_val_from r ds), length pre + length ds)"
  using assms
proof (induction ds arbitrary: pre r)
  case Nil
  then show ?case by (subst parse_number_loop.simps) (cases post; simp)
next
  case (Cons b ds)
  then have d: "is_digit b" by simp
  let ?r = "r * 10 + digit_val b"
  have le: "int ?r \<le> INT_MAX"
    using Cons.prems(3) dec_val_from_ge [of ?r ds] by simp
  have i1: "int_c (int r * 10) = Some (int r * 10)"
    using le by (simp add: int_c_def INT_MIN_def)
  have dv: "int (unat b) - 48 = int (digit_val b)"
    using d by (simp add: is_digit_unat digit_val_def)
  have i2: "int_c (int r * 10 + (int (unat b) - 48)) = Some (int ?r)"
    using le unfolding dv by (simp add: int_c_def INT_MIN_def)
  have "parse_number_loop ((pre @ [b]) @ ds @ post) (length ((pre @ [b]) @ ds @ post)) (length (pre @ [b])) (int ?r)
    = Some (int (dec_val_from ?r ds), length (pre @ [b]) + length ds)"
    using Cons.prems by (intro Cons.IH) auto
  then show ?case
    using d slash_not_digit [OF d] i1 i2
    by (subst parse_number_loop.simps) (simp add: nth_append is_digit_def)
qed

lemma prv_parseNumber_exact:
  assumes "\<forall>b\<in>set ds. is_digit b" and "ds \<noteq> []" and "post = [] \<or> hd post = chr CHR ''/''"
    and "int (dec_val ds) \<le> INT_MAX"
  shows "prv_parseNumber (pre @ ds @ post) (length (pre @ ds @ post)) (length pre)
    = Some (int (dec_val ds), length pre + length ds)"
proof -
  have "(pre @ ds @ post) ! length pre \<noteq> chr CHR ''/''"
    using assms(1,2) slash_not_digit [of "hd ds"] by (cases ds) (simp_all add: nth_append)
  then show ?thesis
    using parse_number_loop_exact [OF assms(1,3), of 0 pre] assms(2,4)
    by (cases ds) (simp_all add: prv_parseNumber_def)
qed

text \<open>An identifier is below 65535, so its text fits.\<close>

lemma id_value:
  assumes "i \<noteq> LWM2M_MAX_ID"
  shows "unat i < 65535" "int (unat i) \<le> INT_MAX" "uint i < 65535"
proof -
  have "unat i \<noteq> 65535" using assms by (auto simp: LWM2M_MAX_ID_def word_unat_eq_iff)
  then show "unat i < 65535" using unat_u16_less [of i] by simp
  then show u: "uint i < 65535" unfolding uint_nat by linarith
  then show "int (unat i) \<le> INT_MAX" by (simp add: INT_MAX_def)
qed

lemma uri_read_id_exact:
  assumes "i \<noteq> LWM2M_MAX_ID"
  shows "uri_read_id (dec_text (unat i)) = Some (Some i)"
  using prv_parseNumber_exact [of "dec_text (unat i)" "[]" "[]"] id_value [OF assms] dec_text_digits
  by (simp add: uri_read_id_def uri_getNumber_def LWM2M_MAX_ID_def)

lemma string_read_id_exact:
  assumes "i \<noteq> LWM2M_MAX_ID" and "post = [] \<or> hd post = chr CHR ''/''"
  shows "string_read_id (pre @ dec_text (unat i) @ post) (length pre)
    = Some (Some (i, length pre + length (dec_text (unat i))))"
  using prv_parseNumber_exact [of "dec_text (unat i)" post pre] id_value [OF assms(1)] dec_text_digits assms(2)
  by (simp add: string_read_id_def LWM2M_MAX_ID_def)

text \<open>Nine bytes never overflow, whatever they are.\<close>

lemma parse_number_loop_defined:
  assumes "n \<le> length s" and "0 \<le> r" and "r < 10 ^ k" and "n - h \<le> 9 - k" and "k \<le> 9"
  shows "\<exists>v h'. parse_number_loop s n h r = Some (v, h') \<and> - 1 \<le> v \<and> v < 10 ^ 9"
  using assms
proof (induction s n h r arbitrary: k rule: parse_number_loop.induct)
  case (1 s n h r)
  have k9: "(10 :: int) ^ k \<le> 10 ^ 9" using 1 by (intro power_increasing) auto
  show ?case
  proof (cases "h < n \<and> s ! h \<noteq> chr CHR ''/'' \<and> 48 \<le> s ! h \<and> s ! h \<le> 57")
    case True
    let ?d = "int (unat (s ! h)) - 48"
    have dig: "is_digit (s ! h)" using True by (simp add: is_digit_def)
    then have d: "0 \<le> ?d" "?d < 10" unfolding is_digit_unat by linarith+
    have "k < 9" using "1.prems"(4,5) True by linarith
    then have sk: "(10 :: int) ^ Suc k \<le> 10 ^ 9" by (intro power_increasing) auto
    have lt: "r * 10 + ?d < 10 ^ Suc k" using "1.prems"(3) d by simp
    have i1: "int_c (r * 10) = Some (r * 10)" "int_c (r * 10 + ?d) = Some (r * 10 + ?d)"
      using lt sk d "1.prems"(2) by (simp_all add: int_c_def INT_MIN_def INT_MAX_def)
    have "\<exists>v h'. parse_number_loop s n (h + 1) (r * 10 + ?d) = Some (v, h') \<and> - 1 \<le> v \<and> v < 10 ^ 9"
      using True 1 d lt \<open>k < 9\<close> i1 by (intro "1.IH" [of "s ! h" "r * 10" _ "Suc k"]) auto
    then show ?thesis
      using True i1 "1.prems"(1) by (subst parse_number_loop.simps) simp
  next
    case False
    then show ?thesis using "1.prems" k9
      by (subst parse_number_loop.simps) auto
  qed
qed

lemma uri_read_id_defined:
  assumes "seg \<noteq> []" and "length seg \<le> 9"
  obtains r where "uri_read_id seg = Some r" "\<And>i. r = Some i \<Longrightarrow> i \<noteq> LWM2M_MAX_ID"
proof -
  obtain v h where v: "parse_number_loop seg (length seg) 0 0 = Some (v, h)"
    using parse_number_loop_defined [of "length seg" seg 0 0 0] assms by auto
  have ne: "(of_int x :: u16) \<noteq> LWM2M_MAX_ID" if "0 \<le> x" "x < 65535" for x :: int
  proof
    assume "(of_int x :: u16) = LWM2M_MAX_ID"
    then have "uint (of_int x :: u16) = 65535" by (simp add: LWM2M_MAX_ID_def)
    then show False using that by (simp add: uint_word_of_int)
  qed
  have "\<exists>r. uri_read_id seg = Some r \<and> (\<forall>i. r = Some i \<longrightarrow> i \<noteq> LWM2M_MAX_ID)"
    using v assms(1) ne by (auto simp: uri_read_id_def uri_getNumber_def prv_parseNumber_def LWM2M_MAX_ID_def)
  then show thesis using that by blast
qed

section \<open>Decoding\<close>

lemma wf_set_ids:
  "uri_wf u \<Longrightarrow> LWM2M_URI_IS_SET_RESOURCE u \<Longrightarrow> uri_wf (u\<lparr>resourceInstanceId := i\<rparr>)"
  "uri_wf u \<Longrightarrow> LWM2M_URI_IS_SET_INSTANCE u \<Longrightarrow> r \<noteq> LWM2M_MAX_ID \<Longrightarrow> uri_wf (u\<lparr>resourceId := r\<rparr>)"
  "uri_wf u \<Longrightarrow> LWM2M_URI_IS_SET_OBJECT u \<Longrightarrow> n \<noteq> LWM2M_MAX_ID \<Longrightarrow> uri_wf (u\<lparr>instanceId := n\<rparr>)"
  "o1 \<noteq> LWM2M_MAX_ID \<Longrightarrow> uri_wf (LWM2M_URI_RESET\<lparr>objectId := o1\<rparr>)"
  by (auto simp: uri_wf_def uri_set_defs LWM2M_URI_RESET_def LWM2M_MAX_ID_def)

abbreviation decodes_wf :: "(lwm2m_request_type_t \<times> lwm2m_uri_t) c \<Rightarrow> bool" where
  "decodes_wf r \<equiv> \<exists>rt u. r = Some (rt, u) \<and> uri_wf u"

lemma uri_error_wf [simp]: "decodes_wf uri_error"
  by (simp add: uri_error_def)

lemma uri_decode_ri_wf:
  assumes "uri_wf u" and "list_all (\<lambda>seg. length seg \<le> 9) path"
  shows "decodes_wf (uri_decode_ri rt u path)"
proof (cases path)
  case (Cons seg rest)
  show ?thesis
  proof (cases "seg = [] \<or> \<not> LWM2M_URI_IS_SET_RESOURCE u")
    case True
    then show ?thesis using assms Cons by (auto simp: uri_decode_ri_def)
  next
    case False
    then obtain r where "uri_read_id seg = Some r" "\<And>i. r = Some i \<Longrightarrow> i \<noteq> LWM2M_MAX_ID"
      using uri_read_id_defined [of seg] assms Cons by auto
    then show ?thesis
      using False assms(1) Cons wf_set_ids(1) by (auto simp: uri_decode_ri_def split: option.split)
  qed
qed (use assms in \<open>simp add: uri_decode_ri_def\<close>)

lemma uri_decode_res_wf:
  assumes "uri_wf u" and "list_all (\<lambda>seg. length seg \<le> 9) path"
  shows "decodes_wf (uri_decode_res rt u path)"
proof (cases path)
  case (Cons seg rest)
  then have rest: "list_all (\<lambda>seg. length seg \<le> 9) rest" using assms by simp
  show ?thesis
  proof (cases "seg = [] \<or> \<not> LWM2M_URI_IS_SET_INSTANCE u")
    case True
    then show ?thesis
      using Cons uri_decode_ri_wf [OF assms(1) rest] by (auto simp: uri_decode_res_def)
  next
    case False
    then obtain r where "uri_read_id seg = Some r" "\<And>i. r = Some i \<Longrightarrow> i \<noteq> LWM2M_MAX_ID"
      using uri_read_id_defined [of seg] assms Cons by auto
    then show ?thesis
      using False Cons uri_decode_ri_wf [OF wf_set_ids(2) [OF assms(1)] rest]
      by (auto simp: uri_decode_res_def split: option.split)
  qed
qed (use assms in \<open>simp add: uri_decode_res_def\<close>)

lemma uri_decode_ids_wf:
  assumes "seg \<noteq> []" and "list_all (\<lambda>seg. length seg \<le> 9) (seg # path)"
  shows "decodes_wf (uri_decode_ids rt seg path)"
proof -
  obtain r where r: "uri_read_id seg = Some r" "\<And>i. r = Some i \<Longrightarrow> i \<noteq> LWM2M_MAX_ID"
    using uri_read_id_defined [of seg] assms by auto
  show ?thesis
  proof (cases r)
    case None
    then show ?thesis using r by (simp add: uri_decode_ids_def)
  next
    case (Some oid)
    let ?u = "LWM2M_URI_RESET\<lparr>objectId := oid\<rparr>"
    have u: "uri_wf ?u" "LWM2M_URI_IS_SET_OBJECT ?u" using r Some wf_set_ids(4) by (auto simp: uri_set_defs)
    show ?thesis
    proof (cases path)
      case Nil
      then show ?thesis using r Some u by (simp add: uri_decode_ids_def Let_def)
    next
      case (Cons iseg rest)
      then have rest: "list_all (\<lambda>seg. length seg \<le> 9) rest" using assms by simp
      show ?thesis
      proof (cases "iseg = []")
        case True
        then show ?thesis
          using r Some Cons uri_decode_res_wf [OF u(1) rest] by (auto simp: uri_decode_ids_def Let_def)
      next
        case False
        then obtain m where m: "uri_read_id iseg = Some m" "\<And>i. m = Some i \<Longrightarrow> i \<noteq> LWM2M_MAX_ID"
          using uri_read_id_defined [of iseg] assms Cons by auto
        then show ?thesis
          using r Some Cons False uri_decode_res_wf [OF wf_set_ids(3) [OF u] rest]
          by (auto simp: uri_decode_ids_def Let_def split: option.split)
      qed
    qed
  qed
qed

lemma alt_path_match_defined:
  "i + length seg < length altPath \<Longrightarrow> \<exists>ok. alt_path_match altPath seg i = Some ok"
  by (induction seg arbitrary: i) auto

section \<open>Printing and parsing text\<close>

definition uri_text :: "u16 list \<Rightarrow> bytes" where
  "uri_text ids = concat (map (\<lambda>i. chr CHR ''/'' # dec_text (unat i)) ids)"

lemma uri_text_simps [simp]:
  "uri_text [] = []" "uri_text (i # ids) = chr CHR ''/'' # dec_text (unat i) @ uri_text ids"
  "uri_text (ids @ ids') = uri_text ids @ uri_text ids'"
  by (simp_all add: uri_text_def)

lemma dec_text_u16_length: "length (dec_text (unat (i :: u16))) \<le> 5"
  using unat_u16_less [of i] by (intro dec_text_length_less) simp_all

lemma uri_text_length: "length (uri_text ids) \<le> 6 * length ids"
proof (induction ids)
  case (Cons i ids)
  then show ?case using dec_text_u16_length [of i] by simp
qed simp

lemma size_pred_eq: "0 < n \<Longrightarrow> n < 2 ^ 64 \<Longrightarrow> size_pred n = n - 1"
  by (simp add: size_pred_def mod_if)

lemma sint_ucast_u16: "0 \<le> sint (ucast (i :: u16) :: u64)"
  by (simp add: bit_last_iff [symmetric] bit_simps not_less [symmetric])
     (simp add: bit_word.rep_eq)

lemma utils_intToText_id:
  fixes i :: u16
  assumes "length (dec_text (unat i)) \<le> length string"
  shows "\<exists>b. utils_intToText (ucast i) string = Some (b, length (dec_text (unat i))) \<and>
    length b = length string \<and> take (length (dec_text (unat i))) b = dec_text (unat i)"
proof -
  have "utils_intToText (ucast i) string = utils_uintToText (ucast i) string"
    using sint_ucast_u16 [of i] by (simp add: utils_intToText_def)
  then show ?thesis
    using utils_uintToText_fits [of "ucast i" string] assms by (simp add: unat_ucast_up)
qed

lemma uri_put_level_fits:
  assumes "head + 6 \<le> length buffer" and "length buffer < 2 ^ 64" and "take head buffer = t"
  obtains b where "uri_put_level i buffer head = Some (b, Some (head + length (uri_text [i])))"
    "length b = length buffer" "take (head + length (uri_text [i])) b = t @ uri_text [i]"
proof -
  let ?d = "dec_text (unat i)" and ?b1 = "buffer[head := chr CHR ''/'']"
  have len: "length ?d \<le> length (drop (head + 1) ?b1)"
    using assms dec_text_u16_length [of i] by simp
  obtain c where c: "utils_intToText (ucast i) (drop (head + 1) ?b1) = Some (c, length ?d)"
    "length c = length (drop (head + 1) ?b1)" "take (length ?d) c = ?d"
    using utils_intToText_id [OF len] by blast
  have t1: "take (head + 1) ?b1 = t @ [chr CHR ''/'']"
    using assms by (simp add: take_Suc_conv_app_nth)
  have sp: "\<not> size_pred (length buffer) \<le> head"
    using assms size_pred_eq [of "length buffer"] by (cases buffer) auto
  have eq: "uri_put_level i buffer head = Some (t @ chr CHR ''/'' # c, Some (head + 1 + length ?d))"
    using assms c(1) t1 sp
      on_tail_eq [of "utils_intToText (ucast i)" "head + 1" ?b1 c "length ?d"]
    by (simp add: uri_put_level_def)
  moreover have "length t = head" using assms by auto
  ultimately show thesis
    using that [of "t @ chr CHR ''/'' # c"] c(2,3) assms(1) by simp
qed

text \<open>The text written for a path.\<close>

lemma lwm2m_uriToString_spec:
  assumes "uri_ids ids" and "ids \<noteq> []" and "24 \<le> length buffer" and "length buffer < 2 ^ 64"
  shows "\<exists>b. lwm2m_uriToString (Some (uri_of ids)) buffer
      = Some (b, int (length (uri_text ids)), Some (depth_of (length ids))) \<and>
    length b = length buffer \<and> take (length (uri_text ids)) b = uri_text ids"
proof -
  note put = uri_put_level_fits and ut = uri_text_length
  have u0: "uri_of [a] = \<lparr>objectId = a, instanceId = LWM2M_MAX_ID, resourceId = LWM2M_MAX_ID, resourceInstanceId = LWM2M_MAX_ID\<rparr>"
    "uri_of [a, b] = \<lparr>objectId = a, instanceId = b, resourceId = LWM2M_MAX_ID, resourceInstanceId = LWM2M_MAX_ID\<rparr>"
    "uri_of [a, b, c] = \<lparr>objectId = a, instanceId = b, resourceId = c, resourceInstanceId = LWM2M_MAX_ID\<rparr>"
    "uri_of [a, b, c, d] = \<lparr>objectId = a, instanceId = b, resourceId = c, resourceInstanceId = d\<rparr>"
    for a b c d by (simp_all add: uri_of_def)
  have step: "\<exists>b'. uri_put_level (ids ! k) b (length (uri_text (take k ids)))
        = Some (b', Some (length (uri_text (take (Suc k) ids)))) \<and>
      length b' = length buffer \<and> take (length (uri_text (take (Suc k) ids))) b' = uri_text (take (Suc k) ids)"
    if prem: "length b = length buffer" "take (length (uri_text (take k ids))) b = uri_text (take k ids)"
       "k < length ids" for k b
  proof -
    have room: "length (uri_text (take k ids)) + 6 \<le> length b"
      using ut [of "take k ids"] prem assms(1,3) by (auto simp: uri_ids_def)
    have sz: "length b < 2 ^ 64" using assms(4) prem by simp
    obtain b' where "uri_put_level (ids ! k) b (length (uri_text (take k ids)))
        = Some (b', Some (length (uri_text (take k ids)) + length (uri_text [ids ! k])))"
      "length b' = length b" "take (length (uri_text (take k ids)) + length (uri_text [ids ! k])) b'
         = uri_text (take k ids) @ uri_text [ids ! k]"
      by (rule put [OF room sz prem(2)])
    then show ?thesis using prem by (simp add: take_Suc_conv_app_nth)
  qed
  have k0: "0 < length ids" using assms by simp
  obtain b1 where b1: "uri_put_level (ids ! 0) buffer 0 = Some (b1, Some (length (uri_text (take 1 ids))))"
    "length b1 = length buffer" "take (length (uri_text (take 1 ids))) b1 = uri_text (take 1 ids)"
    using step [of buffer 0] k0 by auto
  from assms(1) show ?thesis
  proof (cases rule: uri_ids_cases)
    case 1
    then show ?thesis using assms by simp
  next
    case (2 a)
    then show ?thesis using b1 by (simp add: lwm2m_uriToString_def u0 uri_set_defs)
  next
    case (3 a b)
    then obtain b2 where "uri_put_level b b1 (length (uri_text [a])) = Some (b2, Some (length (uri_text ids)))"
      "length b2 = length buffer" "take (length (uri_text ids)) b2 = uri_text ids"
      using step [OF b1(2), of 1] b1 by auto
    then show ?thesis using 3 b1 by (simp add: lwm2m_uriToString_def u0 uri_set_defs)
  next
    case (4 a b c)
    then obtain b2 where b2: "uri_put_level b b1 (length (uri_text [a])) = Some (b2, Some (length (uri_text [a, b])))"
      "length b2 = length buffer" "take (length (uri_text [a, b])) b2 = uri_text [a, b]"
      using step [OF b1(2), of 1] b1 by auto
    then obtain b3 where "uri_put_level c b2 (length (uri_text [a, b])) = Some (b3, Some (length (uri_text ids)))"
      "length b3 = length buffer" "take (length (uri_text ids)) b3 = uri_text ids"
      using step [OF b2(2), of 2] 4 by (auto simp: numeral_eq_Suc)
    then show ?thesis using 4 b1 b2 by (simp add: lwm2m_uriToString_def u0 uri_set_defs numeral_eq_Suc)
  next
    case (5 a b c d)
    then obtain b2 where b2: "uri_put_level b b1 (length (uri_text [a])) = Some (b2, Some (length (uri_text [a, b])))"
      "length b2 = length buffer" "take (length (uri_text [a, b])) b2 = uri_text [a, b]"
      using step [OF b1(2), of 1] b1 by auto
    then obtain b3 where b3: "uri_put_level c b2 (length (uri_text [a, b])) = Some (b3, Some (length (uri_text [a, b, c])))"
      "length b3 = length buffer" "take (length (uri_text [a, b, c])) b3 = uri_text [a, b, c]"
      using step [OF b2(2), of 2] 5 by (auto simp: numeral_eq_Suc)
    then obtain b4 where "uri_put_level d b3 (length (uri_text [a, b, c])) = Some (b4, Some (length (uri_text ids)))"
      "length b4 = length buffer" "take (length (uri_text ids)) b4 = uri_text ids"
      using step [OF b3(2), of 3] 5 by (auto simp: numeral_eq_Suc)
    then show ?thesis using 5 b1 b2 b3 by (simp add: lwm2m_uriToString_def u0 uri_set_defs numeral_eq_Suc)
  qed
qed

text \<open>Reading the text back.\<close>

lemma uri_text_hd: "uri_text ids = [] \<or> hd (uri_text ids) = chr CHR ''/''"
  by (cases ids) auto

lemma string_level:
  assumes "i \<noteq> LWM2M_MAX_ID" and "buffer = pre @ uri_text (i # ids)"
  shows "string_read_id buffer (Suc (length pre))
    = Some (Some (i, length pre + length (uri_text [i])))"
    and "Suc (length pre) < length buffer"
    and "skip_slash buffer (length pre + length (uri_text [i]))
      = length pre + length (uri_text [i]) + (if ids = [] then 0 else 1)"
proof -
  show "string_read_id buffer (Suc (length pre)) = Some (Some (i, length pre + length (uri_text [i])))"
    using string_read_id_exact [OF assms(1) uri_text_hd, of "pre @ [chr CHR ''/'']" ids] assms(2) by simp
  show "Suc (length pre) < length buffer" using assms(2) by (cases "dec_text (unat i)") auto
  show "skip_slash buffer (length pre + length (uri_text [i]))
      = length pre + length (uri_text [i]) + (if ids = [] then 0 else 1)"
    using assms(2) by (cases ids) (simp_all add: skip_slash_def nth_append)
qed

lemma isspace_slash [simp]: "\<not> isspace (chr CHR ''/'')"
  by (simp add: isspace_def chr_def)

lemma lwm2m_stringToUri_text:
  assumes "uri_ids ids" and "ids \<noteq> []"
  shows "lwm2m_stringToUri (uri_text ids) = Some (length (uri_text ids), uri_of ids)"
proof -
  have r: "LWM2M_URI_RESET = uri_of []"
    by (simp add: uri_of_def LWM2M_URI_RESET_def LWM2M_MAX_ID_def)
  have len: "length (uri_text [a, b]) = length (uri_text [a]) + length (uri_text [b])"
    "length (uri_text [a, b, c]) = length (uri_text [a, b]) + length (uri_text [c])"
    "length (uri_text [a, b, c, d]) = length (uri_text [a, b, c]) + length (uri_text [d])" for a b c d
    by simp_all
  from assms(1) show ?thesis
  proof (cases rule: uri_ids_cases)
    case 1
    then show ?thesis using assms by simp
  next
    case (2 a)
    then show ?thesis
      using string_level [of a "uri_text ids" "[]" "[]"]
      by (simp add: lwm2m_stringToUri_def Let_def r uri_of_def add.assoc)
  next
    case (3 a b)
    then show ?thesis
      using string_level [of a "uri_text ids" "[]" "[b]"] string_level [of b "uri_text ids" "uri_text [a]" "[]"]
      by (simp add: lwm2m_stringToUri_def Let_def r uri_of_def add.assoc)
  next
    case (4 a b c)
    then show ?thesis
      using string_level [of a "uri_text ids" "[]" "[b, c]"] string_level [of b "uri_text ids" "uri_text [a]" "[c]"]
        string_level [of c "uri_text ids" "uri_text [a, b]" "[]"]
      by (simp add: lwm2m_stringToUri_def Let_def r uri_of_def add.assoc)
  next
    case (5 a b c d)
    then show ?thesis
      using string_level [of a "uri_text ids" "[]" "[b, c, d]"] string_level [of b "uri_text ids" "uri_text [a]" "[c, d]"]
        string_level [of c "uri_text ids" "uri_text [a, b]" "[d]"] string_level [of d "uri_text ids" "uri_text [a, b, c]" "[]"]
      by (simp add: lwm2m_stringToUri_def Let_def r uri_of_def add.assoc)
  qed
qed

section \<open>Properties\<close>

text \<open>C16: Printing a well-formed path with \<open>lwm2m_uriToString\<close> into a buffer of at least 24
  bytes stays inside the buffer, reports the depth of the path and returns the length of a text
  that \<open>lwm2m_stringToUri\<close> reads completely and turns into the same path.\<close>

theorem uri_string_roundtrip:
  assumes "uri_wf u" and "LWM2M_URI_IS_SET_OBJECT u" and "24 \<le> length buffer" and "length buffer < 2 ^ 64"
  shows "\<exists>b n depth. lwm2m_uriToString (Some u) buffer = Some (b, int n, Some depth) \<and>
    length b = length buffer \<and> n \<le> 24 \<and> lwm2m_stringToUri (take n b) = Some (n, u)"
proof -
  obtain ids where ids: "uri_ids ids" "u = uri_of ids" using assms(1) by (auto simp: uri_wf_iff)
  moreover have "ids \<noteq> []" using ids assms(2) by (auto simp: uri_of_def uri_set_defs)
  ultimately show ?thesis
    using lwm2m_uriToString_spec [of ids buffer] lwm2m_stringToUri_text [of ids] uri_text_length [of ids] assms
    by (force simp: uri_ids_def)
qed

theorem uri_string_roundtrip_witness:
  "\<exists>b n depth. lwm2m_uriToString (Some (uri_of [3, 0, 65534])) (replicate 24 0) = Some (b, int n, Some depth) \<and>
    length b = length (replicate 24 (0 :: u8)) \<and> n \<le> 24 \<and>
    lwm2m_stringToUri (take n b) = Some (n, uri_of [3, 0, 65534])"
  by (rule uri_string_roundtrip) (simp_all add: uri_wf_def uri_set_defs uri_of_def LWM2M_MAX_ID_def)

lemma uri_decode_spelled:
  assumes "uri_ids ids" and "ids \<noteq> []"
  shows "uri_decode None (map (\<lambda>i. dec_text (unat i)) ids) code = Some (LWM2M_REQUEST_TYPE_DM, uri_of ids)"
proof -
  have ne: "dec_text n \<noteq> str [c, d]" if "\<not> is_digit (chr c)" for n c d
    using dec_text_digits [of "chr c" n] that by (auto simp: str_def)
  have nd: "\<not> is_digit (chr CHR ''r'')" "\<not> is_digit (chr CHR ''b'')" "\<not> is_digit (chr CHR ''d'')"
    by (simp_all add: is_digit_def chr_def)
  note s = uri_decode_def uri_decode_ids_def uri_decode_res_def uri_decode_ri_def uri_read_id_exact
    uri_of_def LWM2M_URI_RESET_def uri_set_defs LWM2M_MAX_ID_def
  from assms(1) show ?thesis
    using assms(2) by (cases rule: uri_ids_cases) (simp_all add: s ne nd Let_def)
qed

text \<open>The Uri-Path segments that spell the identifiers of a path are decoded by
  \<open>uri_decode\<close> to a device management request on exactly that path.\<close>

theorem uri_decode_path:
  assumes "uri_ids ids" and "ids \<noteq> []"
  shows "uri_decode None (map (\<lambda>i. dec_text (unat i)) ids) code = Some (LWM2M_REQUEST_TYPE_DM, uri_of ids)"
  using assms by (rule uri_decode_spelled)

theorem uri_decode_path_witness:
  "uri_decode None (map (\<lambda>i. dec_text (unat i)) [1 :: u16, 0, 1]) 1 = Some (LWM2M_REQUEST_TYPE_DM, uri_of [1, 0, 1])"
  by (rule uri_decode_path) (simp_all add: uri_ids_def LWM2M_MAX_ID_def)

text \<open>\<open>uri_decode\<close> has no undefined behaviour on segments of at most nine bytes (none of
  them empty after \<open>/rd\<close>, and with an alternative path longer than the first segment), and the
  path it reports never has a level without the levels above it.\<close>

theorem uri_decode_safe:
  assumes "list_all (\<lambda>seg. length seg \<le> 9) path"
    and "\<forall>rest. path \<noteq> str ''rd'' # [] # rest"
    and "\<forall>ap seg rest. altPath = Some ap \<and> path = seg # rest \<longrightarrow> length seg < length ap"
  shows "\<exists>rt u. uri_decode altPath path code = Some (rt, u) \<and> uri_wf u"
proof -
  define dm where "dm = (\<lambda>p. case p of [] \<Rightarrow> Some (if code = COAP_DELETE then LWM2M_REQUEST_TYPE_DELETE_ALL
      else LWM2M_REQUEST_TYPE_DM, LWM2M_URI_RESET) | seg # rest \<Rightarrow>
      if length seg = 0 then Some (if code = COAP_DELETE then LWM2M_REQUEST_TYPE_DELETE_ALL
      else LWM2M_REQUEST_TYPE_DM, LWM2M_URI_RESET) else uri_decode_ids LWM2M_REQUEST_TYPE_DM seg rest)"
  have dm: "decodes_wf (dm p)" if "list_all (\<lambda>seg. length seg \<le> 9) p" for p
    using that uri_decode_ids_wf by (auto simp: dm_def split: list.split)
  show ?thesis
  proof (cases path)
    case Nil
    then show ?thesis using dm [of "[]"] by (auto simp: uri_decode_def dm_def Let_def split: option.split)
  next
    case (Cons seg rest)
    have ok: "\<exists>ok. alt_path_match ap seg 0 = Some ok" if "altPath = Some ap" for ap
      using assms(3) Cons that alt_path_match_defined [of 0 seg ap] by auto
    have reg: "decodes_wf (uri_decode_ids LWM2M_REQUEST_TYPE_REGISTRATION s2 r2)"
      if "rest = s2 # r2" "seg = str ''rd''" for s2 r2
      using that assms(1,2) Cons by (intro uri_decode_ids_wf) auto
    show ?thesis
      using Cons assms(1) ok reg dm [of path] dm [of rest]
      unfolding uri_decode_def Let_def dm_def [symmetric]
      by (auto split: option.split list.split)
  qed
qed

theorem uri_decode_safe_witness:
  "\<exists>rt u. uri_decode (Some (str ''/lwm2m'' @ [0])) [str ''lwm2m'', str ''3''] 1 = Some (rt, u) \<and> uri_wf u"
  by (rule uri_decode_safe) (simp_all add: str_def)

text \<open>A Uri-Path segment of ten digits overflows the \<open>int\<close> accumulator of
  \<open>prv_parseNumber\<close>, printing into an empty buffer stores a byte outside it, and the empty
  segment after \<open>/rd\<close> is read one byte behind its end; an alternative path is matched by any
  of its prefixes.\<close>

theorem uri_edge_cases:
  "uri_getNumber (str ''2147483648'') = None \<and> uri_getNumber (str ''2147483647'') = Some 2147483647 \<and>
   lwm2m_uriToString (Some (uri_of [3])) [] = None \<and>
   uri_decode None [str ''rd'', []] 2 = None \<and>
   uri_decode (Some (str ''/lwm2m'' @ [0])) [str ''lw'', str ''3''] 1
     = Some (LWM2M_REQUEST_TYPE_DM, uri_of [3])"
proof -
  have "lwm2m_uriToString (Some (uri_of [3])) [] = None"
    by (simp add: lwm2m_uriToString_def uri_put_level_def size_pred_def uri_of_def uri_set_defs LWM2M_MAX_ID_def)
  moreover have "uri_getNumber (str ''2147483648'') = None" "uri_getNumber (str ''2147483647'') = Some 2147483647"
    by (simp_all add: uri_getNumber_def prv_parseNumber_def parse_number_loop.simps [of _ "Suc _"]
        parse_number_loop.simps [of _ "numeral _"] str_def chr_def int_c_def INT_MAX_def INT_MIN_def
        cong: bind_weak_cong)
  moreover have "uri_decode None [str ''rd'', []] 2 = None"
    "uri_decode (Some (str ''/lwm2m'' @ [0])) [str ''lw'', str ''3''] 1
     = Some (LWM2M_REQUEST_TYPE_DM, uri_of [3])"
    by (simp_all add: uri_decode_def uri_decode_ids_def uri_read_id_def uri_getNumber_def prv_parseNumber_def
        parse_number_loop.simps [of _ "Suc _"] str_def chr_def int_c_def INT_MAX_def INT_MIN_def
        LWM2M_MAX_ID_def uri_of_def LWM2M_URI_RESET_def cong: bind_weak_cong)
  ultimately show ?thesis by blast
qed

end
