(* ===== verification/Utils_Misc.thy ===== *)
theory Utils_Misc
  imports Uri
begin

text \<open>
  The remaining helpers of \<^verbatim>\<open>core/utils.c\<close>: version and binding strings, media types and
  the choice of a response format, alternative path validation, bounded string copies, byte
  order conversion and Base64.  A C string is a byte list with its terminating zero inside.
  The configuration is the default build: LwM2M 1.1, little endian, every content format and
  the old content format numbers.
\<close>

section \<open>Enumerations of the public header\<close>

datatype lwm2m_version_t = VERSION_MISSING | VERSION_UNRECOGNIZED | VERSION_1_0 | VERSION_1_1

type_synonym lwm2m_binding_t = u8

definition BINDING_UNKNOWN :: lwm2m_binding_t where "BINDING_UNKNOWN = 0x01"
definition BINDING_U :: lwm2m_binding_t where "BINDING_U = 0x02"
definition BINDING_T :: lwm2m_binding_t where "BINDING_T = 0x04"
definition BINDING_S :: lwm2m_binding_t where "BINDING_S = 0x08"
definition BINDING_N :: lwm2m_binding_t where "BINDING_N = 0x10"
definition BINDING_Q :: lwm2m_binding_t where "BINDING_Q = 0x20"

lemmas binding_defs = BINDING_UNKNOWN_def BINDING_U_def BINDING_T_def BINDING_S_def BINDING_N_def
  BINDING_Q_def

datatype lwm2m_data_type_t = LWM2M_TYPE_UNDEFINED | LWM2M_TYPE_OBJECT | LWM2M_TYPE_OBJECT_INSTANCE
  | LWM2M_TYPE_MULTIPLE_RESOURCE | LWM2M_TYPE_STRING | LWM2M_TYPE_OPAQUE | LWM2M_TYPE_INTEGER
  | LWM2M_TYPE_UNSIGNED_INTEGER | LWM2M_TYPE_FLOAT | LWM2M_TYPE_BOOLEAN | LWM2M_TYPE_OBJECT_LINK
  | LWM2M_TYPE_CORE_LINK

text \<open>Content formats are numbers on the wire; the enumeration names some of them.\<close>

type_synonym lwm2m_media_type_t = u16

definition LWM2M_CONTENT_TEXT :: lwm2m_media_type_t where "LWM2M_CONTENT_TEXT = 0"
definition LWM2M_CONTENT_LINK :: lwm2m_media_type_t where "LWM2M_CONTENT_LINK = 40"
definition LWM2M_CONTENT_OPAQUE :: lwm2m_media_type_t where "LWM2M_CONTENT_OPAQUE = 42"
definition LWM2M_CONTENT_TLV_OLD :: lwm2m_media_type_t where "LWM2M_CONTENT_TLV_OLD = 1542"
definition LWM2M_CONTENT_TLV :: lwm2m_media_type_t where "LWM2M_CONTENT_TLV = 11542"
definition LWM2M_CONTENT_JSON_OLD :: lwm2m_media_type_t where "LWM2M_CONTENT_JSON_OLD = 1543"
definition LWM2M_CONTENT_JSON :: lwm2m_media_type_t where "LWM2M_CONTENT_JSON = 11543"
definition LWM2M_CONTENT_SENML_JSON :: lwm2m_media_type_t where "LWM2M_CONTENT_SENML_JSON = 110"
definition LWM2M_CONTENT_CBOR :: lwm2m_media_type_t where "LWM2M_CONTENT_CBOR = 60"
definition LWM2M_CONTENT_SENML_CBOR :: lwm2m_media_type_t where "LWM2M_CONTENT_SENML_CBOR = 112"
definition TEXT_PLAIN :: u16 where "TEXT_PLAIN = 0"
definition APPLICATION_LINK_FORMAT :: u16 where "APPLICATION_LINK_FORMAT = 40"
definition APPLICATION_OCTET_STREAM :: u16 where "APPLICATION_OCTET_STREAM = 42"

lemmas media_defs = LWM2M_CONTENT_TEXT_def LWM2M_CONTENT_LINK_def LWM2M_CONTENT_OPAQUE_def
  LWM2M_CONTENT_TLV_OLD_def LWM2M_CONTENT_TLV_def LWM2M_CONTENT_JSON_OLD_def LWM2M_CONTENT_JSON_def
  LWM2M_CONTENT_SENML_JSON_def LWM2M_CONTENT_CBOR_def LWM2M_CONTENT_SENML_CBOR_def
  TEXT_PLAIN_def APPLICATION_LINK_FORMAT_def APPLICATION_OCTET_STREAM_def

section \<open>Versions, bindings and formats\<close>

definition utils_stringToVersion :: "bytes \<Rightarrow> lwm2m_version_t" where
  "utils_stringToVersion buffer =
     (if length buffer = 0 then VERSION_MISSING
      else if length buffer \<noteq> 3 then VERSION_UNRECOGNIZED
      else if buffer ! 1 \<noteq> chr CHR ''.'' then VERSION_UNRECOGNIZED
      else if buffer ! 0 = chr CHR ''1'' \<and> buffer ! 2 = chr CHR ''0'' then VERSION_1_0
      else if buffer ! 0 = chr CHR ''1'' \<and> buffer ! 2 = chr CHR ''1'' then VERSION_1_1
      else VERSION_UNRECOGNIZED)"

definition binding_flag :: "u8 \<Rightarrow> lwm2m_binding_t option" where
  "binding_flag b =
     (if b = chr CHR ''N'' then Some BINDING_N
      else if b = chr CHR ''Q'' then Some BINDING_Q
      else if b = chr CHR ''S'' then Some BINDING_S
      else if b = chr CHR ''T'' then Some BINDING_T
      else if b = chr CHR ''U'' then Some BINDING_U
      else None)"

fun binding_loop :: "bytes \<Rightarrow> lwm2m_binding_t \<Rightarrow> lwm2m_binding_t" where
  "binding_loop [] binding = binding"
| "binding_loop (b # bs) binding =
     (case binding_flag b of
        None \<Rightarrow> BINDING_UNKNOWN
      | Some f \<Rightarrow> binding_loop bs (binding OR f))"

definition utils_stringToBinding :: "bytes \<Rightarrow> lwm2m_binding_t" where
  "utils_stringToBinding buffer = binding_loop buffer BINDING_UNKNOWN"

definition utils_convertMediaType :: "u16 \<Rightarrow> lwm2m_media_type_t" where
  "utils_convertMediaType t =
     (if t = TEXT_PLAIN then LWM2M_CONTENT_TEXT
      else if t = APPLICATION_OCTET_STREAM then LWM2M_CONTENT_OPAQUE
      else if t = LWM2M_CONTENT_TLV_OLD then LWM2M_CONTENT_TLV_OLD
      else if t = LWM2M_CONTENT_TLV then LWM2M_CONTENT_TLV
      else if t = LWM2M_CONTENT_JSON_OLD then LWM2M_CONTENT_JSON_OLD
      else if t = LWM2M_CONTENT_JSON then LWM2M_CONTENT_JSON
      else if t = LWM2M_CONTENT_SENML_JSON then LWM2M_CONTENT_SENML_JSON
      else if t = LWM2M_CONTENT_CBOR then LWM2M_CONTENT_CBOR
      else if t = LWM2M_CONTENT_SENML_CBOR then LWM2M_CONTENT_SENML_CBOR
      else if t = APPLICATION_LINK_FORMAT then LWM2M_CONTENT_LINK
      else LWM2M_CONTENT_TEXT)"

text \<open>The loop over the Accept options: the format of the first one that can be used.\<close>

fun accept_loop :: "bool \<Rightarrow> u16 list \<Rightarrow> lwm2m_media_type_t option" where
  "accept_loop singular [] = None"
| "accept_loop singular (a # accept) =
     (if a = TEXT_PLAIN then if singular then Some LWM2M_CONTENT_TEXT else accept_loop singular accept
      else if a = APPLICATION_OCTET_STREAM
           then if singular then Some LWM2M_CONTENT_OPAQUE else accept_loop singular accept
      else if a = LWM2M_CONTENT_TLV_OLD then Some LWM2M_CONTENT_TLV_OLD
      else if a = LWM2M_CONTENT_TLV then Some LWM2M_CONTENT_TLV
      else if a = LWM2M_CONTENT_JSON_OLD then Some LWM2M_CONTENT_JSON_OLD
      else if a = LWM2M_CONTENT_JSON then Some LWM2M_CONTENT_JSON
      else if a = LWM2M_CONTENT_SENML_JSON then Some LWM2M_CONTENT_SENML_JSON
      else if a = LWM2M_CONTENT_SENML_CBOR then Some LWM2M_CONTENT_SENML_CBOR
      else accept_loop singular accept)"

text \<open>\<open>types\<close> are the types of the \<open>numData\<close> entries of \<open>dataP\<close>; the result is the code and
  \<open>*format\<close>.\<close>

definition utils_getResponseFormat ::
  "u16 list \<Rightarrow> lwm2m_data_type_t list \<Rightarrow> bool \<Rightarrow> u8 \<times> lwm2m_media_type_t" where
  "utils_getResponseFormat accept types singleResource =
     (let singular =
            (case types of
               [t] \<Rightarrow> if t \<in> {LWM2M_TYPE_OBJECT, LWM2M_TYPE_OBJECT_INSTANCE, LWM2M_TYPE_MULTIPLE_RESOURCE}
                      then False else singleResource
             | _ \<Rightarrow> singleResource) in
      if accept \<noteq> []
      then case accept_loop singular accept of
             Some f \<Rightarrow> (COAP_205_CONTENT, f)
           | None \<Rightarrow> (COAP_406_NOT_ACCEPTABLE, LWM2M_CONTENT_TEXT)
      else if singular then (COAP_205_CONTENT, LWM2M_CONTENT_TEXT)
      else (COAP_205_CONTENT, LWM2M_CONTENT_SENML_CBOR))"

definition utils_depthToDatatype :: "uri_depth_t \<Rightarrow> lwm2m_data_type_t" where
  "utils_depthToDatatype depth =
     (case depth of URI_DEPTH_OBJECT \<Rightarrow> LWM2M_TYPE_OBJECT
      | URI_DEPTH_OBJECT_INSTANCE \<Rightarrow> LWM2M_TYPE_OBJECT_INSTANCE
      | _ \<Rightarrow> LWM2M_TYPE_UNDEFINED)"

section \<open>Strings\<close>

definition alt_path_char :: "u8 \<Rightarrow> bool" where
  "alt_path_char b \<longleftrightarrow> (65 \<le> b \<and> b \<le> 90) \<or> (97 \<le> b \<and> b \<le> 122) \<or> (48 \<le> b \<and> b \<le> 57) \<or>
     b = chr CHR ''-'' \<or> b = chr CHR ''.'' \<or> b = chr CHR ''_'' \<or> b = chr CHR ''~'' \<or> b = chr CHR ''%''"

text \<open>The loop stops at the terminating zero; a string without one is read past its end.\<close>

fun alt_path_loop :: "bytes \<Rightarrow> bool c" where
  "alt_path_loop [] = None"
| "alt_path_loop (b # bs) =
     (if b = 0 then Some True
      else if b = chr CHR ''/'' then Some False
      else if \<not> alt_path_char b then Some False
      else alt_path_loop bs)"

definition utils_isAltPathValid :: "bytes option \<Rightarrow> bool c" where
  "utils_isAltPathValid altPath =
     (case altPath of
        None \<Rightarrow> Some False
      | Some p \<Rightarrow> do { b \<leftarrow> rd p 0;
                       if b \<noteq> chr CHR ''/'' then Some False else alt_path_loop (drop 1 p) })"

text \<open>\<open>memchr\<close> stops at the first zero, so a string shorter than \<open>max_size\<close> need only be
  readable up to its terminator.\<close>

definition utils_strnlen :: "bytes option \<Rightarrow> nat \<Rightarrow> nat c" where
  "utils_strnlen s max_size =
     (case s of
        None \<Rightarrow> Some 0
      | Some b \<Rightarrow>
          let n = length (takeWhile (\<lambda>x. x \<noteq> 0) (take max_size b)) in
          if n < length b \<or> max_size \<le> length b then Some n else None)"

definition utils_strncpy :: "bytes option \<Rightarrow> bytes option \<Rightarrow> nat \<Rightarrow> (bytes option \<times> nat) c" where
  "utils_strncpy dest src src_size =
     (case (src, dest) of
        (Some s, Some d) \<Rightarrow>
          do { actual_src_len \<leftarrow> utils_strnlen (Some s) src_size;
               let dest_size = length d;
               let bytes_to_write = (if actual_src_len < dest_size then actual_src_len else dest_size);
               data \<leftarrow> rd_range s 0 bytes_to_write;
               d1 \<leftarrow> wr_range d 0 data;
               d2 \<leftarrow> (if bytes_to_write < dest_size then wr d1 bytes_to_write 0 else Some d1);
               d3 \<leftarrow> (if dest_size > 0 then wr d2 (dest_size - 1) 0 else Some d2);
               Some (Some d3, if dest_size > 0 \<and> bytes_to_write = dest_size
                              then bytes_to_write - 1 else bytes_to_write) }
      | _ \<Rightarrow> Some (dest, 0))"

text \<open>\<open>strlen\<close>: undefined without a terminator.\<close>

definition strlen :: "bytes \<Rightarrow> nat c" where
  "strlen s = (let n = length (takeWhile (\<lambda>x. x \<noteq> 0) s) in if n < length s then Some n else None)"

definition utils_stringCopy :: "bytes \<Rightarrow> bytes \<Rightarrow> (bytes option \<times> nat) c" where
  "utils_stringCopy buffer s = do { i \<leftarrow> strlen s; utils_strncpy (Some buffer) (Some s) i }"

text \<open>The byte swapping copy of a little endian build, on the bytes of the value.\<close>

definition utils_copyValue :: "bytes \<Rightarrow> bytes" where
  "utils_copyValue src = map (\<lambda>i. src ! (length src - 1 - i)) [0..<length src]"

section \<open>Lemmas\<close>

lemma utils_copyValue_rev: "utils_copyValue src = rev src"
  by (rule nth_equalityI) (simp_all add: utils_copyValue_def rev_nth)

definition c_readable :: "bytes \<Rightarrow> nat \<Rightarrow> bool" where
  "c_readable s n \<longleftrightarrow> n \<le> length s \<or> 0 \<in> set s"

lemma takeWhile_nonzero_less:
  "0 \<in> set s \<Longrightarrow> length (takeWhile (\<lambda>x. x \<noteq> 0) (take n s)) < length s" for s :: bytes
proof -
  assume z: "0 \<in> set s"
  show ?thesis
  proof (rule ccontr)
    assume "\<not> ?thesis"
    moreover have "length (takeWhile (\<lambda>x. x \<noteq> 0) (take n s)) \<le> length (take n s)"
      by (rule length_takeWhile_le)
    ultimately have eq: "length (takeWhile (\<lambda>x. x \<noteq> 0) (take n s)) = length (take n s)" "take n s = s"
      by auto
    then have "takeWhile (\<lambda>x. x \<noteq> 0) s = s"
      by (metis takeWhile_eq_take take_all_iff order_refl)
    then show False using z by (metis (mono_tags, lifting) takeWhile_eq_all_conv)
  qed
qed

lemma utils_strnlen_defined:
  "c_readable s n \<Longrightarrow> utils_strnlen (Some s) n = Some (length (takeWhile (\<lambda>x. x \<noteq> 0) (take n s)))"
  using takeWhile_nonzero_less [of s n] by (auto simp: utils_strnlen_def c_readable_def Let_def)

lemma strncpy_content:
  assumes "c_readable src n" and "dest \<noteq> []"
    and t: "t = takeWhile (\<lambda>x. x \<noteq> 0) (take n src)"
  shows "\<exists>d. utils_strncpy (Some dest) (Some src) n = Some (Some d, min (length t) (length dest - 1)) \<and>
    length d = length dest \<and> take (min (length t) (length dest - 1)) d = take (length dest - 1) t \<and>
    d ! min (length t) (length dest - 1) = 0"
proof -
  let ?w = "min (length t) (length dest)"
  have len: "length t \<le> length src"
    using length_takeWhile_le [of "\<lambda>x. x \<noteq> 0" "take n src"] by (simp add: t)
  have tk: "take m src = take m t" if "m \<le> length t" for m
  proof -
    have "t = take (length t) (take n src)" unfolding t by (rule takeWhile_eq_take)
    then have "take m t = take m (take (length t) (take n src))" by simp
    moreover have "length t \<le> n" using length_takeWhile_le [of "\<lambda>x. x \<noteq> 0" "take n src"] by (simp add: t)
    ultimately show ?thesis using that by (simp add: min_def)
  qed
  have pos: "0 < length dest" using assms(2) by simp
  note snl = utils_strnlen_defined [OF assms(1), folded t]
  show ?thesis
  proof (cases "length t < length dest")
    case True
    let ?d = "(t @ 0 # drop (length t + 1) dest)[length dest - 1 := 0]"
    have "utils_strncpy (Some dest) (Some src) n = Some (Some ?d, length t)"
      using True len tk [of "length t"] pos
      by (simp add: utils_strncpy_def snl Let_def Cons_nth_drop_Suc [symmetric] list_update_append1)
    moreover have "?d ! length t = 0"
      using True by (cases "length t = length dest - 1") (simp_all add: nth_list_update)
    moreover have "take (length t) ?d = t" using True by simp
    ultimately show ?thesis using True pos by (auto simp: min_def)
  next
    case False
    let ?d = "(take (length dest) t)[length dest - 1 := 0]"
    have "utils_strncpy (Some dest) (Some src) n = Some (Some ?d, length dest - 1)"
      using False len tk [of "length dest"] pos by (simp add: utils_strncpy_def snl Let_def)
    moreover have "take (length dest - 1) ?d = take (length dest - 1) t" by simp
    moreover have "min (length t) (length dest - 1) = length dest - 1" using False by simp
    ultimately show ?thesis using False pos by (auto simp: min_absorb2)
  qed
qed

lemma accept_loop_Some:
  "accept_loop singular accept = Some f \<Longrightarrow>
   f \<in> set accept \<and> (\<not> singular \<longrightarrow> f \<noteq> LWM2M_CONTENT_TEXT \<and> f \<noteq> LWM2M_CONTENT_OPAQUE)"
  by (induction accept) (auto simp: media_defs split: if_splits)

section \<open>Properties\<close>

text \<open>\<open>utils_strncpy\<close> with a readable source and a non-empty destination stays inside both,
  copies the longest prefix of the source string that leaves room for a terminator, terminates
  the copy and returns its length.\<close>

theorem utils_strncpy_correct:
  assumes "c_readable src src_size" and "dest \<noteq> []"
  shows "\<exists>d n. utils_strncpy (Some dest) (Some src) src_size = Some (Some d, n) \<and>
    length d = length dest \<and>
    n = min (length (takeWhile (\<lambda>x. x \<noteq> 0) (take src_size src))) (length dest - 1) \<and>
    take n d = take (length dest - 1) (takeWhile (\<lambda>x. x \<noteq> 0) (take src_size src)) \<and> d ! n = 0"
  using strncpy_content [OF assms refl] by auto

theorem utils_strncpy_correct_witness:
  "\<exists>d n. utils_strncpy (Some (replicate 3 7)) (Some (str ''abcd'')) 4 = Some (Some d, n) \<and>
    length d = length (replicate 3 (7 :: u8)) \<and>
    n = min (length (takeWhile (\<lambda>x. x \<noteq> 0) (take 4 (str ''abcd'')))) (length (replicate 3 (7 :: u8)) - 1) \<and>
    take n d = take (length (replicate 3 (7 :: u8)) - 1) (takeWhile (\<lambda>x. x \<noteq> 0) (take 4 (str ''abcd''))) \<and>
    d ! n = 0"
  by (rule utils_strncpy_correct) (simp_all add: c_readable_def)

text \<open>The response format is one of the requested formats when there are any; a plain text or
  opaque format is chosen only for a single resource value; the request is refused with 4.06
  only when no requested format can be used.\<close>

theorem utils_getResponseFormat_correct:
  assumes "utils_getResponseFormat accept types single = (code, f)"
  shows "(code = COAP_205_CONTENT \<or> code = COAP_406_NOT_ACCEPTABLE) \<and>
    (code = COAP_205_CONTENT \<and> accept \<noteq> [] \<longrightarrow> f \<in> set accept) \<and>
    (code = COAP_205_CONTENT \<and> \<not> single \<longrightarrow> f \<noteq> LWM2M_CONTENT_TEXT \<and> f \<noteq> LWM2M_CONTENT_OPAQUE) \<and>
    (code = COAP_406_NOT_ACCEPTABLE \<longrightarrow> accept \<noteq> [] \<and>
      set accept \<inter> {LWM2M_CONTENT_TLV, LWM2M_CONTENT_TLV_OLD, LWM2M_CONTENT_JSON, LWM2M_CONTENT_JSON_OLD,
        LWM2M_CONTENT_SENML_JSON, LWM2M_CONTENT_SENML_CBOR} = {})"
proof -
  define sg where "sg = (case types of
               [t] \<Rightarrow> if t \<in> {LWM2M_TYPE_OBJECT, LWM2M_TYPE_OBJECT_INSTANCE, LWM2M_TYPE_MULTIPLE_RESOURCE}
                      then False else single
             | _ \<Rightarrow> single)"
  have sg: "single" if "sg" using that by (auto simp: sg_def split: list.splits if_splits)
  have r: "(if accept \<noteq> []
      then case accept_loop sg accept of
             Some f \<Rightarrow> (COAP_205_CONTENT, f)
           | None \<Rightarrow> (COAP_406_NOT_ACCEPTABLE, LWM2M_CONTENT_TEXT)
      else if sg then (COAP_205_CONTENT, LWM2M_CONTENT_TEXT)
      else (COAP_205_CONTENT, LWM2M_CONTENT_SENML_CBOR)) = (code, f)"
    using assms unfolding utils_getResponseFormat_def Let_def sg_def by simp
  have c1: "code = COAP_205_CONTENT \<or> code = COAP_406_NOT_ACCEPTABLE"
    using r by (auto split: if_splits option.splits)
  have c2: "f \<in> set accept" if "code = COAP_205_CONTENT \<and> accept \<noteq> []"
    using r that accept_loop_Some [of sg accept] by (auto simp: coap_codes split: if_splits option.splits)
  have c3: "f \<noteq> LWM2M_CONTENT_TEXT \<and> f \<noteq> LWM2M_CONTENT_OPAQUE" if "code = COAP_205_CONTENT \<and> \<not> single"
    using r that sg accept_loop_Some [of sg accept]
    by (auto simp: coap_codes media_defs split: if_splits option.splits)
  have none: "set as \<inter> {LWM2M_CONTENT_TLV, LWM2M_CONTENT_TLV_OLD, LWM2M_CONTENT_JSON, LWM2M_CONTENT_JSON_OLD,
        LWM2M_CONTENT_SENML_JSON, LWM2M_CONTENT_SENML_CBOR} = {}" if "accept_loop sg as = None" for as
    using that by (induction as) (auto simp: media_defs split: if_splits)
  have c4: "accept \<noteq> [] \<and> set accept \<inter> {LWM2M_CONTENT_TLV, LWM2M_CONTENT_TLV_OLD, LWM2M_CONTENT_JSON,
      LWM2M_CONTENT_JSON_OLD, LWM2M_CONTENT_SENML_JSON, LWM2M_CONTENT_SENML_CBOR} = {}"
    if "code = COAP_406_NOT_ACCEPTABLE"
    using r that none by (auto simp: coap_codes split: if_splits option.splits)
  show ?thesis using c1 c2 c3 c4 by blast
qed

theorem utils_getResponseFormat_correct_witness:
  "fst (utils_getResponseFormat [42, 112] [LWM2M_TYPE_OBJECT_INSTANCE] False) = COAP_205_CONTENT \<and>
   snd (utils_getResponseFormat [42, 112] [LWM2M_TYPE_OBJECT_INSTANCE] False) \<in> set [42, 112]"
  using utils_getResponseFormat_correct [of "[42, 112]" "[LWM2M_TYPE_OBJECT_INSTANCE]" False, OF surjective_pairing]
  by (simp add: utils_getResponseFormat_def media_defs)

end
