(* ===== verification/Base64.thy ===== *)
theory Base64
  imports Utils_Misc
begin

text \<open>
  Base64, \<^verbatim>\<open>core/utils.c\<close>: \<open>utils_base64GetSize\<close>, \<open>utils_base64Encode\<close>,
  \<open>utils_base64GetDecodedSize\<close>, \<open>prv_base64Value\<close> and \<open>utils_base64Decode\<close>.  The loops run
  over what is left of the input (\<open>dataP + data_index\<close>) and write into the output buffer at an
  index; \<open>None\<close> is a write outside the buffer.
\<close>

section \<open>Encoding\<close>

definition PRV_B64_PADDING :: u8 where "PRV_B64_PADDING = chr CHR ''=''"

definition b64Alphabet :: bytes where
  "b64Alphabet = str ''ABCDEFGHIJKLMNOPQRSTUVWXYZabcdefghijklmnopqrstuvwxyz0123456789+/''"

text \<open>\<open>b64Alphabet[i]\<close> for an index computed from bytes.\<close>

definition b64 :: "u8 \<Rightarrow> u8 c" where
  "b64 i = rd b64Alphabet (unat i)"

definition prv_encodeBlock :: "u8 \<Rightarrow> u8 \<Rightarrow> u8 \<Rightarrow> bytes c" where
  "prv_encodeBlock i0 i1 i2 =
     do { o0 \<leftarrow> b64 (drop_bit 2 i0);
          o1 \<leftarrow> b64 (push_bit 4 (i0 AND 0x03) OR drop_bit 4 i1);
          o2 \<leftarrow> b64 (push_bit 2 (i1 AND 0x0F) OR drop_bit 6 i2);
          o3 \<leftarrow> b64 (i2 AND 0x3F);
          Some [o0, o1, o2, o3] }"

definition utils_base64GetSize :: "nat \<Rightarrow> nat" where
  "utils_base64GetSize dataLen = 4 * (dataLen div 3) + (if dataLen mod 3 \<noteq> 0 then 4 else 0)"

fun base64_encode_loop :: "bytes \<Rightarrow> bytes \<Rightarrow> nat \<Rightarrow> bytes c" where
  "base64_encode_loop [] buf r = Some buf"
| "base64_encode_loop [a] buf r =
     do { o0 \<leftarrow> b64 (drop_bit 2 a);
          o1 \<leftarrow> b64 (push_bit 4 (a AND 0x03));
          wr_range buf r [o0, o1, PRV_B64_PADDING, PRV_B64_PADDING] }"
| "base64_encode_loop [a, b] buf r =
     do { o0 \<leftarrow> b64 (drop_bit 2 a);
          o1 \<leftarrow> b64 (push_bit 4 (a AND 0x03) OR drop_bit 4 b);
          o2 \<leftarrow> b64 (push_bit 2 (b AND 0x0F));
          wr_range buf r [o0, o1, o2, PRV_B64_PADDING] }"
| "base64_encode_loop (a # b # c # rest) buf r =
     do { blk \<leftarrow> prv_encodeBlock a b c;
          buf' \<leftarrow> wr_range buf r blk;
          base64_encode_loop rest buf' (r + 4) }"

definition utils_base64Encode :: "bytes \<Rightarrow> bytes \<Rightarrow> (bytes \<times> nat) c" where
  "utils_base64Encode data buffer =
     (let result_len = utils_base64GetSize (length data) in
      if result_len > length buffer then Some (buffer, 0)
      else do { b \<leftarrow> base64_encode_loop data buffer 0; Some (b, result_len) })"

section \<open>Decoding\<close>

definition utils_base64GetDecodedSize :: "bytes \<Rightarrow> nat c" where
  "utils_base64GetDecodedSize data =
     (let n = length data; result = 3 * (n div 4) in
      if n mod 4 = 0
      then if result > 0
           then do { p \<leftarrow> rd data (n - 2);
                     if p = PRV_B64_PADDING then Some (result - 2)
                     else do { q \<leftarrow> rd data (n - 1);
                               Some (if q = PRV_B64_PADDING then result - 1 else result) } }
           else Some result
      else if n mod 4 = 2 then Some (result + 1)
      else if n mod 4 = 3 then Some (result + 2)
      else Some result)"

definition prv_base64Value :: "u8 \<Rightarrow> u8" where
  "prv_base64Value digit =
     (if 65 \<le> digit \<and> digit \<le> 90 then digit - 65
      else if 97 \<le> digit \<and> digit \<le> 122 then digit - 97 + 26
      else if 48 \<le> digit \<and> digit \<le> 57 then digit - 48 + 52
      else if digit = chr CHR ''+'' then 62
      else if digit = chr CHR ''/'' then 63
      else 0xFF)"

text \<open>One round of the loop per group; the inner result is \<open>None\<close> for \<open>return 0\<close>.\<close>

function base64_decode_loop :: "nat \<Rightarrow> bytes \<Rightarrow> bytes \<Rightarrow> nat \<Rightarrow> (bytes \<times> bool) c" where
  "base64_decode_loop decodedSize data buf bi =
     (case data of
        [] \<Rightarrow> Some (buf, True)
      | [_] \<Rightarrow> Some (buf, False)
      | c1 # c2 # rest \<Rightarrow>
          let v1 = prv_base64Value c1; v2 = prv_base64Value c2 in
          if v1 \<ge> 64 then Some (buf, False)
          else if v2 \<ge> 64 then Some (buf, False)
          else do {
            buf1 \<leftarrow> wr buf bi (push_bit 2 v1 + drop_bit 4 v2);
            (case rest of
               [] \<Rightarrow> Some (buf1, True)
             | c3 # rest3 \<Rightarrow>
                 if c3 \<noteq> PRV_B64_PADDING
                 then let v3 = prv_base64Value c3 in
                      if v3 \<ge> 64 then Some (buf1, False)
                      else do {
                        buf2 \<leftarrow> wr buf1 (bi + 1) (push_bit 4 v2 + drop_bit 2 v3);
                        (case rest3 of
                           [] \<Rightarrow> Some (buf2, True)
                         | c4 # rest4 \<Rightarrow>
                             if c4 \<noteq> PRV_B64_PADDING
                             then let v4 = prv_base64Value c4 in
                                  if v4 \<ge> 64 then Some (buf2, False)
                                  else do { buf3 \<leftarrow> wr buf2 (bi + 2) (push_bit 6 v3 + v4);
                                            base64_decode_loop decodedSize rest4 buf3 (bi + 3) }
                             else if bi + 2 \<noteq> decodedSize then Some (buf2, False)
                             else base64_decode_loop decodedSize rest4 buf2 (bi + 2)) }
                 else if bi + 1 \<noteq> decodedSize then Some (buf1, False)
                 else base64_decode_loop decodedSize (drop 1 rest3) buf1 (bi + 1)) })"
  by pat_completeness auto
termination by (relation "measure (\<lambda>(n, d, b, i). length d)") auto

declare base64_decode_loop.simps [simp del]

definition utils_base64Decode :: "bytes \<Rightarrow> bytes \<Rightarrow> (bytes \<times> nat) c" where
  "utils_base64Decode data buffer =
     do { decodedSize \<leftarrow> utils_base64GetDecodedSize data;
          if decodedSize > length buffer then Some (buffer, 0)
          else do { (b, ok) \<leftarrow> base64_decode_loop decodedSize data buffer 0;
                    Some (b, if ok then decodedSize else 0) } }"

section \<open>Six bit groups\<close>

lemma six_bits:
  fixes x :: u8
  assumes "\<And>n. 6 \<le> n \<Longrightarrow> \<not> bit x n"
  shows "unat x < 64"
proof -
  have "x = take_bit 6 x"
    using assms by (intro bit_word_eqI) (auto simp: bit_simps, metis not_le)
  then have "unat x = take_bit 6 (unat x)" by (metis unsigned_take_bit_eq)
  moreover have "take_bit 6 (unat x) < 2 ^ 6" by (rule take_bit_nat_less_exp)
  ultimately show ?thesis by simp
qed

text \<open>The four groups of three bytes.\<close>

definition g1 :: "u8 \<Rightarrow> u8" where "g1 a = drop_bit 2 a"
definition g2 :: "u8 \<Rightarrow> u8 \<Rightarrow> u8" where "g2 a b = push_bit 4 (a AND 0x03) OR drop_bit 4 b"
definition g3 :: "u8 \<Rightarrow> u8 \<Rightarrow> u8" where "g3 b c = push_bit 2 (b AND 0x0F) OR drop_bit 6 c"
definition g4 :: "u8 \<Rightarrow> u8" where "g4 c = c AND 0x3F"

lemma mask_consts: "(0x03 :: u8) = mask 2" "(0x0F :: u8) = mask 4" "(0x3F :: u8) = mask 6"
  by (simp_all add: mask_eq_exp_minus_1)

lemmas group_defs = g1_def g2_def g3_def g4_def mask_consts

lemma u8_bit_ge: "bit (w :: u8) n \<Longrightarrow> n < 8"
  using bit_imp_le_length [of w n] by simp

lemma groups_small:
  "unat (g1 a) < 64" "unat (g2 a b) < 64" "unat (g3 b c) < 64" "unat (g4 c) < 64"
  by (rule six_bits; auto simp: group_defs bit_simps dest: u8_bit_ge)+

lemma disjoint_add: "(\<And>n. \<not> (bit x n \<and> bit y n)) \<Longrightarrow> x + y = x OR y" for x y :: u8
  by (rule disjunctive_add_eq_or) (auto intro!: bit_eqI simp: bit_simps)

lemma add_bits: "bit (x + y) n \<longleftrightarrow> bit x n \<or> bit y n" if "\<And>n. \<not> (bit x n \<and> bit y n)" for x y :: u8
  by (simp add: disjoint_add [OF that] bit_simps)

lemma groups_join:
  "push_bit 2 (g1 a) + drop_bit 4 (g2 a b) = a"
  "push_bit 4 (g2 a b) + drop_bit 2 (g3 b c) = b"
  "push_bit 6 (g3 b c) + g4 c = c"
proof -
  have n8: "n < 8 \<longleftrightarrow> n = 0 \<or> n = 1 \<or> n = 2 \<or> n = 3 \<or> n = 4 \<or> n = 5 \<or> n = 6 \<or> n = 7" for n :: nat
    by auto
  show "push_bit 2 (g1 a) + drop_bit 4 (g2 a b) = a"
    by (subst disjoint_add; (rule bit_word_eqI)?)
       (auto simp: group_defs bit_simps n8 dest: u8_bit_ge, simp_all add: numeral_2_eq_2 numeral_3_eq_3)
  show "push_bit 4 (g2 a b) + drop_bit 2 (g3 b c) = b"
    by (subst disjoint_add; (rule bit_word_eqI)?) (auto simp: group_defs bit_simps n8 dest: u8_bit_ge)
  show "push_bit 6 (g3 b c) + g4 c = c"
    by (subst disjoint_add; (rule bit_word_eqI)?) (auto simp: group_defs bit_simps n8 dest: u8_bit_ge)
qed

section \<open>The alphabet\<close>

lemma length_b64Alphabet [simp]: "length b64Alphabet = 64"
  by (simp add: b64Alphabet_def)

lemma b64_values:
  "list_all (\<lambda>i. prv_base64Value (b64Alphabet ! i) = of_nat i \<and> b64Alphabet ! i \<noteq> PRV_B64_PADDING) [0..<64]"
  by code_simp

lemma b64_value:
  assumes "unat i < 64"
  shows "prv_base64Value (b64Alphabet ! unat i) = i" "b64Alphabet ! unat i \<noteq> PRV_B64_PADDING"
    "b64 i = Some (b64Alphabet ! unat i)" "\<not> i \<ge> 64"
  using b64_values assms by (auto simp: list_all_iff b64_def word_le_nat_alt)

section \<open>The text of a byte sequence\<close>

definition a64 :: "u8 \<Rightarrow> u8" where "a64 i = b64Alphabet ! unat i"

fun b64_text :: "bytes \<Rightarrow> bytes" where
  "b64_text [] = []"
| "b64_text [a] = [a64 (g1 a), a64 (g2 a 0), PRV_B64_PADDING, PRV_B64_PADDING]"
| "b64_text [a, b] = [a64 (g1 a), a64 (g2 a b), a64 (g3 b 0), PRV_B64_PADDING]"
| "b64_text (a # b # c # rest) = a64 (g1 a) # a64 (g2 a b) # a64 (g3 b c) # a64 (g4 c) # b64_text rest"

lemma base64GetSize_step: "utils_base64GetSize (n + 3) = utils_base64GetSize n + 4"
proof -
  have "(n + 3) div 3 = n div 3 + 1" "(n + 3) mod 3 = n mod 3" by simp_all
  then show ?thesis by (simp add: utils_base64GetSize_def)
qed

lemma b64_text_length: "length (b64_text data) = utils_base64GetSize (length data)"
proof (induction data rule: b64_text.induct)
  case (4 a b c rest)
  have "length (a # b # c # rest) = length rest + 3" by simp
  then show ?case using 4 base64GetSize_step [of "length rest"] by (simp add: numeral_3_eq_3)
qed (simp_all add: utils_base64GetSize_def)

lemma b64_a64: "unat i < 64 \<Longrightarrow> b64 i = Some (a64 i)"
  by (simp add: a64_def b64_value(3))

lemma groups_zero: "push_bit 4 (a AND 0x03) = g2 a 0" "push_bit 2 (a AND 0x0F) = g3 a 0"
  by (simp_all add: g2_def g3_def)

lemma base64_encode_last:
  "base64_encode_loop [a] buf r = wr_range buf r (b64_text [a])"
  "base64_encode_loop [a, b] buf r = wr_range buf r (b64_text [a, b])"
  unfolding base64_encode_loop.simps g1_def [symmetric] g2_def [symmetric]
  unfolding groups_zero
  by (simp_all add: b64_a64 groups_small)

lemma base64_encode_loop_text:
  "r + length (b64_text data) \<le> length buf \<Longrightarrow>
   base64_encode_loop data buf r
     = Some (take r buf @ b64_text data @ drop (r + length (b64_text data)) buf)"
proof (induction data buf r rule: base64_encode_loop.induct)
  case (4 a b c rest buf r)
  let ?blk = "[a64 (g1 a), a64 (g2 a b), a64 (g3 b c), a64 (g4 c)]"
  let ?buf = "take r buf @ ?blk @ drop (r + 4) buf"
  have blk: "prv_encodeBlock a b c = Some ?blk"
    unfolding prv_encodeBlock_def g1_def [symmetric] g2_def [symmetric] g3_def [symmetric] g4_def [symmetric]
    by (simp add: b64_a64 groups_small)
  have w: "wr_range buf r ?blk = Some ?buf" using "4.prems" by (simp add: numeral_eq_Suc)
  have room: "r + 4 + length (b64_text rest) \<le> length ?buf" using "4.prems" by simp
  have "take (r + 4) ?buf = take r buf @ ?blk" using "4.prems" by simp
  moreover have "drop (r + 4 + length (b64_text rest)) ?buf = drop (r + 4 + length (b64_text rest)) buf"
    using "4.prems" by (simp add: numeral_eq_Suc ac_simps)
  ultimately show ?case
    using "4.IH" [OF blk w room] blk w by (simp add: numeral_eq_Suc)
next
  case (2 a buf r)
  then show ?case by (simp only: base64_encode_last wr_range_defined)
next
  case (3 a b buf r)
  then show ?case by (simp only: base64_encode_last wr_range_defined)
qed simp

lemma a64_simps:
  "unat i < 64 \<Longrightarrow> prv_base64Value (a64 i) = i"
  "unat i < 64 \<Longrightarrow> a64 i \<noteq> PRV_B64_PADDING"
  "unat i < 64 \<Longrightarrow> \<not> 64 \<le> i"
  using b64_value by (simp_all add: a64_def)

lemma list_update_pair:
  "Suc i < length xs \<Longrightarrow> xs[i := a, Suc i := b] = take i xs @ [a, b] @ drop (i + 2) xs"
  by (rule nth_equalityI)
     (auto simp: nth_append nth_list_update nth_Cons intro!: arg_cong [of _ _ "nth xs"] split: nat.splits)

lemma list_update_triple:
  "i + 2 < length xs \<Longrightarrow> xs[i := a, Suc i := b, Suc (Suc i) := c] = take i xs @ [a, b, c] @ drop (i + 3) xs"
  by (rule nth_equalityI)
     (auto simp: nth_append nth_list_update nth_Cons intro!: arg_cong [of _ _ "nth xs"] split: nat.splits)

text \<open>One round of the decoder on one group of the text.\<close>

lemma base64_decode_groups:
  "bi < length buf \<Longrightarrow> decodedSize = bi + 1 \<Longrightarrow>
   base64_decode_loop decodedSize (b64_text [a]) buf bi = Some (buf[bi := a], True)"
  "bi + 1 < length buf \<Longrightarrow> decodedSize = bi + 2 \<Longrightarrow>
   base64_decode_loop decodedSize (b64_text [a, b]) buf bi = Some (buf[bi := a, Suc bi := b], True)"
  "bi + 2 < length buf \<Longrightarrow>
   base64_decode_loop decodedSize (b64_text (a # b # c # rest)) buf bi
     = base64_decode_loop decodedSize (b64_text rest) (buf[bi := a, Suc bi := b, Suc (Suc bi) := c]) (bi + 3)"
proof -
  note s = a64_simps groups_small groups_join Let_def
  have nil: "base64_decode_loop n [] b i = Some (b, True)" for n b i
    by (subst base64_decode_loop.simps) simp
  show "base64_decode_loop decodedSize (b64_text [a]) buf bi = Some (buf[bi := a], True)"
    if "bi < length buf" "decodedSize = bi + 1"
    using that by (subst base64_decode_loop.simps) (simp add: s nil)
  show "base64_decode_loop decodedSize (b64_text [a, b]) buf bi = Some (buf[bi := a, Suc bi := b], True)"
    if "bi + 1 < length buf" "decodedSize = bi + 2"
    using that by (subst base64_decode_loop.simps) (simp add: s nil)
  show "base64_decode_loop decodedSize (b64_text (a # b # c # rest)) buf bi
     = base64_decode_loop decodedSize (b64_text rest) (buf[bi := a, Suc bi := b, Suc (Suc bi) := c]) (bi + 3)"
    if "bi + 2 < length buf"
    using that by (subst base64_decode_loop.simps) (simp add: s)
qed

text \<open>Decoding the text of a byte sequence restores it, at any position of the buffer.\<close>

lemma base64_decode_loop_text:
  "bi + length data \<le> length buf \<Longrightarrow> decodedSize = bi + length data \<Longrightarrow>
   base64_decode_loop decodedSize (b64_text data) buf bi
     = Some (take bi buf @ data @ drop (bi + length data) buf, True)"
proof (induction data arbitrary: buf bi rule: b64_text.induct)
  case 1
  then show ?case by (subst base64_decode_loop.simps) simp
next
  case (2 a)
  then show ?case
    using base64_decode_groups(1) [of bi buf decodedSize a] by (simp add: upd_conv_take_nth_drop)
next
  case (3 a b)
  then show ?case
    using base64_decode_groups(2) [of bi buf decodedSize a b] by (simp add: list_update_pair)
next
  case (4 a b c rest)
  let ?buf = "take bi buf @ [a, b, c] @ drop (bi + 3) buf"
  have len: "bi + 2 < length buf" using "4.prems" by simp
  have "base64_decode_loop decodedSize (b64_text rest) ?buf (bi + 3)
      = Some (take (bi + 3) ?buf @ rest @ drop (bi + 3 + length rest) ?buf, True)"
    using "4.prems" by (intro "4.IH") auto
  then show ?case
    using "4.prems" base64_decode_groups(3) [OF len, of decodedSize a b c rest] list_update_triple [OF len]
    by (simp add: numeral_eq_Suc ac_simps)
qed

section \<open>The decoded size\<close>

fun dsz :: "bytes \<Rightarrow> nat" where
  "dsz [c1, c2] = 1"
| "dsz [c1, c2, c3] = 2"
| "dsz [c1, c2, c3, c4] = (if c3 = PRV_B64_PADDING then 1 else if c4 = PRV_B64_PADDING then 2 else 3)"
| "dsz (c1 # c2 # c3 # c4 # rest) = 3 + dsz rest"
| "dsz _ = 0"

lemma div_mod_4_step: "(n + 4) div 4 = n div 4 + 1" "(n + 4) mod 4 = n mod 4" for n :: nat
  by simp_all

lemma utils_base64GetDecodedSize_dsz: "utils_base64GetDecodedSize data = Some (dsz data)"
proof (induction data rule: dsz.induct)
  case (4 c1 c2 c3 c4 d rest)
  let ?l = "d # rest"
  let ?n = "length ?l"
  have len: "length (c1 # c2 # c3 # c4 # ?l) = ?n + 4" by simp
  have nth: "(c1 # c2 # c3 # c4 # ?l) ! (?n + 4 - k) = ?l ! (?n - k)" if "k \<le> ?n" for k
  proof -
    have "?n + 4 - k = Suc (Suc (Suc (Suc (?n - k))))" using that by simp
    then show ?thesis by (simp only: nth_Cons_Suc)
  qed
  have big: "4 \<le> ?n" if "?n mod 4 = 0"
    using that by (metis length_Cons mod_less nat.distinct(1) not_less)
  show ?case
  proof (cases "?n mod 4 = 0")
    case True
    then have "2 \<le> ?n" "1 \<le> ?n" "0 < ?n div 4" using big by (simp_all add: div_greater_zero_iff)
    then show ?thesis
      using 4 True nth [of 2] nth [of 1] unfolding utils_base64GetDecodedSize_def len Let_def div_mod_4_step
      by (auto simp: rd_def split: if_splits)
  next
    case False
    then show ?thesis
      using 4 unfolding utils_base64GetDecodedSize_def len Let_def div_mod_4_step
      by (auto split: if_splits)
  qed
qed (simp_all add: utils_base64GetDecodedSize_def)

lemma dsz_b64_text: "dsz (b64_text data) = length data"
proof (induction data rule: b64_text.induct)
  case (4 a b c rest)
  show ?case
  proof (cases "b64_text rest")
    case Nil
    then have "rest = []" by (cases rest rule: b64_text.cases) auto
    then show ?thesis by (simp add: a64_simps groups_small)
  next
    case (Cons x xs)
    then show ?thesis using 4 by simp
  qed
qed (simp_all add: a64_simps groups_small)

text \<open>The decoder stays inside a buffer of the decoded size, whatever its input.\<close>

lemma base64_decode_loop_Nil [simp]: "base64_decode_loop n [] b i = Some (b, True)"
  by (subst base64_decode_loop.simps) simp

lemma base64_decode_loop_defined:
  "bi + dsz data = decodedSize \<Longrightarrow> decodedSize \<le> length buf \<Longrightarrow>
   \<exists>b ok. base64_decode_loop decodedSize data buf bi = Some (b, ok) \<and> length b = length buf"
proof (induction data arbitrary: buf bi rule: dsz.induct)
  case (1 c1 c2)
  then show ?case by (subst base64_decode_loop.simps) (auto simp: Let_def split: if_splits)
next
  case (2 c1 c2 c3)
  then show ?case by (subst base64_decode_loop.simps) (auto simp: Let_def split: if_splits)
next
  case (3 c1 c2 c3 c4)
  then show ?case by (subst base64_decode_loop.simps) (auto simp: Let_def split: if_splits)
next
  case (4 c1 c2 c3 c4 d rest)
  have "\<exists>b ok. base64_decode_loop decodedSize (d # rest) b3 (bi + 3) = Some (b, ok) \<and> length b = length buf"
    if "length b3 = length buf" for b3
    using "4.IH" [of "bi + 3" b3] "4.prems" that by auto
  moreover have "bi + 2 < length buf" using "4.prems" by simp
  ultimately show ?case
    using "4.prems" by (subst base64_decode_loop.simps) (auto simp: Let_def split: if_splits)
next
  case "5_1"
  then show ?case by auto
next
  case "5_2"
  then show ?case by (subst base64_decode_loop.simps) auto
qed

section \<open>Properties\<close>

text \<open>Base64 is a format; the decoder is given a buffer for as many bytes as the text has.\<close>

definition b64_decode :: "bytes \<Rightarrow> bytes option" where
  "b64_decode t = map_option (\<lambda>(b, n). take n b) (utils_base64Decode t (replicate (length t) 0))"

interpretation b64_format: buffer_format "\<lambda>data. True" b64_text b64_decode "\<lambda>data. data"
  "\<lambda>data. utils_base64GetSize (length data)" utils_base64Encode
proof (unfold_locales, goal_cases)
  case (1 data)
  have "length data \<le> length (b64_text data)" by (induction data rule: b64_text.induct) simp_all
  then show ?case
    using base64_decode_loop_text [of 0 data "replicate (length (b64_text data)) 0" "length data"]
    by (simp add: b64_decode_def utils_base64Decode_def utils_base64GetDecodedSize_dsz dsz_b64_text)
next
  case (2 data b)
  then show ?case
    using base64_encode_loop_text [of 0 data b] by (simp add: utils_base64Encode_def b64_text_length Let_def)
qed

text \<open>C17: Base64 encoding any byte sequence with \<open>utils_base64Encode\<close> into a buffer of
  \<open>utils_base64GetSize\<close> bytes or more stays inside it, and \<open>utils_base64Decode\<close> of the text
  written gives back the bytes.\<close>

theorem base64_roundtrip:
  assumes "utils_base64GetSize (length data) \<le> length buffer" and "length data \<le> length buffer'"
  shows "\<exists>b n b'. utils_base64Encode data buffer = Some (b, n) \<and> length b = length buffer \<and>
    n = utils_base64GetSize (length data) \<and>
    utils_base64Decode (take n b) buffer' = Some (b', length data) \<and> take (length data) b' = data"
  using assms base64_encode_loop_text [of 0 data buffer] base64_decode_loop_text [of 0 data buffer' "length data"]
  by (simp add: utils_base64Encode_def utils_base64Decode_def utils_base64GetDecodedSize_dsz
        dsz_b64_text b64_text_length Let_def)

theorem base64_roundtrip_witness:
  "\<exists>b n b'. utils_base64Encode [1, 2, 255, 7] (replicate 8 0) = Some (b, n) \<and>
    length b = length (replicate 8 (0 :: u8)) \<and> n = utils_base64GetSize (length [1, 2, 255, 7 :: u8]) \<and>
    utils_base64Decode (take n b) (replicate 4 0) = Some (b', length [1, 2, 255, 7 :: u8]) \<and>
    take (length [1, 2, 255, 7 :: u8]) b' = [1, 2, 255, 7]"
  by (rule base64_roundtrip) (simp_all add: utils_base64GetSize_def)

text \<open>\<open>utils_base64Decode\<close> never reads or writes out of bounds and always returns, whatever
  text and whatever buffer it is given.\<close>

theorem base64_decode_safe:
  "\<exists>b n. utils_base64Decode data buffer = Some (b, n) \<and> length b = length buffer \<and> n \<le> length buffer"
  using base64_decode_loop_defined [of 0 data "dsz data" buffer]
  by (auto simp: utils_base64Decode_def utils_base64GetDecodedSize_dsz)

end
