(* ===== verification/Lwm2m_Data.thy ===== *)
theory Lwm2m_Data
  imports Base64
begin

text \<open>
  Resource values, \<^verbatim>\<open>data/data.c\<close>: the tree \<open>lwm2m_data_t\<close>, its constructors
  (\<open>lwm2m_data_encode_*\<close>, \<open>lwm2m_data_include\<close>), its readers (\<open>lwm2m_data_decode_*\<close>) and the
  array operations (\<open>lwm2m_data_new\<close>, \<open>lwm2m_data_append\<close>, \<open>lwm2m_data_append_one\<close>).

  The union of a node is a \<open>lwm2m_value\<close>; \<open>asZero\<close> is the union after \<open>memset\<close> to zero, which
  every member reads as zero or empty.  Reading a member other than the one stored is undefined.
  \<open>mem n\<close> says whether an allocation of \<open>n\<close> bytes succeeds.  A \<open>double\<close> is its IEEE 754 bit
  pattern.
\<close>

section \<open>Data\<close>

datatype lwm2m_data_t = Data (data_type: lwm2m_data_type_t) (data_id: u16) (data_value: lwm2m_value)
and lwm2m_value = asZero | asBoolean bool | asInteger u64 | asUnsigned u64 | asFloat u64
  | asBuffer bytes | asChildren "lwm2m_data_t list" | asObjLink u16 u16

text \<open>\<open>sizeof(lwm2m_data_t)\<close> of the LP64 ABI.\<close>

definition sizeof_lwm2m_data_t :: nat where "sizeof_lwm2m_data_t = 24"

fun value_buffer :: "lwm2m_value \<Rightarrow> bytes c" where
  "value_buffer (asBuffer b) = Some b"
| "value_buffer asZero = Some []"
| "value_buffer _ = None"

fun value_integer :: "lwm2m_value \<Rightarrow> u64 c" where
  "value_integer (asInteger i) = Some i"
| "value_integer asZero = Some 0"
| "value_integer _ = None"

fun value_unsigned :: "lwm2m_value \<Rightarrow> u64 c" where
  "value_unsigned (asUnsigned i) = Some i"
| "value_unsigned asZero = Some 0"
| "value_unsigned _ = None"

fun value_float :: "lwm2m_value \<Rightarrow> u64 c" where
  "value_float (asFloat d) = Some d"
| "value_float asZero = Some 0"
| "value_float _ = None"

fun value_boolean :: "lwm2m_value \<Rightarrow> bool c" where
  "value_boolean (asBoolean b) = Some b"
| "value_boolean asZero = Some False"
| "value_boolean _ = None"

fun value_objlink :: "lwm2m_value \<Rightarrow> (u16 \<times> u16) c" where
  "value_objlink (asObjLink a b) = Some (a, b)"
| "value_objlink asZero = Some (0, 0)"
| "value_objlink _ = None"

section \<open>Memory representation of integers\<close>

text \<open>The bytes of an object in a little endian memory, and the object read from them.\<close>

definition le_bytes :: "nat \<Rightarrow> u64 \<Rightarrow> bytes" where
  "le_bytes n w = map (\<lambda>i. ucast (drop_bit (8 * i) w)) [0..<n]"

fun of_le :: "bytes \<Rightarrow> 'a::len word" where
  "of_le [] = 0"
| "of_le (b # bs) = ucast b OR push_bit 8 (of_le bs)"

section \<open>Constructors\<close>

text \<open>\<open>prv_setBuffer\<close>: the new value, \<open>None\<close> inside when the allocation fails (return 0).\<close>

definition prv_setBuffer :: "(nat \<Rightarrow> bool) \<Rightarrow> bytes \<Rightarrow> lwm2m_value option" where
  "prv_setBuffer mem buffer = (if mem (length buffer) then Some (asBuffer buffer) else None)"

definition lwm2m_data_new :: "(nat \<Rightarrow> bool) \<Rightarrow> int \<Rightarrow> lwm2m_data_t list option" where
  "lwm2m_data_new mem n =
     (if n \<le> 0 then None
      else if mem (nat n * sizeof_lwm2m_data_t)
      then Some (replicate (nat n) (Data LWM2M_TYPE_UNDEFINED 0 asZero)) else None)"

text \<open>A string is its bytes up to the terminating zero; a failed allocation leaves a \<open>NULL\<close>
  buffer and the type undefined.\<close>

definition lwm2m_data_encode_opaque :: "(nat \<Rightarrow> bool) \<Rightarrow> bytes \<Rightarrow> lwm2m_data_t \<Rightarrow> lwm2m_data_t" where
  "lwm2m_data_encode_opaque mem buffer d =
     (if buffer = [] then Data LWM2M_TYPE_OPAQUE (data_id d) (asBuffer [])
      else case prv_setBuffer mem buffer of
             Some v \<Rightarrow> Data LWM2M_TYPE_OPAQUE (data_id d) v
           | None \<Rightarrow> Data LWM2M_TYPE_UNDEFINED (data_id d) asZero)"

definition lwm2m_data_encode_nstring :: "(nat \<Rightarrow> bool) \<Rightarrow> bytes \<Rightarrow> lwm2m_data_t \<Rightarrow> lwm2m_data_t" where
  "lwm2m_data_encode_nstring mem s d =
     (let d' = lwm2m_data_encode_opaque mem s d in
      if data_type d' = LWM2M_TYPE_OPAQUE then Data LWM2M_TYPE_STRING (data_id d') (data_value d') else d')"

definition lwm2m_data_encode_string :: "(nat \<Rightarrow> bool) \<Rightarrow> bytes option \<Rightarrow> lwm2m_data_t \<Rightarrow> lwm2m_data_t c" where
  "lwm2m_data_encode_string mem s d =
     do { text \<leftarrow> (case s of None \<Rightarrow> Some [] | Some b \<Rightarrow> do { n \<leftarrow> strlen b; Some (take n b) });
          Some (if text = [] then Data LWM2M_TYPE_STRING (data_id d) (asBuffer [])
                else case prv_setBuffer mem text of
                       Some v \<Rightarrow> Data LWM2M_TYPE_STRING (data_id d) v
                     | None \<Rightarrow> Data LWM2M_TYPE_UNDEFINED (data_id d) asZero) }"

definition lwm2m_data_encode_corelink :: "(nat \<Rightarrow> bool) \<Rightarrow> bytes option \<Rightarrow> lwm2m_data_t \<Rightarrow> lwm2m_data_t c" where
  "lwm2m_data_encode_corelink mem corelink d =
     do { d' \<leftarrow> lwm2m_data_encode_string mem corelink d;
          Some (if data_type d' = LWM2M_TYPE_STRING
                then Data LWM2M_TYPE_CORE_LINK (data_id d') (data_value d') else d') }"

definition lwm2m_data_encode_int :: "u64 \<Rightarrow> lwm2m_data_t \<Rightarrow> lwm2m_data_t" where
  "lwm2m_data_encode_int v d = Data LWM2M_TYPE_INTEGER (data_id d) (asInteger v)"

definition lwm2m_data_encode_uint :: "u64 \<Rightarrow> lwm2m_data_t \<Rightarrow> lwm2m_data_t" where
  "lwm2m_data_encode_uint v d = Data LWM2M_TYPE_UNSIGNED_INTEGER (data_id d) (asUnsigned v)"

definition lwm2m_data_encode_float :: "u64 \<Rightarrow> lwm2m_data_t \<Rightarrow> lwm2m_data_t" where
  "lwm2m_data_encode_float v d = Data LWM2M_TYPE_FLOAT (data_id d) (asFloat v)"

definition lwm2m_data_encode_bool :: "bool \<Rightarrow> lwm2m_data_t \<Rightarrow> lwm2m_data_t" where
  "lwm2m_data_encode_bool v d = Data LWM2M_TYPE_BOOLEAN (data_id d) (asBoolean v)"

definition lwm2m_data_encode_objlink :: "u16 \<Rightarrow> u16 \<Rightarrow> lwm2m_data_t \<Rightarrow> lwm2m_data_t" where
  "lwm2m_data_encode_objlink oid iid d = Data LWM2M_TYPE_OBJECT_LINK (data_id d) (asObjLink oid iid)"

definition lwm2m_data_include :: "lwm2m_data_t list \<Rightarrow> lwm2m_data_t \<Rightarrow> lwm2m_data_t" where
  "lwm2m_data_include subData d =
     (case subData of
        [] \<Rightarrow> d
      | x # _ \<Rightarrow>
          Data (if data_type x \<in> {LWM2M_TYPE_STRING, LWM2M_TYPE_OPAQUE, LWM2M_TYPE_INTEGER,
                    LWM2M_TYPE_UNSIGNED_INTEGER, LWM2M_TYPE_FLOAT, LWM2M_TYPE_BOOLEAN,
                    LWM2M_TYPE_OBJECT_LINK, LWM2M_TYPE_CORE_LINK, LWM2M_TYPE_MULTIPLE_RESOURCE}
                then LWM2M_TYPE_OBJECT_INSTANCE
                else if data_type x = LWM2M_TYPE_OBJECT_INSTANCE then LWM2M_TYPE_OBJECT
                else LWM2M_TYPE_MULTIPLE_RESOURCE)
            (data_id d) (asChildren subData))"

definition lwm2m_data_encode_instances :: "lwm2m_data_t list \<Rightarrow> lwm2m_data_t \<Rightarrow> lwm2m_data_t" where
  "lwm2m_data_encode_instances subData d =
     (let d' = lwm2m_data_include subData d in
      Data LWM2M_TYPE_MULTIPLE_RESOURCE (data_id d') (data_value d'))"

section \<open>Readers\<close>

text \<open>The inner \<open>None\<close> is the returned 0.\<close>

definition lwm2m_data_decode_int :: "lwm2m_data_t \<Rightarrow> u64 option c" where
  "lwm2m_data_decode_int d =
     (case data_type d of
        LWM2M_TYPE_INTEGER \<Rightarrow> do { v \<leftarrow> value_integer (data_value d); Some (Some v) }
      | LWM2M_TYPE_UNSIGNED_INTEGER \<Rightarrow>
          do { v \<leftarrow> value_unsigned (data_value d); Some (if v \<le> 0x7FFFFFFFFFFFFFFF then Some v else None) }
      | LWM2M_TYPE_STRING \<Rightarrow> do { b \<leftarrow> value_buffer (data_value d); Some (utils_textToInt b) }
      | LWM2M_TYPE_OPAQUE \<Rightarrow>
          do { b \<leftarrow> value_buffer (data_value d);
               Some (if length b = 1 then Some (scast (b ! 0))
                     else if length b = 2 then Some (scast (of_le (utils_copyValue b) :: u16))
                     else if length b = 4 then Some (scast (of_le (utils_copyValue b) :: u32))
                     else if length b = 8 then Some (of_le (utils_copyValue b))
                     else None) }
      | _ \<Rightarrow> Some None)"

definition lwm2m_data_decode_uint :: "lwm2m_data_t \<Rightarrow> u64 option c" where
  "lwm2m_data_decode_uint d =
     (case data_type d of
        LWM2M_TYPE_INTEGER \<Rightarrow>
          do { v \<leftarrow> value_integer (data_value d); Some (if sint v \<ge> 0 then Some v else None) }
      | LWM2M_TYPE_UNSIGNED_INTEGER \<Rightarrow> do { v \<leftarrow> value_unsigned (data_value d); Some (Some v) }
      | LWM2M_TYPE_STRING \<Rightarrow> do { b \<leftarrow> value_buffer (data_value d); Some (utils_textToUInt b) }
      | LWM2M_TYPE_OPAQUE \<Rightarrow>
          do { b \<leftarrow> value_buffer (data_value d);
               Some (if length b = 1 then Some (ucast (b ! 0))
                     else if length b = 2 then Some (ucast (of_le (utils_copyValue b) :: u16))
                     else if length b = 4 then Some (ucast (of_le (utils_copyValue b) :: u32))
                     else if length b = 8 then Some (of_le (utils_copyValue b))
                     else None) }
      | _ \<Rightarrow> Some None)"

definition lwm2m_data_decode_bool :: "lwm2m_data_t \<Rightarrow> bool option c" where
  "lwm2m_data_decode_bool d =
     (case data_type d of
        LWM2M_TYPE_BOOLEAN \<Rightarrow> do { v \<leftarrow> value_boolean (data_value d); Some (Some v) }
      | LWM2M_TYPE_STRING \<Rightarrow>
          do { b \<leftarrow> value_buffer (data_value d);
               Some (if length b \<noteq> 1 then None
                     else if b ! 0 = chr CHR ''0'' then Some False
                     else if b ! 0 = chr CHR ''1'' then Some True else None) }
      | LWM2M_TYPE_OPAQUE \<Rightarrow>
          do { b \<leftarrow> value_buffer (data_value d);
               Some (if length b \<noteq> 1 then None
                     else if b ! 0 = 0 then Some False
                     else if b ! 0 = 1 then Some True else None) }
      | _ \<Rightarrow> Some None)"

section \<open>Arrays\<close>

text \<open>\<open>lwm2m_data_append\<close> on \<open>*dataP\<close> with \<open>*sizeP\<close> entries; the sum of the two sizes is a C
  \<open>int\<close>.  The result is the new array and the returned value.\<close>

definition lwm2m_data_append ::
  "(nat \<Rightarrow> bool) \<Rightarrow> lwm2m_data_t list \<Rightarrow> lwm2m_data_t list \<Rightarrow> (lwm2m_data_t list \<times> bool) c" where
  "lwm2m_data_append mem dat add =
     do { tmpSize \<leftarrow> int_c (int (length dat) + int (length add));
          let result = (add = []);
          if dat = [] then Some (add, True)
          else if tmpSize > int (length dat) \<and> tmpSize > int (length add)
          then (case lwm2m_data_new mem tmpSize of
                  Some tmp \<Rightarrow> do { t1 \<leftarrow> wr_range tmp 0 dat; t2 \<leftarrow> wr_range t1 (length dat) add; Some (t2, True) }
                | None \<Rightarrow> Some (dat, result))
          else Some (dat, result) }"

definition lwm2m_data_append_one ::
  "(nat \<Rightarrow> bool) \<Rightarrow> lwm2m_data_t list \<Rightarrow> lwm2m_data_type_t \<Rightarrow> u16 \<Rightarrow> (lwm2m_data_t list \<times> bool) c" where
  "lwm2m_data_append_one mem dat ty i =
     do { tmpSize \<leftarrow> int_c (int (length dat) + 1);
          if tmpSize > int (length dat)
          then (case lwm2m_data_new mem tmpSize of
                  Some tmp \<Rightarrow>
                    do { t1 \<leftarrow> wr_range tmp 0 dat;
                         x \<leftarrow> rd t1 (length dat);
                         t2 \<leftarrow> wr t1 (length dat) (Data ty i (data_value x));
                         Some (t2, True) }
                | None \<Rightarrow> Some (dat, False))
          else Some (dat, False) }"

section \<open>Lemmas\<close>

lemma length_le_bytes [simp]: "length (le_bytes n w) = n"
  by (simp add: le_bytes_def)

lemma le_bytes_Suc: "le_bytes (Suc n) w = ucast w # le_bytes n (drop_bit 8 w)"
proof -
  have "[0..<Suc n] = 0 # map Suc [0..<n]" by (simp add: map_Suc_upt upt_conv_Cons del: upt_Suc)
  then show ?thesis by (simp add: le_bytes_def drop_bit_drop_bit ac_simps del: upt_Suc)
qed

lemma bit_of_le:
  "bit (of_le (le_bytes n w) :: 'a::len word) i \<longleftrightarrow> i < LENGTH('a) \<and> i < 8 * n \<and> bit w i"
proof (induction n arbitrary: w i)
  case 0
  then show ?case by (simp add: le_bytes_def)
next
  case (Suc n)
  show ?case
  proof (cases "i < 8")
    case True
    then show ?thesis by (auto simp: le_bytes_Suc bit_simps)
  next
    case False
    then have "bit w (8 + (i - 8)) = bit w i" by simp
    then show ?thesis using False Suc [of "drop_bit 8 w" "i - 8"]
      by (auto simp: le_bytes_Suc bit_simps)
  qed
qed

lemma of_le_le_bytes:
  "of_le (le_bytes (LENGTH('a) div 8) w) = (ucast w :: 'a::len word)" if "8 dvd LENGTH('a)"
  using that by (intro bit_word_eqI) (auto simp: bit_of_le bit_simps)

lemma append_ok:
  assumes "\<And>n. mem n" and "int (length dat) + int (length add) \<le> INT_MAX"
  shows "lwm2m_data_append mem dat add = Some (dat @ add, True)"
proof -
  have ic: "int_c (int (length dat) + int (length add)) = Some (int (length dat) + int (length add))"
    using assms(2) by (simp add: int_c_def INT_MIN_def)
  have new: "lwm2m_data_new mem (int (length dat) + int (length add))
      = Some (replicate (length dat + length add) (Data LWM2M_TYPE_UNDEFINED 0 asZero))" if "dat \<noteq> []"
  proof -
    have "0 < length dat" using that by simp
    then have "\<not> int (length dat) + int (length add) \<le> 0" by linarith
    then show ?thesis using assms(1) by (simp add: lwm2m_data_new_def nat_add_distrib)
  qed
  show ?thesis
  proof (cases "dat = [] \<or> add = []")
    case True
    then show ?thesis using ic by (auto simp: lwm2m_data_append_def Let_def)
  next
    case False
    then show ?thesis
      using ic new assms(1) by (simp add: lwm2m_data_append_def Let_def)
  qed
qed

end
