(* ===== verification/Tlv.thy ===== *)
theory Tlv
  imports Lwm2m_Data
begin

text \<open>
  The LwM2M TLV format, \<^verbatim>\<open>data/tlv.c\<close>: record headers (\<open>prv_getHeaderLength\<close>,
  \<open>prv_createHeader\<close>, \<open>lwm2m_decode_TLV\<close>), values (\<open>prv_encodeInt\<close>, \<open>prv_encodeUInt\<close>,
  \<open>prv_encodeFloat\<close>), \<open>tlv_parse\<close>, \<open>prv_getLength\<close> and \<open>tlv_serialize\<close>.

  Sizes are \<open>nat\<close>; where the code stores them in an \<open>int\<close> the conversion is written out.  The
  serializer writes into a buffer of exactly the computed length, so a write outside it is
  undefined.
\<close>

section \<open>Values\<close>

text \<open>\<open>(float) d\<close> on bit patterns: IEEE 754 binary64 to binary32, round to nearest even.\<close>

definition round_even :: "nat \<Rightarrow> nat \<Rightarrow> nat" where
  "round_even sig shift =
     (let q = sig div 2 ^ shift; r = sig mod 2 ^ shift; half = 2 ^ (shift - 1) in
      if r > half \<or> (r = half \<and> odd q) then q + 1 else q)"

definition double_to_float :: "u64 \<Rightarrow> u32" where
  "double_to_float d =
     (let s = (if bit d 63 then 0x80000000 else 0 :: nat);
          e = unat (drop_bit 52 d AND 0x7FF);
          m = unat (d AND mask 52) in
      of_nat
        (if e = 2047 then if m = 0 then s + 0x7F800000 else s + 0x7FC00000 + (m div 2 ^ 29) mod 2 ^ 22
         else if e > 1150 then s + 0x7F800000
         else if e \<ge> 897 then s + round_even ((e - 896) * 2 ^ 52 + m) 29
         else if e \<ge> 872 then s + round_even (2 ^ 52 + m) (29 + (897 - e))
         else s))"

text \<open>\<open>data < -FLT_MAX || data > FLT_MAX\<close>: \<open>FLT_MAX\<close> is the double 0x47EFFFFFE0000000, and
  the comparison is false for a NaN.\<close>

definition above_flt_max :: "u64 \<Rightarrow> bool" where
  "above_flt_max d \<longleftrightarrow>
     (let a = d AND mask 63 in a > 0x47EFFFFFE0000000 \<and> a \<le> 0x7FF0000000000000)"

definition prv_encodeFloat :: "u64 \<Rightarrow> bytes" where
  "prv_encodeFloat d =
     (if above_flt_max d then utils_copyValue (le_bytes 8 d)
      else utils_copyValue (le_bytes 4 (ucast (double_to_float d))))"

definition prv_encodeInt :: "u64 \<Rightarrow> bytes" where
  "prv_encodeInt d =
     (if sint d \<ge> - 128 \<and> sint d \<le> 127 then [ucast d]
      else if sint d \<ge> - 32768 \<and> sint d \<le> 32767
      then let v = ucast d :: u16 in [ucast (drop_bit 8 v), ucast v]
      else if sint d \<ge> - 2147483648 \<and> sint d \<le> 2147483647 then utils_copyValue (le_bytes 4 d)
      else utils_copyValue (le_bytes 8 d))"

definition prv_encodeUInt :: "u64 \<Rightarrow> bytes" where
  "prv_encodeUInt d =
     (if d \<le> 0xFF then [ucast d]
      else if d \<le> 0xFFFF then let v = ucast d :: u16 in [ucast (drop_bit 8 v), ucast v]
      else if d \<le> 0xFFFFFFFF then utils_copyValue (le_bytes 4 d)
      else utils_copyValue (le_bytes 8 d))"

section \<open>Record headers\<close>

definition PRV_TLV_TYPE_MASK :: u8 where "PRV_TLV_TYPE_MASK = 0xC0"
definition PRV_TLV_TYPE_UNKNOWN :: u8 where "PRV_TLV_TYPE_UNKNOWN = 0xFF"
definition PRV_TLV_TYPE_OBJECT :: u8 where "PRV_TLV_TYPE_OBJECT = 0x10"
definition PRV_TLV_TYPE_OBJECT_INSTANCE :: u8 where "PRV_TLV_TYPE_OBJECT_INSTANCE = 0x00"
definition PRV_TLV_TYPE_RESOURCE :: u8 where "PRV_TLV_TYPE_RESOURCE = 0xC0"
definition PRV_TLV_TYPE_MULTIPLE_RESOURCE :: u8 where "PRV_TLV_TYPE_MULTIPLE_RESOURCE = 0x80"
definition PRV_TLV_TYPE_RESOURCE_INSTANCE :: u8 where "PRV_TLV_TYPE_RESOURCE_INSTANCE = 0x40"

lemmas tlv_type_defs = PRV_TLV_TYPE_MASK_def PRV_TLV_TYPE_UNKNOWN_def PRV_TLV_TYPE_OBJECT_def
  PRV_TLV_TYPE_OBJECT_INSTANCE_def PRV_TLV_TYPE_RESOURCE_def PRV_TLV_TYPE_MULTIPLE_RESOURCE_def
  PRV_TLV_TYPE_RESOURCE_INSTANCE_def

definition prv_getHeaderType :: "lwm2m_data_type_t \<Rightarrow> u8" where
  "prv_getHeaderType ty =
     (case ty of
        LWM2M_TYPE_OBJECT \<Rightarrow> PRV_TLV_TYPE_OBJECT
      | LWM2M_TYPE_OBJECT_INSTANCE \<Rightarrow> PRV_TLV_TYPE_OBJECT_INSTANCE
      | LWM2M_TYPE_MULTIPLE_RESOURCE \<Rightarrow> PRV_TLV_TYPE_MULTIPLE_RESOURCE
      | LWM2M_TYPE_UNDEFINED \<Rightarrow> PRV_TLV_TYPE_UNKNOWN
      | _ \<Rightarrow> PRV_TLV_TYPE_RESOURCE)"

definition prv_getDataType :: "u8 \<Rightarrow> lwm2m_data_type_t" where
  "prv_getDataType t =
     (if t = PRV_TLV_TYPE_OBJECT then LWM2M_TYPE_OBJECT
      else if t = PRV_TLV_TYPE_OBJECT_INSTANCE then LWM2M_TYPE_OBJECT_INSTANCE
      else if t = PRV_TLV_TYPE_MULTIPLE_RESOURCE then LWM2M_TYPE_MULTIPLE_RESOURCE
      else if t = PRV_TLV_TYPE_RESOURCE \<or> t = PRV_TLV_TYPE_RESOURCE_INSTANCE then LWM2M_TYPE_OPAQUE
      else LWM2M_TYPE_UNDEFINED)"

definition prv_getHeaderLength :: "u16 \<Rightarrow> nat \<Rightarrow> nat" where
  "prv_getHeaderLength i dataLen =
     2 + (if i > 0xFF then 1 else 0) +
     (if dataLen > 0xFFFF then 3 else if dataLen > 0xFF then 2 else if dataLen > 7 then 1 else 0)"

text \<open>The bytes \<open>prv_createHeader\<close> stores.  For more than \<open>0xFFFFFF\<close> bytes of data no length
  is stored although \<open>prv_getHeaderLength\<close> counts three bytes for it.\<close>

definition header_bytes :: "bool \<Rightarrow> lwm2m_data_type_t \<Rightarrow> u16 \<Rightarrow> nat \<Rightarrow> bytes" where
  "header_bytes isInstance ty i data_len =
     (let hdrType = (if isInstance then PRV_TLV_TYPE_RESOURCE_INSTANCE else prv_getHeaderType ty);
          h = hdrType AND PRV_TLV_TYPE_MASK;
          (h, ids) = (if i > 0xFF then (h OR 0x20, [ucast (drop_bit 8 i), ucast i]) else (h, [ucast i]));
          (h, lens) = (if data_len \<le> 7 then (h + of_nat data_len, [])
                       else if data_len \<le> 0xFF then (h OR 0x08, [of_nat data_len])
                       else if data_len \<le> 0xFFFF
                       then (h OR 0x10, [of_nat (data_len div 2 ^ 8), of_nat data_len])
                       else if data_len \<le> 0xFFFFFF
                       then (h OR 0x18, [of_nat (data_len div 2 ^ 16), of_nat (data_len div 2 ^ 8), of_nat data_len])
                       else (h, []))
      in h # ids @ lens)"

definition prv_createHeader ::
  "bytes \<Rightarrow> nat \<Rightarrow> bool \<Rightarrow> lwm2m_data_type_t \<Rightarrow> u16 \<Rightarrow> nat \<Rightarrow> (bytes \<times> nat) c" where
  "prv_createHeader buf index isInstance ty i data_len =
     do { b \<leftarrow> wr_range buf index (header_bytes isInstance ty i data_len);
          Some (b, prv_getHeaderLength i data_len) }"

text \<open>\<open>lwm2m_decode_TLV\<close> on \<open>buffer[0..buffer_len)\<close>: \<open>None\<close> where it returns 0, otherwise the
  type, the identifier, the index and the length of the data; the value returned is the sum of
  the last two.\<close>

definition be :: "bytes \<Rightarrow> nat" where
  "be bs = foldl (\<lambda>acc b. acc * 256 + unat b) 0 bs"

definition lwm2m_decode_TLV :: "bytes \<Rightarrow> (lwm2m_data_type_t \<times> u16 \<times> nat \<times> nat) option" where
  "lwm2m_decode_TLV buffer =
     (let n = length buffer in
      if n < 2 then None
      else let b0 = buffer ! 0; ty = prv_getDataType (b0 AND PRV_TLV_TYPE_MASK) in
      if b0 AND 0x20 = 0x20 \<and> n < 3 then None
      else let (i, idx) = (if b0 AND 0x20 = 0x20
             then (push_bit 8 (ucast (buffer ! 1)) + ucast (buffer ! 2), 3) else (ucast (buffer ! 1), 2));
             fin = (\<lambda>idx len. if idx + len > n then None else Some (ty, i, idx, len)) in
      if b0 AND 0x18 = 0 then fin idx (unat (b0 AND 0x07))
      else if b0 AND 0x18 = 0x08
      then if n < idx + 1 then None else fin (idx + 1) (be (take 1 (drop idx buffer)))
      else if b0 AND 0x18 = 0x10
      then if n < idx + 2 then None else fin (idx + 2) (be (take 2 (drop idx buffer)))
      else if n < idx + 3 then None else fin (idx + 3) (be (take 3 (drop idx buffer))))"

text \<open>Every record takes at least two bytes.\<close>

lemma lwm2m_decode_TLV_bounds:
  assumes "lwm2m_decode_TLV buffer = Some (ty, i, idx, len)"
  shows "2 \<le> idx" "idx + len \<le> length buffer"
  using assms by (auto simp: lwm2m_decode_TLV_def Let_def split: if_splits)

lemma lwm2m_decode_TLV_decreases:
  assumes "lwm2m_decode_TLV buffer = Some (ty, i, idx, len)"
  shows "length (take len (drop idx buffer)) < length buffer \<and>
    length (drop (idx + len) buffer) < length buffer"
  using lwm2m_decode_TLV_bounds [OF assms] by simp

section \<open>Parsing\<close>

text \<open>The \<open>while\<close> loop of \<open>tlv_parse\<close> on what is left of the buffer; \<open>acc\<close> is \<open>*dataP\<close>.  The
  result is the array and whether the loop was left by \<open>return 0\<close> (\<open>None\<close> inside).  When the
  very first allocation fails the code stores through a null pointer.\<close>

function tlv_parse_loop :: "(nat \<Rightarrow> bool) \<Rightarrow> bytes \<Rightarrow> lwm2m_data_t list \<Rightarrow> lwm2m_data_t list option c" where
  "tlv_parse_loop mem buffer acc =
     (case lwm2m_decode_TLV buffer of
        None \<Rightarrow> Some (Some acc)
      | Some (ty, i, dataIndex, dataLen) \<Rightarrow>
          (case lwm2m_data_new mem (int (length acc) + 1) of
             None \<Rightarrow> if length acc \<ge> 1 then Some None else None
           | Some _ \<Rightarrow>
               let val = take dataLen (drop dataIndex buffer); rest = drop (dataIndex + dataLen) buffer in
               if ty = LWM2M_TYPE_OBJECT_INSTANCE \<or> ty = LWM2M_TYPE_MULTIPLE_RESOURCE
               then do { sub \<leftarrow> tlv_parse_loop mem val [];
                         (case sub of
                            None \<Rightarrow> Some None
                          | Some cs \<Rightarrow> if cs = [] then Some None
                                        else tlv_parse_loop mem rest (acc @ [Data ty i (asChildren cs)])) }
               else tlv_parse_loop mem rest (acc @ [lwm2m_data_encode_opaque mem val (Data ty i asZero)])))"
  by pat_completeness auto
termination
  by (relation "measure (\<lambda>(m, b, a). length b)")
     (auto dest!: lwm2m_decode_TLV_decreases)

declare tlv_parse_loop.simps [simp del]

text \<open>\<open>tlv_parse\<close>: the returned size and \<open>*dataP\<close>.\<close>

definition tlv_parse :: "(nat \<Rightarrow> bool) \<Rightarrow> bytes \<Rightarrow> (int \<times> lwm2m_data_t list) c" where
  "tlv_parse mem buffer =
     do { r \<leftarrow> tlv_parse_loop mem buffer [];
          Some (case r of None \<Rightarrow> (0, []) | Some ds \<Rightarrow> (int (length ds), ds)) }"

section \<open>Serializing\<close>

text \<open>Storing a size in an \<open>int\<close>, and passing an \<open>int\<close> as a \<open>size_t\<close>.\<close>

definition to_int :: "int \<Rightarrow> int" where
  "to_int x = sint (word_of_int x :: u32)"

definition to_size :: "int \<Rightarrow> nat" where
  "to_size x = unat (word_of_int x :: u64)"

definition add_record :: "int \<Rightarrow> u16 \<Rightarrow> nat \<Rightarrow> int" where
  "add_record len i dataLen = to_int (len + int (prv_getHeaderLength i dataLen) + int dataLen)"

fun prv_getLength_from :: "int \<Rightarrow> lwm2m_data_t list \<Rightarrow> int c" where
  "prv_getLength_from len [] = Some len"
| "prv_getLength_from len (Data ty i v # rest) =
     (if len = - 1 then Some len
      else do {
        len' \<leftarrow> (case ty of
            LWM2M_TYPE_OBJECT_INSTANCE \<Rightarrow>
              (case v of
                 asChildren cs \<Rightarrow> do { sub \<leftarrow> prv_getLength_from 0 cs;
                   Some (if sub = - 1 then - 1 else add_record len i (to_size sub)) }
               | asZero \<Rightarrow> Some (add_record len i 0)
               | _ \<Rightarrow> None)
          | LWM2M_TYPE_MULTIPLE_RESOURCE \<Rightarrow>
              (case v of
                 asChildren cs \<Rightarrow> do { sub \<leftarrow> prv_getLength_from 0 cs;
                   Some (if sub = - 1 then - 1 else add_record len i (to_size sub)) }
               | asZero \<Rightarrow> Some (add_record len i 0)
               | _ \<Rightarrow> None)
          | LWM2M_TYPE_STRING \<Rightarrow> do { b \<leftarrow> value_buffer v; Some (add_record len i (length b)) }
          | LWM2M_TYPE_OPAQUE \<Rightarrow> do { b \<leftarrow> value_buffer v; Some (add_record len i (length b)) }
          | LWM2M_TYPE_CORE_LINK \<Rightarrow> do { b \<leftarrow> value_buffer v; Some (add_record len i (length b)) }
          | LWM2M_TYPE_INTEGER \<Rightarrow>
              do { x \<leftarrow> value_integer v; Some (add_record len i (length (prv_encodeInt x))) }
          | LWM2M_TYPE_UNSIGNED_INTEGER \<Rightarrow>
              do { x \<leftarrow> value_unsigned v; Some (add_record len i (length (prv_encodeUInt x))) }
          | LWM2M_TYPE_FLOAT \<Rightarrow>
              do { x \<leftarrow> value_float v; Some (add_record len i (if above_flt_max x then 8 else 4)) }
          | LWM2M_TYPE_BOOLEAN \<Rightarrow> Some (add_record len i 1)
          | LWM2M_TYPE_OBJECT_LINK \<Rightarrow> Some (add_record len i 4)
          | _ \<Rightarrow> Some (- 1));
        prv_getLength_from len' rest })"

definition prv_getLength :: "lwm2m_data_t list \<Rightarrow> int c" where
  "prv_getLength data = prv_getLength_from 0 data"

text \<open>Header and value of one record at \<open>index\<close>; the new \<open>index\<close> is returned.\<close>

definition put_record ::
  "bytes \<Rightarrow> nat \<Rightarrow> bool \<Rightarrow> lwm2m_data_type_t \<Rightarrow> u16 \<Rightarrow> bytes \<Rightarrow> (bytes \<times> nat) c" where
  "put_record buf index isInstance ty i val =
     do { (b, headerLen) \<leftarrow> prv_createHeader buf index isInstance ty i (length val);
          b' \<leftarrow> (if val = [] then Some b else wr_range b (index + headerLen) val);
          Some (b', index + headerLen + length val) }"

definition objlink_bytes :: "u16 \<Rightarrow> u16 \<Rightarrow> bytes" where
  "objlink_bytes oid iid =
     (let v = push_bit 16 (ucast oid) OR ucast iid :: u32 in
      [ucast (drop_bit 24 v), ucast (drop_bit 16 v), ucast (drop_bit 8 v), ucast v])"

function tlv_serialize ::
    "(nat \<Rightarrow> bool) \<Rightarrow> bool \<Rightarrow> lwm2m_data_t list \<Rightarrow> (int \<times> bytes option) c"
  and tlv_serialize_loop ::
    "(nat \<Rightarrow> bool) \<Rightarrow> bool \<Rightarrow> lwm2m_data_t list \<Rightarrow> bytes \<Rightarrow> nat \<Rightarrow> bool \<Rightarrow> (bytes \<times> nat \<times> bool) c"
where
  "tlv_serialize mem isResourceInstance data =
     do { len \<leftarrow> prv_getLength data;
          if len \<le> 0 then Some (len, None)
          else if \<not> mem (nat len) then Some (0, None)
          else do { (b, _, ok) \<leftarrow> tlv_serialize_loop mem isResourceInstance data (replicate (nat len) 0) 0 True;
                    Some (if ok then (len, Some b) else (- 1, None)) } }"
| "tlv_serialize_loop mem isResourceInstance [] buf index ok = Some (buf, index, ok)"
| "tlv_serialize_loop mem isResourceInstance (Data ty i v # rest) buf index ok =
     do { (buf', index', ok') \<leftarrow>
            (if ty = LWM2M_TYPE_MULTIPLE_RESOURCE \<or> ty = LWM2M_TYPE_OBJECT_INSTANCE
             then do { (res, tmp) \<leftarrow>
                         (case v of
                            asChildren cs \<Rightarrow>
                              tlv_serialize mem (if ty = LWM2M_TYPE_MULTIPLE_RESOURCE then True else isResourceInstance) cs
                          | asZero \<Rightarrow> Some (0, None)
                          | _ \<Rightarrow> None);
                       if res < 0 then Some (buf, index, False)
                       else do { (b, headerLen) \<leftarrow> prv_createHeader buf index False ty i (nat res);
                                 if res > 0
                                 then do { t \<leftarrow> tmp; b' \<leftarrow> wr_range b (index + headerLen) (take (nat res) t);
                                           Some (b', index + headerLen + nat res, ok) }
                                 else Some (b, index + headerLen, ok) } }
             else do { val \<leftarrow>
                         (case ty of
                            LWM2M_TYPE_OBJECT_LINK \<Rightarrow>
                              do { (oid, iid) \<leftarrow> value_objlink v; Some (Some (objlink_bytes oid iid)) }
                          | LWM2M_TYPE_STRING \<Rightarrow> map_option Some (value_buffer v)
                          | LWM2M_TYPE_OPAQUE \<Rightarrow> map_option Some (value_buffer v)
                          | LWM2M_TYPE_CORE_LINK \<Rightarrow> map_option Some (value_buffer v)
                          | LWM2M_TYPE_INTEGER \<Rightarrow> do { x \<leftarrow> value_integer v; Some (Some (prv_encodeInt x)) }
                          | LWM2M_TYPE_UNSIGNED_INTEGER \<Rightarrow>
                              do { x \<leftarrow> value_unsigned v; Some (Some (prv_encodeUInt x)) }
                          | LWM2M_TYPE_FLOAT \<Rightarrow> do { x \<leftarrow> value_float v; Some (Some (prv_encodeFloat x)) }
                          | LWM2M_TYPE_BOOLEAN \<Rightarrow> do { x \<leftarrow> value_boolean v; Some (Some [if x then 1 else 0]) }
                          | _ \<Rightarrow> Some None);
                       (case val of
                          None \<Rightarrow> Some (buf, index, False)
                        | Some bs \<Rightarrow> do { (b, index') \<leftarrow> put_record buf index isResourceInstance ty i bs;
                                          Some (b, index', ok) }) });
          tlv_serialize_loop mem isResourceInstance rest buf' index' ok' }"
  by pat_completeness auto
termination
  by (relation "measures [\<lambda>x. case x of Inl (m, r, d) \<Rightarrow> size_list size d | Inr (m, r, d, b) \<Rightarrow> size_list size d,
                          \<lambda>x. case x of Inl _ \<Rightarrow> 1 | Inr _ \<Rightarrow> 0]") auto

declare tlv_serialize.simps [simp del]

section \<open>The format as a specification\<close>

text \<open>The bytes of a value that is not a list, and the values whose union agrees with the type.\<close>

fun leaf_val :: "lwm2m_value \<Rightarrow> bytes" where
  "leaf_val (asBuffer b) = b"
| "leaf_val (asInteger x) = prv_encodeInt x"
| "leaf_val (asUnsigned x) = prv_encodeUInt x"
| "leaf_val (asFloat x) = prv_encodeFloat x"
| "leaf_val (asBoolean x) = [if x then 1 else 0]"
| "leaf_val (asObjLink a b) = objlink_bytes a b"
| "leaf_val _ = []"

fun leaf_ok :: "lwm2m_data_type_t \<Rightarrow> lwm2m_value \<Rightarrow> bool" where
  "leaf_ok ty (asBuffer b) \<longleftrightarrow> ty \<in> {LWM2M_TYPE_STRING, LWM2M_TYPE_OPAQUE, LWM2M_TYPE_CORE_LINK}"
| "leaf_ok ty (asInteger x) \<longleftrightarrow> ty = LWM2M_TYPE_INTEGER"
| "leaf_ok ty (asUnsigned x) \<longleftrightarrow> ty = LWM2M_TYPE_UNSIGNED_INTEGER"
| "leaf_ok ty (asFloat x) \<longleftrightarrow> ty = LWM2M_TYPE_FLOAT"
| "leaf_ok ty (asBoolean x) \<longleftrightarrow> ty = LWM2M_TYPE_BOOLEAN"
| "leaf_ok ty (asObjLink a b) \<longleftrightarrow> ty = LWM2M_TYPE_OBJECT_LINK"
| "leaf_ok ty _ \<longleftrightarrow> False"

text \<open>The bytes of a sequence of records.\<close>

fun tlv_bytes :: "bool \<Rightarrow> lwm2m_data_t list \<Rightarrow> bytes" where
  "tlv_bytes isInst [] = []"
| "tlv_bytes isInst (Data ty i v # rest) =
     (case v of
        asChildren cs \<Rightarrow>
          (let val = tlv_bytes (ty = LWM2M_TYPE_MULTIPLE_RESOURCE \<or> isInst) cs in
           header_bytes False ty i (length val) @ val)
      | _ \<Rightarrow> header_bytes isInst ty i (length (leaf_val v)) @ leaf_val v) @ tlv_bytes isInst rest"

text \<open>Trees whose types and unions agree, without empty lists of children (which
  \<open>tlv_parse\<close> refuses).\<close>

fun tlv_ok :: "lwm2m_data_t list \<Rightarrow> bool" where
  "tlv_ok [] = True"
| "tlv_ok (Data ty i v # rest) =
     ((case v of
        asChildren cs \<Rightarrow> (ty = LWM2M_TYPE_OBJECT_INSTANCE \<or> ty = LWM2M_TYPE_MULTIPLE_RESOURCE) \<and> cs \<noteq> [] \<and> tlv_ok cs
      | _ \<Rightarrow> leaf_ok ty v) \<and> tlv_ok rest)"

text \<open>What a parser of the format can know of a value: the records and the bytes.\<close>

fun tlv_view :: "lwm2m_data_t \<Rightarrow> lwm2m_data_t" where
  "tlv_view (Data ty i v) =
     (case v of
        asChildren cs \<Rightarrow> Data ty i (asChildren (map tlv_view cs))
      | _ \<Rightarrow> Data LWM2M_TYPE_OPAQUE i (asBuffer (leaf_val v)))"

section \<open>Headers\<close>

lemma u16_gt_ff: "(i :: u16) > 0xFF \<longleftrightarrow> unat i > 255"
  by (simp add: word_less_nat_alt)

lemma header_bytes_length:
  "n \<le> 0xFFFFFF \<Longrightarrow> length (header_bytes inst ty i n) = prv_getHeaderLength i n"
  by (simp add: header_bytes_def prv_getHeaderLength_def Let_def)

lemma be_simps:
  "n < 256 \<Longrightarrow> be [of_nat n] = n"
  "n < 256 ^ 2 \<Longrightarrow> be [of_nat (n div 2 ^ 8), of_nat n] = n"
  "n < 256 ^ 3 \<Longrightarrow> be [of_nat (n div 2 ^ 16), of_nat (n div 2 ^ 8), of_nat n] = n"
proof -
  have small: "unat (of_nat k :: u8) = k mod 256" for k by (simp add: unat_of_nat)
  show "n < 256 \<Longrightarrow> be [of_nat n] = n" by (simp add: be_def small)
  show "n < 256 ^ 2 \<Longrightarrow> be [of_nat (n div 2 ^ 8), of_nat n] = n"
  proof -
    assume "n < 256 ^ 2"
    then have "n div 256 < 256" by (simp add: less_mult_imp_div_less power2_eq_square)
    then show ?thesis by (simp add: be_def small)
  qed
  show "n < 256 ^ 3 \<Longrightarrow> be [of_nat (n div 2 ^ 16), of_nat (n div 2 ^ 8), of_nat n] = n"
  proof -
    assume "n < 256 ^ 3"
    then have "n div 65536 < 256" by (simp add: less_mult_imp_div_less)
    moreover have "n div 65536 = n div 256 div 256" by (simp add: div_mult2_eq [symmetric])
    ultimately show ?thesis by (simp add: be_def small)
  qed
qed

lemma id_two_bytes: "push_bit 8 (ucast (ucast (drop_bit 8 i) :: u8)) + ucast (ucast i :: u8) = (i :: u16)"
proof -
  have "push_bit 8 (ucast (ucast (drop_bit 8 i) :: u8)) + ucast (ucast i :: u8)
      = (push_bit 8 (ucast (ucast (drop_bit 8 i) :: u8)) OR ucast (ucast i :: u8) :: u16)"
    by (rule disjunctive_add_eq_or) (auto intro!: bit_eqI simp: bit_simps)
  also have "\<dots> = i" by (rule bit_word_eqI) (auto simp: bit_simps)
  finally show ?thesis .
qed

lemma id_one_byte: "\<not> (i :: u16) > 0xFF \<Longrightarrow> ucast (ucast i :: u8) = i"
  by (rule word_unat_eq_iff [THEN iffD2]) (simp add: u16_gt_ff unat_ucast_up unat_ucast_down)

text \<open>The type that a reader sees.\<close>

definition wire_type :: "bool \<Rightarrow> lwm2m_data_type_t \<Rightarrow> lwm2m_data_type_t" where
  "wire_type inst ty = prv_getDataType
     ((if inst then PRV_TLV_TYPE_RESOURCE_INSTANCE else prv_getHeaderType ty) AND PRV_TLV_TYPE_MASK)"

text \<open>The fields of the first byte: a type in the two top bits, then the id flag, the length kind
  and a short length.\<close>

lemma first_byte_kind:
  fixes t :: u8
  assumes "t \<in> {0, 0x40, 0x80, 0xC0}" and "f \<in> {0, 0x20}" and "k \<in> {0x08, 0x10, 0x18}"
  shows "(t OR f OR k) AND 0xC0 = t" "(t OR f OR k) AND 0x20 = f" "(t OR f OR k) AND 0x18 = k"
  using assms by auto

lemma first_byte_short:
  fixes t :: u8
  assumes "t \<in> {0, 0x40, 0x80, 0xC0}" and "f \<in> {0, 0x20}" and "l \<le> 7"
  shows "((t OR f) + of_nat l) AND 0xC0 = t" "((t OR f) + of_nat l) AND 0x20 = f"
    "((t OR f) + of_nat l) AND 0x18 = 0" "unat (((t OR f) + of_nat l) AND 0x07) = l"
proof -
  have "l \<in> {0, 1, 2, 3, 4, 5, 6, 7}" using assms(3) by auto
  then show "((t OR f) + of_nat l) AND 0xC0 = t" "((t OR f) + of_nat l) AND 0x20 = f"
    "((t OR f) + of_nat l) AND 0x18 = 0" "unat (((t OR f) + of_nat l) AND 0x07) = l"
    using assms(1,2) by auto
qed

definition hdr_type :: "bool \<Rightarrow> lwm2m_data_type_t \<Rightarrow> u8" where
  "hdr_type inst ty = (if inst then PRV_TLV_TYPE_RESOURCE_INSTANCE else prv_getHeaderType ty) AND PRV_TLV_TYPE_MASK"

lemma hdr_type_values: "hdr_type inst ty \<in> {0, 0x40, 0x80, 0xC0}"
  by (cases ty; cases inst) (simp_all add: hdr_type_def prv_getHeaderType_def tlv_type_defs)

text \<open>A header followed by its data is decoded to the type, identifier and length it was made
  from.\<close>

lemma decode_header:
  assumes n: "n \<le> 0xFFFFFF" and v: "length val = n"
  shows "lwm2m_decode_TLV (header_bytes inst ty i n @ val @ rest)
    = Some (wire_type inst ty, i, prv_getHeaderLength i n, n)"
proof -
  define t where "t = hdr_type inst ty"
  have t: "t \<in> {0, 0x40, 0x80, 0xC0}" unfolding t_def by (rule hdr_type_values)
  define f :: u8 where "f = (if i > 0xFF then 0x20 else 0)"
  have f: "f \<in> {0, 0x20}" by (simp add: f_def)
  define ids where "ids = (if i > 0xFF then [ucast (drop_bit 8 i), ucast i] else [ucast i :: u8])"
  have wt: "prv_getDataType t = wire_type inst ty" by (simp add: wire_type_def t_def hdr_type_def)
  have idv: "(if f = 0x20 then (push_bit 8 (ucast (ucast (drop_bit 8 i) :: u8)) + ucast (ucast i :: u8), 3 :: nat)
      else (ucast (ucast i :: u8), 2)) = (i, 1 + length ids)"
    by (auto simp: f_def ids_def id_two_bytes id_one_byte)
  note dec = lwm2m_decode_TLV_def Let_def PRV_TLV_TYPE_MASK_def wt prv_getHeaderLength_def f_def ids_def
    id_two_bytes id_one_byte
  consider "n \<le> 7" | "7 < n" "n \<le> 0xFF" | "0xFF < n" "n \<le> 0xFFFF" | "0xFFFF < n" by linarith
  then show ?thesis
  proof cases
    case 1
    have h: "header_bytes inst ty i n = ((t OR f) + of_nat n) # ids"
      using 1 by (simp add: header_bytes_def Let_def t_def hdr_type_def f_def ids_def)
    show ?thesis
      using first_byte_short [OF t f 1] 1 v n unfolding h by (auto simp: dec)
  next
    case 2
    have h: "header_bytes inst ty i n = (t OR f OR 0x08) # ids @ [of_nat n]"
      using 2 by (simp add: header_bytes_def Let_def t_def hdr_type_def f_def ids_def or.assoc)
    show ?thesis
      using first_byte_kind [OF t f, of 8] 2 v n be_simps(1) [of n] unfolding h by (auto simp: dec)
  next
    case 3
    have h: "header_bytes inst ty i n = (t OR f OR 0x10) # ids @ [of_nat (n div 2 ^ 8), of_nat n]"
      using 3 by (simp add: header_bytes_def Let_def t_def hdr_type_def f_def ids_def or.assoc)
    show ?thesis
      using first_byte_kind [OF t f, of 16] 3 v n be_simps(2) [of n] unfolding h by (auto simp: dec)
  next
    case 4
    have h: "header_bytes inst ty i n
        = (t OR f OR 0x18) # ids @ [of_nat (n div 2 ^ 16), of_nat (n div 2 ^ 8), of_nat n]"
      using 4 n by (simp add: header_bytes_def Let_def t_def hdr_type_def f_def ids_def or.assoc)
    show ?thesis
      using first_byte_kind [OF t f, of 24] 4 v n be_simps(3) [of n] unfolding h by (auto simp: dec)
  qed
qed

section \<open>The serializer writes the specified bytes\<close>

lemma length_encodings [simp]:
  "length (utils_copyValue b) = length b"
  "length (objlink_bytes x y) = 4"
  by (simp_all add: utils_copyValue_rev objlink_bytes_def Let_def)

lemma length_prv_encodeFloat: "length (prv_encodeFloat x) = (if above_flt_max x then 8 else 4)"
  by (simp add: prv_encodeFloat_def)

lemma to_int_small: "0 \<le> x \<Longrightarrow> x < 2 ^ 31 \<Longrightarrow> to_int x = x"
  by (simp add: to_int_def signed_take_bit_int_eq_self signed_of_int)

lemma to_size_small: "0 \<le> x \<Longrightarrow> x < 2 ^ 64 \<Longrightarrow> to_size x = nat x"
  by (simp add: to_size_def unsigned_of_int take_bit_int_eq_self)

lemma header_length_inst: "length (header_bytes a ty i n) = length (header_bytes b ty' i n)"
  by (simp add: header_bytes_def Let_def)

lemma tlv_bytes_length_inst: "length (tlv_bytes a ds) = length (tlv_bytes b ds)"
proof (induction a ds arbitrary: b rule: tlv_bytes.induct)
  case (2 a ty i v rest)
  have rest: "length (tlv_bytes a rest) = length (tlv_bytes b rest)" by (rule "2.IH"(2))
  have sub: "length (tlv_bytes (ty = LWM2M_TYPE_MULTIPLE_RESOURCE \<or> a) cs)
      = length (tlv_bytes (ty = LWM2M_TYPE_MULTIPLE_RESOURCE \<or> b) cs)" if "v = asChildren cs" for cs
    by (rule "2.IH"(1) [OF that])
  show ?case using rest sub header_length_inst [of a ty i "length (leaf_val v)" b ty]
    by (cases v) (simp_all add: Let_def)
qed simp

text \<open>One record of the list, a leaf or a list of children.\<close>

lemma tlv_ok_cases:
  assumes "tlv_ok (Data ty i v # rest)"
  obtains (leaf) "leaf_ok ty v" "tlv_ok rest"
      "\<And>inst. tlv_bytes inst (Data ty i v # rest)
        = header_bytes inst ty i (length (leaf_val v)) @ leaf_val v @ tlv_bytes inst rest"
      "tlv_view (Data ty i v) = Data LWM2M_TYPE_OPAQUE i (asBuffer (leaf_val v))"
  | (children) cs where "v = asChildren cs" "ty = LWM2M_TYPE_OBJECT_INSTANCE \<or> ty = LWM2M_TYPE_MULTIPLE_RESOURCE"
      "cs \<noteq> []" "tlv_ok cs" "tlv_ok rest"
proof (cases "\<exists>cs. v = asChildren cs")
  case True
  then show thesis using assms children by auto
next
  case False
  then have "leaf_ok ty v \<and> tlv_ok rest" using assms by (cases v) auto
  then show thesis using leaf by (cases v) simp_all
qed

lemma add_record_header:
  assumes "0 \<le> len" and "n \<le> 0xFFFFFF" and "len + int (length (header_bytes inst ty i n) + n) < 2 ^ 31"
  shows "add_record len i n = len + int (length (header_bytes inst ty i n) + n)"
  using assms by (simp add: add_record_def header_bytes_length to_int_small)

lemma getLength_leaf:
  "leaf_ok ty v \<Longrightarrow> len \<noteq> - 1 \<Longrightarrow>
   prv_getLength_from len (Data ty i v # rest) = prv_getLength_from (add_record len i (length (leaf_val v))) rest"
  by (cases v) (auto simp: length_prv_encodeFloat)

text \<open>The length computed in advance is the number of bytes of the format.\<close>

lemma prv_getLength_from_bytes:
  "tlv_ok ds \<Longrightarrow> 0 \<le> len \<Longrightarrow> length (tlv_bytes inst ds) \<le> 0xFFFFFF \<Longrightarrow>
   len + int (length (tlv_bytes inst ds)) < 2 ^ 31 \<Longrightarrow>
   prv_getLength_from len ds = Some (len + int (length (tlv_bytes inst ds)))"
proof (induction inst ds arbitrary: len rule: tlv_bytes.induct)
  case (2 inst ty i v rest)
  from "2.prems"(1) show ?case
  proof (cases rule: tlv_ok_cases)
    case leaf
    let ?n = "length (leaf_val v)" and ?h = "length (header_bytes inst ty i (length (leaf_val v)))"
    have rec: "add_record len i ?n = len + int (?h + ?n)"
      using "2.prems" leaf(3) by (intro add_record_header) auto
    have "prv_getLength_from (len + int (?h + ?n)) rest = Some (len + int (?h + ?n) + int (length (tlv_bytes inst rest)))"
      using "2.prems" leaf(2,3) by (intro "2.IH"(2)) auto
    then show ?thesis
      using "2.prems"(2) getLength_leaf [OF leaf(1), of len i rest] rec leaf(3) by simp
  next
    case (children cs)
    let ?inst = "ty = LWM2M_TYPE_MULTIPLE_RESOURCE \<or> inst"
    let ?n = "length (tlv_bytes ?inst cs)" and ?h = "length (header_bytes False ty i (length (tlv_bytes ?inst cs)))"
    have b: "length (tlv_bytes inst (Data ty i v # rest)) = ?h + ?n + length (tlv_bytes inst rest)"
      using children(1) by (simp add: Let_def)
    have n: "?n \<le> 0xFFFFFF" using "2.prems"(3) b by simp
    have sub: "prv_getLength_from 0 cs = Some (int ?n)"
      using "2.IH"(1) [OF children(1,4), of 0] n by simp
    have rec: "add_record len i ?n = len + int (?h + ?n)"
      using "2.prems" b by (intro add_record_header) auto
    have "prv_getLength_from (len + int (?h + ?n)) rest = Some (len + int (?h + ?n) + int (length (tlv_bytes inst rest)))"
      using "2.prems" children(5) b by (intro "2.IH"(2)) auto
    moreover have "to_size (int ?n) = ?n" using n by (subst to_size_small) auto
    ultimately show ?thesis
      using "2.prems"(2) children(1,2) sub rec b by (auto simp: add.assoc)
  qed
qed simp

lemma serialize_loop_leaf:
  "leaf_ok ty v \<Longrightarrow>
   tlv_serialize_loop mem inst (Data ty i v # rest) buf index ok =
     do { (b, index') \<leftarrow> put_record buf index inst ty i (leaf_val v);
          tlv_serialize_loop mem inst rest b index' ok }"
  by (cases v) (auto simp: tlv_serialize.simps split: bind_split)

lemma wr_range_wr_range:
  assumes "i + length x + length y \<le> length b"
  shows "wr_range (take i b @ x @ drop (i + length x) b) (i + length x) y
    = Some (take i b @ (x @ y) @ drop (i + (length x + length y)) b)"
  using assms by (simp add: ac_simps)

lemma put_header_value:
  assumes "n \<le> 0xFFFFFF" and "length val = n"
    and "h = header_bytes inst ty i n" and "index + length h + n \<le> length buf"
  shows "prv_createHeader buf index inst ty i n
      = Some (take index buf @ h @ drop (index + length h) buf, length h)"
    and "wr_range (take index buf @ h @ drop (index + length h) buf) (index + length h) val
      = Some (take index buf @ (h @ val) @ drop (index + (length h + n)) buf)"
proof -
  have "length h = prv_getHeaderLength i n" using assms(1,3) by (simp add: header_bytes_length)
  then show "prv_createHeader buf index inst ty i n
      = Some (take index buf @ h @ drop (index + length h) buf, length h)"
    using assms by (simp add: prv_createHeader_def)
  show "wr_range (take index buf @ h @ drop (index + length h) buf) (index + length h) val
      = Some (take index buf @ (h @ val) @ drop (index + (length h + n)) buf)"
    using wr_range_wr_range [of index h val buf] assms by simp
qed

lemma put_record_spec:
  assumes "length val \<le> 0xFFFFFF" and "h = header_bytes inst ty i (length val)"
    and "index + length h + length val \<le> length buf"
  shows "put_record buf index inst ty i val =
    Some (take index buf @ (h @ val) @ drop (index + (length h + length val)) buf,
          index + (length h + length val))"
  using put_header_value [OF assms(1) refl assms(2,3)]
  by (simp add: put_record_def add.assoc)

text \<open>The next records are written behind the record just written.\<close>

lemma written_prefix:
  assumes "index + length x \<le> length buf" and "buf' = take index buf @ x @ drop (index + length x) buf"
  shows "length buf' = length buf" "take (index + length x) buf' = take index buf @ x"
    "drop (index + length x + k) buf' = drop (index + (length x + k)) buf"
  using assms by (simp_all add: ac_simps)

abbreviation loop_writes :: "(nat \<Rightarrow> bool) \<Rightarrow> bool \<Rightarrow> lwm2m_data_t list \<Rightarrow> bool" where
  "loop_writes mem inst ds \<equiv> \<forall>buf index ok. index + length (tlv_bytes inst ds) \<le> length buf \<longrightarrow>
      tlv_serialize_loop mem inst ds buf index ok =
        Some (take index buf @ tlv_bytes inst ds @ drop (index + length (tlv_bytes inst ds)) buf,
              index + length (tlv_bytes inst ds), ok)"

lemma tlv_serialize_from_loop:
  assumes "loop_writes mem inst ds" and "\<And>n. mem n" and "tlv_ok ds" and "ds \<noteq> []"
    and "length (tlv_bytes inst ds) \<le> 0xFFFFFF"
  shows "tlv_serialize mem inst ds = Some (int (length (tlv_bytes inst ds)), Some (tlv_bytes inst ds))"
    and "0 < length (tlv_bytes inst ds)"
proof -
  let ?n = "length (tlv_bytes inst ds)"
  show pos: "0 < ?n"
    using assms(3,4) by (cases ds rule: tlv_ok.cases) (auto simp: header_bytes_def Let_def split: lwm2m_value.splits)
  have len: "prv_getLength ds = Some (int ?n)"
    using prv_getLength_from_bytes [of ds 0 inst] assms by (simp add: prv_getLength_def)
  have "tlv_serialize_loop mem inst ds (replicate ?n 0) 0 True = Some (tlv_bytes inst ds, ?n, True)"
    using assms(1) by simp
  then show "tlv_serialize mem inst ds = Some (int ?n, Some (tlv_bytes inst ds))"
    using len pos assms(2) by (simp add: tlv_serialize.simps)
qed

lemma tlv_serialize_loop_bytes:
  assumes mem: "\<And>n. mem n"
  shows "tlv_ok ds \<Longrightarrow> length (tlv_bytes inst ds) \<le> 0xFFFFFF \<Longrightarrow> loop_writes mem inst ds"
proof (induction inst ds rule: tlv_bytes.induct)
  case (1 inst)
  then show ?case by (simp add: tlv_serialize.simps)
next
  case (2 inst ty i v rest)
  let ?B = "tlv_bytes inst (Data ty i v # rest)"
  have step: "tlv_serialize_loop mem inst (Data ty i v # rest) buf index ok =
        Some (take index buf @ ?B @ drop (index + length ?B) buf, index + length ?B, ok)"
    if B: "?B = x @ tlv_bytes inst rest" and rest: "tlv_ok rest"
      and room: "index + length ?B \<le> length buf"
      and buf': "buf' = take index buf @ x @ drop (index + length x) buf"
      and eq: "tlv_serialize_loop mem inst (Data ty i v # rest) buf index ok
        = tlv_serialize_loop mem inst rest buf' (index + length x) ok"
    for x buf buf' index ok
  proof -
    have "index + length x \<le> length buf" using room B by simp
    note w = written_prefix [OF this buf']
    have "loop_writes mem inst rest" using "2.IH"(2) rest "2.prems"(2) B by simp
    then show ?thesis using eq w B room by (simp add: add.assoc)
  qed
  from "2.prems"(1) show ?case
  proof (cases rule: tlv_ok_cases)
    case leaf
    let ?h = "header_bytes inst ty i (length (leaf_val v))"
    have n: "length (leaf_val v) \<le> 0xFFFFFF" using "2.prems"(2) leaf(3) by simp
    show ?thesis
    proof (intro allI impI)
      fix buf :: bytes and index :: nat and ok :: bool
      assume room: "index + length ?B \<le> length buf"
      have "index + length ?h + length (leaf_val v) \<le> length buf" using room leaf(3) by simp
      note put = put_record_spec [OF n refl this]
      show "tlv_serialize_loop mem inst (Data ty i v # rest) buf index ok =
        Some (take index buf @ ?B @ drop (index + length ?B) buf, index + length ?B, ok)"
        by (rule step [OF _ leaf(2) room refl, of "?h @ leaf_val v"])
           (use put serialize_loop_leaf [OF leaf(1)] leaf(3) in simp_all)
    qed
  next
    case (children cs)
    let ?inst = "ty = LWM2M_TYPE_MULTIPLE_RESOURCE \<or> inst"
    let ?val = "tlv_bytes ?inst cs"
    let ?h = "header_bytes False ty i (length ?val)"
    have B: "?B = (?h @ ?val) @ tlv_bytes inst rest" using children(1) by (simp add: Let_def)
    have n: "length ?val \<le> 0xFFFFFF" using "2.prems"(2) B by simp
    note sub = tlv_serialize_from_loop [OF "2.IH"(1) [OF children(1,4) n] mem children(4,3) n]
    show ?thesis
    proof (intro allI impI)
      fix buf :: bytes and index :: nat and ok :: bool
      assume room: "index + length ?B \<le> length buf"
      have "index + length ?h + length ?val \<le> length buf" using room B by simp
      note put = put_header_value [OF n refl refl this]
      show "tlv_serialize_loop mem inst (Data ty i v # rest) buf index ok =
        Some (take index buf @ ?B @ drop (index + length ?B) buf, index + length ?B, ok)"
        by (rule step [OF B children(5) room refl])
           (use put sub children(1,2) in \<open>auto simp: add.assoc\<close>)
    qed
  qed
qed

section \<open>The parser reads the specified bytes\<close>

lemma wire_types:
  "wire_type False LWM2M_TYPE_OBJECT_INSTANCE = LWM2M_TYPE_OBJECT_INSTANCE"
  "wire_type False LWM2M_TYPE_MULTIPLE_RESOURCE = LWM2M_TYPE_MULTIPLE_RESOURCE"
  "leaf_ok ty v \<Longrightarrow> wire_type inst ty = LWM2M_TYPE_OPAQUE"
  by (cases v; auto simp: wire_type_def prv_getHeaderType_def prv_getDataType_def tlv_type_defs)+

lemma lwm2m_data_new_mem:
  "(\<And>n. mem n) \<Longrightarrow> \<exists>x. lwm2m_data_new mem (int n + 1) = Some x"
  by (simp add: lwm2m_data_new_def)

lemma encode_opaque_mem:
  "(\<And>n. mem n) \<Longrightarrow> lwm2m_data_encode_opaque mem b (Data ty i v) = Data LWM2M_TYPE_OPAQUE i (asBuffer b)"
  by (simp add: lwm2m_data_encode_opaque_def prv_setBuffer_def)

text \<open>One round of the parser on the bytes of one record.\<close>

lemma parse_record:
  assumes "\<And>n. mem n" and "length val \<le> 0xFFFFFF" and "buf = header_bytes inst ty i (length val) @ val @ rest"
  shows "tlv_parse_loop mem buf acc =
    (let t = wire_type inst ty in
     if t = LWM2M_TYPE_OBJECT_INSTANCE \<or> t = LWM2M_TYPE_MULTIPLE_RESOURCE
     then do { sub \<leftarrow> tlv_parse_loop mem val [];
               (case sub of None \<Rightarrow> Some None
                | Some cs \<Rightarrow> if cs = [] then Some None
                              else tlv_parse_loop mem rest (acc @ [Data t i (asChildren cs)])) }
     else tlv_parse_loop mem rest (acc @ [Data LWM2M_TYPE_OPAQUE i (asBuffer val)]))"
proof -
  have len: "length (header_bytes inst ty i (length val)) = prv_getHeaderLength i (length val)"
    using assms(2) by (rule header_bytes_length)
  have tk: "take (length val) (drop (prv_getHeaderLength i (length val)) buf) = val"
    and dr: "drop (prv_getHeaderLength i (length val) + length val) buf = rest"
    unfolding assms(3) len [symmetric] by simp_all
  obtain x where x: "lwm2m_data_new mem (int (length acc) + 1) = Some x"
    using lwm2m_data_new_mem [of mem "length acc"] assms(1) by blast
  show ?thesis
    using decode_header [OF assms(2) refl, of inst ty i rest] x tk dr
    by (subst tlv_parse_loop.simps)
       (simp add: assms(3) [symmetric] encode_opaque_mem [OF assms(1)] Let_def cong del: option.case_cong_weak if_weak_cong)
qed

lemma tlv_parse_loop_bytes:
  assumes mem: "\<And>n. mem n"
  shows "tlv_ok ds \<Longrightarrow> length (tlv_bytes inst ds) \<le> 0xFFFFFF \<Longrightarrow>
    tlv_parse_loop mem (tlv_bytes inst ds) acc = Some (Some (acc @ map tlv_view ds))"
proof (induction inst ds arbitrary: acc rule: tlv_bytes.induct)
  case (1 inst)
  show ?case by (subst tlv_parse_loop.simps) (simp add: lwm2m_decode_TLV_def)
next
  case (2 inst ty i v rest)
  from "2.prems"(1) show ?case
  proof (cases rule: tlv_ok_cases)
    case leaf
    have n: "length (leaf_val v) \<le> 0xFFFFFF" "length (tlv_bytes inst rest) \<le> 0xFFFFFF"
      using "2.prems"(2) leaf(3) by simp_all
    show ?thesis
      using parse_record [OF mem n(1) leaf(3) [of inst]] "2.IH"(2) [OF leaf(2) n(2)] leaf
      by (simp add: wire_types(3) [OF leaf(1)])
  next
    case (children cs)
    let ?inst = "ty = LWM2M_TYPE_MULTIPLE_RESOURCE \<or> inst"
    let ?val = "tlv_bytes ?inst cs"
    have B: "tlv_bytes inst (Data ty i v # rest) = header_bytes False ty i (length ?val) @ ?val @ tlv_bytes inst rest"
      using children(1) by (simp add: Let_def)
    have n: "length ?val \<le> 0xFFFFFF" "length (tlv_bytes inst rest) \<le> 0xFFFFFF"
      using "2.prems"(2) B by simp_all
    have "wire_type False ty = ty" using children(2) wire_types(1,2) by auto
    then show ?thesis
      using parse_record [OF mem n(1) B] "2.IH"(1) [OF children(1,4) n(1)] "2.IH"(2) [OF children(5) n(2)] children(1-3)
      by (auto simp: Let_def)
  qed
qed

text \<open>The parser is defined on every input when memory is available, and every record it
  reports took at least two bytes.\<close>

lemma tlv_parse_loop_defined:
  assumes mem: "\<And>n. mem n"
  shows "\<exists>r. tlv_parse_loop mem buffer acc = Some r \<and>
    (\<forall>ds. r = Some ds \<longrightarrow> 2 * length ds \<le> 2 * length acc + length buffer)"
proof (induction "length buffer" arbitrary: buffer acc rule: less_induct)
  case less
  show ?case
  proof (cases "lwm2m_decode_TLV buffer")
    case None
    then show ?thesis by (subst tlv_parse_loop.simps) simp
  next
    case (Some q)
    obtain ty i idx len where q: "lwm2m_decode_TLV buffer = Some (ty, i, idx, len)"
      using Some by (cases q) auto
    note b = lwm2m_decode_TLV_bounds [OF q] and d = lwm2m_decode_TLV_decreases [OF q]
    obtain x where x: "lwm2m_data_new mem (int (length acc) + 1) = Some x"
      using lwm2m_data_new_mem [of mem "length acc"] mem by blast
    obtain sub where sub: "tlv_parse_loop mem (take len (drop idx buffer)) [] = Some sub"
      using less [of "take len (drop idx buffer)" "[]"] d by blast
    have rest: "\<exists>r. tlv_parse_loop mem (drop (idx + len) buffer) (acc @ [e]) = Some r \<and>
      (\<forall>ds. r = Some ds \<longrightarrow> 2 * length ds \<le> 2 * length acc + length buffer)" for e
      using less [of "drop (idx + len) buffer" "acc @ [e]"] d b by fastforce
    show ?thesis
      using rest q x sub by (subst tlv_parse_loop.simps) (simp add: Let_def split: option.split)
  qed
qed

section \<open>Values survive the format\<close>

lemma scast_of_ucast:
  fixes d :: u64
  assumes "LENGTH('a) \<le> 64" and "- (2 ^ (LENGTH('a) - 1)) \<le> sint d" and "sint d < 2 ^ (LENGTH('a) - 1)"
  shows "scast (ucast d :: 'a::len word) = d"
proof -
  have "ucast d = (word_of_int (sint d) :: 'a word)"
  proof (rule bit_word_eqI)
    fix n
    assume "n < LENGTH('a)"
    then have "n \<le> 63" using assms(1) by linarith
    then show "bit (ucast d :: 'a word) n = bit (word_of_int (sint d) :: 'a word) n"
      using \<open>n < LENGTH('a)\<close> by (simp add: bit_simps min_absorb2)
  qed
  moreover have "sint (word_of_int (sint d) :: 'a word) = sint d"
    using assms(2,3) by (simp only: signed_of_int) (simp add: signed_take_bit_int_eq_self)
  ultimately have "sint (ucast d :: 'a word) = sint d" by (simp only:)
  then have "word_of_int (sint (ucast d :: 'a word)) = (word_of_int (sint d) :: u64)" by (simp only:)
  then show ?thesis by simp
qed

lemma ucast_of_ucast:
  fixes d :: u64
  assumes "unat d < 2 ^ LENGTH('a)"
  shows "ucast (ucast d :: 'a::len word) = d"
  using assms by (metis unat_ucast_down ucast_id of_nat_unat)

lemma copy_le [simp]: "utils_copyValue (utils_copyValue b) = b"
  by (simp add: utils_copyValue_rev)

lemma two_bytes: "of_le (utils_copyValue [ucast (drop_bit 8 v), ucast v]) = (v :: u16)"
  by (rule bit_word_eqI) (auto simp: utils_copyValue_rev bit_simps)

lemma decode_int_encodeInt:
  "lwm2m_data_decode_int (Data LWM2M_TYPE_OPAQUE i (asBuffer (prv_encodeInt d))) = Some (Some d)"
proof -
  have l4: "of_le (le_bytes 4 d) = (ucast d :: u32)" using of_le_le_bytes [where 'a = 32, of d] by simp
  have l8: "of_le (le_bytes 8 d) = (d :: u64)" using of_le_le_bytes [where 'a = 64, of d] by simp
  have s1: "scast (ucast d :: u8) = d" if "sint d \<ge> - 128 \<and> sint d \<le> 127"
    using that by (intro scast_of_ucast) auto
  have s2: "scast (ucast d :: u16) = d" if "sint d \<ge> - 32768 \<and> sint d \<le> 32767"
    using that by (intro scast_of_ucast) auto
  have s4: "scast (ucast d :: u32) = d" if "sint d \<ge> - 2147483648 \<and> sint d \<le> 2147483647"
    using that by (intro scast_of_ucast) auto
  show ?thesis
    using s1 s2 s4 by (auto simp: lwm2m_data_decode_int_def prv_encodeInt_def l4 l8 two_bytes Let_def)
qed

lemma decode_uint_encodeUInt:
  "lwm2m_data_decode_uint (Data LWM2M_TYPE_OPAQUE i (asBuffer (prv_encodeUInt d))) = Some (Some d)"
proof -
  have l4: "of_le (le_bytes 4 d) = (ucast d :: u32)" using of_le_le_bytes [where 'a = 32, of d] by simp
  have l8: "of_le (le_bytes 8 d) = (d :: u64)" using of_le_le_bytes [where 'a = 64, of d] by simp
  have s1: "ucast (ucast d :: u8) = d" if "d \<le> 0xFF"
    using that by (intro ucast_of_ucast) (simp add: word_le_nat_alt)
  have s2: "ucast (ucast d :: u16) = d" if "d \<le> 0xFFFF"
    using that by (intro ucast_of_ucast) (simp add: word_le_nat_alt)
  have s4: "ucast (ucast d :: u32) = d" if "d \<le> 0xFFFFFFFF"
    using that by (intro ucast_of_ucast) (simp add: word_le_nat_alt)
  show ?thesis
    using s1 s2 s4 by (auto simp: lwm2m_data_decode_uint_def prv_encodeUInt_def l4 l8 two_bytes Let_def)
qed

section \<open>Properties\<close>

text \<open>TLV records are a format.\<close>

interpretation tlv_format: format "\<lambda>ds. tlv_ok ds \<and> length (tlv_bytes inst ds) \<le> 0xFFFFFF" "tlv_bytes inst"
  "\<lambda>b. map_option snd (tlv_parse (\<lambda>_. True) b)" "map tlv_view" for inst
proof (unfold_locales, goal_cases)
  case (1 ds)
  then show ?case using tlv_parse_loop_bytes [of "\<lambda>_. True" ds inst "[]"] by (simp add: tlv_parse_def)
qed

text \<open>C5: \<open>tlv_serialize\<close> of a tree of values whose types and unions agree writes exactly the
  number of bytes \<open>prv_getLength\<close> computed, inside the buffer allocated for them, and
  \<open>tlv_parse\<close> of these bytes gives back the tree: every record with its identifier, nesting
  and value bytes.\<close>

theorem tlv_roundtrip:
  assumes "\<forall>n. mem n" and "tlv_ok ds" and "ds \<noteq> []" and "length (tlv_bytes inst ds) \<le> 0xFFFFFF"
  shows "\<exists>b. prv_getLength ds = Some (int (length b)) \<and>
    tlv_serialize mem inst ds = Some (int (length b), Some b) \<and>
    tlv_parse mem b = Some (int (length ds), map tlv_view ds)"
proof -
  have mem: "mem n" for n using assms(1) by simp
  note l = tlv_serialize_from_loop [OF tlv_serialize_loop_bytes [of mem, OF mem assms(2,4)] mem assms(2,3,4)]
  have "prv_getLength ds = Some (int (length (tlv_bytes inst ds)))"
    using prv_getLength_from_bytes [of ds 0 inst] assms by (simp add: prv_getLength_def)
  moreover have "tlv_parse mem (tlv_bytes inst ds) = Some (int (length ds), map tlv_view ds)"
    using tlv_parse_loop_bytes [of mem, OF mem assms(2,4), of "[]"] by (simp add: tlv_parse_def)
  ultimately show ?thesis using l by blast
qed

theorem tlv_roundtrip_witness:
  "\<exists>b. prv_getLength [Data LWM2M_TYPE_OBJECT_INSTANCE 0 (asChildren
        [Data LWM2M_TYPE_INTEGER 9 (asInteger 100), Data LWM2M_TYPE_STRING 300 (asBuffer [65, 66])])]
      = Some (int (length b)) \<and>
    tlv_serialize (\<lambda>_. True) False [Data LWM2M_TYPE_OBJECT_INSTANCE 0 (asChildren
        [Data LWM2M_TYPE_INTEGER 9 (asInteger 100), Data LWM2M_TYPE_STRING 300 (asBuffer [65, 66])])]
      = Some (int (length b), Some b) \<and>
    tlv_parse (\<lambda>_. True) b = Some (int (length [Data LWM2M_TYPE_OBJECT_INSTANCE 0 (asChildren
        [Data LWM2M_TYPE_INTEGER 9 (asInteger 100), Data LWM2M_TYPE_STRING 300 (asBuffer [65, 66])])]),
      map tlv_view [Data LWM2M_TYPE_OBJECT_INSTANCE 0 (asChildren
        [Data LWM2M_TYPE_INTEGER 9 (asInteger 100), Data LWM2M_TYPE_STRING 300 (asBuffer [65, 66])])])"
  by (rule tlv_roundtrip) (simp_all add: header_bytes_def Let_def prv_encodeInt_def)

text \<open>Integers written in TLV are read back unchanged: \<open>lwm2m_data_decode_int\<close> of the
  record that \<open>tlv_serialize\<close> makes of an \<open>int64_t\<close> gives that number for every number, and
  \<open>lwm2m_data_decode_uint\<close> does so for every \<open>uint64_t\<close>.\<close>

theorem tlv_integers_exact:
  "lwm2m_data_decode_int (tlv_view (lwm2m_data_encode_int v d)) = Some (Some v) \<and>
   lwm2m_data_decode_uint (tlv_view (lwm2m_data_encode_uint v d)) = Some (Some v)"
  by (simp add: lwm2m_data_encode_int_def lwm2m_data_encode_uint_def decode_int_encodeInt decode_uint_encodeUInt)



lemma serialize_empty_instance:
  "tlv_serialize (\<lambda>_. True) False [Data LWM2M_TYPE_BOOLEAN 5 (asBoolean True),
       Data LWM2M_TYPE_OBJECT_INSTANCE 0 (asChildren [])] = Some (5, Some [0xC1, 5, 1, 0, 0])"
proof -
  let ?ds = "[Data LWM2M_TYPE_BOOLEAN 5 (asBoolean True), Data LWM2M_TYPE_OBJECT_INSTANCE 0 (asChildren [])]"
  have len: "prv_getLength ?ds = Some 5"
    by (simp add: prv_getLength_def add_record_def to_int_def to_size_def prv_getHeaderLength_def)
  have sub: "tlv_serialize (\<lambda>_. True) False [] = Some (0, None)"
    by (simp add: tlv_serialize.simps prv_getLength_def)
  have rep: "replicate 5 (0 :: u8) = [0, 0, 0, 0, 0]" by (simp add: numeral_eq_Suc)
  have h1: "header_bytes False LWM2M_TYPE_BOOLEAN 5 1 = [0xC1, 5]"
    and h2: "header_bytes False LWM2M_TYPE_OBJECT_INSTANCE 0 0 = [0, 0]"
    by (simp_all add: header_bytes_def prv_getHeaderType_def tlv_type_defs)
  have "put_record [0, 0, 0, 0, 0] 0 False LWM2M_TYPE_BOOLEAN 5 [1] = Some ([0xC1, 5, 1, 0, 0], 3)"
    using h1 by (simp add: put_record_def prv_createHeader_def prv_getHeaderLength_def)
  then show ?thesis
    using h2 by (subst tlv_serialize.simps)
      (simp add: len rep sub prv_createHeader_def prv_getHeaderLength_def)
qed

text \<open>When the allocation for the first record fails, \<open>tlv_parse\<close> stores through the null
  pointer, while the failure of a later allocation is reported as 0; and an object instance
  without resources, which \<open>tlv_serialize\<close> writes, makes \<open>tlv_parse\<close> refuse the whole
  message.\<close>

theorem tlv_parse_failures:
  "tlv_parse (\<lambda>_. False) [0xC1, 5, 7] = None \<and>
   tlv_parse (\<lambda>n. n < 30) [0xC1, 5, 7, 0xC1, 6, 7] = Some (0, []) \<and>
   tlv_serialize (\<lambda>_. True) False [Data LWM2M_TYPE_BOOLEAN 5 (asBoolean True),
       Data LWM2M_TYPE_OBJECT_INSTANCE 0 (asChildren [])] = Some (5, Some [0xC1, 5, 1, 0, 0]) \<and>
   tlv_parse (\<lambda>_. True) [0xC1, 5, 1, 0, 0] = Some (0, [])"
proof -
  note p = tlv_parse_def tlv_parse_loop.simps [of _ "_ # _"] tlv_parse_loop.simps [of _ "[]"]
    lwm2m_decode_TLV_def lwm2m_data_new_def sizeof_lwm2m_data_t_def tlv_type_defs prv_getDataType_def
    lwm2m_data_encode_opaque_def prv_setBuffer_def Let_def
  have "tlv_parse (\<lambda>_. False) [0xC1, 5, 7] = None" by (simp add: p cong: bind_weak_cong)
  moreover have "tlv_parse (\<lambda>n. n < 30) [0xC1, 5, 7, 0xC1, 6, 7] = Some (0, [])"
    by (simp add: p cong: bind_weak_cong)
  moreover have "tlv_parse (\<lambda>_. True) [0xC1, 5, 1, 0, 0] = Some (0, [])"
    by (simp add: p cong: bind_weak_cong)
  moreover have "tlv_serialize (\<lambda>_. True) False [Data LWM2M_TYPE_BOOLEAN 5 (asBoolean True),
       Data LWM2M_TYPE_OBJECT_INSTANCE 0 (asChildren [])] = Some (5, Some [0xC1, 5, 1, 0, 0])"
    by (rule serialize_empty_instance)
  ultimately show ?thesis by blast
qed

end
