(* ===== verification/Cbor.thy ===== *)
theory Cbor
  imports Tlv
begin

text \<open>
  CBOR items, \<^verbatim>\<open>data/cbor.c\<close>: the initial byte with its argument (\<open>cbor_get_type_and_value\<close>,
  \<open>cbor_put_type_and_value\<close>, \<open>prv_serialize_value\<close>), floating point numbers in half, single and
  double precision (\<open>prv_serialize_float\<close>) on their bit patterns, and the values of single
  resources (\<open>cbor_get_singular\<close>, \<open>cbor_put_singular\<close>).

  A reader returns \<open>None\<close> for the result -1, a writer the buffer and the number of bytes (0 on
  failure); a write behind the buffer is undefined.  Buffers are shorter than \<open>2 ^ 31\<close> bytes, so
  the \<open>int\<close> results do not overflow.
\<close>

section \<open>Data\<close>

datatype cbor_type_t = CBOR_TYPE_UNKNOWN | CBOR_TYPE_UNSIGNED_INTEGER | CBOR_TYPE_NEGATIVE_INTEGER | CBOR_TYPE_FLOAT
  | CBOR_TYPE_SEMANTIC_TAG | CBOR_TYPE_SIMPLE_VALUE | CBOR_TYPE_BREAK | CBOR_TYPE_BYTE_STRING | CBOR_TYPE_TEXT_STRING
  | CBOR_TYPE_ARRAY | CBOR_TYPE_MAP

text \<open>Floating point numbers of the language: \<open>ldexp (m, k)\<close> for results that are normal doubles, the
  conversion from binary32, and the tests of \<^verbatim>\<open>math.h\<close>.\<close>

fun top_bit :: "nat \<Rightarrow> nat" where
  "top_bit m = (if m < 2 then 0 else Suc (top_bit (m div 2)))"

declare top_bit.simps [simp del]

lemma top_bit_numeral [simp]:
  "top_bit 0 = 0" "top_bit (Suc 0) = 0" "top_bit 1 = 0"
  "top_bit (numeral (Num.Bit0 n)) = Suc (top_bit (numeral n))" "top_bit (numeral (Num.Bit1 n)) = Suc (top_bit (numeral n))"
  by (subst top_bit.simps, simp)+

definition ldexp_bits :: "nat \<Rightarrow> int \<Rightarrow> u64" where
  "ldexp_bits m k = (if m = 0 then 0
     else of_nat (nat (k + int (top_bit m) + 1023) * 2 ^ 52 + (m * 2 ^ (52 - top_bit m) - 2 ^ 52)))"

definition negate_bits :: "u64 \<Rightarrow> u64" where
  "negate_bits d = d XOR push_bit 63 1"

definition float_to_double :: "u32 \<Rightarrow> u64" where
  "float_to_double f =
     (let e = unat (drop_bit 23 f AND 0xFF); m = unat (f AND mask 23);
          d = (if e = 255 then if m = 0 then 0x7FF0000000000000 else 0x7FF8000000000000 OR push_bit 29 (of_nat m)
               else if e = 0 then ldexp_bits m (- 149)
               else ldexp_bits (m + 2 ^ 23) (int e - 150)) in
      if bit f 31 then negate_bits d else d)"

definition half_to_double :: "u16 \<Rightarrow> u64" where
  "half_to_double half =
     (let e = unat (drop_bit 10 half AND 0x1F); m = unat (half AND 0x3FF);
          d = (if e = 0 then ldexp_bits m (- 24)
               else if e \<noteq> 31 then ldexp_bits (m + 1024) (int e - 25)
               else if m = 0 then 0x7FF0000000000000 else 0x7FF8000000000000) in
      if half AND 0x8000 \<noteq> 0 then negate_bits d else d)"

definition is_nan :: "u64 \<Rightarrow> bool" where "is_nan d \<longleftrightarrow> d AND mask 63 > 0x7FF0000000000000"
definition is_inf :: "u64 \<Rightarrow> bool" where "is_inf d \<longleftrightarrow> d AND mask 63 = 0x7FF0000000000000"

section \<open>Reading\<close>

text \<open>The argument that follows from the additional information, and the bytes used.\<close>

definition cbor_argument :: "nat \<Rightarrow> bytes \<Rightarrow> (u64 \<times> nat) option" where
  "cbor_argument ai buffer =
     (if ai = 24 then if length buffer < 2 then None else Some (ucast (buffer ! 1), 2)
      else if ai = 25 then if length buffer < 3 then None
        else Some (ucast (of_le (utils_copyValue (take 2 (drop 1 buffer))) :: u16), 3)
      else if ai = 26 then if length buffer < 5 then None
        else Some (ucast (of_le (utils_copyValue (take 4 (drop 1 buffer))) :: u32), 5)
      else if ai = 27 then if length buffer < 9 then None
        else Some (of_le (utils_copyValue (take 8 (drop 1 buffer))), 9)
      else if ai = 28 \<or> ai = 29 \<or> ai = 30 then None
      else Some (of_nat ai, 1))"

definition cbor_get_type_and_value :: "bytes \<Rightarrow> (nat \<times> cbor_type_t \<times> u64) option" where
  "cbor_get_type_and_value buffer =
     (if length buffer < 1 then None
      else let mt = drop_bit 5 (buffer ! 0); ai = unat (buffer ! 0 AND 0x1F) in
      do { (val, result) \<leftarrow> cbor_argument ai buffer;
           if mt = 0 then Some (result, CBOR_TYPE_UNSIGNED_INTEGER, val)
           else if mt = 1
           then if drop_bit 63 val \<noteq> 0 then None else Some (result, CBOR_TYPE_NEGATIVE_INTEGER, NOT val)
           else if mt = 2 then Some (result, CBOR_TYPE_BYTE_STRING, val)
           else if mt = 3 then Some (result, CBOR_TYPE_TEXT_STRING, val)
           else if mt = 4 then Some (result, CBOR_TYPE_ARRAY, val)
           else if mt = 5 then Some (result, CBOR_TYPE_MAP, val)
           else if mt = 6 then Some (result, CBOR_TYPE_SEMANTIC_TAG, val)
           else if mt = 7
           then if ai = 25 then Some (result, CBOR_TYPE_FLOAT, half_to_double (ucast val))
                else if ai = 26 then Some (result, CBOR_TYPE_FLOAT, float_to_double (ucast val))
                else if ai = 27 then Some (result, CBOR_TYPE_FLOAT, val)
                else if ai = 31 then Some (result, CBOR_TYPE_BREAK, 0)
                else Some (result, CBOR_TYPE_SIMPLE_VALUE, val)
           else None })"

text \<open>The loop runs a second time behind a tag, and only once.\<close>

function cbor_get_singular_from ::
  "bool \<Rightarrow> bytes \<Rightarrow> nat \<Rightarrow> (nat \<times> lwm2m_data_type_t \<times> lwm2m_value) option" where
  "cbor_get_singular_from tagSeen buffer result =
     do { (res, mt, val) \<leftarrow> cbor_get_type_and_value (drop result buffer);
          let result = result + res;
          if mt = CBOR_TYPE_UNSIGNED_INTEGER then Some (result, LWM2M_TYPE_UNSIGNED_INTEGER, asUnsigned val)
          else if mt = CBOR_TYPE_NEGATIVE_INTEGER then Some (result, LWM2M_TYPE_INTEGER, asInteger val)
          else if mt = CBOR_TYPE_FLOAT then Some (result, LWM2M_TYPE_FLOAT, asFloat val)
          else if mt = CBOR_TYPE_SEMANTIC_TAG
          then if tagSeen then None else cbor_get_singular_from True buffer result
          else if mt = CBOR_TYPE_SIMPLE_VALUE
          then if val = 20 then Some (result, LWM2M_TYPE_BOOLEAN, asBoolean False)
               else if val = 21 then Some (result, LWM2M_TYPE_BOOLEAN, asBoolean True)
               else None
          else if mt = CBOR_TYPE_BYTE_STRING \<or> mt = CBOR_TYPE_TEXT_STRING
          then if unat val > length buffer - result then None
               else Some (result + unat val,
                          if mt = CBOR_TYPE_BYTE_STRING then LWM2M_TYPE_OPAQUE else LWM2M_TYPE_STRING,
                          asBuffer (take (unat val) (drop result buffer)))
          else None }"
  by pat_completeness auto
termination by (relation "measure (\<lambda>(tagSeen, b, r). if tagSeen then 0 else 1)") auto

declare cbor_get_singular_from.simps [simp del]

definition cbor_get_singular :: "bytes \<Rightarrow> lwm2m_data_t \<Rightarrow> (nat \<times> lwm2m_data_t) option" where
  "cbor_get_singular buffer d =
     (case cbor_get_singular_from False buffer 0 of
        None \<Rightarrow> None
      | Some (n, ty, v) \<Rightarrow> Some (n, Data ty (data_id d) v))"

section \<open>Writing\<close>

definition cbor_put_head :: "bytes \<Rightarrow> u8 \<Rightarrow> u8 \<Rightarrow> bytes \<Rightarrow> (bytes \<times> nat) c" where
  "cbor_put_head buffer mt ai arg =
     do { b \<leftarrow> wr_range buffer 0 ((push_bit 5 mt OR ai) # arg); Some (b, 1 + length arg) }"

definition prv_serialize_value :: "bytes \<Rightarrow> u8 \<Rightarrow> u64 \<Rightarrow> (bytes \<times> nat) c" where
  "prv_serialize_value buffer mt val =
     (let bufferLen = length buffer in
      if val < 0xFF
      then if val < 24
           then if bufferLen < 1 then Some (buffer, 0) else cbor_put_head buffer mt (ucast val) []
           else if bufferLen < 2 then Some (buffer, 0) else cbor_put_head buffer mt 24 [ucast val]
      else if val < 0xFFFF
      then if bufferLen < 3 then Some (buffer, 0) else cbor_put_head buffer mt 25 (utils_copyValue (le_bytes 2 val))
      else if val < 0xFFFFFFFF
      then if bufferLen < 5 then Some (buffer, 0) else cbor_put_head buffer mt 26 (utils_copyValue (le_bytes 4 val))
      else if bufferLen < 9 then Some (buffer, 0)
      else cbor_put_head buffer mt 27 (utils_copyValue (le_bytes 8 val)))"

definition prv_serialize_float :: "bytes \<Rightarrow> u64 \<Rightarrow> (bytes \<times> nat) c" where
  "prv_serialize_float buffer val =
     (let bufferLen = length buffer; uval = double_to_float val in
      if bufferLen < 3 then Some (buffer, 0)
      else if is_nan val then cbor_put_head buffer 7 25 [0x7E, 0]
      else if is_inf val then cbor_put_head buffer 7 25 [if bit val 63 then 0xFC else 0x7C, 0]
      else if float_to_double uval = val
      then let mant = uval AND 0x7FFFFF;
               e = int (unat (drop_bit 23 uval AND 0xFF)) - 127;
               sign = (ucast (drop_bit 24 (uval AND 0x80000000)) :: u8) in
           if e = 0xFF - 127 then cbor_put_head buffer 7 25 [sign OR 0x7C, 0]
           else if mant = 0 \<and> e = - 127 then cbor_put_head buffer 7 25 [sign, 0]
           else if mant AND 0x7FF = 0 \<and> e \<ge> - 14 \<and> e \<le> 15
           then let e' = e + 15; mant = drop_bit 13 mant in
                cbor_put_head buffer 7 25
                  [sign OR (push_bit 2 (of_int e') AND 0x7C) OR (ucast (drop_bit 8 mant) AND 3), ucast (mant AND 0xFF)]
           else if e \<ge> - 24 \<and> e \<le> - 14 \<and> mant AND (mask (nat (1 - e))) = 0
           then let mant = drop_bit (nat (- 1 - e)) (mant + 0x800000) in
                cbor_put_head buffer 7 25 [sign OR (ucast (drop_bit 8 mant) AND 3), ucast (mant AND 0xFF)]
           else if bufferLen < 5 then Some (buffer, 0)
           else cbor_put_head buffer 7 26 (utils_copyValue (le_bytes 4 (ucast uval)))
      else if bufferLen < 9 then Some (buffer, 0)
      else cbor_put_head buffer 7 27 (utils_copyValue (le_bytes 8 val)))"

text \<open>The break byte is written without the shift of the major type.\<close>

definition cbor_put_type_and_value :: "bytes \<Rightarrow> cbor_type_t \<Rightarrow> u64 \<Rightarrow> (bytes \<times> nat) c" where
  "cbor_put_type_and_value buffer ty val =
     (if length buffer < 1 then Some (buffer, 0)
      else let val = (if ty = CBOR_TYPE_NEGATIVE_INTEGER then NOT val else val) in
      case ty of
        CBOR_TYPE_FLOAT \<Rightarrow> prv_serialize_float buffer val
      | CBOR_TYPE_UNKNOWN \<Rightarrow> Some (buffer, 0)
      | CBOR_TYPE_UNSIGNED_INTEGER \<Rightarrow> prv_serialize_value buffer 0 val
      | CBOR_TYPE_NEGATIVE_INTEGER \<Rightarrow> prv_serialize_value buffer 1 val
      | CBOR_TYPE_SEMANTIC_TAG \<Rightarrow> prv_serialize_value buffer 6 val
      | CBOR_TYPE_SIMPLE_VALUE \<Rightarrow> if val > 255 then Some (buffer, 0) else prv_serialize_value buffer 7 val
      | CBOR_TYPE_BREAK \<Rightarrow> do { b \<leftarrow> wr buffer 0 (7 OR 31); Some (b, 1) }
      | CBOR_TYPE_BYTE_STRING \<Rightarrow> prv_serialize_value buffer 2 val
      | CBOR_TYPE_TEXT_STRING \<Rightarrow> prv_serialize_value buffer 3 val
      | CBOR_TYPE_ARRAY \<Rightarrow> prv_serialize_value buffer 4 val
      | CBOR_TYPE_MAP \<Rightarrow> prv_serialize_value buffer 5 val)"

text \<open>The string is copied behind its header without a test for the space left.\<close>

definition cbor_put_string :: "bytes \<Rightarrow> u8 \<Rightarrow> bytes \<Rightarrow> (bytes \<times> nat) c" where
  "cbor_put_string buffer mt s =
     do { (b, res) \<leftarrow> prv_serialize_value buffer mt (of_nat (length s));
          if s = [] then Some (b, res)
          else if res = 0 then Some (b, 0)
          else do { b' \<leftarrow> wr_range b res s; Some (b', res + length s) } }"

text \<open>\<open>snprintf\<close> to the position behind the header, with the size \<open>bufferLen - 1\<close>.\<close>

definition cbor_put_objlink :: "bytes \<Rightarrow> u16 \<Rightarrow> u16 \<Rightarrow> (bytes \<times> nat) c" where
  "cbor_put_objlink buffer oid iid =
     (let text = dec_text (unat oid) @ chr CHR '':'' # dec_text (unat iid); room = length buffer - 1 in
      if buffer = [] then None
      else do { b \<leftarrow> (if room = 0 then Some buffer else wr_range buffer 1 (take (room - 1) text @ [0]));
                if room > length text
                then do { (b', n) \<leftarrow> prv_serialize_value b 3 (of_nat (length text));
                          Some (b', if n = 1 then length text + 1 else 0) }
                else Some (b, 0) })"

definition cbor_put_singular :: "bytes \<Rightarrow> lwm2m_data_t \<Rightarrow> (bytes \<times> nat) c" where
  "cbor_put_singular buffer d =
     (let v = data_value d in
      case data_type d of
        LWM2M_TYPE_STRING \<Rightarrow> do { s \<leftarrow> value_buffer v; cbor_put_string buffer 3 s }
      | LWM2M_TYPE_CORE_LINK \<Rightarrow> do { s \<leftarrow> value_buffer v; cbor_put_string buffer 3 s }
      | LWM2M_TYPE_OPAQUE \<Rightarrow> do { s \<leftarrow> value_buffer v; cbor_put_string buffer 2 s }
      | LWM2M_TYPE_INTEGER \<Rightarrow>
          do { i \<leftarrow> value_integer v;
               if sint i < 0 then prv_serialize_value buffer 1 (NOT i) else prv_serialize_value buffer 0 i }
      | LWM2M_TYPE_UNSIGNED_INTEGER \<Rightarrow> do { i \<leftarrow> value_unsigned v; prv_serialize_value buffer 0 i }
      | LWM2M_TYPE_FLOAT \<Rightarrow> do { x \<leftarrow> value_float v; prv_serialize_float buffer x }
      | LWM2M_TYPE_BOOLEAN \<Rightarrow> do { x \<leftarrow> value_boolean v; prv_serialize_value buffer 7 (if x then 21 else 20) }
      | LWM2M_TYPE_OBJECT_LINK \<Rightarrow> do { (oid, iid) \<leftarrow> value_objlink v; cbor_put_objlink buffer oid iid }
      | _ \<Rightarrow> Some (buffer, 0))"

section \<open>The bytes of an item\<close>

definition cbor_head :: "u8 \<Rightarrow> u64 \<Rightarrow> bytes" where
  "cbor_head mt val =
     (if val < 24 then [push_bit 5 mt OR ucast val]
      else if val < 0xFF then [push_bit 5 mt OR 24, ucast val]
      else if val < 0xFFFF then (push_bit 5 mt OR 25) # rev (le_bytes 2 val)
      else if val < 0xFFFFFFFF then (push_bit 5 mt OR 26) # rev (le_bytes 4 val)
      else (push_bit 5 mt OR 27) # rev (le_bytes 8 val))"

lemma cbor_head_length: "0 < length (cbor_head mt val)" "length (cbor_head mt val) \<le> 9"
  by (auto simp: cbor_head_def)

lemma serialize_value_eq:
  "prv_serialize_value buffer mt val =
     (if length (cbor_head mt val) \<le> length buffer
      then Some (cbor_head mt val @ drop (length (cbor_head mt val)) buffer, length (cbor_head mt val)) else Some (buffer, 0))"
proof -
  have "val < 24 \<Longrightarrow> val < 0xFF" by (rule less_trans [of _ 24]) simp_all
  then show ?thesis
    by (auto simp: prv_serialize_value_def cbor_head_def Let_def cbor_put_head_def wr_range_def utils_copyValue_rev not_less not_le)
qed

lemma word_bit_bound:
  fixes v :: "'a::len word"
  assumes "unat v < 2 ^ k" and "bit v n"
  shows "n < k"
proof -
  have "bit (unat v) n" using assms(2) by (simp add: bit_unsigned_iff)
  then have "2 ^ n \<le> unat v" by (metis bit_iff_odd div_less even_zero not_less)
  then have "(2 :: nat) ^ n < 2 ^ k" using assms(1) by (rule le_less_trans)
  then show ?thesis by simp
qed

lemma head_byte:
  assumes "mt < 8" and "ai < 32"
  shows "drop_bit 5 (push_bit 5 mt OR ai :: u8) = mt" "(push_bit 5 mt OR ai :: u8) AND 0x1F = ai"
proof -
  have m: "bit mt i \<Longrightarrow> i < 3" and a: "bit ai i \<Longrightarrow> i < 5" for i
    using word_bit_bound [of mt 3 i] word_bit_bound [of ai 5 i] assms by (simp_all add: word_less_nat_alt)
  have k: "(0x1F :: u8) = mask 5" by (simp add: mask_eq_exp_minus_1)
  show "drop_bit 5 (push_bit 5 mt OR ai :: u8) = mt"
    using m a by (intro bit_word_eqI) (fastforce simp: bit_simps)
  show "(push_bit 5 mt OR ai :: u8) AND 0x1F = ai"
    using a unfolding k by (intro bit_word_eqI) (fastforce simp: bit_simps)
qed

lemma ucast_restore:
  assumes "unat (val :: u64) < 2 ^ LENGTH('a::len)" and "LENGTH('a) \<le> 64"
  shows "ucast (ucast val :: 'a word) = val"
  using word_bit_bound [OF assms(1)] assms(2) by (intro bit_word_eqI) (auto simp: bit_simps)

lemma le_bytes_read:
  assumes "8 dvd LENGTH('a::len)" and "unat (val :: u64) < 2 ^ LENGTH('a)" and "LENGTH('a) \<le> 64"
  shows "ucast (of_le (le_bytes (LENGTH('a) div 8) val) :: 'a word) = val"
  using of_le_le_bytes [OF assms(1), of val] ucast_restore [OF assms(2,3)] by simp

lemma cbor_head_cases:
  obtains (tiny) "val < 24" "cbor_head mt val = [push_bit 5 mt OR ucast val]"
  | (one) "val < 0xFF" "cbor_head mt val = [push_bit 5 mt OR 24, ucast val]"
  | (two) "val < 0xFFFF" "cbor_head mt val = (push_bit 5 mt OR 25) # rev (le_bytes 2 val)"
  | (four) "val < 0xFFFFFFFF" "cbor_head mt val = (push_bit 5 mt OR 26) # rev (le_bytes 4 val)"
  | (eight) "cbor_head mt val = (push_bit 5 mt OR 27) # rev (le_bytes 8 val)"
  by (cases "val < 24"; cases "val < 0xFF"; cases "val < 0xFFFF"; cases "val < 0xFFFFFFFF") (auto simp: cbor_head_def)

lemma head_reads:
  assumes "mt < 8"
  shows "drop_bit 5 ((cbor_head mt val @ rest) ! 0) = mt \<and>
    cbor_argument (unat ((cbor_head mt val @ rest) ! 0 AND 0x1F)) (cbor_head mt val @ rest) = Some (val, length (cbor_head mt val))"
proof -
  note hb = head_byte [OF assms]
  show ?thesis
  proof (cases rule: cbor_head_cases [where val = val and mt = mt])
    case tiny
    then have "unat (ucast val :: u8) = unat val" by (simp add: unat_ucast_down word_less_nat_alt)
    then have "(ucast val :: u8) < 32" "unat (ucast val :: u8) < 24" "of_nat (unat (ucast val :: u8)) = val"
      using tiny(1) by (simp_all add: word_less_nat_alt)
    then show ?thesis using tiny hb [of "ucast val"] by (simp add: cbor_argument_def)
  next
    case one
    then have "ucast (ucast val :: u8) = val" using ucast_restore [where 'a = 8, of val] by (simp add: word_less_nat_alt)
    then show ?thesis using one hb [of 24] by (simp add: cbor_argument_def)
  next
    case two
    then have "ucast (of_le (le_bytes 2 val) :: u16) = val"
      using le_bytes_read [where 'a = 16, of val] by (simp add: word_less_nat_alt)
    then show ?thesis using two hb [of 25] by (simp add: cbor_argument_def utils_copyValue_rev)
  next
    case four
    then have "ucast (of_le (le_bytes 4 val) :: u32) = val"
      using le_bytes_read [where 'a = 32, of val] by (simp add: word_less_nat_alt)
    then show ?thesis using four hb [of 26] by (simp add: cbor_argument_def utils_copyValue_rev)
  next
    case eight
    have "(of_le (le_bytes 8 val) :: u64) = val" using of_le_le_bytes [where 'a = 64, of val] by simp
    then show ?thesis using eight hb [of 27] by (simp add: cbor_argument_def utils_copyValue_rev)
  qed
qed

section \<open>Items\<close>

fun cbor_major :: "cbor_type_t \<Rightarrow> u8 option" where
  "cbor_major CBOR_TYPE_UNSIGNED_INTEGER = Some 0"
| "cbor_major CBOR_TYPE_NEGATIVE_INTEGER = Some 1"
| "cbor_major CBOR_TYPE_BYTE_STRING = Some 2"
| "cbor_major CBOR_TYPE_TEXT_STRING = Some 3"
| "cbor_major CBOR_TYPE_ARRAY = Some 4"
| "cbor_major CBOR_TYPE_MAP = Some 5"
| "cbor_major CBOR_TYPE_SEMANTIC_TAG = Some 6"
| "cbor_major _ = None"

definition cbor_arg :: "cbor_type_t \<Rightarrow> u64 \<Rightarrow> u64" where
  "cbor_arg ty val = (if ty = CBOR_TYPE_NEGATIVE_INTEGER then NOT val else val)"

lemma get_head:
  assumes "cbor_major ty = Some mt" and "ty = CBOR_TYPE_NEGATIVE_INTEGER \<longrightarrow> bit val 63"
  shows "cbor_get_type_and_value (cbor_head mt (cbor_arg ty val) @ rest) =
    Some (length (cbor_head mt (cbor_arg ty val)), ty, val)"
proof -
  let ?h = "cbor_head mt (cbor_arg ty val)"
  have "mt < 8" using assms(1) by (cases ty) auto
  note h = head_reads [OF this, of "cbor_arg ty val" rest]
  have len: "\<not> length (?h @ rest) < 1" using cbor_head_length(1) [of mt "cbor_arg ty val"] by simp
  have neg: "drop_bit 63 (NOT val) = 0" if "bit val 63"
  proof (rule bit_word_eqI)
    show "bit (drop_bit 63 (NOT val)) n \<longleftrightarrow> bit (0 :: u64) n" for n
      using that by (cases n) (auto simp: bit_simps)
  qed
  show ?thesis
    unfolding cbor_get_type_and_value_def Let_def if_not_P [OF len] h [THEN conjunct1] h [THEN conjunct2]
    using assms neg by (cases ty) (auto simp: cbor_arg_def)
qed

lemma put_type_eq:
  assumes "cbor_major ty = Some mt" and "buffer \<noteq> []"
  shows "cbor_put_type_and_value buffer ty val = prv_serialize_value buffer mt (cbor_arg ty val)"
proof -
  have "\<not> length buffer < 1" using assms(2) by (cases buffer) auto
  then show ?thesis using assms(1) by (cases ty) (auto simp: cbor_put_type_and_value_def cbor_arg_def)
qed

text \<open>The head of every CBOR item but simple values and floats (integers, strings, arrays, maps,
  tags) is written in at most nine bytes and read back with its type and its value, whatever
  follows it.\<close>

theorem cbor_item_roundtrip:
  assumes "cbor_major ty = Some mt" and "ty = CBOR_TYPE_NEGATIVE_INTEGER \<longrightarrow> bit val 63" and "9 \<le> length buffer"
  shows "\<exists>b n. cbor_put_type_and_value buffer ty val = Some (b, n) \<and> length b = length buffer \<and> 0 < n \<and> n \<le> 9 \<and>
    cbor_get_type_and_value (take n b @ rest) = Some (n, ty, val)"
proof -
  let ?h = "cbor_head mt (cbor_arg ty val)"
  have "buffer \<noteq> []" using assms(3) by auto
  then show ?thesis
    using put_type_eq [OF assms(1)] get_head [OF assms(1,2)] cbor_head_length [of mt "cbor_arg ty val"] assms(3)
    by (simp add: serialize_value_eq)
qed

theorem cbor_item_roundtrip_witness:
  "\<exists>b n. cbor_put_type_and_value (replicate 9 0) CBOR_TYPE_NEGATIVE_INTEGER (- 500) = Some (b, n) \<and> length b = 9 \<and> 0 < n \<and> n \<le> 9 \<and>
    cbor_get_type_and_value (take n b @ [1, 2]) = Some (n, CBOR_TYPE_NEGATIVE_INTEGER, - 500)"
  using cbor_item_roundtrip [of CBOR_TYPE_NEGATIVE_INTEGER 1 "- 500" "replicate 9 0" "[1, 2]"] by simp

text \<open>What a writer may do to its buffer: change the bytes it reports, and nothing when it fails.\<close>

definition writes_inside :: "bytes \<Rightarrow> (bytes \<times> nat) c \<Rightarrow> bool" where
  "writes_inside buffer r \<longleftrightarrow>
     (\<exists>b n. r = Some (b, n) \<and> length b = length buffer \<and> n \<le> length buffer \<and> drop n b = drop n buffer)"

lemma put_head_eq:
  "length arg < length buffer \<Longrightarrow>
   cbor_put_head buffer mt ai arg = Some ((push_bit 5 mt OR ai) # arg @ drop (1 + length arg) buffer, 1 + length arg)"
  by (simp add: cbor_put_head_def wr_range_def)

lemma put_head_inside: "length arg < length buffer \<Longrightarrow> writes_inside buffer (cbor_put_head buffer mt ai arg)"
  by (simp add: put_head_eq writes_inside_def)

lemma writes_nothing: "writes_inside buffer (Some (buffer, 0))"
  by (simp add: writes_inside_def)

lemma serialize_value_inside: "writes_inside buffer (prv_serialize_value buffer mt val)"
  by (simp add: serialize_value_eq writes_inside_def)

lemma serialize_float_inside: "writes_inside buffer (prv_serialize_float buffer val)"
  unfolding prv_serialize_float_def Let_def
  by (simp add: put_head_inside writes_nothing utils_copyValue_rev split: if_split)

text \<open>Whatever the type, the value and the buffer, \<open>cbor_put_type_and_value\<close> stays inside the buffer,
  changes only the bytes whose number it returns and nothing when it returns 0.\<close>

theorem cbor_put_in_bounds:
  "writes_inside buffer (cbor_put_type_and_value buffer ty val)"
proof (cases "length buffer < 1")
  case True
  then show ?thesis by (simp add: cbor_put_type_and_value_def writes_nothing)
next
  case False
  then have "writes_inside buffer (do { b \<leftarrow> wr buffer 0 (7 OR 31); Some (b, 1) })"
    by (simp add: writes_inside_def wr_def Suc_le_eq)
  then show ?thesis
    using False by (cases ty) (simp_all add: cbor_put_type_and_value_def Let_def serialize_value_inside serialize_float_inside writes_nothing)
qed

section \<open>Values of single resources\<close>

text \<open>What a reader sees of a value: core links and object links become strings, integers that are
  not negative become unsigned.\<close>

fun cbor_view :: "lwm2m_data_t \<Rightarrow> (lwm2m_data_type_t \<times> lwm2m_value) option" where
  "cbor_view (Data LWM2M_TYPE_STRING i (asBuffer s)) = Some (LWM2M_TYPE_STRING, asBuffer s)"
| "cbor_view (Data LWM2M_TYPE_CORE_LINK i (asBuffer s)) = Some (LWM2M_TYPE_STRING, asBuffer s)"
| "cbor_view (Data LWM2M_TYPE_OPAQUE i (asBuffer s)) = Some (LWM2M_TYPE_OPAQUE, asBuffer s)"
| "cbor_view (Data LWM2M_TYPE_INTEGER i (asInteger x)) =
     Some (if bit x 63 then (LWM2M_TYPE_INTEGER, asInteger x) else (LWM2M_TYPE_UNSIGNED_INTEGER, asUnsigned x))"
| "cbor_view (Data LWM2M_TYPE_UNSIGNED_INTEGER i (asUnsigned x)) = Some (LWM2M_TYPE_UNSIGNED_INTEGER, asUnsigned x)"
| "cbor_view (Data LWM2M_TYPE_BOOLEAN i (asBoolean x)) = Some (LWM2M_TYPE_BOOLEAN, asBoolean x)"
| "cbor_view (Data LWM2M_TYPE_OBJECT_LINK i (asObjLink o1 o2)) =
     Some (LWM2M_TYPE_STRING, asBuffer (dec_text (unat o1) @ chr CHR '':'' # dec_text (unat o2)))"
| "cbor_view _ = None"

fun cbor_content :: "lwm2m_data_t \<Rightarrow> nat" where
  "cbor_content (Data _ _ (asBuffer s)) = length s"
| "cbor_content (Data _ _ (asObjLink _ _)) = 4"
| "cbor_content _ = 0"

lemma get_singular_string:
  assumes "ty = CBOR_TYPE_BYTE_STRING \<or> ty = CBOR_TYPE_TEXT_STRING" and "cbor_major ty = Some mt" and "length s < 2 ^ 64"
  shows "cbor_get_singular (cbor_head mt (of_nat (length s)) @ s @ rest) d =
    Some (length (cbor_head mt (of_nat (length s))) + length s,
          Data (if ty = CBOR_TYPE_BYTE_STRING then LWM2M_TYPE_OPAQUE else LWM2M_TYPE_STRING) (data_id d) (asBuffer s))"
proof -
  have u: "unat (of_nat (length s) :: u64) = length s" using assms(3) by (intro unat_of_nat_small) simp
  have a: "cbor_arg ty (of_nat (length s)) = of_nat (length s)" using assms(1) by (auto simp: cbor_arg_def)
  have g: "cbor_get_type_and_value (cbor_head mt (of_nat (length s)) @ s @ rest) =
      Some (length (cbor_head mt (of_nat (length s))), ty, of_nat (length s))"
    using get_head [OF assms(2), of "of_nat (length s)" "s @ rest"] assms(1) a by auto
  show ?thesis
    unfolding cbor_get_singular_def
    by (subst cbor_get_singular_from.simps) (use assms(1) g u in \<open>auto simp: Let_def\<close>)
qed

lemma get_singular_number:
  assumes "ty = CBOR_TYPE_UNSIGNED_INTEGER \<or> (ty = CBOR_TYPE_NEGATIVE_INTEGER \<and> bit val 63)" and "cbor_major ty = Some mt"
  shows "cbor_get_singular (cbor_head mt (cbor_arg ty val) @ rest) d =
    Some (length (cbor_head mt (cbor_arg ty val)),
          if ty = CBOR_TYPE_UNSIGNED_INTEGER then Data LWM2M_TYPE_UNSIGNED_INTEGER (data_id d) (asUnsigned val)
          else Data LWM2M_TYPE_INTEGER (data_id d) (asInteger val))"
proof -
  have g: "cbor_get_type_and_value (cbor_head mt (cbor_arg ty val) @ rest) = Some (length (cbor_head mt (cbor_arg ty val)), ty, val)"
    using get_head [OF assms(2)] assms(1) by blast
  show ?thesis
    unfolding cbor_get_singular_def
    by (subst cbor_get_singular_from.simps) (use assms(1) g in \<open>auto simp: Let_def\<close>)
qed

lemma get_singular_bool:
  "cbor_get_singular (cbor_head 7 (if x then 21 else 20) @ rest) d =
     Some (length (cbor_head 7 (if x then 21 else 20)), Data LWM2M_TYPE_BOOLEAN (data_id d) (asBoolean x))"
  unfolding cbor_get_singular_def
  by (subst cbor_get_singular_from.simps) (simp add: cbor_head_def cbor_get_type_and_value_def cbor_argument_def Let_def)

lemma put_string_eq:
  assumes "9 + length s \<le> length buffer"
  shows "\<exists>r. cbor_put_string buffer mt s =
    Some (cbor_head mt (of_nat (length s)) @ s @ r, length (cbor_head mt (of_nat (length s))) + length s) \<and>
    length (cbor_head mt (of_nat (length s))) + length s + length r = length buffer"
proof -
  let ?h = "cbor_head mt (of_nat (length s))"
  have h: "length ?h \<le> 9" "0 < length ?h" using cbor_head_length by auto
  then show ?thesis
    using assms
    by (auto simp: cbor_put_string_def serialize_value_eq wr_range_def)
qed


lemma put_number_eq:
  "9 \<le> length buffer \<Longrightarrow> prv_serialize_value buffer mt val =
     Some (cbor_head mt val @ drop (length (cbor_head mt val)) buffer, length (cbor_head mt val))"
  using cbor_head_length(2) [of mt val] by (simp add: serialize_value_eq)

lemma objlink_text_length:
  "length (dec_text (unat (o1 :: u16)) @ chr CHR '':'' # dec_text (unat (o2 :: u16))) \<le> 11"
proof -
  have "length (dec_text (unat i)) \<le> 5" for i :: u16
    using unat_u16_less [of i] by (intro dec_text_length_less) simp_all
  from this [of o1] this [of o2] show ?thesis by simp
qed

lemma put_objlink_eq:
  fixes o1 o2 :: u16
  defines "t \<equiv> dec_text (unat o1) @ chr CHR '':'' # dec_text (unat o2)"
  assumes "13 \<le> length buffer"
  shows "\<exists>r. cbor_put_objlink buffer o1 o2 = Some (cbor_head 3 (of_nat (length t)) @ t @ r, 1 + length t) \<and>
    length (cbor_head 3 (of_nat (length t))) = 1 \<and> length t + length r + 1 = length buffer"
proof -
  let ?h = "cbor_head 3 (of_nat (length t))"
  have l: "length t \<le> 11" unfolding t_def by (rule objlink_text_length)
  have "(of_nat (length t) :: u64) < 24" using l by (simp add: word_less_nat_alt unat_of_nat_small)
  then have h: "length ?h = 1" by (simp add: cbor_head_def)
  obtain x bs where b: "buffer = x # bs" using assms(2) by (cases buffer) auto
  have "wr_range buffer 1 (take (length bs - 1) t @ [0]) = Some (x # t @ 0 # drop (length t + 1) bs)"
    using l assms(2) b by (simp add: wr_range_def)
  then show ?thesis
    unfolding cbor_put_objlink_def t_def [symmetric] Let_def
    using l assms(2) b h by (auto simp: serialize_value_eq)
qed

text \<open>A value written to a buffer and read back, with exactly the bytes that were reported.\<close>

definition reads_back :: "bytes \<Rightarrow> lwm2m_data_t \<Rightarrow> lwm2m_data_type_t \<times> lwm2m_value \<Rightarrow> bool" where
  "reads_back buffer d tv \<longleftrightarrow>
     (\<exists>b n. cbor_put_singular buffer d = Some (b, n) \<and> 0 < n \<and> n \<le> length b \<and> length b = length buffer \<and>
       (\<forall>d'. cbor_get_singular (take n b) d' = Some (n, Data (fst tv) (data_id d') (snd tv))))"

lemma reads_back_string:
  assumes "cbor_put_singular buffer d = cbor_put_string buffer mt s" and "9 + length s \<le> length buffer" and "length s < 2 ^ 64"
    and "(mt = 2 \<and> ty = LWM2M_TYPE_OPAQUE) \<or> (mt = 3 \<and> ty = LWM2M_TYPE_STRING)"
  shows "reads_back buffer d (ty, asBuffer s)"
proof -
  let ?c = "if mt = 2 then CBOR_TYPE_BYTE_STRING else CBOR_TYPE_TEXT_STRING"
  have "?c = CBOR_TYPE_BYTE_STRING \<or> ?c = CBOR_TYPE_TEXT_STRING" "cbor_major ?c = Some mt"
    using assms(4) by auto
  note g = get_singular_string [OF this assms(3), of "[]"]
  show ?thesis unfolding reads_back_def
    using put_string_eq [OF assms(2), of mt] g assms cbor_head_length(1) [of mt "of_nat (length s)"] by auto
qed

lemma reads_back_number:
  assumes "cbor_put_singular buffer d = prv_serialize_value buffer mt (cbor_arg c x)" and "cbor_major c = Some mt" and "9 \<le> length buffer"
    and "(c = CBOR_TYPE_UNSIGNED_INTEGER \<and> tv = (LWM2M_TYPE_UNSIGNED_INTEGER, asUnsigned x)) \<or>
     (c = CBOR_TYPE_NEGATIVE_INTEGER \<and> bit x 63 \<and> tv = (LWM2M_TYPE_INTEGER, asInteger x))"
  shows "reads_back buffer d tv"
proof -
  have "c = CBOR_TYPE_UNSIGNED_INTEGER \<or> (c = CBOR_TYPE_NEGATIVE_INTEGER \<and> bit x 63)" using assms(4) by auto
  note g = get_singular_number [OF this assms(2), of "[]"]
  show ?thesis unfolding reads_back_def
    using g assms cbor_head_length [of mt "cbor_arg c x"] by (auto simp: put_number_eq)
qed

lemma reads_back_bool:
  assumes "9 \<le> length buffer"
  shows "reads_back buffer (Data LWM2M_TYPE_BOOLEAN i (asBoolean x)) (LWM2M_TYPE_BOOLEAN, asBoolean x)"
  using get_singular_bool [of x "[]"] assms cbor_head_length [of 7 "if x then 21 else 20"]
  unfolding reads_back_def cbor_put_singular_def by (simp add: put_number_eq)

lemma reads_back_link:
  fixes o1 o2 :: u16
  assumes "13 \<le> length buffer"
  shows "reads_back buffer (Data LWM2M_TYPE_OBJECT_LINK i (asObjLink o1 o2))
    (LWM2M_TYPE_STRING, asBuffer (dec_text (unat o1) @ chr CHR '':'' # dec_text (unat o2)))"
proof -
  let ?t = "dec_text (unat o1) @ chr CHR '':'' # dec_text (unat o2)"
  from put_objlink_eq [OF assms, of o1 o2] obtain r where
    r: "cbor_put_objlink buffer o1 o2 = Some (cbor_head 3 (of_nat (length ?t)) @ ?t @ r, 1 + length ?t)"
    "length (cbor_head 3 (of_nat (length ?t))) = 1" "length ?t + length r + 1 = length buffer" by blast
  have "length ?t < 2 ^ 64" using objlink_text_length [of o1 o2] by simp
  from get_singular_string [OF _ _ this, of CBOR_TYPE_TEXT_STRING 3 "[]"] show ?thesis
    using r unfolding reads_back_def by (auto simp: cbor_put_singular_def)
qed

lemma sint_negative_iff: "sint (x :: u64) < 0 \<longleftrightarrow> bit x 63"
  using bit_last_iff [of x] by simp

lemma cbor_view_reads_back:
  assumes "cbor_view d = Some tv" and "9 + cbor_content d \<le> length buffer" and "cbor_content d < 2 ^ 64"
  shows "reads_back buffer d tv"
  using assms
proof (induction d rule: cbor_view.induct)
  case (1 i s)
  then show ?case by (auto intro!: reads_back_string [of _ _ 3] simp: cbor_put_singular_def)
next
  case (2 i s)
  then show ?case by (auto intro!: reads_back_string [of _ _ 3] simp: cbor_put_singular_def)
next
  case (3 i s)
  then show ?case by (auto intro!: reads_back_string [of _ _ 2] simp: cbor_put_singular_def)
next
  case (4 i x)
  then show ?case
    using reads_back_number [of buffer "Data LWM2M_TYPE_INTEGER i (asInteger x)" 0 CBOR_TYPE_UNSIGNED_INTEGER x tv]
      reads_back_number [of buffer "Data LWM2M_TYPE_INTEGER i (asInteger x)" 1 CBOR_TYPE_NEGATIVE_INTEGER x tv]
    by (cases "bit x 63") (simp_all add: cbor_put_singular_def cbor_arg_def sint_negative_iff)
next
  case (5 i x)
  then show ?case
    using reads_back_number [of buffer "Data LWM2M_TYPE_UNSIGNED_INTEGER i (asUnsigned x)" 0 CBOR_TYPE_UNSIGNED_INTEGER x tv]
    by (simp add: cbor_put_singular_def cbor_arg_def)
qed (auto intro: reads_back_bool reads_back_link)



section \<open>Floating point numbers\<close>

lemma get_float_head:
  "cbor_get_type_and_value (0xFA # rev (le_bytes 4 (ucast (f :: u32))) @ rest) = Some (5, CBOR_TYPE_FLOAT, float_to_double f)"
  "cbor_get_type_and_value (0xFB # rev (le_bytes 8 d) @ rest) = Some (9, CBOR_TYPE_FLOAT, d)"
proof -
  have "(of_le (le_bytes 4 (ucast f)) :: u32) = f" "(of_le (le_bytes 8 d) :: u64) = d"
    using of_le_le_bytes [where 'a = 32, of "ucast f"] of_le_le_bytes [where 'a = 64, of d] by simp_all
  then show "cbor_get_type_and_value (0xFA # rev (le_bytes 4 (ucast (f :: u32))) @ rest) = Some (5, CBOR_TYPE_FLOAT, float_to_double f)"
  "cbor_get_type_and_value (0xFB # rev (le_bytes 8 d) @ rest) = Some (9, CBOR_TYPE_FLOAT, d)"
    by (simp_all add: cbor_get_type_and_value_def cbor_argument_def Let_def utils_copyValue_rev)
qed

lemma put_half:
  "cbor_put_head buffer 7 25 [x, y] = Some (b, n) \<Longrightarrow> n = 3"
  by (auto simp: cbor_put_head_def wr_range_def split: if_splits)

lemma serialize_float_long:
  assumes "prv_serialize_float buffer val = Some (b, n)" and "3 < n"
  shows "(cbor_put_head buffer 7 27 (rev (le_bytes 8 val)) = Some (b, n) \<and> 9 \<le> length buffer) \<or>
    (cbor_put_head buffer 7 26 (rev (le_bytes 4 (ucast (double_to_float val)))) = Some (b, n) \<and>
      float_to_double (double_to_float val) = val \<and> 5 \<le> length buffer)"
  using assms put_half [of buffer _ _ b n]
  by (auto simp: prv_serialize_float_def Let_def utils_copyValue_rev split: if_splits)

text \<open>A floating point number that is written in single or double precision is read back as the same
  number, bit by bit.\<close>

theorem cbor_float_exact:
  assumes "prv_serialize_float buffer val = Some (b, n)" and "3 < n"
  shows "cbor_get_type_and_value (take n b @ rest) = Some (n, CBOR_TYPE_FLOAT, val)"
  using serialize_float_long [OF assms] get_float_head
  by (auto simp: put_head_eq)

lemmas float_edges = float_to_double_def double_to_float_def ldexp_bits_def half_to_double_def is_nan_def is_inf_def
  round_even_def Let_def mask_eq_exp_minus_1 bit_simps

theorem cbor_float_exact_witness:
  "\<exists>b. prv_serialize_float (replicate 9 0) 0x400921FB54442D18 = Some (b, 9) \<and>
    cbor_get_type_and_value (take 9 b @ [1]) = Some (9, CBOR_TYPE_FLOAT, 0x400921FB54442D18)"
proof -
  have "is_nan 0x400921FB54442D18 = False" "is_inf 0x400921FB54442D18 = False"
    "float_to_double (double_to_float 0x400921FB54442D18) \<noteq> 0x400921FB54442D18"
    by (simp_all add: float_edges)
  then have "\<exists>b. prv_serialize_float (replicate 9 0) 0x400921FB54442D18 = Some (b, 9)"
    by (simp add: prv_serialize_float_def put_head_eq utils_copyValue_rev)
  then obtain b where "prv_serialize_float (replicate 9 0) 0x400921FB54442D18 = Some (b, 9)" by blast
  with cbor_float_exact [OF this, of "[1]"] show ?thesis by auto
qed

text \<open>What the CBOR functions do at their edges: a string that does not fit is copied over the end of the
  buffer; the simple value 255 is written with a two byte argument and read back as a number; the break
  byte is written as an unsigned integer; 1 + 2^-12 is written as 1.0; an array of unknown length is
  read as an array of 31 elements.\<close>

theorem cbor_edge_cases:
  "cbor_put_singular (replicate 4 0) (Data LWM2M_TYPE_STRING 0 (asBuffer [1, 2, 3, 4])) = None \<and>
   cbor_put_type_and_value (replicate 3 0) CBOR_TYPE_SIMPLE_VALUE 255 = Some ([0xF9, 0, 0xFF], 3) \<and>
   cbor_get_type_and_value [0xF9, 0, 0xFF] = Some (3, CBOR_TYPE_FLOAT, 0x3EEFE00000000000) \<and>
   cbor_put_type_and_value [0] CBOR_TYPE_BREAK 0 = Some ([0x1F], 1) \<and>
   cbor_get_type_and_value [0x1F] = Some (1, CBOR_TYPE_UNSIGNED_INTEGER, 31) \<and>
   prv_serialize_float (replicate 9 0) 0x3FF0010000000000 = Some ([0xF9, 0x3C, 0] @ replicate 6 0, 3) \<and>
   cbor_get_type_and_value [0xF9, 0x3C, 0] = Some (3, CBOR_TYPE_FLOAT, 0x3FF0000000000000) \<and>
   cbor_get_type_and_value [0x9F] = Some (1, CBOR_TYPE_ARRAY, 31)"
  by (intro conjI)
     (simp_all add: cbor_put_singular_def cbor_put_string_def serialize_value_eq cbor_head_def
      cbor_put_type_and_value_def cbor_get_type_and_value_def cbor_argument_def prv_serialize_float_def put_head_eq
      utils_copyValue_rev le_bytes_def float_edges upt_rec_numeral upt_conv_Cons wr_range_def)

end
