(* ===== verification/Ieee.thy ===== *)
theory Ieee
  imports Cbor
begin

text \<open>
  Floating point arithmetic of the language, as far as the sources use it: \<open>double\<close> and \<open>float\<close> are
  IEEE 754 binary64 and binary32 bit patterns.  A pattern denotes a multiple of the smallest
  subnormal number; sums and differences are computed exactly and rounded once, to nearest and
  ties to even.  The library function \<open>strtod\<close> converts a decimal or hexadecimal text.
\<close>

section \<open>Values\<close>

text \<open>A finite value is a sign and a number of units, 2^-1074 for \<open>double\<close> and 2^-149 for \<open>float\<close>.\<close>

datatype fp_value = FP_nan | FP_inf bool | FP_fin bool nat

definition fp_val :: "nat \<Rightarrow> nat \<Rightarrow> bool \<Rightarrow> nat \<Rightarrow> fp_value" where
  "fp_val mb emax neg mag =
     (let e = mag div 2 ^ mb; m = mag mod 2 ^ mb in
      if e \<ge> emax then if m = 0 then FP_inf neg else FP_nan
      else FP_fin neg (if e = 0 then m else (2 ^ mb + m) * 2 ^ (e - 1)))"

definition double_val :: "u64 \<Rightarrow> fp_value" where
  "double_val d = fp_val 52 2047 (bit d 63) (unat d mod 2 ^ 63)"

definition float_val :: "u32 \<Rightarrow> fp_value" where
  "float_val f = fp_val 23 255 (bit f 31) (unat f mod 2 ^ 31)"

text \<open>The magnitude bits of \<open>w\<close> units divided by \<open>2 ^ extra\<close>.\<close>

definition fp_bits :: "nat \<Rightarrow> nat \<Rightarrow> nat \<Rightarrow> nat \<Rightarrow> nat" where
  "fp_bits mb emax extra w =
     (let shift = max extra (top_bit w - mb) in
      min (emax * 2 ^ mb) ((shift - extra) * 2 ^ mb + round_even w shift))"

fun double_round :: "fp_value \<Rightarrow> u64" where
  "double_round FP_nan = 0x7FF8000000000000"
| "double_round (FP_inf neg) = (if neg then 0xFFF0000000000000 else 0x7FF0000000000000)"
| "double_round (FP_fin neg w) = of_nat ((if neg then 2 ^ 63 else 0) + fp_bits 52 2047 0 w)"

fun float_round :: "fp_value \<Rightarrow> u32" where
  "float_round FP_nan = 0x7FC00000"
| "float_round (FP_inf neg) = (if neg then 0xFF800000 else 0x7F800000)"
| "float_round (FP_fin neg w) = of_nat ((if neg then 2 ^ 31 else 0) + fp_bits 23 255 0 w)"

section \<open>Operations\<close>

definition fp_units :: "bool \<Rightarrow> nat \<Rightarrow> int" where
  "fp_units neg w = (if neg then - int w else int w)"

fun fp_add :: "fp_value \<Rightarrow> fp_value \<Rightarrow> fp_value" where
  "fp_add FP_nan _ = FP_nan"
| "fp_add _ FP_nan = FP_nan"
| "fp_add (FP_inf s) (FP_inf t) = (if s = t then FP_inf s else FP_nan)"
| "fp_add (FP_inf s) (FP_fin _ _) = FP_inf s"
| "fp_add (FP_fin _ _) (FP_inf t) = FP_inf t"
| "fp_add (FP_fin s v) (FP_fin t w) =
     (let x = fp_units s v + fp_units t w in
      if x = 0 then FP_fin (s \<and> t) 0 else FP_fin (x < 0) (nat (abs x)))"

fun fp_neg :: "fp_value \<Rightarrow> fp_value" where
  "fp_neg FP_nan = FP_nan"
| "fp_neg (FP_inf s) = FP_inf (\<not> s)"
| "fp_neg (FP_fin s w) = FP_fin (\<not> s) w"

fun fp_lt :: "fp_value \<Rightarrow> fp_value \<Rightarrow> bool" where
  "fp_lt (FP_inf s) (FP_inf t) = (s \<and> \<not> t)"
| "fp_lt (FP_inf s) (FP_fin _ _) = s"
| "fp_lt (FP_fin _ _) (FP_inf t) = (\<not> t)"
| "fp_lt (FP_fin s v) (FP_fin t w) = (fp_units s v < fp_units t w)"
| "fp_lt _ _ = False"

fun fp_le :: "fp_value \<Rightarrow> fp_value \<Rightarrow> bool" where
  "fp_le (FP_inf s) (FP_inf t) = (s \<or> \<not> t)"
| "fp_le (FP_inf s) (FP_fin _ _) = s"
| "fp_le (FP_fin _ _) (FP_inf t) = (\<not> t)"
| "fp_le (FP_fin s v) (FP_fin t w) = (fp_units s v \<le> fp_units t w)"
| "fp_le _ _ = False"

definition double_lt :: "u64 \<Rightarrow> u64 \<Rightarrow> bool" where
  "double_lt x y = fp_lt (double_val x) (double_val y)"

definition double_le :: "u64 \<Rightarrow> u64 \<Rightarrow> bool" where
  "double_le x y = fp_le (double_val x) (double_val y)"

definition double_sub :: "u64 \<Rightarrow> u64 \<Rightarrow> u64" where
  "double_sub x y = double_round (fp_add (double_val x) (fp_neg (double_val y)))"

definition double_of_int :: "int \<Rightarrow> u64" where
  "double_of_int i = double_round (FP_fin (i < 0) (nat (abs i) * 2 ^ 1074))"

definition float_add :: "u32 \<Rightarrow> u32 \<Rightarrow> u32" where
  "float_add x y = float_round (fp_add (float_val x) (float_val y))"

definition float_le :: "u32 \<Rightarrow> u32 \<Rightarrow> bool" where
  "float_le x y = fp_le (float_val x) (float_val y)"

section \<open>Conversion of texts\<close>

text \<open>The quotient of two naturals, rounded once: the units are cut at four bits below the last one
  that counts, and the bit below them says whether anything was cut off.\<close>

definition double_of_ratio :: "bool \<Rightarrow> nat \<Rightarrow> nat \<Rightarrow> u64" where
  "double_of_ratio neg p q =
     (let v = p * 2 ^ 1077 div q; w = 2 * v + (if v * q = p * 2 ^ 1077 then 0 else 1) in
      of_nat ((if neg then 2 ^ 63 else 0) + fp_bits 52 2047 4 w))"

definition is_space :: "u8 \<Rightarrow> bool" where
  "is_space b \<longleftrightarrow> b = 32 \<or> (9 \<le> b \<and> b \<le> 13)"

definition to_lower :: "u8 \<Rightarrow> u8" where
  "to_lower b = (if 65 \<le> b \<and> b \<le> 90 then b + 32 else b)"

definition hex_digit :: "u8 \<Rightarrow> nat option" where
  "hex_digit b =
     (if is_digit b then Some (digit_val b)
      else if 97 \<le> to_lower b \<and> to_lower b \<le> 102 then Some (unat (to_lower b) - 87) else None)"

definition skip_sign :: "bytes \<Rightarrow> bool \<times> bytes" where
  "skip_sign s = (case s of [] \<Rightarrow> (False, [])
     | b # r \<Rightarrow> if b = chr CHR ''-'' then (True, r) else if b = chr CHR ''+'' then (False, r) else (False, s))"

text \<open>The value of an exponent that starts with the given letter, 0 when there is none.\<close>

definition exponent_value :: "u8 \<Rightarrow> bytes \<Rightarrow> int" where
  "exponent_value e s =
     (case s of [] \<Rightarrow> 0
      | b # r \<Rightarrow> if to_lower b \<noteq> e then 0
          else case skip_sign r of (neg, t) \<Rightarrow> let n = int (dec_val (takeWhile is_digit t)) in if neg then - n else n)"

text \<open>Digits, a point and digits: the digits in front of the point and behind it, and the rest.\<close>

definition point_digits :: "(u8 \<Rightarrow> bool) \<Rightarrow> bytes \<Rightarrow> bytes \<times> bytes \<times> bytes" where
  "point_digits dig s =
     (let a = takeWhile dig s; r = dropWhile dig s in
      case r of [] \<Rightarrow> (a, [], [])
      | b # t \<Rightarrow> if b = chr CHR ''.'' then (a, takeWhile dig t, dropWhile dig t) else (a, [], r))"

definition scaled :: "bool \<Rightarrow> nat \<Rightarrow> nat \<Rightarrow> int \<Rightarrow> u64" where
  "scaled neg base m k =
     (if k \<ge> 0 then double_of_ratio neg (m * base ^ nat k) 1 else double_of_ratio neg m (base ^ nat (- k)))"

definition hex_number :: "bool \<Rightarrow> bytes \<Rightarrow> u64 option" where
  "hex_number neg s =
     (case point_digits (\<lambda>b. hex_digit b \<noteq> None) s of (a, f, r) \<Rightarrow>
      if a @ f = [] then None
      else Some (scaled neg 2 (foldl (\<lambda>n b. 16 * n + the (hex_digit b)) 0 (a @ f))
                   (exponent_value (chr CHR ''p'') r - 4 * int (length f))))"

definition dec_number :: "bool \<Rightarrow> bytes \<Rightarrow> u64 option" where
  "dec_number neg s =
     (case point_digits is_digit s of (a, f, r) \<Rightarrow>
      if a @ f = [] then None
      else Some (scaled neg 10 (dec_val (a @ f)) (exponent_value (chr CHR ''e'') r - int (length f))))"

text \<open>\<open>strtod\<close> on the bytes in front of the terminating zero; \<open>None\<close> when nothing is converted.\<close>

definition strtod :: "bytes \<Rightarrow> u64 option" where
  "strtod s =
     (case skip_sign (dropWhile is_space s) of (neg, t) \<Rightarrow>
      let low = map to_lower t; sgn = (if neg then negate_bits else id) in
      if take 3 low = str ''inf'' then Some (sgn 0x7FF0000000000000)
      else if take 3 low = str ''nan'' then Some (sgn 0x7FF8000000000000)
      else case (if take 2 low = str ''0x'' then hex_number neg (drop 2 t) else None) of
             Some d \<Rightarrow> Some d
           | None \<Rightarrow> dec_number neg t)"

section \<open>Rounding is exact on representable numbers\<close>

lemma top_bit_bounds:
  "0 < w \<Longrightarrow> 2 ^ top_bit w \<le> w \<and> w < 2 ^ Suc (top_bit w)"
proof (induction w rule: top_bit.induct)
  case (1 w)
  show ?case
  proof (cases "w < 2")
    case True
    then show ?thesis using 1 by (simp add: top_bit.simps)
  next
    case False
    then have "2 ^ top_bit (w div 2) \<le> w div 2 \<and> w div 2 < 2 ^ Suc (top_bit (w div 2))" using 1 by simp
    then show ?thesis using False by (subst (1 2) top_bit.simps) auto
  qed
qed

lemma top_bit_eq:
  assumes "2 ^ k \<le> w" and "w < 2 ^ Suc k"
  shows "top_bit w = k"
proof -
  have "0 < w" using assms(1) by (metis gr0I not_one_le_zero one_le_power one_le_numeral order_trans)
  from top_bit_bounds [OF this] have "2 ^ top_bit w < (2 :: nat) ^ Suc k" "2 ^ k < (2 :: nat) ^ Suc (top_bit w)"
    using assms by (auto elim: le_less_trans)
  then have "top_bit w < Suc k" "k < Suc (top_bit w)"
    using power_less_imp_less_exp [of "2 :: nat" "top_bit w" "Suc k"] power_less_imp_less_exp [of "2 :: nat" k "Suc (top_bit w)"]
    by auto
  then show ?thesis by simp
qed

lemma top_bit_less: "w < 2 ^ k \<Longrightarrow> top_bit w \<le> k"
proof (cases "w = 0")
  case False
  assume "w < 2 ^ k"
  with False top_bit_bounds [of w] have "2 ^ top_bit w < (2 :: nat) ^ k" by linarith
  then show ?thesis by (simp add: power_strict_increasing_iff)
qed (simp add: top_bit.simps)

lemma round_even_exact: "round_even (q * 2 ^ k) k = q"
  by (simp add: round_even_def Let_def)

lemma fp_bits_exact:
  assumes "mag < emax * 2 ^ mb" and "fp_val mb emax neg mag = FP_fin s w"
  shows "fp_bits mb emax 0 w = mag"
proof -
  let ?e = "mag div 2 ^ mb" and ?m = "mag mod 2 ^ mb"
  have e: "?e < emax" using assms(1) by (simp add: less_mult_imp_div_less)
  have m: "?m < 2 ^ mb" by simp
  have mag: "mag = ?e * 2 ^ mb + ?m" by (rule div_mult_mod_eq [symmetric])
  show ?thesis
  proof (cases "?e = 0")
    case True
    then have "w = ?m" using assms(2) e by (simp add: fp_val_def)
    moreover have "top_bit ?m - mb = 0" using top_bit_less [OF m] by simp
    ultimately show ?thesis
      using round_even_exact [of ?m 0] True assms(1) mag by (simp add: fp_bits_def Let_def)
  next
    case False
    define k where "k = ?e - 1"
    have k: "?e = Suc k" using False by (simp add: k_def)
    have w: "w = (2 ^ mb + ?m) * 2 ^ k" using assms(2) e k by (auto simp: fp_val_def Let_def)
    have "top_bit w = mb + k"
    proof (rule top_bit_eq)
      show "2 ^ (mb + k) \<le> w" by (simp add: w power_add)
      show "w < 2 ^ Suc (mb + k)" using m by (simp add: w power_add)
    qed
    then have "fp_bits mb emax 0 w = min (emax * 2 ^ mb) (k * 2 ^ mb + (2 ^ mb + ?m))"
      using round_even_exact [of "2 ^ mb + ?m" k] by (simp add: fp_bits_def Let_def w)
    also have "k * 2 ^ mb + (2 ^ mb + ?m) = mag" using mag k by (simp add: algebra_simps)
    finally show ?thesis using assms(1) by simp
  qed
qed

lemma sign_split:
  assumes "LENGTH('a) = Suc n"
  shows "(if bit (d :: 'a::len word) n then 2 ^ n else 0) + unat d mod 2 ^ n = unat d"
proof -
  have "unat d < 2 * 2 ^ n" using unsigned_less [of d, where 'a = nat] assms by simp
  then have "unat d div 2 ^ n < 2" by (simp add: less_mult_imp_div_less)
  moreover have "bit d n \<longleftrightarrow> odd (unat d div 2 ^ n)"
    using bit_iff_odd [of "unat d" n] assms by (simp add: bit_unsigned_iff)
  ultimately have "unat d div 2 ^ n = (if bit d n then 1 else 0)" by (auto simp: less_2_cases_iff)
  then show ?thesis using div_mult_mod_eq [of "unat d" "2 ^ n"] by (simp split: if_splits)
qed

text \<open>Rounding a value that is a \<open>double\<close> or a \<open>float\<close> gives its bit pattern back.\<close>

lemma fp_val_fin:
  "fp_val mb emax neg mag = FP_fin s w \<Longrightarrow> s = neg \<and> mag < emax * 2 ^ mb"
  by (auto simp: fp_val_def Let_def not_le split: if_splits) (metis div_less_iff_less_mult zero_less_numeral zero_less_power)+

lemma double_round_val:
  assumes "double_val d = FP_fin s w"
  shows "double_round (double_val d) = d"
  using fp_val_fin [OF assms [unfolded double_val_def]] fp_bits_exact [OF _ assms [unfolded double_val_def]]
    sign_split [of 63 d] assms by (simp only: double_round.simps) simp

lemma float_round_val:
  assumes "float_val f = FP_fin s w"
  shows "float_round (float_val f) = f"
  using fp_val_fin [OF assms [unfolded float_val_def]] fp_bits_exact [OF _ assms [unfolded float_val_def]]
    sign_split [of 31 f] assms by (simp only: float_round.simps) simp

section \<open>Integers as doubles\<close>

lemma double_val_bits:
  assumes "mag < 2047 * 2 ^ 52"
  shows "double_val (of_nat ((if neg then 2 ^ 63 else 0) + mag)) = fp_val 52 2047 neg mag"
proof -
  let ?n = "(if neg then 2 ^ 63 else 0) + mag"
  let ?d = "of_nat ?n :: u64"
  have "?n < 2 ^ 64" using assms by simp
  then have "take_bit 64 ?n = ?n" by (rule take_bit_nat_eq_self)
  then have u: "unat ?d = ?n" unfolding unsigned_of_nat by (simp only: len_num0 len_bit0 len_num1 mult_1_right) simp
  have "bit ?d 63 \<longleftrightarrow> odd (unat ?d div 2 ^ 63)" using bit_iff_odd [of "unat ?d" 63] by (simp add: bit_unsigned_iff)
  also have "\<dots> \<longleftrightarrow> neg" unfolding u using assms by (cases neg) (simp_all add: div_add_self1)
  finally show ?thesis using assms u by (simp add: double_val_def)
qed

lemma double_val_int:
  assumes "abs i < 2 ^ 53"
  shows "double_val (double_of_int i) = FP_fin (i < 0) (nat (abs i) * 2 ^ 1074)"
proof (cases "i = 0")
  case True
  then show ?thesis using double_val_bits [of 0 False] by (simp add: double_of_int_def fp_bits_def round_even_def fp_val_def)
next
  case False
  define n where "n = nat (abs i)"
  define k where "k = top_bit n"
  have n: "0 < n" "n < 2 ^ 53" using False assms by (simp_all add: n_def nat_less_iff)
  have b: "2 ^ k \<le> n" "n < 2 ^ Suc k" using top_bit_bounds [OF n(1)] by (simp_all add: k_def)
  then have "(2 :: nat) ^ k < 2 ^ 53" using n(2) by linarith
  then have k: "k \<le> 52" using power_less_imp_less_exp [of "2 :: nat" k 53] by simp
  define m where "m = (n - 2 ^ k) * 2 ^ (52 - k)"
  have p: "(2 :: nat) ^ k * 2 ^ (52 - k) = 2 ^ 52" using k by (simp flip: power_add)
  have m: "m < 2 ^ 52"
  proof -
    have "n - 2 ^ k < 2 ^ k" using b by simp
    then have "(n - 2 ^ k) * 2 ^ (52 - k) < 2 ^ k * 2 ^ (52 - k)" by simp
    then show ?thesis by (simp only: p m_def)
  qed
  let ?mag = "(1023 + k) * 2 ^ 52 + m"
  have d: "?mag div 2 ^ 52 = 1023 + k" "?mag mod 2 ^ 52 = m"
    using m div_mult_self3 [of "2 ^ 52" "1023 + k" m] mod_mult_self3 [of "1023 + k" "2 ^ 52" m] by simp_all
  have "2 ^ 52 + m = n * 2 ^ (52 - k)" using mult_le_mono1 [OF b(1), of "2 ^ (52 - k)"] p by (simp add: m_def diff_mult_distrib)
  then have "(2 ^ 52 + m) * 2 ^ (1022 + k) = n * 2 ^ 1074" using k by (simp flip: power_add)
  then have v: "fp_val 52 2047 (i < 0) ?mag = FP_fin (i < 0) (n * 2 ^ 1074)" using k unfolding fp_val_def Let_def d by simp
  have mag: "?mag < 2047 * 2 ^ 52" using m k by simp
  have "double_of_int i = of_nat ((if i < 0 then 2 ^ 63 else 0) + ?mag)"
    using fp_bits_exact [OF mag v] by (simp add: double_of_int_def flip: n_def)
  then show ?thesis using double_val_bits [OF mag, of "i < 0"] v by (simp add: n_def)
qed

lemma fp_units_int: "fp_units (i < 0) (nat (abs i) * 2 ^ 1074) = i * 2 ^ 1074"
  by (simp add: fp_units_def)

lemma double_compare_int:
  assumes "abs i < 2 ^ 53" and "abs j < 2 ^ 53"
  shows "double_lt (double_of_int i) (double_of_int j) \<longleftrightarrow> i < j" "double_le (double_of_int i) (double_of_int j) \<longleftrightarrow> i \<le> j"
proof -
  have "(0 :: int) < 2 ^ 1074" by (rule zero_less_power) simp
  then show "double_lt (double_of_int i) (double_of_int j) \<longleftrightarrow> i < j" "double_le (double_of_int i) (double_of_int j) \<longleftrightarrow> i \<le> j"
    unfolding double_lt_def double_le_def double_val_int [OF assms(1)] double_val_int [OF assms(2)] fp_lt.simps fp_le.simps fp_units_int
    by (simp_all only: mult_less_cancel_right mult_le_cancel_right) auto
qed


end
