(* ===== verification/Data_Format.thy ===== *)
theory Data_Format
  imports Ieee
begin

text \<open>
  The rest of \<^verbatim>\<open>data/data.c\<close> and of the conversions of \<^verbatim>\<open>core/utils.c\<close> that it uses: floating point
  values, values as text (\<open>prv_textSerialize\<close>) and the choice of the format for a payload
  (\<open>lwm2m_data_parse\<close>, \<open>lwm2m_data_serialize\<close>).

  The formats JSON, SenML JSON, SenML CBOR and link format and the printing of floating point
  numbers are parameters: a parser returns the number of records (0 or less on failure) and the
  records, a serializer the number of bytes (negative on failure) and the buffer.
\<close>

record data_formats =
  json_parse :: "lwm2m_uri_t \<Rightarrow> bytes \<Rightarrow> (int \<times> lwm2m_data_t list) c"
  senml_json_parse :: "lwm2m_uri_t \<Rightarrow> bytes \<Rightarrow> (int \<times> lwm2m_data_t list) c"
  senml_cbor_parse :: "lwm2m_uri_t \<Rightarrow> bytes \<Rightarrow> (int \<times> lwm2m_data_t list) c"
  json_serialize :: "lwm2m_uri_t option \<Rightarrow> lwm2m_data_t list \<Rightarrow> (int \<times> bytes option) c"
  senml_json_serialize :: "lwm2m_uri_t option \<Rightarrow> lwm2m_data_t list \<Rightarrow> (int \<times> bytes option) c"
  senml_cbor_serialize :: "lwm2m_uri_t option \<Rightarrow> lwm2m_data_t list \<Rightarrow> (int \<times> bytes option) c"
  link_serialize :: "lwm2m_uri_t option \<Rightarrow> lwm2m_data_t list \<Rightarrow> (int \<times> bytes option) c"
  utils_floatToText :: "u64 \<Rightarrow> bytes \<Rightarrow> bool \<Rightarrow> (bytes \<times> nat) c"

section \<open>Floating point values\<close>

definition utils_textToFloat :: "(nat \<Rightarrow> bool) \<Rightarrow> bytes \<Rightarrow> bool \<Rightarrow> u64 option" where
  "utils_textToFloat mem b allowExponential =
     (if b = [] then None
      else if \<not> mem (length b + 1) then None
      else let s = takeWhile (\<lambda>x. x \<noteq> 0) b in
           if \<not> allowExponential \<and> (chr CHR ''e'' \<in> set s \<or> chr CHR ''E'' \<in> set s) then None
           else strtod s)"

text \<open>The inner \<open>None\<close> is the returned 0.\<close>

definition lwm2m_data_decode_float :: "(nat \<Rightarrow> bool) \<Rightarrow> lwm2m_data_t \<Rightarrow> u64 option c" where
  "lwm2m_data_decode_float mem d =
     (case data_type d of
        LWM2M_TYPE_FLOAT \<Rightarrow> do { v \<leftarrow> value_float (data_value d); Some (Some v) }
      | LWM2M_TYPE_INTEGER \<Rightarrow> do { v \<leftarrow> value_integer (data_value d); Some (Some (double_of_int (sint v))) }
      | LWM2M_TYPE_UNSIGNED_INTEGER \<Rightarrow> do { v \<leftarrow> value_unsigned (data_value d); Some (Some (double_of_int (uint v))) }
      | LWM2M_TYPE_STRING \<Rightarrow> do { b \<leftarrow> value_buffer (data_value d); Some (utils_textToFloat mem b False) }
      | LWM2M_TYPE_OPAQUE \<Rightarrow>
          do { b \<leftarrow> value_buffer (data_value d);
               Some (if length b = 4 then Some (float_to_double (of_le (utils_copyValue b)))
                     else if length b = 8 then Some (of_le (utils_copyValue b))
                     else None) }
      | _ \<Rightarrow> Some None)"

section \<open>Values as text\<close>

text \<open>A buffer of the size of the text is allocated; \<open>fail\<close> is the result when that fails.\<close>

definition text_copy :: "(nat \<Rightarrow> bool) \<Rightarrow> int \<Rightarrow> bytes \<Rightarrow> int \<times> bytes option" where
  "text_copy mem failed b = (if mem (length b) then (int (length b), Some b) else (failed, None))"

definition number_text :: "(nat \<Rightarrow> bool) \<Rightarrow> (bytes \<times> nat) c \<Rightarrow> (int \<times> bytes option) c" where
  "number_text mem r =
     do { (s, res) \<leftarrow> r;
          if res = 0 then Some (- 1, None)
          else do { b \<leftarrow> rd_range s 0 res; Some (text_copy mem (- 1) b) } }"

text \<open>The two identifiers are printed to parts of five bytes of one array; the separator is stored at
  the fixed index 5.\<close>

definition print_id_at :: "nat \<Rightarrow> u16 \<Rightarrow> bytes \<Rightarrow> (bytes \<times> nat) c" where
  "print_id_at i x buf =
     on_tail i (\<lambda>t. do { (b, n) \<leftarrow> utils_intToText (ucast x) (take 5 t); Some (b @ drop 5 t, n) }) buf"

definition objlink_text :: "(nat \<Rightarrow> bool) \<Rightarrow> u16 \<Rightarrow> u16 \<Rightarrow> (int \<times> bytes option) c" where
  "objlink_text mem oid iid =
     do { (s, len) \<leftarrow> print_id_at 0 oid (replicate 11 0);
          if len = 0 then Some (- 1, None)
          else do {
            s \<leftarrow> wr s 5 (chr CHR '':'');
            let res = len + 1;
            (s, len) \<leftarrow> print_id_at res iid s;
            if len = 0 then Some (- 1, None)
            else do { b \<leftarrow> rd_range s 0 (res + len); Some (text_copy mem (- 1) b) } } }"

definition prv_textSerialize :: "data_formats \<Rightarrow> (nat \<Rightarrow> bool) \<Rightarrow> lwm2m_data_t \<Rightarrow> (int \<times> bytes option) c" where
  "prv_textSerialize F mem d =
     (case data_type d of
        LWM2M_TYPE_STRING \<Rightarrow> do { b \<leftarrow> value_buffer (data_value d); Some (text_copy mem 0 b) }
      | LWM2M_TYPE_CORE_LINK \<Rightarrow> do { b \<leftarrow> value_buffer (data_value d); Some (text_copy mem 0 b) }
      | LWM2M_TYPE_INTEGER \<Rightarrow>
          do { v \<leftarrow> value_integer (data_value d); number_text mem (utils_intToText v (replicate 32 0)) }
      | LWM2M_TYPE_UNSIGNED_INTEGER \<Rightarrow>
          do { v \<leftarrow> value_unsigned (data_value d); number_text mem (utils_uintToText v (replicate 32 0)) }
      | LWM2M_TYPE_FLOAT \<Rightarrow>
          do { v \<leftarrow> value_float (data_value d); number_text mem (utils_floatToText F v (replicate 64 0) False) }
      | LWM2M_TYPE_BOOLEAN \<Rightarrow>
          do { v \<leftarrow> value_boolean (data_value d);
               Some (text_copy mem (- 1) [if v then chr CHR ''1'' else chr CHR ''0'']) }
      | LWM2M_TYPE_OBJECT_LINK \<Rightarrow> do { (oid, iid) \<leftarrow> value_objlink (data_value d); objlink_text mem oid iid }
      | LWM2M_TYPE_OPAQUE \<Rightarrow>
          do { b \<leftarrow> value_buffer (data_value d);
               let len = utils_base64GetSize (length b);
               if \<not> mem len then Some (0, None)
               else do { (s, n) \<leftarrow> utils_base64Encode b (replicate len 0);
                         if n = 0 then Some (0, None)
                         else do { t \<leftarrow> rd_range s 0 n; Some (int n, Some t) } } }
      | _ \<Rightarrow> Some (- 1, None))"

section \<open>Choice of the format\<close>

definition single_value ::
  "(nat \<Rightarrow> bool) \<Rightarrow> lwm2m_data_type_t \<Rightarrow> lwm2m_uri_t \<Rightarrow> bytes \<Rightarrow> int \<times> lwm2m_data_t list" where
  "single_value mem ty uri buffer =
     (if \<not> LWM2M_URI_IS_SET_RESOURCE uri then (0, [])
      else case lwm2m_data_new mem 1 of
             None \<Rightarrow> (0, [])
           | Some _ \<Rightarrow>
               let i = (if LWM2M_URI_IS_SET_RESOURCE_INSTANCE uri then resourceInstanceId uri else resourceId uri) in
               case prv_setBuffer mem buffer of
                 None \<Rightarrow> (0, [])
               | Some v \<Rightarrow> (1, [Data ty i v]))"

definition lwm2m_data_parse ::
  "data_formats \<Rightarrow> (nat \<Rightarrow> bool) \<Rightarrow> lwm2m_uri_t \<Rightarrow> bytes \<Rightarrow> u16 \<Rightarrow> (int \<times> lwm2m_data_t list) c" where
  "lwm2m_data_parse F mem uri buffer fmt =
     (if fmt = LWM2M_CONTENT_TEXT then Some (single_value mem LWM2M_TYPE_STRING uri buffer)
      else if fmt = LWM2M_CONTENT_OPAQUE then Some (single_value mem LWM2M_TYPE_OPAQUE uri buffer)
      else if fmt = LWM2M_CONTENT_TLV_OLD \<or> fmt = LWM2M_CONTENT_TLV then tlv_parse mem buffer
      else if fmt = LWM2M_CONTENT_JSON_OLD \<or> fmt = LWM2M_CONTENT_JSON then json_parse F uri buffer
      else if fmt = LWM2M_CONTENT_SENML_JSON then senml_json_parse F uri buffer
      else if fmt = LWM2M_CONTENT_SENML_CBOR then senml_cbor_parse F uri buffer
      else Some (0, []))"

definition uri_set_opt :: "(lwm2m_uri_t \<Rightarrow> bool) \<Rightarrow> lwm2m_uri_t option \<Rightarrow> bool" where
  "uri_set_opt Q u = (case u of None \<Rightarrow> False | Some u \<Rightarrow> Q u)"

text \<open>Text, opaque and CBOR are for one resource with one value; everything else is sent as SenML CBOR.\<close>

definition serialize_format :: "lwm2m_uri_t option \<Rightarrow> lwm2m_data_t list \<Rightarrow> u16 \<Rightarrow> u16" where
  "serialize_format uri data fmt =
     (if fmt = LWM2M_CONTENT_TEXT \<or> fmt = LWM2M_CONTENT_OPAQUE \<or> fmt = LWM2M_CONTENT_CBOR
      then case data of
             [d] \<Rightarrow> if uri_set_opt (\<lambda>u. \<not> LWM2M_URI_IS_SET_RESOURCE u) uri \<or>
                       data_type d \<in> {LWM2M_TYPE_OBJECT, LWM2M_TYPE_OBJECT_INSTANCE, LWM2M_TYPE_MULTIPLE_RESOURCE}
                    then LWM2M_CONTENT_SENML_CBOR else fmt
           | _ \<Rightarrow> LWM2M_CONTENT_SENML_CBOR
      else fmt)"

definition serialize_tlv :: "(nat \<Rightarrow> bool) \<Rightarrow> lwm2m_uri_t option \<Rightarrow> lwm2m_data_t list \<Rightarrow> (int \<times> bytes option) c" where
  "serialize_tlv mem uri data =
     (let one_id = (case data of [d] \<Rightarrow> Some (data_id d) | _ \<Rightarrow> None) in
      if uri_set_opt LWM2M_URI_IS_SET_RESOURCE_INSTANCE uri
      then if one_id \<noteq> map_option resourceInstanceId uri then Some (- 1, None) else tlv_serialize mem True data
      else tlv_serialize mem
             (uri_set_opt LWM2M_URI_IS_SET_RESOURCE uri \<and> one_id \<noteq> map_option resourceId uri) data)"

definition lwm2m_data_serialize ::
  "data_formats \<Rightarrow> (nat \<Rightarrow> bool) \<Rightarrow> lwm2m_uri_t option \<Rightarrow> lwm2m_data_t list \<Rightarrow> u16 \<Rightarrow> (int \<times> bytes option \<times> u16) c" where
  "lwm2m_data_serialize F mem uri data fmt =
     (let fmt = serialize_format uri data fmt in
      do { (n, b) \<leftarrow>
             (if fmt = LWM2M_CONTENT_OPAQUE
              then do { d \<leftarrow> rd data 0;
                        if data_type d \<noteq> LWM2M_TYPE_OPAQUE then Some (- 1, None)
                        else do { s \<leftarrow> value_buffer (data_value d); Some (text_copy mem (- 1) s) } }
              else if fmt = LWM2M_CONTENT_TEXT then do { d \<leftarrow> rd data 0; prv_textSerialize F mem d }
              else if fmt = LWM2M_CONTENT_TLV \<or> fmt = LWM2M_CONTENT_TLV_OLD then serialize_tlv mem uri data
              else if fmt = LWM2M_CONTENT_LINK then link_serialize F uri data
              else if fmt = LWM2M_CONTENT_JSON \<or> fmt = LWM2M_CONTENT_JSON_OLD then json_serialize F uri data
              else if fmt = LWM2M_CONTENT_SENML_JSON then senml_json_serialize F uri data
              else if fmt = LWM2M_CONTENT_SENML_CBOR then senml_cbor_serialize F uri data
              else Some (- 1, None));
           Some (n, b, fmt) })"

section \<open>Values as text are read back\<close>

lemma number_text_eq:
  assumes "r = Some (b, length t)" and "length t \<le> length b" and "take (length t) b = t" and "t \<noteq> []" and "mem (length t)"
  shows "number_text mem r = Some (int (length t), Some t)"
  using assms by (simp add: number_text_def text_copy_def)

lemma text_int:
  assumes "\<forall>n. mem n"
  shows "number_text mem (utils_intToText v (replicate 32 0)) =
    Some (int (length (int_text (sint v))), Some (int_text (sint v)))"
  using int_format.put_bytes [where m = v and b = "replicate 32 0"] int_text_length [of v] assms
  by (auto intro!: number_text_eq)

lemma text_uint:
  assumes "\<forall>n. mem n"
  shows "number_text mem (utils_uintToText v (replicate 32 0)) =
    Some (int (length (dec_text (unat v))), Some (dec_text (unat v)))"
proof -
  have "unat v < 10 ^ 20" using unsigned_less [of v, where 'a = nat] by simp
  then have l: "length (dec_text (unat v)) \<le> 20" by (rule dec_text_length_less) simp
  from utils_uintToText_spec [of v "replicate 32 0"] obtain b where
    "utils_uintToText v (replicate 32 0) = Some (b, length (dec_text (unat v)))" "length b = 32"
    "take (length (dec_text (unat v))) b = dec_text (unat v)"
    using l by auto
  with l assms show ?thesis by (intro number_text_eq) auto
qed

text \<open>What is read back from a text is a string; the decoders of \<^verbatim>\<open>data.c\<close> give the value.\<close>

fun same_value :: "lwm2m_data_t \<Rightarrow> lwm2m_data_t \<Rightarrow> bool" where
  "same_value (Data LWM2M_TYPE_INTEGER i (asInteger v)) d = (lwm2m_data_decode_int d = Some (Some v))"
| "same_value (Data LWM2M_TYPE_UNSIGNED_INTEGER i (asUnsigned v)) d = (lwm2m_data_decode_uint d = Some (Some v))"
| "same_value (Data LWM2M_TYPE_BOOLEAN i (asBoolean v)) d = (lwm2m_data_decode_bool d = Some (Some v))"
| "same_value (Data LWM2M_TYPE_STRING i (asBuffer s)) d = (data_value d = asBuffer s)"
| "same_value _ _ = False"

fun has_text :: "lwm2m_data_t \<Rightarrow> bool" where
  "has_text (Data LWM2M_TYPE_INTEGER i (asInteger v)) = True"
| "has_text (Data LWM2M_TYPE_UNSIGNED_INTEGER i (asUnsigned v)) = True"
| "has_text (Data LWM2M_TYPE_BOOLEAN i (asBoolean v)) = True"
| "has_text (Data LWM2M_TYPE_STRING i (asBuffer s)) = True"
| "has_text _ = False"

lemma text_value_read:
  assumes "has_text d" and "\<forall>n. mem n"
  shows "\<exists>b. prv_textSerialize F mem d = Some (int (length b), Some b) \<and> same_value d (Data LWM2M_TYPE_STRING j (asBuffer b))"
  using assms
proof (induction d rule: has_text.induct)
  case (1 i v)
  show ?case
    using text_int [OF 1(2), of v] int_format.decode_bytes [of v]
    by (auto simp: prv_textSerialize_def lwm2m_data_decode_int_def)
next
  case (2 i v)
  show ?case
    using text_uint [OF 2(2), of v] utils_textToUInt_dec_text [of "unat v"] unsigned_less [of v, where 'a = nat]
    by (auto simp: prv_textSerialize_def lwm2m_data_decode_uint_def)
next
  case (3 i v)
  then show ?case
    by (auto simp: prv_textSerialize_def lwm2m_data_decode_bool_def text_copy_def intro!: exI [of _ "[_]"])
next
  case (4 i s)
  then show ?case by (auto simp: prv_textSerialize_def text_copy_def)
qed simp_all

text \<open>An integer, a boolean or a string, sent as plain text for a resource or a resource instance, is parsed
  by the receiver to a record with the identifier of the resource or its instance, and the decoders
  of \<^verbatim>\<open>data.c\<close> give the value that was sent.\<close>

theorem text_value_roundtrip:
  assumes "has_text d" and "LWM2M_URI_IS_SET_RESOURCE uri" and "\<forall>n. mem n"
  shows "\<exists>b d'. lwm2m_data_serialize F mem (Some uri) [d] LWM2M_CONTENT_TEXT = Some (int (length b), Some b, LWM2M_CONTENT_TEXT) \<and>
    lwm2m_data_parse F mem uri b LWM2M_CONTENT_TEXT = Some (1, [d']) \<and> same_value d d' \<and>
    data_id d' = (if LWM2M_URI_IS_SET_RESOURCE_INSTANCE uri then resourceInstanceId uri else resourceId uri)"
proof -
  let ?i = "if LWM2M_URI_IS_SET_RESOURCE_INSTANCE uri then resourceInstanceId uri else resourceId uri"
  obtain b where b: "prv_textSerialize F mem d = Some (int (length b), Some b)"
    "same_value d (Data LWM2M_TYPE_STRING ?i (asBuffer b))"
    using text_value_read [OF assms(1,3)] by blast
  have "data_type d \<notin> {LWM2M_TYPE_OBJECT, LWM2M_TYPE_OBJECT_INSTANCE, LWM2M_TYPE_MULTIPLE_RESOURCE}"
    using assms(1) by (cases d rule: has_text.cases) simp_all
  then have "serialize_format (Some uri) [d] LWM2M_CONTENT_TEXT = LWM2M_CONTENT_TEXT"
    using assms(2) by (simp add: serialize_format_def uri_set_opt_def)
  moreover have "LWM2M_CONTENT_TEXT \<noteq> LWM2M_CONTENT_OPAQUE" by (simp add: media_defs)
  ultimately show ?thesis
    using b assms(2,3) by (simp add: lwm2m_data_serialize_def lwm2m_data_parse_def single_value_def prv_setBuffer_def lwm2m_data_new_def)
qed

definition plain_formats :: data_formats where
  "plain_formats = \<lparr>json_parse = (\<lambda>_ _. Some (0, [])), senml_json_parse = (\<lambda>_ _. Some (0, [])), senml_cbor_parse = (\<lambda>_ _. Some (0, [])),
     json_serialize = (\<lambda>_ _. Some (- 1, None)), senml_json_serialize = (\<lambda>_ _. Some (- 1, None)),
     senml_cbor_serialize = (\<lambda>_ _. Some (- 1, None)), link_serialize = (\<lambda>_ _. Some (- 1, None)),
     utils_floatToText = (\<lambda>_ b _. Some (b, 0))\<rparr>"

theorem text_value_roundtrip_witness:
  "\<exists>b d'. lwm2m_data_serialize plain_formats (\<lambda>_. True) (Some (uri_of [3, 0, 9])) [Data LWM2M_TYPE_INTEGER 9 (asInteger (- 42))] LWM2M_CONTENT_TEXT =
      Some (int (length b), Some b, LWM2M_CONTENT_TEXT) \<and>
    lwm2m_data_parse plain_formats (\<lambda>_. True) (uri_of [3, 0, 9]) b LWM2M_CONTENT_TEXT = Some (1, [d']) \<and>
    lwm2m_data_decode_int d' = Some (Some (- 42)) \<and> data_id d' = 9"
  using text_value_roundtrip [of "Data LWM2M_TYPE_INTEGER 9 (asInteger (- 42))" "uri_of [3, 0, 9]" "\<lambda>_. True" plain_formats]
  by (simp add: uri_of_def LWM2M_URI_IS_SET_RESOURCE_def LWM2M_URI_IS_SET_RESOURCE_INSTANCE_def LWM2M_MAX_ID_def)

text \<open>An object link whose object identifier has less than five digits is printed with a zero byte in the
  place of the colon, because the colon is stored at a fixed index, and cannot be read back.\<close>

theorem objlink_text_without_colon:
  "prv_textSerialize plain_formats (\<lambda>_. True) (Data LWM2M_TYPE_OBJECT_LINK 0 (asObjLink 3 4)) = Some (3, Some [51, 0, 52]) \<and>
   utils_textToObjLink [51, 0, 52] = None \<and>
   prv_textSerialize plain_formats (\<lambda>_. True) (Data LWM2M_TYPE_OBJECT_LINK 0 (asObjLink 10241 4)) =
     Some (7, Some (str ''10241:4'')) \<and>
   utils_textToObjLink (str ''10241:4'') = Some (10241, 4)"
  by (intro conjI; code_simp)

end
