(* ===== verification/Coap_Packet.thy ===== *)
theory Coap_Packet
  imports Utils_Misc
begin

text \<open>
  CoAP messages, \<^verbatim>\<open>coap/er-coap-13/er-coap-13.c\<close> and its header: the packet structure, the option
  codec, \<open>coap_serialize_get_size\<close>, \<open>coap_serialize_message\<close>, \<open>coap_parse_message\<close> and the
  accessors of the header options.

  A pointer and length pair of the structure is the byte list it denotes (a fixed array with a
  length its first bytes); the option bitmap is the set of its bits; a \<open>multi_option_t\<close> list is
  the list of its segments, each of at most 255 bytes because the length is stored in a
  \<open>uint8_t\<close>.  Functions that store at a pointer and return the number of bytes give the bytes
  stored; \<open>coap_serialize_message\<close> stores them in its buffer, where a store outside is
  undefined.  Option numbers and lengths are \<open>nat\<close>: a datagram of at most 65535 bytes cannot
  make the \<open>uint32_t\<close> sums of the parser wrap.
\<close>

section \<open>Messages\<close>

datatype coap_message_type_t = COAP_TYPE_CON | COAP_TYPE_NON | COAP_TYPE_ACK | COAP_TYPE_RST

definition COAP_OPTION_IF_MATCH :: nat where "COAP_OPTION_IF_MATCH = 1"
definition COAP_OPTION_URI_HOST :: nat where "COAP_OPTION_URI_HOST = 3"
definition COAP_OPTION_ETAG :: nat where "COAP_OPTION_ETAG = 4"
definition COAP_OPTION_IF_NONE_MATCH :: nat where "COAP_OPTION_IF_NONE_MATCH = 5"
definition COAP_OPTION_OBSERVE :: nat where "COAP_OPTION_OBSERVE = 6"
definition COAP_OPTION_URI_PORT :: nat where "COAP_OPTION_URI_PORT = 7"
definition COAP_OPTION_LOCATION_PATH :: nat where "COAP_OPTION_LOCATION_PATH = 8"
definition COAP_OPTION_URI_PATH :: nat where "COAP_OPTION_URI_PATH = 11"
definition COAP_OPTION_CONTENT_TYPE :: nat where "COAP_OPTION_CONTENT_TYPE = 12"
definition COAP_OPTION_MAX_AGE :: nat where "COAP_OPTION_MAX_AGE = 14"
definition COAP_OPTION_URI_QUERY :: nat where "COAP_OPTION_URI_QUERY = 15"
definition COAP_OPTION_ACCEPT :: nat where "COAP_OPTION_ACCEPT = 17"
definition COAP_OPTION_TOKEN :: nat where "COAP_OPTION_TOKEN = 19"
definition COAP_OPTION_LOCATION_QUERY :: nat where "COAP_OPTION_LOCATION_QUERY = 20"
definition COAP_OPTION_BLOCK2 :: nat where "COAP_OPTION_BLOCK2 = 23"
definition COAP_OPTION_BLOCK1 :: nat where "COAP_OPTION_BLOCK1 = 27"
definition COAP_OPTION_SIZE :: nat where "COAP_OPTION_SIZE = 28"
definition COAP_OPTION_PROXY_URI :: nat where "COAP_OPTION_PROXY_URI = 35"

lemmas option_numbers = COAP_OPTION_IF_MATCH_def COAP_OPTION_URI_HOST_def COAP_OPTION_ETAG_def
  COAP_OPTION_IF_NONE_MATCH_def COAP_OPTION_OBSERVE_def COAP_OPTION_URI_PORT_def
  COAP_OPTION_LOCATION_PATH_def COAP_OPTION_URI_PATH_def COAP_OPTION_CONTENT_TYPE_def
  COAP_OPTION_MAX_AGE_def COAP_OPTION_URI_QUERY_def COAP_OPTION_ACCEPT_def COAP_OPTION_TOKEN_def
  COAP_OPTION_LOCATION_QUERY_def COAP_OPTION_BLOCK2_def COAP_OPTION_BLOCK1_def COAP_OPTION_SIZE_def
  COAP_OPTION_PROXY_URI_def

definition COAP_HEADER_LEN :: nat where "COAP_HEADER_LEN = 4"
definition COAP_ETAG_LEN :: nat where "COAP_ETAG_LEN = 8"
definition COAP_TOKEN_LEN :: nat where "COAP_TOKEN_LEN = 8"
definition COAP_MAX_ACCEPT_NUM :: nat where "COAP_MAX_ACCEPT_NUM = 2"
definition COAP_MAX_OPTION_HEADER_LEN :: nat where "COAP_MAX_OPTION_HEADER_LEN = 5"
definition COAP_DEFAULT_MAX_AGE :: u32 where "COAP_DEFAULT_MAX_AGE = 60"

lemmas coap_sizes = COAP_HEADER_LEN_def COAP_ETAG_LEN_def COAP_TOKEN_LEN_def COAP_MAX_ACCEPT_NUM_def
  COAP_MAX_OPTION_HEADER_LEN_def

record coap_packet_t =
  version :: u8
  mtype :: coap_message_type_t
  code :: u8
  mid :: u16
  options :: "nat set"
  content_type :: u32
  max_age :: u32
  proxy_uri :: bytes
  etag :: bytes
  uri_host :: bytes
  location_path :: "bytes list"
  uri_port :: u16
  location_query :: bytes
  uri_path :: "bytes list"
  observe :: u32
  token :: bytes
  accept :: "u16 list"
  if_match :: bytes
  block2_num :: u32
  block2_more :: u8
  block2_size :: u16
  block2_offset :: u32
  block1_num :: u32
  block1_more :: u8
  block1_size :: u16
  block1_offset :: u32
  size_opt :: u32
  uri_query :: "bytes list"
  if_none_match :: u8
  payload :: "bytes option"

text \<open>The packet after \<open>memset\<close> to zero.\<close>

definition zero_packet :: coap_packet_t where
  "zero_packet = \<lparr>version = 0, mtype = COAP_TYPE_CON, code = 0, mid = 0, options = {},
     content_type = 0, max_age = 0, proxy_uri = [], etag = [], uri_host = [], location_path = [],
     uri_port = 0, location_query = [], uri_path = [], observe = 0, token = [], accept = [],
     if_match = [], block2_num = 0, block2_more = 0, block2_size = 0, block2_offset = 0,
     block1_num = 0, block1_more = 0, block1_size = 0, block1_offset = 0, size_opt = 0,
     uri_query = [], if_none_match = 0, payload = None\<rparr>"

definition payload_len :: "coap_packet_t \<Rightarrow> nat" where
  "payload_len p = (case payload p of None \<Rightarrow> 0 | Some b \<Rightarrow> length b)"

text \<open>The bitmap has five bytes.\<close>

definition SET_OPTION :: "nat \<Rightarrow> coap_packet_t \<Rightarrow> coap_packet_t" where
  "SET_OPTION n p = (if n < 40 then p\<lparr>options := insert n (options p)\<rparr> else p)"

definition IS_OPTION :: "coap_packet_t \<Rightarrow> nat \<Rightarrow> bool" where
  "IS_OPTION p n \<longleftrightarrow> n < 40 \<and> n \<in> options p"

section \<open>Option codec\<close>

function coap_log_2_loop :: "u16 \<Rightarrow> u16 \<Rightarrow> u16" where
  "coap_log_2_loop value result =
     (let value' = drop_bit 1 value; result' = result + 1 in
      if value' \<noteq> 0 then coap_log_2_loop value' result' else result')"
  by pat_completeness auto
termination
proof (relation "measure (\<lambda>(v, r). unat v)")
  fix w r w' r' :: u16
  assume w': "w' = drop_bit 1 w" and "r' = r + 1" and "w' \<noteq> 0"
  then have "0 < unat w'" by (simp add: unat_gt_0)
  moreover have "unat w' = unat w div 2" by (simp only: w' drop_bit_eq_div unat_div) simp
  ultimately show "((w', r'), (w, r)) \<in> measure (\<lambda>(v, r). unat v)" by auto
qed auto

declare coap_log_2_loop.simps [simp del]

definition coap_log_2 :: "u16 \<Rightarrow> u16" where
  "coap_log_2 value = (let result = coap_log_2_loop value 0 in if result \<noteq> 0 then result - 1 else result)"

definition coap_parse_int_option :: "bytes \<Rightarrow> u32" where
  "coap_parse_int_option bs = foldl (\<lambda>var b. push_bit 8 var OR ucast b) 0 bs"

definition coap_option_nibble :: "nat \<Rightarrow> u8" where
  "coap_option_nibble value = (if value < 13 then of_nat value else if value \<le> 0xFF + 13 then 13 else 14)"

definition coap_set_option_header_extended :: "nat \<Rightarrow> bytes" where
  "coap_set_option_header_extended value =
     (if value \<ge> 269 then [of_nat ((value - 269) div 2 ^ 8), of_nat (value - 269)]
      else if value \<ge> 13 then [of_nat value - 269]
      else [])"

definition coap_set_option_header :: "nat \<Rightarrow> nat \<Rightarrow> bytes" where
  "coap_set_option_header delta len =
     (push_bit 4 (coap_option_nibble delta) OR coap_option_nibble len)
       # coap_set_option_header_extended delta @ coap_set_option_header_extended len"

definition int_option_bytes :: "u32 \<Rightarrow> bytes" where
  "int_option_bytes value =
     (if 0xFF000000 AND value \<noteq> 0 then [ucast (drop_bit 24 value)] else []) @
     (if 0xFFFF0000 AND value \<noteq> 0 then [ucast (drop_bit 16 value)] else []) @
     (if 0xFFFFFF00 AND value \<noteq> 0 then [ucast (drop_bit 8 value)] else []) @
     (if 0xFFFFFFFF AND value \<noteq> 0 then [ucast value] else [])"

definition coap_serialize_int_option :: "nat \<Rightarrow> nat \<Rightarrow> u32 \<Rightarrow> bytes" where
  "coap_serialize_int_option number current_number value =
     (let i = (if 0xFF000000 AND value \<noteq> 0 then 1 else 0) + (if 0xFFFF0000 AND value \<noteq> 0 then 1 else 0)
            + (if 0xFFFFFF00 AND value \<noteq> 0 then 1 else 0) + (if 0xFFFFFFFF AND value \<noteq> 0 then 1 else 0) in
      coap_set_option_header (number - current_number) i @ int_option_bytes value)"

text \<open>The split loop of \<open>coap_serialize_array_option\<close>: \<open>array\<close> is the memory at the pointer, and
  \<open>array[length]\<close> is read too; after a separator the next character is not examined.\<close>

function array_split_loop :: "bytes \<Rightarrow> nat \<Rightarrow> u8 \<Rightarrow> nat \<Rightarrow> nat \<Rightarrow> nat \<Rightarrow> nat \<Rightarrow> bytes c" where
  "array_split_loop array len split_char number current_number j part_start =
     (if j \<le> len
      then do { a \<leftarrow> rd array j;
                if a = split_char \<or> j = len
                then do { part \<leftarrow> rd_range array part_start (j - part_start);
                          rest \<leftarrow> array_split_loop array len split_char number number (j + 2) (j + 1);
                          Some (coap_set_option_header (number - current_number) (length part) @ part @ rest) }
                else array_split_loop array len split_char number current_number (j + 1) part_start }
      else Some [])"
  by pat_completeness auto
termination by (relation "measure (\<lambda>(a, n, s, m, c, j, p). n + 1 - j)") auto

declare array_split_loop.simps [simp del]

definition coap_serialize_array_option :: "nat \<Rightarrow> nat \<Rightarrow> bytes \<Rightarrow> nat \<Rightarrow> u8 \<Rightarrow> bytes c" where
  "coap_serialize_array_option number current_number array len split_char =
     (if split_char \<noteq> 0 then array_split_loop array len split_char number current_number 0 0
      else do { v \<leftarrow> rd_range array 0 len;
                Some (coap_set_option_header (number - current_number) len @ v) })"

fun coap_serialize_multi_option :: "nat \<Rightarrow> nat \<Rightarrow> bytes list \<Rightarrow> bytes" where
  "coap_serialize_multi_option number current_number [] = []"
| "coap_serialize_multi_option number current_number (j # array) =
     coap_set_option_header (number - current_number) (length j) @ j @
     coap_serialize_multi_option number number array"

definition coap_merge_multi_option :: "bytes \<Rightarrow> bytes \<Rightarrow> u8 \<Rightarrow> bytes" where
  "coap_merge_multi_option dst option separator = (if length dst > 0 then dst @ separator # option else option)"

text \<open>\<open>sizeof(multi_option_t)\<close> of the LP64 ABI.\<close>

definition sizeof_multi_option_t :: nat where "sizeof_multi_option_t = 24"

definition coap_add_multi_option :: "(nat \<Rightarrow> bool) \<Rightarrow> bytes list \<Rightarrow> bytes \<Rightarrow> bool \<Rightarrow> bytes list" where
  "coap_add_multi_option mem dst option is_static =
     (if mem sizeof_multi_option_t
      then let seg = take (unat (of_nat (length option) :: u8)) option in
           if is_static then dst @ [seg]
           else if mem (length option) then dst @ [seg] else dst
      else dst)"

section \<open>Sizes\<close>

definition coap_free_header :: "coap_packet_t \<Rightarrow> coap_packet_t" where
  "coap_free_header p = p\<lparr>uri_path := [], uri_query := [], location_path := []\<rparr>"

definition coap_init_message :: "coap_message_type_t \<Rightarrow> u8 \<Rightarrow> u16 \<Rightarrow> coap_packet_t" where
  "coap_init_message ty c m = zero_packet\<lparr>mtype := ty, code := c, mid := m\<rparr>"

definition coap_serialize_get_size :: "coap_packet_t \<Rightarrow> nat" where
  "coap_serialize_get_size p =
     (let h = COAP_MAX_OPTION_HEADER_LEN; opt = (\<lambda>n k. if IS_OPTION p n then k else 0);
          multi = (\<lambda>segs. sum_list (map (\<lambda>s. h + length s) segs)) in
      COAP_HEADER_LEN + payload_len p + length (token p)
      + opt COAP_OPTION_IF_MATCH (h + length (if_match p))
      + opt COAP_OPTION_URI_HOST (h + length (uri_host p))
      + opt COAP_OPTION_ETAG (h + length (etag p))
      + opt COAP_OPTION_IF_NONE_MATCH h
      + opt COAP_OPTION_OBSERVE h
      + opt COAP_OPTION_URI_PORT h
      + opt COAP_OPTION_LOCATION_PATH (multi (location_path p))
      + opt COAP_OPTION_URI_PATH (multi (uri_path p))
      + opt COAP_OPTION_CONTENT_TYPE h
      + opt COAP_OPTION_MAX_AGE h
      + opt COAP_OPTION_URI_QUERY (multi (uri_query p))
      + opt COAP_OPTION_ACCEPT (length (accept p) * h)
      + opt COAP_OPTION_LOCATION_QUERY (h + length (location_query p))
      + opt COAP_OPTION_BLOCK2 h
      + opt COAP_OPTION_BLOCK1 h
      + opt COAP_OPTION_SIZE h
      + opt COAP_OPTION_PROXY_URI (h + length (proxy_uri p))
      + (if payload_len p \<noteq> 0 then 1 else 0))"

section \<open>Serializing\<close>

definition type_num :: "coap_message_type_t \<Rightarrow> u8" where
  "type_num t = (case t of COAP_TYPE_CON \<Rightarrow> 0 | COAP_TYPE_NON \<Rightarrow> 1 | COAP_TYPE_ACK \<Rightarrow> 2 | COAP_TYPE_RST \<Rightarrow> 3)"

text \<open>The state of the serializer: the buffer, the index of \<open>option\<close> and \<open>current_number\<close>.\<close>

type_synonym ser_state = "bytes \<times> nat \<times> nat"

definition put_bytes :: "bytes \<Rightarrow> nat \<Rightarrow> ser_state \<Rightarrow> ser_state c" where
  "put_bytes bs number st = (case st of (buf, pos, cur) \<Rightarrow>
     do { b \<leftarrow> wr_range buf pos bs; Some (b, pos + length bs, number) })"

text \<open>The serialization macros of the header.\<close>

definition COAP_SERIALIZE_INT_OPTION :: "coap_packet_t \<Rightarrow> nat \<Rightarrow> u32 \<Rightarrow> ser_state \<Rightarrow> ser_state c" where
  "COAP_SERIALIZE_INT_OPTION p number v st =
     (if IS_OPTION p number
      then put_bytes (coap_serialize_int_option number (snd (snd st)) v) number st else Some st)"

definition COAP_SERIALIZE_BYTE_OPTION :: "coap_packet_t \<Rightarrow> nat \<Rightarrow> bytes \<Rightarrow> ser_state \<Rightarrow> ser_state c" where
  "COAP_SERIALIZE_BYTE_OPTION p number v st =
     (if IS_OPTION p number
      then do { bs \<leftarrow> coap_serialize_array_option number (snd (snd st)) v (length v) 0; put_bytes bs number st }
      else Some st)"

text \<open>The string is followed by its terminator in memory.\<close>

definition COAP_SERIALIZE_STRING_OPTION ::
  "coap_packet_t \<Rightarrow> nat \<Rightarrow> bytes \<Rightarrow> u8 \<Rightarrow> ser_state \<Rightarrow> ser_state c" where
  "COAP_SERIALIZE_STRING_OPTION p number v splitter st =
     (if IS_OPTION p number
      then do { bs \<leftarrow> coap_serialize_array_option number (snd (snd st)) (v @ [0]) (length v) splitter;
                put_bytes bs number st }
      else Some st)"

definition COAP_SERIALIZE_MULTI_OPTION :: "coap_packet_t \<Rightarrow> nat \<Rightarrow> bytes list \<Rightarrow> ser_state \<Rightarrow> ser_state c" where
  "COAP_SERIALIZE_MULTI_OPTION p number v st =
     (if IS_OPTION p number
      then put_bytes (coap_serialize_multi_option number (snd (snd st)) v) number st else Some st)"

fun accept_options :: "nat \<Rightarrow> u16 list \<Rightarrow> ser_state \<Rightarrow> ser_state c" where
  "accept_options number [] st = Some st"
| "accept_options number (a # as) st =
     do { st' \<leftarrow> put_bytes (coap_serialize_int_option number (snd (snd st)) (ucast a)) number st;
          accept_options number as st' }"

definition COAP_SERIALIZE_ACCEPT_OPTION :: "coap_packet_t \<Rightarrow> nat \<Rightarrow> u16 list \<Rightarrow> ser_state \<Rightarrow> ser_state c" where
  "COAP_SERIALIZE_ACCEPT_OPTION p number v st =
     (if IS_OPTION p number then accept_options number v st else Some st)"

definition block_value :: "u32 \<Rightarrow> u8 \<Rightarrow> u16 \<Rightarrow> u32" where
  "block_value num mo sz =
     (let block = push_bit 4 num; block = (if mo \<noteq> 0 then block OR 0x8 else block) in
      block OR (0xF AND ucast (coap_log_2 (sz div 16))))"

definition COAP_SERIALIZE_BLOCK_OPTION ::
  "coap_packet_t \<Rightarrow> nat \<Rightarrow> u32 \<Rightarrow> u8 \<Rightarrow> u16 \<Rightarrow> ser_state \<Rightarrow> ser_state c" where
  "COAP_SERIALIZE_BLOCK_OPTION p number num mo sz st =
     COAP_SERIALIZE_INT_OPTION p number (block_value num mo sz) st"

definition header_byte0 :: "coap_packet_t \<Rightarrow> u8" where
  "header_byte0 p = (0xC0 AND push_bit 6 1) OR (0x30 AND push_bit 4 (type_num (mtype p)))
     OR (0x0F AND of_nat (length (token p)))"

text \<open>The result is the buffer, the returned length and the packet, whose version is set and
  whose allocated header fields are freed.\<close>

definition coap_serialize_options :: "coap_packet_t \<Rightarrow> ser_state \<Rightarrow> ser_state c" where
  "coap_serialize_options p st =
     do { st \<leftarrow> COAP_SERIALIZE_BYTE_OPTION p COAP_OPTION_IF_MATCH (if_match p) st;
          st \<leftarrow> COAP_SERIALIZE_STRING_OPTION p COAP_OPTION_URI_HOST (uri_host p) 0 st;
          st \<leftarrow> COAP_SERIALIZE_BYTE_OPTION p COAP_OPTION_ETAG (etag p) st;
          st \<leftarrow> COAP_SERIALIZE_INT_OPTION p COAP_OPTION_IF_NONE_MATCH (content_type p - content_type p) st;
          st \<leftarrow> COAP_SERIALIZE_INT_OPTION p COAP_OPTION_OBSERVE (observe p) st;
          st \<leftarrow> COAP_SERIALIZE_INT_OPTION p COAP_OPTION_URI_PORT (ucast (uri_port p)) st;
          st \<leftarrow> COAP_SERIALIZE_MULTI_OPTION p COAP_OPTION_LOCATION_PATH (location_path p) st;
          st \<leftarrow> COAP_SERIALIZE_MULTI_OPTION p COAP_OPTION_URI_PATH (uri_path p) st;
          st \<leftarrow> COAP_SERIALIZE_INT_OPTION p COAP_OPTION_CONTENT_TYPE (content_type p) st;
          st \<leftarrow> COAP_SERIALIZE_INT_OPTION p COAP_OPTION_MAX_AGE (max_age p) st;
          st \<leftarrow> COAP_SERIALIZE_MULTI_OPTION p COAP_OPTION_URI_QUERY (uri_query p) st;
          st \<leftarrow> COAP_SERIALIZE_ACCEPT_OPTION p COAP_OPTION_ACCEPT (accept p) st;
          st \<leftarrow> COAP_SERIALIZE_STRING_OPTION p COAP_OPTION_LOCATION_QUERY (location_query p) (chr CHR ''&'') st;
          st \<leftarrow> COAP_SERIALIZE_BLOCK_OPTION p COAP_OPTION_BLOCK2 (block2_num p) (block2_more p) (block2_size p) st;
          st \<leftarrow> COAP_SERIALIZE_BLOCK_OPTION p COAP_OPTION_BLOCK1 (block1_num p) (block1_more p) (block1_size p) st;
          st \<leftarrow> COAP_SERIALIZE_INT_OPTION p COAP_OPTION_SIZE (size_opt p) st;
          COAP_SERIALIZE_STRING_OPTION p COAP_OPTION_PROXY_URI (proxy_uri p) 0 st }"

definition coap_serialize_message :: "coap_packet_t \<Rightarrow> bytes \<Rightarrow> (bytes \<times> nat \<times> coap_packet_t) c" where
  "coap_serialize_message p buffer =
     do { b \<leftarrow> wr buffer 0 (header_byte0 p);
          b \<leftarrow> wr b 1 (code p);
          b \<leftarrow> wr b 2 (ucast (drop_bit 8 (mid p)));
          b \<leftarrow> wr b 3 (ucast (mid p));
          b \<leftarrow> wr_range b COAP_HEADER_LEN (token p);
          (b, pos, _) \<leftarrow> coap_serialize_options p (b, COAP_HEADER_LEN + length (token p), 0);
          (b, pos) \<leftarrow> (if payload_len p \<noteq> 0 then do { b' \<leftarrow> wr b pos 0xFF; Some (b', pos + 1) } else Some (b, pos));
          b \<leftarrow> (case payload p of None \<Rightarrow> Some b | Some pl \<Rightarrow> wr_range b pos pl);
          Some (b, pos + payload_len p, coap_free_header (p\<lparr>version := 1\<rparr>)) }"

section \<open>Parsing\<close>

text \<open>Extended delta and length: the value and what follows; \<open>None\<close> at the end of the data.\<close>

definition parse_extended :: "nat \<Rightarrow> bytes \<Rightarrow> (nat \<times> bytes) option" where
  "parse_extended x bs =
     (if x = 13 then (case bs of [] \<Rightarrow> None | b # r \<Rightarrow> Some (13 + unat b, r))
      else if x = 14 then (case bs of b1 # b2 # r \<Rightarrow> Some (14 + 255 + unat b1 * 2 ^ 8 + unat b2, r) | _ \<Rightarrow> None)
      else Some (x, bs))"

text \<open>The \<open>switch\<close> over the option number: \<open>Inl\<close> is a \<open>return\<close> with a status.\<close>

definition parse_block :: "bytes \<Rightarrow> u32 \<times> u8 \<times> u16 \<times> u32" where
  "parse_block v =
     (let n = coap_parse_int_option v; szx = unat (n AND 0x07) in
      (drop_bit 4 n, drop_bit 3 (ucast n AND 0x08), push_bit szx 16, push_bit szx (n AND NOT 0x0F)))"

definition parse_error :: "coap_packet_t \<Rightarrow> u8 \<times> coap_packet_t" where
  "parse_error p = (COAP_400_BAD_REQUEST, coap_free_header p)"

definition parse_option :: "(nat \<Rightarrow> bool) \<Rightarrow> nat \<Rightarrow> bytes \<Rightarrow> coap_packet_t \<Rightarrow>
    (u8 \<times> coap_packet_t) + coap_packet_t" where
  "parse_option mem n v p =
     (if n = COAP_OPTION_CONTENT_TYPE
      then if length v > 2 then Inl (parse_error p) else Inr (p\<lparr>content_type := coap_parse_int_option v\<rparr>)
      else if n = COAP_OPTION_MAX_AGE then Inr (p\<lparr>max_age := coap_parse_int_option v\<rparr>)
      else if n = COAP_OPTION_ETAG then Inr (p\<lparr>etag := take COAP_ETAG_LEN v\<rparr>)
      else if n = COAP_OPTION_ACCEPT
      then Inr (if length (accept p) < COAP_MAX_ACCEPT_NUM
                then p\<lparr>accept := accept p @ [ucast (coap_parse_int_option v)]\<rparr> else p)
      else if n = COAP_OPTION_IF_MATCH then Inr (p\<lparr>if_match := take COAP_ETAG_LEN v\<rparr>)
      else if n = COAP_OPTION_IF_NONE_MATCH then Inr (p\<lparr>if_none_match := 1\<rparr>)
      else if n = COAP_OPTION_URI_HOST then Inr (p\<lparr>uri_host := v\<rparr>)
      else if n = COAP_OPTION_URI_PORT then Inr (p\<lparr>uri_port := ucast (coap_parse_int_option v)\<rparr>)
      else if n = COAP_OPTION_URI_PATH then Inr (p\<lparr>uri_path := coap_add_multi_option mem (uri_path p) v True\<rparr>)
      else if n = COAP_OPTION_URI_QUERY then Inr (p\<lparr>uri_query := coap_add_multi_option mem (uri_query p) v True\<rparr>)
      else if n = COAP_OPTION_LOCATION_PATH
      then Inr (p\<lparr>location_path := coap_add_multi_option mem (location_path p) v True\<rparr>)
      else if n = COAP_OPTION_LOCATION_QUERY
      then Inr (p\<lparr>location_query := coap_merge_multi_option (location_query p) v (chr CHR ''&'')\<rparr>)
      else if n = COAP_OPTION_PROXY_URI then Inl (COAP_505_PROXYING_NOT_SUPPORTED, p\<lparr>proxy_uri := v\<rparr>)
      else if n = COAP_OPTION_OBSERVE then Inr (p\<lparr>observe := coap_parse_int_option v\<rparr>)
      else if n = COAP_OPTION_BLOCK2
      then (case parse_block v of (num, mo, sz, off) \<Rightarrow>
              Inr (p\<lparr>block2_num := num, block2_more := mo, block2_size := sz, block2_offset := off\<rparr>))
      else if n = COAP_OPTION_BLOCK1
      then (case parse_block v of (num, mo, sz, off) \<Rightarrow>
              Inr (p\<lparr>block1_num := num, block1_more := mo, block1_size := sz, block1_offset := off\<rparr>))
      else if n = COAP_OPTION_SIZE then Inr (p\<lparr>size_opt := coap_parse_int_option v\<rparr>)
      else if odd n then Inl (COAP_402_BAD_OPTION, coap_free_header p)
      else Inr p)"

text \<open>The \<open>while\<close> loop over what is left of the datagram.\<close>

function parse_options_loop :: "(nat \<Rightarrow> bool) \<Rightarrow> bytes \<Rightarrow> nat \<Rightarrow> coap_packet_t \<Rightarrow> u8 \<times> coap_packet_t" where
  "parse_options_loop mem data option_number p =
     (case data of
        [] \<Rightarrow> (COAP_NO_ERROR, p)
      | b # rest \<Rightarrow>
          if b = 0xFF
          then if rest = [] then parse_error p else (COAP_NO_ERROR, p\<lparr>payload := Some rest\<rparr>)
          else let delta = unat (drop_bit 4 b); len = unat (b AND 0x0F) in
          if delta = 15 \<or> len = 15 then parse_error p
          else (case parse_extended delta rest of
                  None \<Rightarrow> parse_error p
                | Some (delta, rest) \<Rightarrow>
                    (case parse_extended len rest of
                       None \<Rightarrow> parse_error p
                     | Some (len, rest) \<Rightarrow>
                         let n = option_number + delta in
                         if len > length rest then parse_error p
                         else (case parse_option mem n (take len rest) (SET_OPTION n p) of
                                 Inl r \<Rightarrow> r
                               | Inr p' \<Rightarrow> parse_options_loop mem (drop len rest) n p'))))"
  by pat_completeness auto
termination
  by (relation "measure (\<lambda>(m, d, n, p). length d)")
     (auto simp: parse_extended_def split: if_splits list.splits)

declare parse_options_loop.simps [simp del]

definition num_type :: "u8 \<Rightarrow> coap_message_type_t" where
  "num_type n = (if n = 0 then COAP_TYPE_CON else if n = 1 then COAP_TYPE_NON
     else if n = 2 then COAP_TYPE_ACK else COAP_TYPE_RST)"

definition COAP_EMPTY_MESSAGE_CODE :: u8 where "COAP_EMPTY_MESSAGE_CODE = 0"

text \<open>A packet with a reserved token length is refused before the token is read; its length is
  kept in the structure, here as that many zero bytes.\<close>

definition coap_parse_message :: "(nat \<Rightarrow> bool) \<Rightarrow> bytes \<Rightarrow> u8 \<times> coap_packet_t" where
  "coap_parse_message mem data =
     (if length data < COAP_HEADER_LEN then parse_error zero_packet
      else let b0 = data ! 0;
               tkl = unat (0x0F AND b0);
               p = zero_packet\<lparr>version := drop_bit 6 (0xC0 AND b0), mtype := num_type (drop_bit 4 (0x30 AND b0)),
                     token := replicate tkl 0,
                     code := data ! 1, mid := push_bit 8 (ucast (data ! 2)) OR ucast (data ! 3)\<rparr> in
      if version p \<noteq> 1 then (COAP_400_BAD_REQUEST, p)
      else if code p = COAP_EMPTY_MESSAGE_CODE \<and> length data > COAP_HEADER_LEN then parse_error p
      else if tkl > COAP_TOKEN_LEN then parse_error p
      else if tkl \<noteq> 0 \<and> COAP_HEADER_LEN + tkl > length data then parse_error p
      else let p = (if tkl \<noteq> 0 then SET_OPTION COAP_OPTION_TOKEN (p\<lparr>token := take tkl (drop COAP_HEADER_LEN data)\<rparr>)
                    else p) in
           parse_options_loop mem (drop (COAP_HEADER_LEN + tkl) data) 0 p)"

end
