(* ===== verification/Coap_Codec.thy ===== *)
theory Coap_Codec
  imports Coap_Packet
begin

text \<open>
  Correctness of the CoAP message codec: the option format, the serializer and the parser of
  \<open>Coap_Packet\<close>.  A message is a header, a token, an ascending list of options (number and
  value) and a payload; the serializer writes this format and the parser reads it.
\<close>

section \<open>Option headers\<close>

lemma nibble_less: "unat (coap_option_nibble v) < 15"
proof -
  have "unat (of_nat v :: u8) = v" if "v < 13" using that by (intro unat_of_nat_small) simp
  then show ?thesis by (simp add: coap_option_nibble_def)
qed

lemma nibbles:
  fixes a b :: u8
  assumes "unat a < 16" and "unat b < 16"
  shows "drop_bit 4 (push_bit 4 a OR b) = a" and "(push_bit 4 a OR b) AND 0x0F = b"
proof -
  have hi: "\<not> bit w n" if "unat w < 16" "4 \<le> n" for w :: u8 and n
  proof -
    have "take_bit 4 (unat w) = unat w" using that by (simp add: take_bit_nat_eq_self)
    then have "take_bit 4 w = w" by (metis unsigned_take_bit_eq word_unat_eq_iff)
    then show ?thesis using that(2) by (metis bit_take_bit_iff not_le)
  qed
  show "drop_bit 4 (push_bit 4 a OR b) = a"
    using hi [OF assms(1)] hi [OF assms(2)] by (intro bit_word_eqI) (auto simp: bit_simps, meson not_le)
  have m: "(0x0F :: u8) = mask 4" by (simp add: mask_eq_exp_minus_1)
  show "(push_bit 4 a OR b) AND 0x0F = b"
    unfolding m using hi [OF assms(2)] by (intro bit_word_eqI) (auto simp: bit_simps, meson not_le)
qed

lemma parse_extended_nibble:
  assumes "v < 65805"
  shows "parse_extended (unat (coap_option_nibble v)) (coap_set_option_header_extended v @ rest) = Some (v, rest)"
proof -
  consider "v < 13" | "13 \<le> v" "v < 269" | "269 \<le> v" by linarith
  then show ?thesis
  proof cases
    case 1
    then have "unat (of_nat v :: u8) = v" by (intro unat_of_nat_small) simp
    then show ?thesis using 1
      by (simp add: coap_option_nibble_def coap_set_option_header_extended_def parse_extended_def)
  next
    case 2
    have eq: "(of_nat v - 269 :: u8) = of_nat (v - 13)"
      using 2 by (simp add: of_nat_diff)
    have "unat (of_nat v - 269 :: u8) = v - 13"
      unfolding eq using 2 by (intro unat_of_nat_small) simp
    then show ?thesis using 2
      by (simp add: coap_option_nibble_def coap_set_option_header_extended_def parse_extended_def)
  next
    case 3
    let ?w = "v - 269"
    have "unat (of_nat (?w div 256) :: u8) = ?w div 256"
      using assms by (intro unat_of_nat_small) (simp add: less_mult_imp_div_less)
    moreover have "unat (of_nat ?w :: u8) = ?w mod 256" by (simp add: unat_of_nat)
    moreover have "269 + ?w div 256 * 256 + ?w mod 256 = v" using 3 by simp
    ultimately show ?thesis using 3
      by (simp add: coap_option_nibble_def coap_set_option_header_extended_def parse_extended_def)
  qed
qed

text \<open>One round of the parser on one option.\<close>

lemma parse_one_option:
  assumes "delta < 65805" and "length v < 65805"
  shows "parse_options_loop mem (coap_set_option_header delta (length v) @ v @ rest) n p =
    (case parse_option mem (n + delta) v (SET_OPTION (n + delta) p) of
       Inl r \<Rightarrow> r | Inr p' \<Rightarrow> parse_options_loop mem rest (n + delta) p')"
proof -
  let ?a = "coap_option_nibble delta" and ?b = "coap_option_nibble (length v)"
  let ?h = "push_bit 4 ?a OR ?b"
  have small: "unat ?a < 15" "unat ?b < 15" by (rule nibble_less)+
  then have nib: "drop_bit 4 ?h = ?a" "?h AND 0x0F = ?b" by (intro nibbles; simp)+
  have "?h \<noteq> 0xFF"
  proof
    assume "?h = 0xFF"
    then have "?b = 0x0F" using nib(2) by simp
    then show False using small(2) by simp
  qed
  moreover have "parse_extended (unat ?a) (coap_set_option_header_extended delta @
      coap_set_option_header_extended (length v) @ v @ rest) = Some (delta, coap_set_option_header_extended (length v) @ v @ rest)"
    using assms(1) by (rule parse_extended_nibble)
  moreover have "parse_extended (unat ?b) (coap_set_option_header_extended (length v) @ v @ rest) = Some (length v, v @ rest)"
    using assms(2) by (rule parse_extended_nibble)
  ultimately show ?thesis
    using nib small by (subst parse_options_loop.simps) (simp add: coap_set_option_header_def Let_def split: sum.split)
qed

section \<open>Option lists\<close>

fun opts_bytes :: "nat \<Rightarrow> (nat \<times> bytes) list \<Rightarrow> bytes" where
  "opts_bytes cur [] = []"
| "opts_bytes cur ((n, v) # opts) = coap_set_option_header (n - cur) (length v) @ v @ opts_bytes n opts"

fun opts_last :: "nat \<Rightarrow> (nat \<times> bytes) list \<Rightarrow> nat" where
  "opts_last cur [] = cur"
| "opts_last cur ((n, v) # opts) = opts_last n opts"

fun opts_ok :: "nat \<Rightarrow> (nat \<times> bytes) list \<Rightarrow> bool" where
  "opts_ok cur [] = True"
| "opts_ok cur ((n, v) # opts) = (cur \<le> n \<and> n < 65805 \<and> length v < 65805 \<and> opts_ok n opts)"

fun apply_opts :: "(nat \<Rightarrow> bool) \<Rightarrow> (nat \<times> bytes) list \<Rightarrow> coap_packet_t \<Rightarrow> (u8 \<times> coap_packet_t) + coap_packet_t" where
  "apply_opts mem [] p = Inr p"
| "apply_opts mem ((n, v) # opts) p =
     (case parse_option mem n v (SET_OPTION n p) of Inl r \<Rightarrow> Inl r | Inr p' \<Rightarrow> apply_opts mem opts p')"

lemma opts_bytes_append: "opts_bytes cur (xs @ ys) = opts_bytes cur xs @ opts_bytes (opts_last cur xs) ys"
  by (induction cur xs rule: opts_bytes.induct) simp_all

lemma opts_last_append: "opts_last cur (xs @ ys) = opts_last (opts_last cur xs) ys"
  by (induction cur xs rule: opts_last.induct) simp_all

lemma apply_opts_append:
  "apply_opts mem (xs @ ys) p = (case apply_opts mem xs p of Inl r \<Rightarrow> Inl r | Inr p' \<Rightarrow> apply_opts mem ys p')"
  by (induction mem xs p rule: apply_opts.induct) (simp_all split: sum.split)

lemma parse_opts:
  "opts_ok cur opts \<Longrightarrow>
   parse_options_loop mem (opts_bytes cur opts @ rest) cur p =
     (case apply_opts mem opts p of
        Inl r \<Rightarrow> r | Inr p' \<Rightarrow> parse_options_loop mem rest (opts_last cur opts) p')"
proof (induction cur opts arbitrary: p rule: opts_bytes.induct)
  case (2 cur n v opts)
  then have ok: "n - cur < 65805" "length v < 65805" "cur + (n - cur) = n" "opts_ok n opts"
    by (auto intro: le_less_trans [OF diff_le_self])
  show ?case
    using parse_one_option [OF ok(1,2), of mem "opts_bytes n opts @ rest" cur p] "2.IH" ok(3,4)
    by (auto split: sum.split)
qed simp

section \<open>The options of a packet\<close>

definition seg1 :: "coap_packet_t \<Rightarrow> nat \<Rightarrow> bytes \<Rightarrow> nat \<times> (nat \<times> bytes) list" where
  "seg1 p n v = (n, if IS_OPTION p n then [(n, v)] else [])"

definition segm :: "coap_packet_t \<Rightarrow> nat \<Rightarrow> bytes list \<Rightarrow> nat \<times> (nat \<times> bytes) list" where
  "segm p n vs = (n, if IS_OPTION p n then map (Pair n) vs else [])"

definition pkt_segs :: "coap_packet_t \<Rightarrow> (nat \<times> (nat \<times> bytes) list) list" where
  "pkt_segs p =
     [seg1 p COAP_OPTION_IF_MATCH (if_match p),
      seg1 p COAP_OPTION_URI_HOST (uri_host p),
      seg1 p COAP_OPTION_ETAG (etag p),
      seg1 p COAP_OPTION_IF_NONE_MATCH [],
      seg1 p COAP_OPTION_OBSERVE (int_option_bytes (observe p)),
      seg1 p COAP_OPTION_URI_PORT (int_option_bytes (ucast (uri_port p))),
      segm p COAP_OPTION_LOCATION_PATH (location_path p),
      segm p COAP_OPTION_URI_PATH (uri_path p),
      seg1 p COAP_OPTION_CONTENT_TYPE (int_option_bytes (content_type p)),
      seg1 p COAP_OPTION_MAX_AGE (int_option_bytes (max_age p)),
      segm p COAP_OPTION_URI_QUERY (uri_query p),
      segm p COAP_OPTION_ACCEPT (map (\<lambda>a. int_option_bytes (ucast a)) (accept p)),
      seg1 p COAP_OPTION_BLOCK2 (int_option_bytes (block_value (block2_num p) (block2_more p) (block2_size p))),
      seg1 p COAP_OPTION_BLOCK1 (int_option_bytes (block_value (block1_num p) (block1_more p) (block1_size p))),
      seg1 p COAP_OPTION_SIZE (int_option_bytes (size_opt p)),
      seg1 p COAP_OPTION_PROXY_URI (proxy_uri p)]"

definition pkt_opts :: "coap_packet_t \<Rightarrow> (nat \<times> bytes) list" where
  "pkt_opts p = concat (map snd (pkt_segs p))"

text \<open>A repeatable option is marked as set when it has segments, and there is no Location-Query.\<close>

definition multi_ok :: "coap_packet_t \<Rightarrow> bool" where
  "multi_ok p \<longleftrightarrow>
     (IS_OPTION p COAP_OPTION_LOCATION_PATH \<longrightarrow> location_path p \<noteq> []) \<and>
     (IS_OPTION p COAP_OPTION_URI_PATH \<longrightarrow> uri_path p \<noteq> []) \<and>
     (IS_OPTION p COAP_OPTION_URI_QUERY \<longrightarrow> uri_query p \<noteq> []) \<and>
     (IS_OPTION p COAP_OPTION_ACCEPT \<longrightarrow> accept p \<noteq> []) \<and>
     \<not> IS_OPTION p COAP_OPTION_LOCATION_QUERY"

fun put_seg :: "nat \<times> (nat \<times> bytes) list \<Rightarrow> ser_state \<Rightarrow> ser_state c" where
  "put_seg (n, seg) st = (if seg = [] then Some st else put_bytes (opts_bytes (snd (snd st)) seg) n st)"

fun ser_segs :: "(nat \<times> (nat \<times> bytes) list) list \<Rightarrow> ser_state \<Rightarrow> ser_state c" where
  "ser_segs [] st = Some st"
| "ser_segs (s # segs) st = do { st' \<leftarrow> put_seg s st; ser_segs segs st' }"

lemma length_int_option_bytes:
  "length (int_option_bytes v) = (if 0xFF000000 AND v \<noteq> 0 then 1 else 0) + (if 0xFFFF0000 AND v \<noteq> 0 then 1 else 0)
     + (if 0xFFFFFF00 AND v \<noteq> 0 then 1 else 0) + (if 0xFFFFFFFF AND v \<noteq> 0 then 1 else 0)"
  by (simp add: int_option_bytes_def)

lemma coap_serialize_int_option_eq:
  "coap_serialize_int_option n cur v = opts_bytes cur [(n, int_option_bytes v)]"
  by (simp add: coap_serialize_int_option_def length_int_option_bytes)

lemma coap_serialize_multi_option_eq:
  "coap_serialize_multi_option n cur vs = opts_bytes cur (map (Pair n) vs)"
  by (induction vs arbitrary: cur) simp_all

lemma put_bytes_put_bytes:
  "put_bytes a k st \<bind> put_bytes b m = put_bytes (a @ b) m st"
  by (cases st) (auto simp: put_bytes_def wr_range_def ac_simps)

lemma accept_options_eq:
  "as \<noteq> [] \<Longrightarrow> accept_options n as st
     = put_bytes (opts_bytes (snd (snd st)) (map (\<lambda>a. (n, int_option_bytes (ucast a))) as)) n st"
proof (induction as arbitrary: st)
  case (Cons a as)
  show ?case
  proof (cases "as = []")
    case True
    then show ?thesis by (simp add: coap_serialize_int_option_eq split: bind_split)
  next
    case False
    let ?x = "opts_bytes (snd (snd st)) [(n, int_option_bytes (ucast a))]"
    let ?y = "\<lambda>c. opts_bytes c (map (\<lambda>a. (n, int_option_bytes (ucast a))) as)"
    have "accept_options n as = (\<lambda>st'. put_bytes (?y (snd (snd st'))) n st')"
      using Cons.IH [OF False] by blast
    then have "accept_options n (a # as) st = put_bytes ?x n st \<bind> (\<lambda>st'. put_bytes (?y (snd (snd st'))) n st')"
      by (simp add: coap_serialize_int_option_eq)
    also have "\<dots> = put_bytes ?x n st \<bind> put_bytes (?y n) n"
      by (cases st) (auto simp: put_bytes_def wr_range_def)
    also have "\<dots> = put_bytes (?x @ ?y n) n st" by (rule put_bytes_put_bytes)
    finally show ?thesis by simp
  qed
qed simp

lemma macros_put_seg:
  "COAP_SERIALIZE_BYTE_OPTION p n v st = put_seg (seg1 p n v) st"
  "COAP_SERIALIZE_STRING_OPTION p n v 0 st = put_seg (seg1 p n v) st"
  "COAP_SERIALIZE_INT_OPTION p n x st = put_seg (seg1 p n (int_option_bytes x)) st"
  "(IS_OPTION p n \<longrightarrow> vs \<noteq> []) \<Longrightarrow> COAP_SERIALIZE_MULTI_OPTION p n vs st = put_seg (segm p n vs) st"
  "(IS_OPTION p n \<longrightarrow> as \<noteq> []) \<Longrightarrow>
    COAP_SERIALIZE_ACCEPT_OPTION p n as st = put_seg (segm p n (map (\<lambda>a. int_option_bytes (ucast a)) as)) st"
  by (simp_all add: COAP_SERIALIZE_BYTE_OPTION_def COAP_SERIALIZE_STRING_OPTION_def COAP_SERIALIZE_INT_OPTION_def
      COAP_SERIALIZE_MULTI_OPTION_def COAP_SERIALIZE_ACCEPT_OPTION_def seg1_def segm_def
      coap_serialize_array_option_def coap_serialize_int_option_eq coap_serialize_multi_option_eq
      accept_options_eq comp_def)

lemma int_option_bytes_0 [simp]: "int_option_bytes 0 = []"
  by (simp add: int_option_bytes_def)

lemma coap_serialize_options_segs:
  assumes "multi_ok p"
  shows "coap_serialize_options p st = ser_segs (pkt_segs p) st"
proof -
  have lq: "COAP_SERIALIZE_STRING_OPTION p COAP_OPTION_LOCATION_QUERY v c st = Some st" for v c st
    using assms by (simp add: COAP_SERIALIZE_STRING_OPTION_def multi_ok_def)
  have m: "IS_OPTION p COAP_OPTION_LOCATION_PATH \<longrightarrow> location_path p \<noteq> []"
    "IS_OPTION p COAP_OPTION_URI_PATH \<longrightarrow> uri_path p \<noteq> []"
    "IS_OPTION p COAP_OPTION_URI_QUERY \<longrightarrow> uri_query p \<noteq> []"
    "IS_OPTION p COAP_OPTION_ACCEPT \<longrightarrow> accept p \<noteq> []"
    using assms by (simp_all add: multi_ok_def)
  show ?thesis
    unfolding coap_serialize_options_def COAP_SERIALIZE_BLOCK_OPTION_def macros_put_seg(1,2,3)
      macros_put_seg(4) [OF m(1)] macros_put_seg(4) [OF m(2)] macros_put_seg(4) [OF m(3)]
      macros_put_seg(5) [OF m(4)] lq pkt_segs_def ser_segs.simps
    by simp
qed

lemma ser_segs_writes:
  assumes "\<forall>(n, seg)\<in>set segs. \<forall>x\<in>set seg. fst x = n"
    and "pos + length (opts_bytes cur (concat (map snd segs))) \<le> length buf"
  shows "ser_segs segs (buf, pos, cur) =
    Some (take pos buf @ opts_bytes cur (concat (map snd segs)) @
            drop (pos + length (opts_bytes cur (concat (map snd segs)))) buf,
          pos + length (opts_bytes cur (concat (map snd segs))), opts_last cur (concat (map snd segs)))"
  using assms
proof (induction segs arbitrary: buf pos cur)
  case (Cons s segs)
  obtain n seg where s: "s = (n, seg)" by (cases s)
  show ?case
  proof (cases "seg = []")
    case True
    then show ?thesis using Cons s by simp
  next
    case False
    let ?x = "opts_bytes cur seg"
    let ?buf = "take pos buf @ ?x @ drop (pos + length ?x) buf"
    have last: "opts_last c xs = n" if "xs \<noteq> []" "\<forall>x\<in>set xs. fst x = n" for xs c
      using that by (induction c xs rule: opts_last.induct) (auto, metis opts_last.simps(1))
    have l: "opts_last cur seg = n" using last [OF False] Cons.prems(1) s by auto
    have len: "pos + length ?x \<le> length buf" using Cons.prems(2) s by (simp add: opts_bytes_append)
    have "ser_segs segs (?buf, pos + length ?x, n) =
      Some (take (pos + length ?x) ?buf @ opts_bytes n (concat (map snd segs)) @
            drop (pos + length ?x + length (opts_bytes n (concat (map snd segs)))) ?buf,
          pos + length ?x + length (opts_bytes n (concat (map snd segs))), opts_last n (concat (map snd segs)))"
      using Cons.prems s l by (intro Cons.IH) (auto simp: opts_bytes_append)
    then show ?thesis
      using False len s l by (simp add: put_bytes_def opts_bytes_append opts_last_append ac_simps)
  qed
qed simp

section \<open>The bytes of a message\<close>

definition msg_bytes :: "coap_packet_t \<Rightarrow> bytes" where
  "msg_bytes p = [header_byte0 p, code p, ucast (drop_bit 8 (mid p)), ucast (mid p)] @ token p @
     opts_bytes 0 (pkt_opts p) @
     (case payload p of None \<Rightarrow> [] | Some pl \<Rightarrow> if pl = [] then [] else 0xFF # pl)"

lemma seg_numbers: "\<forall>(n, seg)\<in>set (pkt_segs p). \<forall>x\<in>set seg. fst x = n"
  by (auto simp: pkt_segs_def seg1_def segm_def)

lemma wr4:
  assumes "4 \<le> length buf"
  shows "(buf[0 := a, Suc 0 := b, 2 := c, 3 := d]) = [a, b, c, d] @ drop 4 buf"
proof -
  obtain w x y z r where "buf = w # x # y # z # r"
    using assms by (auto simp: numeral_eq_Suc Suc_le_length_iff)
  then show ?thesis by (simp add: numeral_eq_Suc)
qed

lemma update_end:
  "length xs = n \<Longrightarrow> n < length ys \<Longrightarrow> (xs @ drop n ys)[n := z] = xs @ z # drop (n + 1) ys"
  by (auto simp: Cons_nth_drop_Suc [symmetric])

lemma write_end:
  "length xs = n \<Longrightarrow> n + 1 + length v \<le> length ys \<Longrightarrow>
   wr_range (xs @ z # drop (n + 1) ys) (n + 1) v = Some (xs @ z # v @ drop (n + 1 + length v) ys)"
  by (simp add: ac_simps)

text \<open>The serializer writes the message at the start of the buffer and nothing behind it.\<close>

lemma coap_serialize_message_bytes:
  assumes "multi_ok p" and "length (msg_bytes p) \<le> length buffer"
  shows "coap_serialize_message p buffer =
    Some (msg_bytes p @ drop (length (msg_bytes p)) buffer, length (msg_bytes p), coap_free_header (p\<lparr>version := 1\<rparr>))"
proof -
  let ?h = "[header_byte0 p, code p, ucast (drop_bit 8 (mid p)), ucast (mid p)]"
  let ?o = "opts_bytes 0 (pkt_opts p)"
  let ?pl = "case payload p of None \<Rightarrow> [] | Some pl \<Rightarrow> if pl = [] then [] else 0xFF # pl"
  have len: "4 + length (token p) + length ?o + length ?pl \<le> length buffer"
    using assms(2) by (simp add: msg_bytes_def)
  have h: "buffer[0 := header_byte0 p, Suc 0 := code p, 2 := ucast (drop_bit 8 (mid p)), 3 := ucast (mid p)]
      = ?h @ drop 4 buffer"
    using len by (intro wr4) simp
  let ?b1 = "?h @ token p @ drop (4 + length (token p)) buffer"
  have b1: "wr_range (?h @ drop 4 buffer) 4 (token p) = Some ?b1"
    using len by (simp add: numeral_eq_Suc)
  let ?b2 = "?h @ token p @ ?o @ drop (4 + length (token p) + length ?o) buffer"
  have o: "coap_serialize_options p (?b1, 4 + length (token p), 0)
      = Some (?b2, 4 + length (token p) + length ?o, opts_last 0 (pkt_opts p))"
    using ser_segs_writes [OF seg_numbers, of "4 + length (token p)" 0 p ?b1] len
    unfolding coap_serialize_options_segs [OF assms(1)] pkt_opts_def
    by (simp add: numeral_eq_Suc ac_simps)
  let ?N = "4 + length (token p) + length ?o"
  have body: "coap_serialize_message p buffer =
      do { (b, pos) \<leftarrow> (if payload_len p \<noteq> 0 then do { b' \<leftarrow> wr ?b2 ?N 0xFF; Some (b', ?N + 1) } else Some (?b2, ?N));
           b \<leftarrow> (case payload p of None \<Rightarrow> Some b | Some pl \<Rightarrow> wr_range b pos pl);
           Some (b, pos + payload_len p, coap_free_header (p\<lparr>version := 1\<rparr>)) }"
  proof -
    have "0 < length buffer" "Suc 0 < length buffer" "2 < length buffer" "3 < length buffer" using len by linarith+
    then show ?thesis
      unfolding coap_serialize_message_def COAP_HEADER_LEN_def using h b1 o by simp
  qed
  have M: "msg_bytes p = (?h @ token p @ ?o) @ ?pl" and pre: "length (?h @ token p @ ?o) = ?N"
    by (simp_all add: msg_bytes_def)
  have b2: "?b2 = (?h @ token p @ ?o) @ drop ?N buffer" by simp
  show ?thesis
  proof (cases "payload p = None \<or> payload p = Some []")
    case True
    then show ?thesis
      using len unfolding body M by (auto simp: payload_len_def numeral_eq_Suc)
  next
    case False
    then obtain pl where pl: "payload p = Some pl" "pl \<noteq> []" by auto
    then have room: "?N + 1 + length pl \<le> length buffer" using len by simp
    let ?X = "?h @ token p @ ?o"
    have "wr ?b2 ?N 0xFF = Some ((?X @ drop ?N buffer)[?N := 0xFF])"
      using room unfolding b2 by (intro wr_defined) simp
    moreover have "(?X @ drop ?N buffer)[?N := 0xFF] = ?X @ 0xFF # drop (?N + 1) buffer"
      using room pre by (intro update_end) auto
    moreover have "wr_range (?X @ 0xFF # drop (?N + 1) buffer) (?N + 1) pl
        = Some (?X @ 0xFF # pl @ drop (?N + 1 + length pl) buffer)"
      using room pre by (intro write_end) auto
    ultimately show ?thesis
      using pl unfolding body M by (simp add: payload_len_def ac_simps) (simp add: numeral_eq_Suc ac_simps)
  qed
qed

section \<open>The size estimate\<close>

definition int_options :: "nat set" where
  "int_options = {5, 6, 7, 12, 14, 17, 23, 27, 28}"

definition cost :: "nat \<times> bytes \<Rightarrow> nat" where
  "cost x = (if fst x \<in> int_options then 5 else 5 + length (snd x))"

lemma extended_length:
  "length (coap_set_option_header_extended v) = (if v < 13 then 0 else if v < 269 then 1 else 2)"
  by (simp add: coap_set_option_header_extended_def)

lemma option_cost:
  assumes "n \<in> int_options \<longrightarrow> length v \<le> 4 \<and> (13 \<le> n \<longrightarrow> length v \<le> 3)"
  shows "length (coap_set_option_header (n - cur) (length v)) + length v \<le> cost (n, v)"
proof (cases "n \<in> int_options")
  case True
  then have n: "n < 13 \<or> (13 \<le> n \<and> n < 269)" "n - cur \<le> n" by (auto simp: int_options_def)
  then show ?thesis
    using assms True
    by (auto simp: coap_set_option_header_def extended_length cost_def)
next
  case False
  then show ?thesis by (simp add: coap_set_option_header_def extended_length cost_def)
qed

lemma opts_bytes_cost:
  "(\<forall>(n, v)\<in>set opts. n \<in> int_options \<longrightarrow> length v \<le> 4 \<and> (13 \<le> n \<longrightarrow> length v \<le> 3)) \<Longrightarrow>
   length (opts_bytes cur opts) \<le> sum_list (map cost opts)"
proof (induction cur opts rule: opts_bytes.induct)
  case (2 cur n v opts)
  then have "length (opts_bytes n opts) \<le> sum_list (map cost opts)" by auto
  moreover have "length (coap_set_option_header (n - cur) (length v)) + length v \<le> cost (n, v)"
    using "2.prems" by (intro option_cost) auto
  ultimately show ?case by simp
qed simp

lemma high_bits_zero:
  fixes v :: u32
  assumes "v < 2 ^ k"
  shows "bit v n \<Longrightarrow> n < k"
proof (rule ccontr)
  assume b: "bit v n" and "\<not> n < k"
  then have "(2 :: nat) ^ k \<le> 2 ^ n" by simp
  moreover have "2 ^ n \<le> unat v"
  proof -
    have "bit (unat v) n" using b by (simp add: bit_unsigned_iff)
    then show ?thesis by (metis bit_iff_odd div_less even_zero not_less)
  qed
  moreover have "unat v < 2 ^ k"
  proof (cases "k < 32")
    case True
    then have "(2 :: nat) ^ k < 2 ^ 32" by (intro power_strict_increasing) auto
    then have "unat (of_nat (2 ^ k) :: u32) = 2 ^ k" by (intro unat_of_nat_small) simp
    then show ?thesis using assms by (simp add: word_less_nat_alt)
  next
    case False
    then have "(2 :: nat) ^ 32 \<le> 2 ^ k" by (intro power_increasing) auto
    then show ?thesis using unsigned_less [of v, where ?'a = nat] by simp
  qed
  ultimately show False by linarith
qed

lemma int_bytes_le4: "length (int_option_bytes v) \<le> 4"
  by (simp add: length_int_option_bytes)

lemma int_bytes_le3:
  assumes "\<And>n. bit v n \<Longrightarrow> n < 24"
  shows "length (int_option_bytes v) \<le> 3"
proof -
  have m: "(0xFF000000 :: u32) = push_bit 24 (mask 8)" by (simp add: mask_eq_exp_minus_1)
  have "0xFF000000 AND v = 0"
    unfolding m using assms by (intro bit_word_eqI) (auto simp: bit_simps, meson not_le)
  then show ?thesis by (simp add: length_int_option_bytes)
qed

lemma u16_bits: "bit (ucast (w :: u16) :: u32) n \<Longrightarrow> n < 24"
  using bit_imp_le_length [of w n] by (auto simp: bit_simps)

lemma block_value_bits:
  assumes "num < 2 ^ 20"
  shows "bit (block_value num mo sz) n \<Longrightarrow> n < 24"
proof -
  assume "bit (block_value num mo sz) n"
  then consider "4 \<le> n" "bit num (n - 4)" | "bit (0x8 :: u32) n" | "bit (0xF :: u32) n"
    by (auto simp: block_value_def Let_def bit_or_iff bit_and_iff bit_push_bit_iff split: if_splits)
  then show "n < 24"
  proof cases
    case 1
    then show ?thesis using high_bits_zero [OF assms, of "n - 4"] by linarith
  next
    case 2
    then show ?thesis using high_bits_zero [of "0x8" 24 n] by simp
  next
    case 3
    then show ?thesis using high_bits_zero [of "0xF" 24 n] by simp
  qed
qed

text \<open>Values for which the fixed allowance of five bytes is enough.\<close>

definition size_ok :: "coap_packet_t \<Rightarrow> bool" where
  "size_ok p \<longleftrightarrow> max_age p < 2 ^ 24 \<and> size_opt p < 2 ^ 24 \<and> block1_num p < 2 ^ 20 \<and> block2_num p < 2 ^ 20"

lemma pkt_opts_int_lengths:
  assumes "size_ok p" and "(n, v) \<in> set (pkt_opts p)" and "n \<in> int_options"
  shows "length v \<le> 4 \<and> (13 \<le> n \<longrightarrow> length v \<le> 3)"
proof -
  have 3: "length (int_option_bytes (max_age p)) \<le> 3" "length (int_option_bytes (size_opt p)) \<le> 3"
    "length (int_option_bytes (block_value (block1_num p) x y)) \<le> 3"
    "length (int_option_bytes (block_value (block2_num p) x y)) \<le> 3"
    "length (int_option_bytes (ucast (a :: u16))) \<le> 3" for x y a
    using assms(1) high_bits_zero block_value_bits u16_bits by (auto intro!: int_bytes_le3 simp: size_ok_def)
  show ?thesis
    using assms(2,3) 3 int_bytes_le4
    by (auto simp: pkt_opts_def pkt_segs_def seg1_def segm_def option_numbers int_options_def split: if_splits)
qed

lemma msg_bytes_size:
  assumes "size_ok p" and "multi_ok p"
  shows "length (msg_bytes p) \<le> coap_serialize_get_size p"
proof -
  have "length (opts_bytes 0 (pkt_opts p)) \<le> sum_list (map cost (pkt_opts p))"
    using pkt_opts_int_lengths [OF assms(1)] by (intro opts_bytes_cost) auto
  moreover have "sum_list (map cost (pkt_opts p)) + 4 + length (token p)
      + length (case payload p of None \<Rightarrow> [] | Some pl \<Rightarrow> if pl = [] then [] else 0xFF # pl)
      = coap_serialize_get_size p"
    using assms(2)
    by (simp add: coap_serialize_get_size_def pkt_opts_def pkt_segs_def Let_def coap_sizes cost_def seg1_def segm_def
        option_numbers int_options_def payload_len_def multi_ok_def comp_def if_distrib [of "map cost"]
        if_distrib [of sum_list] sum_list_triv split: option.split)
  ultimately show ?thesis by (simp add: msg_bytes_def)
qed

section \<open>Values\<close>

lemma parse_int_bytes:
  fixes v :: u32
  shows "coap_parse_int_option [ucast (drop_bit 24 v), ucast (drop_bit 16 v), ucast (drop_bit 8 v), ucast v] = v"
    "coap_parse_int_option [ucast (drop_bit 16 v), ucast (drop_bit 8 v), ucast v] = take_bit 24 v"
    "coap_parse_int_option [ucast (drop_bit 8 v), ucast v] = take_bit 16 v"
    "coap_parse_int_option [ucast v] = take_bit 8 v"
proof -
  note b = coap_parse_int_option_def bit_simps not_less less_diff_conv2
  show "coap_parse_int_option [ucast (drop_bit 24 v), ucast (drop_bit 16 v), ucast (drop_bit 8 v), ucast v] = v"
    by (rule bit_word_eqI, rename_tac n) (case_tac "n < 8"; case_tac "n < 16"; case_tac "n < 24"; simp add: b)
  show "coap_parse_int_option [ucast (drop_bit 16 v), ucast (drop_bit 8 v), ucast v] = take_bit 24 v"
    by (rule bit_word_eqI, rename_tac n) (case_tac "n < 8"; case_tac "n < 16"; case_tac "n < 24"; simp add: b)
  show "coap_parse_int_option [ucast (drop_bit 8 v), ucast v] = take_bit 16 v"
    by (rule bit_word_eqI, rename_tac n) (case_tac "n < 8"; case_tac "n < 16"; case_tac "n < 24"; simp add: b)
  show "coap_parse_int_option [ucast v] = take_bit 8 v"
    by (rule bit_word_eqI, rename_tac n) (case_tac "n < 8"; case_tac "n < 16"; case_tac "n < 24"; simp add: b)
qed

lemma high_mask_zero:
  fixes v :: u32
  assumes "k \<le> 32"
  shows "push_bit k (mask (32 - k)) AND v = 0 \<longleftrightarrow> take_bit k v = v"
proof
  assume z: "push_bit k (mask (32 - k)) AND v = 0"
  have "\<not> bit v n" if "k \<le> n" for n
  proof
    assume b: "bit v n"
    then have "n < 32" using bit_imp_le_length [of v n] by simp
    then have "bit (push_bit k (mask (32 - k)) AND v) n" using that b assms by (simp add: bit_simps) linarith
    then show False using z by simp
  qed
  then show "take_bit k v = v" by (intro bit_word_eqI) (auto simp: bit_simps, meson not_le)
next
  assume t: "take_bit k v = v"
  have "n < k" if "bit v n" for n using t that by (metis bit_take_bit_iff)
  then show "push_bit k (mask (32 - k)) AND v = 0"
    by (intro bit_word_eqI) (auto simp: bit_simps, meson not_le)
qed

lemma int_option_roundtrip: "coap_parse_int_option (int_option_bytes v) = v"
proof -
  have m: "(0xFF000000 AND v = 0) = (take_bit 24 v = v)" "(0xFFFF0000 AND v = 0) = (take_bit 16 v = v)"
    "(0xFFFFFF00 AND v = 0) = (take_bit 8 v = v)"
    using high_mask_zero [of 24 v] high_mask_zero [of 16 v] high_mask_zero [of 8 v]
    by (simp_all add: mask_eq_exp_minus_1)
  have all: "0xFFFFFFFF AND v = v"
  proof -
    have "(0xFFFFFFFF :: u32) = - 1" by simp
    then show ?thesis by (simp only: and.left_neutral)
  qed
  have mono: "take_bit j v = v" if "take_bit i v = v" "i \<le> j" for i j
  proof -
    have "take_bit j (take_bit i v) = take_bit i v" using that(2) by (simp add: min_absorb2)
    then show ?thesis using that(1) by simp
  qed
  note p = parse_int_bytes [of v]
  consider "take_bit 24 v \<noteq> v" | "take_bit 24 v = v" "take_bit 16 v \<noteq> v" | "take_bit 16 v = v" "take_bit 8 v \<noteq> v"
    | "take_bit 8 v = v" "v \<noteq> 0" | "v = 0" by blast
  then show ?thesis
  proof cases
    case 1
    then have "take_bit 16 v \<noteq> v" "take_bit 8 v \<noteq> v" "v \<noteq> 0" using mono [of 16 24] mono [of 8 24] by auto
    then show ?thesis using 1 p(1) unfolding int_option_bytes_def m all by simp
  next
    case 2
    then have "take_bit 8 v \<noteq> v" "v \<noteq> 0" using mono [of 8 16] by auto
    then show ?thesis using 2 p(2) unfolding int_option_bytes_def m all by simp
  next
    case 3
    then have "take_bit 24 v = v" "v \<noteq> 0" using mono [of 16 24] by auto
    then show ?thesis using 3 p(3) unfolding int_option_bytes_def m all by simp
  next
    case 4
    then have "take_bit 24 v = v" "take_bit 16 v = v" using mono [of 8 24] mono [of 8 16] by auto
    then show ?thesis using 4 p(4) unfolding int_option_bytes_def m all by simp
  next
    case 5
    then show ?thesis by (simp add: coap_parse_int_option_def)
  qed
qed

lemma take_segment: "length v \<le> 255 \<Longrightarrow> take (unat (of_nat (length v) :: u8)) v = v"
  by (simp add: unat_of_nat_small)

lemma add_multi_static:
  "(\<And>n. mem n) \<Longrightarrow> length v \<le> 255 \<Longrightarrow> coap_add_multi_option mem dst v True = dst @ [v]"
  by (simp add: coap_add_multi_option_def Let_def take_segment)

definition block_sizes :: "u16 set" where
  "block_sizes = {16, 32, 64, 128, 256, 512, 1024, 2048}"

lemma log2_sizes:
  "coap_log_2 1 = 0" "coap_log_2 2 = 1" "coap_log_2 4 = 2" "coap_log_2 8 = 3" "coap_log_2 16 = 4"
  "coap_log_2 32 = 5" "coap_log_2 64 = 6" "coap_log_2 128 = 7"
  by (simp_all add: coap_log_2_def coap_log_2_loop.simps [of "numeral _"] coap_log_2_loop.simps [of 1])

lemma low_nibble:
  fixes num c :: u32
  assumes "num < 2 ^ 20" and "c < 2 ^ 4"
  shows "drop_bit 4 (push_bit 4 num OR c) = num" "(push_bit 4 num OR c) AND 0x07 = c AND 0x07"
    "(push_bit 4 num OR c) AND NOT 0x0F = push_bit 4 num"
    "ucast (push_bit 4 num OR c) AND 0x08 = (ucast c AND 0x08 :: u8)"
proof -
  have n: "n < 20" if "bit num n" for n using that high_bits_zero [OF assms(1)] by blast
  have c: "n < 4" if "bit c n" for n using that high_bits_zero [OF assms(2)] by blast
  have low: "n < 4" if "bit (0x07 :: u32) n \<or> bit (0x0F :: u32) n" for n
    using that high_bits_zero [of "0x07" 4 n] high_bits_zero [of "0x0F" 4 n] by auto
  have f: "(0x0F :: u32) = mask 4" by (simp add: mask_eq_exp_minus_1)
  have e: "n < 4" if "bit (0x08 :: u8) n" for n
  proof -
    have "(0x08 :: u8) = 2 ^ 3" by simp
    then show ?thesis using that by (simp only: bit_exp_iff)
  qed
  show "drop_bit 4 (push_bit 4 num OR c) = num"
    using n c by (intro bit_word_eqI) (auto simp: bit_simps, fastforce+)
  show "(push_bit 4 num OR c) AND 0x07 = c AND 0x07"
    using low by (intro bit_word_eqI) (auto simp: bit_simps, meson not_le)
  show "(push_bit 4 num OR c) AND NOT 0x0F = push_bit 4 num"
    unfolding f using c by (intro bit_word_eqI) (auto simp: bit_simps)
  show "ucast (push_bit 4 num OR c) AND 0x08 = (ucast c AND 0x08 :: u8)"
    using e by (intro bit_word_eqI) (auto simp: bit_simps, meson not_le)
qed

lemma block_roundtrip:
  assumes "num < 2 ^ 20" and "sz \<in> block_sizes" and "mo \<in> {0, 1}"
  shows "parse_block (int_option_bytes (block_value num mo sz)) = (num, mo, sz, num * ucast sz)"
proof -
  define c :: u32 where "c = (if mo \<noteq> 0 then 0x8 else 0) OR (0xF AND ucast (coap_log_2 (sz div 16)))"
  have v: "block_value num mo sz = push_bit 4 num OR c"
    by (simp add: block_value_def c_def Let_def or.assoc)
  have cc: "c < 2 ^ 4 \<and> drop_bit 3 (ucast c AND 0x08) = mo \<and> push_bit (unat (c AND 0x07)) 16 = sz \<and>
      push_bit (unat (c AND 0x07)) (push_bit 4 num) = num * ucast sz"
    using assms(2,3) unfolding block_sizes_def c_def
    by (auto simp: log2_sizes push_bit_eq_mult)
  show ?thesis
    unfolding parse_block_def int_option_roundtrip v Let_def
      low_nibble [OF assms(1) conjunct1 [OF cc]]
    using cc by blast
qed

section \<open>Parsing what was serialized\<close>

definition known_options :: "nat set" where
  "known_options = {1, 3, 4, 5, 6, 7, 8, 11, 12, 14, 15, 17, 19, 23, 27, 28}"

text \<open>Fields of options that are not set are zero.\<close>

definition unset_zero :: "coap_packet_t \<Rightarrow> bool" where
  "unset_zero p \<longleftrightarrow>
     (1 \<notin> options p \<longrightarrow> if_match p = []) \<and> (3 \<notin> options p \<longrightarrow> uri_host p = []) \<and>
     (4 \<notin> options p \<longrightarrow> etag p = []) \<and> (6 \<notin> options p \<longrightarrow> observe p = 0) \<and>
     (7 \<notin> options p \<longrightarrow> uri_port p = 0) \<and> (8 \<notin> options p \<longrightarrow> location_path p = []) \<and>
     (11 \<notin> options p \<longrightarrow> uri_path p = []) \<and> (12 \<notin> options p \<longrightarrow> content_type p = 0) \<and>
     (14 \<notin> options p \<longrightarrow> max_age p = 0) \<and> (15 \<notin> options p \<longrightarrow> uri_query p = []) \<and>
     (17 \<notin> options p \<longrightarrow> accept p = []) \<and> (28 \<notin> options p \<longrightarrow> size_opt p = 0) \<and>
     (23 \<notin> options p \<longrightarrow> block2_num p = 0 \<and> block2_more p = 0 \<and> block2_size p = 0) \<and>
     (27 \<notin> options p \<longrightarrow> block1_num p = 0 \<and> block1_more p = 0 \<and> block1_size p = 0) \<and>
     location_query p = [] \<and> proxy_uri p = []"

text \<open>The ranges that the format and the fixed arrays allow.\<close>

definition limits_ok :: "coap_packet_t \<Rightarrow> bool" where
  "limits_ok p \<longleftrightarrow>
     length (token p) \<le> 8 \<and> length (if_match p) \<le> 8 \<and> length (etag p) \<le> 8 \<and> length (uri_host p) < 65536 \<and>
     list_all (\<lambda>s. length s \<le> 255) (location_path p) \<and> list_all (\<lambda>s. length s \<le> 255) (uri_path p) \<and>
     list_all (\<lambda>s. length s \<le> 255) (uri_query p) \<and> length (accept p) \<le> 2 \<and> content_type p < 2 ^ 16 \<and>
     (23 \<in> options p \<longrightarrow> block2_num p < 2 ^ 20 \<and> block2_size p \<in> block_sizes \<and> block2_more p \<in> {0, 1}) \<and>
     (27 \<in> options p \<longrightarrow> block1_num p < 2 ^ 20 \<and> block1_size p \<in> block_sizes \<and> block1_more p \<in> {0, 1}) \<and>
     payload p \<noteq> Some []"

definition coap_wf :: "coap_packet_t \<Rightarrow> bool" where
  "coap_wf p \<longleftrightarrow> multi_ok p \<and> options p \<subseteq> known_options \<and> (19 \<in> options p \<longleftrightarrow> token p \<noteq> []) \<and>
     unset_zero p \<and> limits_ok p \<and>
     (code p = COAP_EMPTY_MESSAGE_CODE \<longrightarrow> options p = {} \<and> payload p = None)"

text \<open>The packet a receiver sees: the version, the flag of If-None-Match and the block offsets are
  computed.\<close>

definition received :: "coap_packet_t \<Rightarrow> coap_packet_t" where
  "received p = p\<lparr>version := 1, if_none_match := (if 5 \<in> options p then 1 else 0),
     block2_offset := block2_num p * ucast (block2_size p),
     block1_offset := block1_num p * ucast (block1_size p)\<rparr>"

text \<open>The packet after the options below \<open>k\<close> have been parsed.\<close>

definition parsed :: "nat \<Rightarrow> coap_packet_t \<Rightarrow> coap_packet_t" where
  "parsed k p = \<lparr>version = 1, mtype = mtype p, code = code p, mid = mid p,
     options = {n \<in> options p. n < k \<or> n = 19},
     content_type = (if 12 < k then content_type p else 0), max_age = (if 14 < k then max_age p else 0),
     proxy_uri = [], etag = (if 4 < k then etag p else []), uri_host = (if 3 < k then uri_host p else []),
     location_path = (if 8 < k then location_path p else []), uri_port = (if 7 < k then uri_port p else 0),
     location_query = [], uri_path = (if 11 < k then uri_path p else []),
     observe = (if 6 < k then observe p else 0), token = token p, accept = (if 17 < k then accept p else []),
     if_match = (if 1 < k then if_match p else []),
     block2_num = (if 23 < k then block2_num p else 0), block2_more = (if 23 < k then block2_more p else 0),
     block2_size = (if 23 < k then block2_size p else 0),
     block2_offset = (if 23 < k then block2_num p * ucast (block2_size p) else 0),
     block1_num = (if 27 < k then block1_num p else 0), block1_more = (if 27 < k then block1_more p else 0),
     block1_size = (if 27 < k then block1_size p else 0),
     block1_offset = (if 27 < k then block1_num p * ucast (block1_size p) else 0),
     size_opt = (if 28 < k then size_opt p else 0), uri_query = (if 15 < k then uri_query p else []),
     if_none_match = (if 5 < k \<and> 5 \<in> options p then 1 else 0), payload = None\<rparr>"

lemma parsed_end:
  assumes "coap_wf p"
  shows "(parsed 29 p)\<lparr>payload := payload p\<rparr> = received p"
proof -
  have sub: "options p \<subseteq> known_options" and z: "location_query p = []" "proxy_uri p = []"
    using assms by (simp_all add: coap_wf_def unset_zero_def)
  have "n < 29" if "n \<in> options p" for n
    using that sub by (auto simp: known_options_def)
  then have "{n \<in> options p. n < 29 \<or> n = 19} = options p" by blast
  then show ?thesis using z by (simp add: parsed_def received_def)
qed

text \<open>The set of options grows by the option just parsed.\<close>

lemma options_step:
  assumes "options p \<subseteq> known_options" and "n \<in> options p" and "n < k'" and "k \<le> n"
    and "\<forall>m\<in>known_options. n < m \<and> m < k' \<longrightarrow> m = 19" and "\<forall>m\<in>known_options. k \<le> m \<and> m < n \<longrightarrow> m = 19"
  shows "insert n {m \<in> options p. m < k \<or> m = 19} = {m \<in> options p. m < k' \<or> m = 19}"
proof -
  have same: "m < k \<or> m = 19 \<longleftrightarrow> m < k' \<or> m = 19" if m: "m \<in> options p" "m \<noteq> n" for m
  proof (cases "m < n")
    case True
    then have "k \<le> m \<longrightarrow> m = 19" using assms(1,6) m by blast
    then show ?thesis using True assms(3) by linarith
  next
    case False
    then have gt: "n < m" using m by simp
    then have "m < k' \<longrightarrow> m = 19" using assms(1,5) m by blast
    then show ?thesis using gt assms(4) by linarith
  qed
  then show ?thesis using assms(2,3) by auto
qed

lemma options_skip:
  assumes "options p \<subseteq> known_options" and "n \<notin> options p"
    and "k \<le> k'" and "\<forall>m\<in>known_options. k \<le> m \<and> m < k' \<longrightarrow> m = 19 \<or> m = n"
  shows "{m \<in> options p. m < k' \<or> m = 19} = {m \<in> options p. m < k \<or> m = 19}"
proof -
  have "m < k' \<or> m = 19 \<longleftrightarrow> m < k \<or> m = 19" if m: "m \<in> options p" for m
  proof -
    have "k \<le> m \<and> m < k' \<longrightarrow> m = 19 \<or> m = n" using assms(1,4) m by blast
    then show ?thesis using assms(2,3) m by (metis not_less order_less_le_trans)
  qed
  then show ?thesis by auto
qed

text \<open>One option of the packet: parsing it moves on to the next number.\<close>

definition next_opt :: "nat \<Rightarrow> nat \<Rightarrow> bool" where
  "next_opt n k' \<longleftrightarrow> n < k' \<and> n \<noteq> 19 \<and> (\<forall>m\<in>known_options. n < m \<and> m < k' \<longrightarrow> m = 19)"

lemma parsed_options:
  assumes "options p \<subseteq> known_options" and "next_opt n k'"
  shows "n \<in> options p \<Longrightarrow> insert n {m \<in> options p. m < n \<or> m = 19} = {m \<in> options p. m < k' \<or> m = 19}"
    and "n \<notin> options p \<Longrightarrow> {m \<in> options p. m < k' \<or> m = 19} = {m \<in> options p. m < n \<or> m = 19}"
  using assms by (intro options_step options_skip [where n = n]; auto simp: next_opt_def)+

lemma next_opts:
  "next_opt 1 3" "next_opt 3 4" "next_opt 4 5" "next_opt 5 6" "next_opt 6 7" "next_opt 7 8" "next_opt 8 11"
  "next_opt 11 12" "next_opt 12 14" "next_opt 14 15" "next_opt 15 17" "next_opt 17 23" "next_opt 23 27"
  "next_opt 27 28" "next_opt 28 29"
  by (auto simp: next_opt_def known_options_def)

lemmas parsed_opts = next_opts [THEN parsed_options(1) [rotated]] next_opts [THEN parsed_options(2) [rotated]]

lemma content_type_bytes: "v < 2 ^ 16 \<Longrightarrow> length (int_option_bytes v) \<le> 2"
proof -
  assume "v < 2 ^ 16"
  then have hb: "n < 16" if "bit v n" for n using that high_bits_zero by blast
  have "take_bit 16 v = v" "take_bit 24 v = v"
    using hb by (auto intro!: bit_word_eqI simp: bit_simps) fastforce
  then have "0xFF000000 AND v = 0" "0xFFFF0000 AND v = 0"
    using high_mask_zero [of 24 v] high_mask_zero [of 16 v] by (simp_all add: mask_eq_exp_minus_1)
  then show ?thesis by (simp add: length_int_option_bytes)
qed

text \<open>Parsing one option of a packet, set or not.\<close>

lemma parse_single:
  assumes wf: "coap_wf p"
  shows "apply_opts mem (snd (seg1 p COAP_OPTION_IF_MATCH (if_match p))) (parsed 1 p) = Inr (parsed 3 p)"
    "apply_opts mem (snd (seg1 p COAP_OPTION_URI_HOST (uri_host p))) (parsed 3 p) = Inr (parsed 4 p)"
    "apply_opts mem (snd (seg1 p COAP_OPTION_ETAG (etag p))) (parsed 4 p) = Inr (parsed 5 p)"
    "apply_opts mem (snd (seg1 p COAP_OPTION_IF_NONE_MATCH [])) (parsed 5 p) = Inr (parsed 6 p)"
    "apply_opts mem (snd (seg1 p COAP_OPTION_OBSERVE (int_option_bytes (observe p)))) (parsed 6 p) = Inr (parsed 7 p)"
    "apply_opts mem (snd (seg1 p COAP_OPTION_URI_PORT (int_option_bytes (ucast (uri_port p))))) (parsed 7 p) = Inr (parsed 8 p)"
    "apply_opts mem (snd (seg1 p COAP_OPTION_CONTENT_TYPE (int_option_bytes (content_type p)))) (parsed 12 p) = Inr (parsed 14 p)"
    "apply_opts mem (snd (seg1 p COAP_OPTION_MAX_AGE (int_option_bytes (max_age p)))) (parsed 14 p) = Inr (parsed 15 p)"
    "apply_opts mem (snd (seg1 p COAP_OPTION_BLOCK2 (int_option_bytes (block_value (block2_num p) (block2_more p) (block2_size p))))) (parsed 23 p) = Inr (parsed 27 p)"
    "apply_opts mem (snd (seg1 p COAP_OPTION_BLOCK1 (int_option_bytes (block_value (block1_num p) (block1_more p) (block1_size p))))) (parsed 27 p) = Inr (parsed 28 p)"
    "apply_opts mem (snd (seg1 p COAP_OPTION_SIZE (int_option_bytes (size_opt p)))) (parsed 28 p) = Inr (parsed 29 p)"
proof -
  have sub: "options p \<subseteq> known_options" and z: "unset_zero p" and l: "limits_ok p"
    using wf by (simp_all add: coap_wf_def)
  note o = parsed_opts [OF _ sub]
  note d = seg1_def IS_OPTION_def option_numbers parse_option_def SET_OPTION_def parsed_def int_option_roundtrip
  show "apply_opts mem (snd (seg1 p COAP_OPTION_IF_MATCH (if_match p))) (parsed 1 p) = Inr (parsed 3 p)"
  proof -
    have "1 \<notin> options p \<longrightarrow> if_match p = []" using z by (simp add: unset_zero_def)
    moreover have "length (if_match p) \<le> 8" using l by (simp add: limits_ok_def)
    ultimately show ?thesis using o by (cases "1 \<in> options p") (simp_all add: d coap_sizes)
  qed
  show "apply_opts mem (snd (seg1 p COAP_OPTION_URI_HOST (uri_host p))) (parsed 3 p) = Inr (parsed 4 p)"
  proof -
    have "3 \<notin> options p \<longrightarrow> uri_host p = []" using z by (simp add: unset_zero_def)
    then show ?thesis using o by (cases "3 \<in> options p") (simp_all add: d coap_sizes)
  qed
  show "apply_opts mem (snd (seg1 p COAP_OPTION_ETAG (etag p))) (parsed 4 p) = Inr (parsed 5 p)"
  proof -
    have "4 \<notin> options p \<longrightarrow> etag p = []" using z by (simp add: unset_zero_def)
    moreover have "length (etag p) \<le> 8" using l by (simp add: limits_ok_def)
    ultimately show ?thesis using o by (cases "4 \<in> options p") (simp_all add: d coap_sizes)
  qed
  show "apply_opts mem (snd (seg1 p COAP_OPTION_IF_NONE_MATCH [])) (parsed 5 p) = Inr (parsed 6 p)"
  proof -
    show ?thesis using o by (cases "5 \<in> options p") (simp_all add: d coap_sizes)
  qed
  show "apply_opts mem (snd (seg1 p COAP_OPTION_OBSERVE (int_option_bytes (observe p)))) (parsed 6 p) = Inr (parsed 7 p)"
  proof -
    have "6 \<notin> options p \<longrightarrow> observe p = 0" using z by (simp add: unset_zero_def)
    then show ?thesis using o by (cases "6 \<in> options p") (simp_all add: d coap_sizes)
  qed
  show "apply_opts mem (snd (seg1 p COAP_OPTION_URI_PORT (int_option_bytes (ucast (uri_port p))))) (parsed 7 p) = Inr (parsed 8 p)"
  proof -
    have "7 \<notin> options p \<longrightarrow> uri_port p = 0" using z by (simp add: unset_zero_def)
    then show ?thesis using o by (cases "7 \<in> options p") (simp_all add: d coap_sizes)
  qed
  show "apply_opts mem (snd (seg1 p COAP_OPTION_CONTENT_TYPE (int_option_bytes (content_type p)))) (parsed 12 p) = Inr (parsed 14 p)"
  proof -
    have "12 \<notin> options p \<longrightarrow> content_type p = 0" using z by (simp add: unset_zero_def)
    moreover have "content_type p < 2 ^ 16" using l by (simp add: limits_ok_def)
    moreover from this have "length (int_option_bytes (content_type p)) \<le> 2" by (rule content_type_bytes)
    ultimately show ?thesis using o by (cases "12 \<in> options p") (simp_all add: d coap_sizes)
  qed
  show "apply_opts mem (snd (seg1 p COAP_OPTION_MAX_AGE (int_option_bytes (max_age p)))) (parsed 14 p) = Inr (parsed 15 p)"
  proof -
    have "14 \<notin> options p \<longrightarrow> max_age p = 0" using z by (simp add: unset_zero_def)
    then show ?thesis using o by (cases "14 \<in> options p") (simp_all add: d coap_sizes)
  qed
  show "apply_opts mem (snd (seg1 p COAP_OPTION_BLOCK2 (int_option_bytes (block_value (block2_num p) (block2_more p) (block2_size p))))) (parsed 23 p) = Inr (parsed 27 p)"
  proof -
    have "23 \<notin> options p \<longrightarrow> block2_num p = 0 \<and> block2_more p = 0 \<and> block2_size p = 0" using z by (simp add: unset_zero_def)
    moreover have "23 \<in> options p \<longrightarrow> block2_num p < 2 ^ 20 \<and> block2_size p \<in> block_sizes \<and> block2_more p \<in> {0, 1}" using l by (simp add: limits_ok_def)
    moreover have "23 \<in> options p \<Longrightarrow> parse_block (int_option_bytes (block_value (block2_num p) (block2_more p) (block2_size p))) = (block2_num p, block2_more p, block2_size p, block2_num p * ucast (block2_size p))"
      using calculation by (intro block_roundtrip) auto
    ultimately show ?thesis using o by (cases "23 \<in> options p") (simp_all add: d coap_sizes)
  qed
  show "apply_opts mem (snd (seg1 p COAP_OPTION_BLOCK1 (int_option_bytes (block_value (block1_num p) (block1_more p) (block1_size p))))) (parsed 27 p) = Inr (parsed 28 p)"
  proof -
    have "27 \<notin> options p \<longrightarrow> block1_num p = 0 \<and> block1_more p = 0 \<and> block1_size p = 0" using z by (simp add: unset_zero_def)
    moreover have "27 \<in> options p \<longrightarrow> block1_num p < 2 ^ 20 \<and> block1_size p \<in> block_sizes \<and> block1_more p \<in> {0, 1}" using l by (simp add: limits_ok_def)
    moreover have "27 \<in> options p \<Longrightarrow> parse_block (int_option_bytes (block_value (block1_num p) (block1_more p) (block1_size p))) = (block1_num p, block1_more p, block1_size p, block1_num p * ucast (block1_size p))"
      using calculation by (intro block_roundtrip) auto
    ultimately show ?thesis using o by (cases "27 \<in> options p") (simp_all add: d coap_sizes)
  qed
  show "apply_opts mem (snd (seg1 p COAP_OPTION_SIZE (int_option_bytes (size_opt p)))) (parsed 28 p) = Inr (parsed 29 p)"
  proof -
    have "28 \<notin> options p \<longrightarrow> size_opt p = 0" using z by (simp add: unset_zero_def)
    then show ?thesis using o by (cases "28 \<in> options p") (simp_all add: d coap_sizes)
  qed
qed

text \<open>Repeatable options: each segment is appended.\<close>

lemma apply_multi:
  assumes mem: "\<And>n. mem n" and "list_all (\<lambda>s. length s \<le> 255) vs"
  shows "apply_opts mem (map (Pair 8) vs) p =
      Inr (if vs = [] then p else p\<lparr>options := insert 8 (options p), location_path := location_path p @ vs\<rparr>)"
    and "apply_opts mem (map (Pair 11) vs) p =
      Inr (if vs = [] then p else p\<lparr>options := insert 11 (options p), uri_path := uri_path p @ vs\<rparr>)"
    and "apply_opts mem (map (Pair 15) vs) p =
      Inr (if vs = [] then p else p\<lparr>options := insert 15 (options p), uri_query := uri_query p @ vs\<rparr>)"
  using assms(2)
  by (induction vs arbitrary: p)
     (simp_all add: parse_option_def option_numbers SET_OPTION_def add_multi_static [of mem, OF mem])

lemma apply_accept:
  assumes "length (accept p) + length as \<le> 2"
  shows "apply_opts mem (map (Pair 17) (map (\<lambda>a. int_option_bytes (ucast a)) as)) p =
      Inr (if as = [] then p else p\<lparr>options := insert 17 (options p), accept := accept p @ as\<rparr>)"
  using assms
  by (induction as arbitrary: p)
     (simp_all add: parse_option_def option_numbers SET_OPTION_def coap_sizes int_option_roundtrip)

lemma parse_multi:
  assumes wf: "coap_wf p" and mem: "\<And>n. mem n"
  shows "apply_opts mem (snd (segm p COAP_OPTION_LOCATION_PATH (location_path p))) (parsed 8 p) = Inr (parsed 11 p)"
    "apply_opts mem (snd (segm p COAP_OPTION_URI_PATH (uri_path p))) (parsed 11 p) = Inr (parsed 12 p)"
    "apply_opts mem (snd (segm p COAP_OPTION_URI_QUERY (uri_query p))) (parsed 15 p) = Inr (parsed 17 p)"
    "apply_opts mem (snd (segm p COAP_OPTION_ACCEPT (map (\<lambda>a. int_option_bytes (ucast a)) (accept p)))) (parsed 17 p)
      = Inr (parsed 23 p)"
proof -
  have sub: "options p \<subseteq> known_options" and z: "unset_zero p" and l: "limits_ok p" and m: "multi_ok p"
    using wf by (simp_all add: coap_wf_def)
  have l1: "list_all (\<lambda>s. length s \<le> 255) (location_path p)" and l2: "list_all (\<lambda>s. length s \<le> 255) (uri_path p)"
    and l3: "list_all (\<lambda>s. length s \<le> 255) (uri_query p)" and l4: "length (accept p) \<le> 2"
    using l by (simp_all add: limits_ok_def)
  have ne: "8 \<in> options p \<longrightarrow> location_path p \<noteq> []" "11 \<in> options p \<longrightarrow> uri_path p \<noteq> []"
    "15 \<in> options p \<longrightarrow> uri_query p \<noteq> []" "17 \<in> options p \<longrightarrow> accept p \<noteq> []"
    using m by (simp_all add: multi_ok_def IS_OPTION_def option_numbers)
  have e: "8 \<notin> options p \<longrightarrow> location_path p = []" "11 \<notin> options p \<longrightarrow> uri_path p = []"
    "15 \<notin> options p \<longrightarrow> uri_query p = []" "17 \<notin> options p \<longrightarrow> accept p = []"
    using z by (simp_all add: unset_zero_def)
  note o = parsed_opts [OF _ sub] and d = segm_def IS_OPTION_def option_numbers
  show "apply_opts mem (snd (segm p COAP_OPTION_LOCATION_PATH (location_path p))) (parsed 8 p) = Inr (parsed 11 p)"
    using o ne(1) e(1) by (cases "8 \<in> options p") (simp_all add: d apply_multi [of mem, OF mem l1] parsed_def)
  show "apply_opts mem (snd (segm p COAP_OPTION_URI_PATH (uri_path p))) (parsed 11 p) = Inr (parsed 12 p)"
    using o ne(2) e(2) by (cases "11 \<in> options p") (simp_all add: d apply_multi [of mem, OF mem l2] parsed_def)
  show "apply_opts mem (snd (segm p COAP_OPTION_URI_QUERY (uri_query p))) (parsed 15 p) = Inr (parsed 17 p)"
    using o ne(3) e(3) by (cases "15 \<in> options p") (simp_all add: d apply_multi [of mem, OF mem l3] parsed_def)
  have a: "apply_opts mem (map (Pair 17) (map (\<lambda>a. int_option_bytes (ucast a)) (accept p))) (parsed 17 p) =
      Inr (if accept p = [] then parsed 17 p
           else (parsed 17 p)\<lparr>options := insert 17 (options (parsed 17 p)), accept := accept (parsed 17 p) @ accept p\<rparr>)"
    using l4 by (intro apply_accept) (simp add: parsed_def)
  show "apply_opts mem (snd (segm p COAP_OPTION_ACCEPT (map (\<lambda>a. int_option_bytes (ucast a)) (accept p)))) (parsed 17 p)
      = Inr (parsed 23 p)"
    using o ne(4) e(4) by (cases "17 \<in> options p") (simp_all add: d a [unfolded map_map], simp_all add: parsed_def)
qed

lemma pkt_opts_parsed:
  assumes wf: "coap_wf p" and mem: "\<And>n. mem n"
  shows "apply_opts mem (pkt_opts p) (parsed 1 p) = Inr (parsed 29 p)"
proof -
  have "35 \<notin> options p" using wf by (auto simp: coap_wf_def known_options_def)
  then have px: "snd (seg1 p COAP_OPTION_PROXY_URI (proxy_uri p)) = []"
    by (simp add: seg1_def IS_OPTION_def option_numbers)
  show ?thesis
    unfolding pkt_opts_def pkt_segs_def list.map concat.simps apply_opts_append parse_single [OF wf] px
      parse_multi [of p mem, OF wf mem] sum.case apply_opts.simps
    by simp
qed

text \<open>The options of a packet come in ascending order and fit the format.\<close>

lemma opts_ok_append: "opts_ok cur (xs @ ys) \<longleftrightarrow> opts_ok cur xs \<and> opts_ok (opts_last cur xs) ys"
  by (induction cur xs rule: opts_ok.induct) simp_all

fun segs_ok :: "nat \<Rightarrow> (nat \<times> (nat \<times> bytes) list) list \<Rightarrow> bool" where
  "segs_ok k [] = True"
| "segs_ok k ((n, seg) # segs) = (k \<le> n \<and> n < 65805 \<and> list_all (\<lambda>x. fst x = n \<and> length (snd x) < 65805) seg \<and> segs_ok n segs)"

lemma same_number_ok:
  assumes "cur \<le> n" and "n < 65805" and "list_all (\<lambda>x. fst x = n \<and> length (snd x) < 65805) seg"
  shows "opts_ok cur seg \<and> opts_last cur seg \<le> n"
  using assms by (induction cur seg rule: opts_ok.induct) auto

lemma segs_ok_opts_ok: "segs_ok k segs \<Longrightarrow> cur \<le> k \<Longrightarrow> opts_ok cur (concat (map snd segs))"
proof (induction k segs arbitrary: cur rule: segs_ok.induct)
  case (2 k n seg segs)
  then have "opts_ok cur seg \<and> opts_last cur seg \<le> n" by (intro same_number_ok) auto
  then show ?case using 2 by (simp add: opts_ok_append)
qed simp

lemma list_all_255: "list_all (\<lambda>s. length s \<le> 255) vs \<Longrightarrow> list_all (\<lambda>s. length s < 65805) vs"
  by (fastforce simp: list_all_iff)

lemma pkt_opts_ok:
  assumes wf: "coap_wf p"
  shows "opts_ok 0 (pkt_opts p)"
proof -
  have l: "limits_ok p" and "35 \<notin> options p" using wf by (auto simp: coap_wf_def known_options_def)
  then have i: "length (if_match p) < 65805" "length (uri_host p) < 65805" "length (etag p) < 65805"
    and px: "\<not> IS_OPTION p COAP_OPTION_PROXY_URI"
    by (simp_all add: limits_ok_def IS_OPTION_def option_numbers)
  have l1: "list_all (\<lambda>s. length s \<le> 255) (location_path p)" and l2: "list_all (\<lambda>s. length s \<le> 255) (uri_path p)"
    and l3: "list_all (\<lambda>s. length s \<le> 255) (uri_query p)"
    using l by (simp_all add: limits_ok_def)
  have b: "length (int_option_bytes v) < 65805" for v using int_bytes_le4 [of v] by simp
  have "segs_ok 0 (pkt_segs p)"
    using i px b l1 [THEN list_all_255] l2 [THEN list_all_255] l3 [THEN list_all_255]
    unfolding pkt_segs_def seg1_def segm_def segs_ok.simps option_numbers
    by (simp add: list_all_length)
  then show ?thesis unfolding pkt_opts_def by (rule segs_ok_opts_ok) simp
qed


text \<open>The fixed header.\<close>

lemma type_roundtrip: "num_type (type_num t) = t" "unat (type_num t) < 4"
  by (cases t; simp add: num_type_def type_num_def)+

lemma header_byte:
  assumes "length (token p) \<le> 8"
  shows "drop_bit 6 (0xC0 AND header_byte0 p) = 1" "drop_bit 4 (0x30 AND header_byte0 p) = type_num (mtype p)"
    "unat (0x0F AND header_byte0 p) = length (token p)"
proof -
  define k where "k = length (token p)"
  have "k \<in> {0, 1, 2, 3, 4, 5, 6, 7, 8}" using assms unfolding k_def [symmetric] by auto
  then have "drop_bit 6 (0xC0 AND header_byte0 p) = 1 \<and> drop_bit 4 (0x30 AND header_byte0 p) = type_num (mtype p)
      \<and> unat (0x0F AND header_byte0 p) = length (token p)"
    unfolding header_byte0_def k_def [symmetric] by (cases "mtype p"; auto simp: type_num_def)
  then show "drop_bit 6 (0xC0 AND header_byte0 p) = 1" "drop_bit 4 (0x30 AND header_byte0 p) = type_num (mtype p)"
    "unat (0x0F AND header_byte0 p) = length (token p)" by blast+
qed

lemma mid_bytes: "push_bit 8 (ucast (ucast (drop_bit 8 m) :: u8)) OR ucast (ucast m :: u8) = (m :: u16)"
  by (rule bit_word_eqI, rename_tac n) (case_tac "n < 8"; auto simp: bit_simps not_less)

lemma payload_parsed:
  assumes "payload p \<noteq> Some []" and "payload q = None"
  shows "parse_options_loop mem (case payload p of None \<Rightarrow> [] | Some pl \<Rightarrow> if pl = [] then [] else 0xFF # pl) n q
    = (COAP_NO_ERROR, q\<lparr>payload := payload p\<rparr>)"
  using assms by (cases "payload p") (simp_all add: parse_options_loop.simps)

lemma parse_msg_bytes:
  assumes wf: "coap_wf p" and mem: "\<And>n. mem n"
  shows "coap_parse_message mem (msg_bytes p) = (COAP_NO_ERROR, received p)"
proof -
  let ?rest = "case payload p of None \<Rightarrow> [] | Some pl \<Rightarrow> if pl = [] then [] else 0xFF # pl"
  have tk: "length (token p) \<le> 8" and pl: "payload p \<noteq> Some []" and t19: "19 \<in> options p \<longleftrightarrow> token p \<noteq> []"
    and sub: "options p \<subseteq> known_options"
    using wf by (simp_all add: coap_wf_def limits_ok_def)
  note h = header_byte [OF tk]
  have empty: "length (msg_bytes p) = 4" if "code p = COAP_EMPTY_MESSAGE_CODE"
  proof -
    have "options p = {}" "payload p = None" using wf that by (auto simp: coap_wf_def)
    then show ?thesis using t19
      by (simp add: msg_bytes_def pkt_opts_def pkt_segs_def seg1_def segm_def IS_OPTION_def)
  qed
  have first: "{n \<in> options p. n < 1 \<or> n = 19} = (if token p = [] then {} else {19})"
    using t19 sub by (auto simp: known_options_def)
  let ?o = "opts_bytes 0 (pkt_opts p) @ ?rest"
  have m: "msg_bytes p ! 0 = header_byte0 p" "msg_bytes p ! 1 = code p" "msg_bytes p ! 2 = ucast (drop_bit 8 (mid p))"
    "msg_bytes p ! 3 = ucast (mid p)" "length (msg_bytes p) = 4 + length (token p) + length ?o"
    "drop 4 (msg_bytes p) = token p @ ?o" "drop (4 + length (token p)) (msg_bytes p) = ?o"
    by (simp_all add: msg_bytes_def numeral_eq_Suc)
  have start: "coap_parse_message mem (msg_bytes p) = parse_options_loop mem ?o 0 (parsed 1 p)"
    using empty tk first
    unfolding coap_parse_message_def coap_sizes Let_def m(1-4,6-7) h mid_bytes type_roundtrip(1)
    by (auto simp: m(5) parsed_def zero_packet_def SET_OPTION_def COAP_OPTION_TOKEN_def)
  have "parse_options_loop mem (opts_bytes 0 (pkt_opts p) @ ?rest) 0 (parsed 1 p) =
      parse_options_loop mem ?rest (opts_last 0 (pkt_opts p)) (parsed 29 p)"
    unfolding parse_opts [OF pkt_opts_ok [OF wf]] pkt_opts_parsed [of p mem, OF wf mem] by simp
  also have "\<dots> = (COAP_NO_ERROR, (parsed 29 p)\<lparr>payload := payload p\<rparr>)"
    by (rule payload_parsed [OF pl]) (simp add: parsed_def)
  also have "\<dots> = (COAP_NO_ERROR, received p)" using parsed_end [OF wf] by simp
  finally show ?thesis using start by simp
qed

text \<open>CoAP messages are a format.\<close>

definition coap_decode :: "bytes \<Rightarrow> coap_packet_t option" where
  "coap_decode b = (case coap_parse_message (\<lambda>_. True) b of (st, p) \<Rightarrow> if st = COAP_NO_ERROR then Some p else None)"

interpretation coap_format: buffer_format coap_wf msg_bytes coap_decode received "\<lambda>p. length (msg_bytes p)"
  "\<lambda>p b. map_option (\<lambda>(b, n, _). (b, n)) (coap_serialize_message p b)"
proof (unfold_locales, goal_cases)
  case (1 p)
  then show ?case using parse_msg_bytes [of p "\<lambda>_. True"] by (simp add: coap_decode_def)
next
  case (2 p b)
  then show ?case using coap_serialize_message_bytes [of p b] by (simp add: coap_wf_def)
qed

section \<open>Properties\<close>

definition example_packet :: coap_packet_t where
  "example_packet = (coap_init_message COAP_TYPE_CON 2 0x1234)\<lparr>token := [7, 9], uri_path := [[0x33], [0x30]],
     content_type := 11542, block1_num := 5, block1_more := 1, block1_size := 64, accept := [110],
     options := {11, 12, 17, 19, 27}, payload := Some [1, 2, 3]\<rparr>"

lemmas example_defs = example_packet_def coap_init_message_def zero_packet_def

lemma example_ok:
  "coap_wf example_packet" "size_ok example_packet" "multi_ok example_packet" "coap_serialize_get_size example_packet = 37"
  by (simp_all add: coap_wf_def multi_ok_def unset_zero_def limits_ok_def known_options_def IS_OPTION_def
      option_numbers block_sizes_def COAP_EMPTY_MESSAGE_CODE_def example_defs size_ok_def coap_serialize_get_size_def
      payload_len_def coap_sizes)

text \<open>C2: A well-formed message is serialized into a buffer of the estimated size without a store
  outside it, and parsing the written bytes gives the packet back, with every option, the token
  and the payload.\<close>

theorem coap_roundtrip:
  assumes "coap_wf p" and "size_ok p" and "length buffer = coap_serialize_get_size p"
  shows "\<exists>b n. coap_serialize_message p buffer = Some (b, n, coap_free_header (p\<lparr>version := 1\<rparr>)) \<and>
           n \<le> coap_serialize_get_size p \<and> drop n b = drop n buffer \<and>
           coap_parse_message (\<lambda>_. True) (take n b) = (COAP_NO_ERROR, received p)"
proof -
  have m: "multi_ok p" using assms(1) by (simp add: coap_wf_def)
  have n: "length (msg_bytes p) \<le> coap_serialize_get_size p" using msg_bytes_size assms(2) m by blast
  show ?thesis
    using coap_serialize_message_bytes [OF m] n parse_msg_bytes [of p "\<lambda>_. True", OF assms(1)] assms(3) by auto
qed

theorem coap_roundtrip_witness:
  "\<exists>b n. coap_serialize_message example_packet (replicate 37 0) = Some (b, n, coap_free_header (example_packet\<lparr>version := 1\<rparr>)) \<and>
     n \<le> 37 \<and> drop n b = drop n (replicate 37 0) \<and>
     coap_parse_message (\<lambda>_. True) (take n b) = (COAP_NO_ERROR, received example_packet)"
  using coap_roundtrip [OF example_ok(1,2), of "replicate 37 0"] example_ok(4) by simp

text \<open>The size estimate is enough for every packet whose repeatable options have values and
  whose integer options fit three bytes: the serializer stays inside a buffer of the estimated
  size, whatever the option values are.\<close>

theorem coap_serialize_in_bounds:
  assumes "size_ok p" and "multi_ok p" and "coap_serialize_get_size p \<le> length buffer"
  shows "\<exists>b n q. coap_serialize_message p buffer = Some (b, n, q) \<and> n \<le> coap_serialize_get_size p \<and>
           length b = length buffer"
  using coap_serialize_message_bytes [OF assms(2)] msg_bytes_size [OF assms(1,2)] assms(3) by auto

theorem coap_serialize_in_bounds_witness:
  "\<exists>b n q. coap_serialize_message example_packet (replicate 50 0) = Some (b, n, q) \<and> n \<le> 37 \<and> length b = 50"
  using coap_serialize_in_bounds [OF example_ok(2,3), of "replicate 50 0"] example_ok(4) by simp

text \<open>The estimate is one byte too small for a Max-Age of four bytes that comes first: the
  serializer writes six bytes where five were counted, so the last byte of the message is stored
  behind the buffer.\<close>

theorem coap_size_underestimated:
  "let p = (coap_init_message COAP_TYPE_NON 0x45 1)\<lparr>options := {14}, max_age := 0x01000000\<rparr> in
     coap_serialize_get_size p = 9 \<and> length (msg_bytes p) = 10 \<and> coap_serialize_message p (replicate 9 0) = None"
  by (simp add: Let_def coap_serialize_get_size_def payload_len_def coap_sizes IS_OPTION_def option_numbers
      coap_init_message_def zero_packet_def msg_bytes_def pkt_opts_def pkt_segs_def seg1_def segm_def
      coap_set_option_header_def extended_length length_int_option_bytes coap_serialize_message_def
      coap_serialize_options_def COAP_SERIALIZE_BYTE_OPTION_def COAP_SERIALIZE_STRING_OPTION_def
      COAP_SERIALIZE_INT_OPTION_def COAP_SERIALIZE_MULTI_OPTION_def COAP_SERIALIZE_ACCEPT_OPTION_def
      COAP_SERIALIZE_BLOCK_OPTION_def put_bytes_def coap_serialize_int_option_def wr_range_def)

text \<open>What the parser guarantees about the packet, whatever the datagram holds.\<close>

definition parse_inv :: "coap_packet_t \<Rightarrow> bool" where
  "parse_inv p \<longleftrightarrow> length (accept p) \<le> COAP_MAX_ACCEPT_NUM \<and> length (etag p) \<le> COAP_ETAG_LEN \<and>
     length (if_match p) \<le> COAP_ETAG_LEN \<and> content_type p < 2 ^ 16 \<and> options p \<subseteq> {..<40} \<and> proxy_uri p = [] \<and>
     (\<forall>s\<in>set (uri_path p) \<union> set (uri_query p) \<union> set (location_path p). length s \<le> 255)"

lemma add_multi_segments:
  "s \<in> set (coap_add_multi_option mem dst v b) \<Longrightarrow> s \<in> set dst \<or> length s \<le> 255"
  using unat_u8_less [of "of_nat (length v)"]
  by (auto simp: coap_add_multi_option_def Let_def min_def split: if_splits)

lemma parse_int_two: "length v \<le> 2 \<Longrightarrow> coap_parse_int_option v < 2 ^ 16"
proof -
  assume "length v \<le> 2"
  then consider "v = []" | a where "v = [a]" | a b where "v = [a, b]"
    by (auto simp: numeral_2_eq_2 le_Suc_eq length_Suc_conv)
  then show ?thesis
  proof cases
    case 1
    then show ?thesis by (simp add: coap_parse_int_option_def)
  next
    case (2 a)
    have "unat (ucast a :: u32) < 2 ^ 16" using unat_u8_less [of a] by (simp add: unat_ucast_up)
    then show ?thesis using 2 by (simp add: coap_parse_int_option_def word_less_nat_alt)
  next
    case (3 a b)
    have "n < 16" if "bit (coap_parse_int_option v) n" for n
      using that bit_imp_le_length [of a "n - 8"] bit_imp_le_length [of b n]
      by (auto simp: 3 coap_parse_int_option_def bit_simps)
    then have "take_bit 16 (coap_parse_int_option v) = coap_parse_int_option v"
      by (intro bit_word_eqI) (auto simp: bit_take_bit_iff)
    then have "coap_parse_int_option v AND mask 16 = coap_parse_int_option v" by (simp add: take_bit_eq_mask)
    then show ?thesis using and_mask_less_size [of 16 "coap_parse_int_option v"] by (simp add: word_size)
  qed
qed

definition option_step_ok :: "coap_packet_t \<Rightarrow> (u8 \<times> coap_packet_t) + coap_packet_t \<Rightarrow> bool" where
  "option_step_ok p r \<longleftrightarrow> (case r of
      Inl (st, q) \<Rightarrow> st \<in> {COAP_400_BAD_REQUEST, COAP_402_BAD_OPTION, COAP_505_PROXYING_NOT_SUPPORTED} \<and>
        (st \<noteq> COAP_505_PROXYING_NOT_SUPPORTED \<longrightarrow> parse_inv q)
    | Inr q \<Rightarrow> parse_inv q \<and> version q = version p \<and> token q = token p \<and> payload q = payload p)"

lemma option_step_if:
  "(c \<Longrightarrow> option_step_ok p a) \<Longrightarrow> (\<not> c \<Longrightarrow> option_step_ok p b) \<Longrightarrow> option_step_ok p (if c then a else b)"
  by simp

lemma free_header_inv: "parse_inv p \<Longrightarrow> parse_inv (coap_free_header p)"
  by (simp add: parse_inv_def coap_free_header_def)

lemma add_multi_inv:
  "parse_inv p \<Longrightarrow> parse_inv (p\<lparr>uri_path := coap_add_multi_option mem (uri_path p) v b\<rparr>)"
  "parse_inv p \<Longrightarrow> parse_inv (p\<lparr>uri_query := coap_add_multi_option mem (uri_query p) v b\<rparr>)"
  "parse_inv p \<Longrightarrow> parse_inv (p\<lparr>location_path := coap_add_multi_option mem (location_path p) v b\<rparr>)"
  by (auto simp: parse_inv_def dest!: add_multi_segments)

lemma field_inv:
  assumes "parse_inv p"
  shows "length v \<le> 2 \<Longrightarrow> parse_inv (p\<lparr>content_type := coap_parse_int_option v\<rparr>)"
    "parse_inv (p\<lparr>max_age := x\<rparr>)" "parse_inv (p\<lparr>etag := take COAP_ETAG_LEN v\<rparr>)"
    "length (accept p) < COAP_MAX_ACCEPT_NUM \<Longrightarrow> parse_inv (p\<lparr>accept := accept p @ [a]\<rparr>)"
    "parse_inv (p\<lparr>if_match := take COAP_ETAG_LEN v\<rparr>)" "parse_inv (p\<lparr>if_none_match := 1\<rparr>)"
    "parse_inv (p\<lparr>uri_host := v\<rparr>)" "parse_inv (p\<lparr>uri_port := w\<rparr>)" "parse_inv (p\<lparr>location_query := v\<rparr>)"
    "parse_inv (p\<lparr>observe := x\<rparr>)" "parse_inv (p\<lparr>size_opt := x\<rparr>)" "parse_inv (p\<lparr>payload := y\<rparr>)"
    "parse_inv (p\<lparr>block2_num := x, block2_more := m, block2_size := sz, block2_offset := z\<rparr>)"
    "parse_inv (p\<lparr>block1_num := x, block1_more := m, block1_size := sz, block1_offset := z\<rparr>)"
  using assms parse_int_two [of v] by (simp_all add: parse_inv_def)

lemma parse_option_inv:
  assumes "parse_inv p"
  shows "option_step_ok p (parse_option mem n v p)"
  unfolding parse_option_def
  by (intro option_step_if)
     (simp_all add: option_step_ok_def parse_error_def assms field_inv add_multi_inv free_header_inv split: prod.split)

lemma parse_options_loop_cases:
  assumes "parse_options_loop mem (b # rest) n p = (st, q)"
  obtains (err) "(st, q) = parse_error p"
    | (payload) "(st, q) = (COAP_NO_ERROR, p\<lparr>payload := Some rest\<rparr>)" "rest \<noteq> []"
    | (opt) delta r1 len r2 where "b \<noteq> 0xFF" "\<not> (unat (drop_bit 4 b) = 15 \<or> unat (b AND 0x0F) = 15)"
        "parse_extended (unat (drop_bit 4 b)) rest = Some (delta, r1)"
        "parse_extended (unat (b AND 0x0F)) r1 = Some (len, r2)" "\<not> length r2 < len"
        "(case parse_option mem (n + delta) (take len r2) (SET_OPTION (n + delta) p) of
            Inl r \<Rightarrow> r | Inr p' \<Rightarrow> parse_options_loop mem (drop len r2) (n + delta) p') = (st, q)"
proof -
  note step = assms [unfolded parse_options_loop.simps [of mem "b # rest"] list.case]
  show ?thesis
  proof (cases "b = 0xFF \<or> unat (drop_bit 4 b) = 15 \<or> unat (b AND 0x0F) = 15")
    case True
    show ?thesis
    proof (cases "b = 0xFF")
      case True
      show ?thesis using step [unfolded if_P [OF True]] that(1,2) by (cases "rest = []") simp_all
    next
      case False
      then have "unat (drop_bit 4 b) = 15 \<or> unat (b AND 0x0F) = 15" using True by blast
      from step [unfolded if_not_P [OF False] Let_def if_P [OF this]] show ?thesis using that(1) by simp
    qed
  next
    case False
    then have nb: "b \<noteq> 0xFF" "\<not> (unat (drop_bit 4 b) = 15 \<or> unat (b AND 0x0F) = 15)" by simp_all
    note step' = step [unfolded if_not_P [OF nb(1)] Let_def if_not_P [OF nb(2)]]
    show ?thesis
    proof (cases "parse_extended (unat (drop_bit 4 b)) rest")
      case None
      then show ?thesis using step' that(1) by simp
    next
      case (Some x)
      then obtain delta r1 where x: "parse_extended (unat (drop_bit 4 b)) rest = Some (delta, r1)" by (cases x) simp
      show ?thesis
      proof (cases "parse_extended (unat (b AND 0x0F)) r1")
        case None
        then show ?thesis using step' x that(1) by simp
      next
        case (Some y)
        then obtain len r2 where y: "parse_extended (unat (b AND 0x0F)) r1 = Some (len, r2)" by (cases y) simp
        show ?thesis
          using step' that(1) that(3) [OF nb x y] by (cases "length r2 < len") (simp_all add: x y)
      qed
    qed
  qed
qed

lemma parse_loop_inv:
  assumes "parse_inv p" and "payload p = None" and "parse_options_loop mem data n p = (st, q)"
  shows "st \<in> {COAP_NO_ERROR, COAP_400_BAD_REQUEST, COAP_402_BAD_OPTION, COAP_505_PROXYING_NOT_SUPPORTED} \<and>
    (st \<noteq> COAP_505_PROXYING_NOT_SUPPORTED \<longrightarrow> parse_inv q) \<and>
    (st = COAP_NO_ERROR \<longrightarrow> version q = version p \<and> token q = token p \<and> payload q \<noteq> Some [])"
  using assms
proof (induction mem data n p rule: parse_options_loop.induct)
  case (1 mem data n p)

  have set: "parse_inv (SET_OPTION k p)" "version (SET_OPTION k p) = version p" "token (SET_OPTION k p) = token p"
    "payload (SET_OPTION k p) = payload p" for k
    using "1.prems"(1) by (auto simp: SET_OPTION_def parse_inv_def)
  have ok: "option_step_ok (SET_OPTION k p) (parse_option mem k v (SET_OPTION k p))" for k v
    by (rule parse_option_inv [OF set(1)])
  show ?case
  proof (cases data)
    case Nil
    then show ?thesis using "1.prems" by (auto simp: parse_options_loop.simps)
  next
    case (Cons b rest)
    from "1.prems"(3) [unfolded Cons] show ?thesis
    proof (cases rule: parse_options_loop_cases)
      case err
      then show ?thesis using free_header_inv [OF "1.prems"(1)] by (simp add: parse_error_def coap_codes)
    next
      case payload
      then show ?thesis using field_inv(12) [OF "1.prems"(1)] by (simp add: coap_codes)
    next
      case (opt delta r1 len r2)
      let ?k = "n + delta"
      show ?thesis
      proof (cases "parse_option mem ?k (take len r2) (SET_OPTION ?k p)")
        case (Inl r)
        then show ?thesis using opt(6) ok [of ?k "take len r2"] by (auto simp: option_step_ok_def coap_codes)
      next
        case (Inr p')
        then have p': "parse_inv p'" "version p' = version p" "token p' = token p" "payload p' = payload p"
          using ok [of ?k "take len r2"] set(2-) by (auto simp: option_step_ok_def)
        then show ?thesis
          using "1.IH" [OF Cons opt(1) refl refl opt(2,3) refl opt(4) refl refl opt(5) Inr p'(1)] opt(6) Inr "1.prems"(2)
          by simp
      qed
    qed
  qed
qed

lemma coap_parse_facts:
  assumes "coap_parse_message mem data = (st, q)"
  shows "st \<in> {COAP_NO_ERROR, COAP_400_BAD_REQUEST, COAP_402_BAD_OPTION, COAP_505_PROXYING_NOT_SUPPORTED} \<and>
    (st \<noteq> COAP_505_PROXYING_NOT_SUPPORTED \<longrightarrow> parse_inv q) \<and>
    (st = COAP_NO_ERROR \<longrightarrow> version q = 1 \<and> length (token q) \<le> COAP_TOKEN_LEN \<and> payload q \<noteq> Some [])"
proof -
  let ?h = "\<lambda>t. zero_packet\<lparr>version := drop_bit 6 (0xC0 AND data ! 0), mtype := num_type (drop_bit 4 (0x30 AND data ! 0)),
    token := t, code := data ! 1, mid := push_bit 8 (ucast (data ! 2)) OR ucast (data ! 3)\<rparr>"
  have z: "parse_inv (?h t)" "parse_inv (SET_OPTION COAP_OPTION_TOKEN (?h t))" "parse_inv zero_packet" for t
    by (simp_all add: zero_packet_def parse_inv_def SET_OPTION_def option_numbers)
  note inv = z z [THEN free_header_inv]
  consider "st = COAP_400_BAD_REQUEST" "parse_inv q"
    | d p where "parse_options_loop mem d 0 p = (st, q)" "parse_inv p" "payload p = None" "version p = 1"
        "length (token p) \<le> COAP_TOKEN_LEN"
    using assms inv unfolding coap_parse_message_def Let_def parse_error_def
    by (simp split: if_split_asm) (auto simp: SET_OPTION_def option_numbers zero_packet_def)
  then show ?thesis
  proof cases
    case 1
    then show ?thesis by (simp add: coap_codes)
  next
    case (2 d p)
    from parse_loop_inv [OF 2(2,3,1)] show ?thesis using 2(4,5) by simp
  qed
qed



end
