(* ===== verification/Coap_Header.thy ===== *)
theory Coap_Header
  imports Coap_Codec
begin

text \<open>
  The accessors of a CoAP packet, \<^verbatim>\<open>er-coap-13.c\<close>: status code, header options, payload, the
  string forms of the repeatable options and the variable search.  Setters return the packet and
  the value of the C function; getters return \<open>None\<close> where the C function returns 0 without a
  store.  String arguments are the bytes before the terminator; \<open>mem\<close> says whether an allocation
  of a size succeeds.
\<close>

section \<open>Setters and getters of single values\<close>

definition coap_set_status_code :: "coap_packet_t \<Rightarrow> u32 \<Rightarrow> coap_packet_t \<times> nat" where
  "coap_set_status_code p c = (if c \<le> 0xFF then (p\<lparr>code := ucast c\<rparr>, 1) else (p, 0))"

definition coap_get_header_content_type :: "coap_packet_t \<Rightarrow> u32" where
  "coap_get_header_content_type p = (if \<not> IS_OPTION p COAP_OPTION_CONTENT_TYPE then - 1 else content_type p)"

definition coap_set_header_content_type :: "coap_packet_t \<Rightarrow> u32 \<Rightarrow> coap_packet_t \<times> nat" where
  "coap_set_header_content_type p c = (SET_OPTION COAP_OPTION_CONTENT_TYPE (p\<lparr>content_type := c\<rparr>), 1)"

definition coap_get_header_accept :: "coap_packet_t \<Rightarrow> u16 list option" where
  "coap_get_header_accept p = (if \<not> IS_OPTION p COAP_OPTION_ACCEPT then None else Some (accept p))"

definition coap_set_header_accept :: "coap_packet_t \<Rightarrow> u16 \<Rightarrow> coap_packet_t \<times> nat" where
  "coap_set_header_accept p a =
     (let p' = (if length (accept p) < COAP_MAX_ACCEPT_NUM
                then SET_OPTION COAP_OPTION_ACCEPT (p\<lparr>accept := accept p @ [a]\<rparr>) else p) in
      (p', length (accept p')))"

definition coap_get_header_max_age :: "coap_packet_t \<Rightarrow> u32" where
  "coap_get_header_max_age p = (if \<not> IS_OPTION p COAP_OPTION_MAX_AGE then COAP_DEFAULT_MAX_AGE else max_age p)"

definition coap_set_header_max_age :: "coap_packet_t \<Rightarrow> u32 \<Rightarrow> coap_packet_t \<times> nat" where
  "coap_set_header_max_age p age = (SET_OPTION COAP_OPTION_MAX_AGE (p\<lparr>max_age := age\<rparr>), 1)"

definition coap_get_header_etag :: "coap_packet_t \<Rightarrow> bytes option" where
  "coap_get_header_etag p = (if \<not> IS_OPTION p COAP_OPTION_ETAG then None else Some (etag p))"

definition coap_set_header_etag :: "coap_packet_t \<Rightarrow> bytes \<Rightarrow> coap_packet_t \<times> nat" where
  "coap_set_header_etag p e =
     (let l = min COAP_ETAG_LEN (length e) in (SET_OPTION COAP_OPTION_ETAG (p\<lparr>etag := take l e\<rparr>), l))"

definition coap_get_header_if_match :: "coap_packet_t \<Rightarrow> bytes option" where
  "coap_get_header_if_match p = (if \<not> IS_OPTION p COAP_OPTION_IF_MATCH then None else Some (if_match p))"

definition coap_set_header_if_match :: "coap_packet_t \<Rightarrow> bytes \<Rightarrow> coap_packet_t \<times> nat" where
  "coap_set_header_if_match p e =
     (let l = min COAP_ETAG_LEN (length e) in (SET_OPTION COAP_OPTION_IF_MATCH (p\<lparr>if_match := take l e\<rparr>), l))"

definition coap_get_header_if_none_match :: "coap_packet_t \<Rightarrow> nat" where
  "coap_get_header_if_none_match p = (if IS_OPTION p COAP_OPTION_IF_NONE_MATCH then 1 else 0)"

definition coap_set_header_if_none_match :: "coap_packet_t \<Rightarrow> coap_packet_t \<times> nat" where
  "coap_set_header_if_none_match p = (SET_OPTION COAP_OPTION_IF_NONE_MATCH p, 1)"

definition coap_get_header_token :: "coap_packet_t \<Rightarrow> bytes option" where
  "coap_get_header_token p = (if \<not> IS_OPTION p COAP_OPTION_TOKEN then None else Some (token p))"

definition coap_set_header_token :: "coap_packet_t \<Rightarrow> bytes \<Rightarrow> coap_packet_t \<times> nat" where
  "coap_set_header_token p t =
     (let l = min COAP_TOKEN_LEN (length t) in (SET_OPTION COAP_OPTION_TOKEN (p\<lparr>token := take l t\<rparr>), l))"

definition coap_get_header_proxy_uri :: "coap_packet_t \<Rightarrow> bytes option" where
  "coap_get_header_proxy_uri p = (if \<not> IS_OPTION p COAP_OPTION_PROXY_URI then None else Some (proxy_uri p))"

definition coap_set_header_proxy_uri :: "coap_packet_t \<Rightarrow> bytes \<Rightarrow> coap_packet_t \<times> nat" where
  "coap_set_header_proxy_uri p u = (SET_OPTION COAP_OPTION_PROXY_URI (p\<lparr>proxy_uri := u\<rparr>), length u)"

definition coap_get_header_uri_host :: "coap_packet_t \<Rightarrow> bytes option" where
  "coap_get_header_uri_host p = (if \<not> IS_OPTION p COAP_OPTION_URI_HOST then None else Some (uri_host p))"

definition coap_set_header_uri_host :: "coap_packet_t \<Rightarrow> bytes \<Rightarrow> coap_packet_t \<times> nat" where
  "coap_set_header_uri_host p h = (SET_OPTION COAP_OPTION_URI_HOST (p\<lparr>uri_host := h\<rparr>), length h)"

definition coap_get_header_uri_port :: "coap_packet_t \<Rightarrow> u16" where
  "coap_get_header_uri_port p = (if \<not> IS_OPTION p COAP_OPTION_URI_PORT then 0 else uri_port p)"

definition coap_set_header_uri_port :: "coap_packet_t \<Rightarrow> u16 \<Rightarrow> coap_packet_t" where
  "coap_set_header_uri_port p port = SET_OPTION COAP_OPTION_URI_PORT (p\<lparr>uri_port := port\<rparr>)"

definition coap_get_header_location_query :: "coap_packet_t \<Rightarrow> bytes option" where
  "coap_get_header_location_query p =
     (if \<not> IS_OPTION p COAP_OPTION_LOCATION_QUERY then None else Some (location_query p))"

definition coap_set_header_location_query :: "coap_packet_t \<Rightarrow> bytes \<Rightarrow> coap_packet_t \<times> nat" where
  "coap_set_header_location_query p query =
     (let q = dropWhile (\<lambda>c. c = chr CHR ''?'') query in
      (SET_OPTION COAP_OPTION_LOCATION_QUERY (p\<lparr>location_query := q\<rparr>), length q))"

definition coap_get_header_observe :: "coap_packet_t \<Rightarrow> u32 option" where
  "coap_get_header_observe p = (if \<not> IS_OPTION p COAP_OPTION_OBSERVE then None else Some (observe p))"

definition coap_set_header_observe :: "coap_packet_t \<Rightarrow> u32 \<Rightarrow> coap_packet_t \<times> nat" where
  "coap_set_header_observe p x = (SET_OPTION COAP_OPTION_OBSERVE (p\<lparr>observe := 0x00FFFFFF AND x\<rparr>), 1)"

definition coap_get_header_block2 :: "coap_packet_t \<Rightarrow> (u32 \<times> u8 \<times> u16 \<times> u32) option" where
  "coap_get_header_block2 p =
     (if \<not> IS_OPTION p COAP_OPTION_BLOCK2 then None
      else Some (block2_num p, block2_more p, block2_size p, block2_offset p))"

definition coap_set_header_block2 :: "coap_packet_t \<Rightarrow> u32 \<Rightarrow> u8 \<Rightarrow> u16 \<Rightarrow> coap_packet_t \<times> nat" where
  "coap_set_header_block2 p num mo sz =
     (if sz < 16 then (p, 0) else if sz > 2048 then (p, 0) else if num > 0x0FFFFF then (p, 0)
      else (SET_OPTION COAP_OPTION_BLOCK2
              (p\<lparr>block2_num := num, block2_more := (if mo \<noteq> 0 then 1 else 0), block2_size := sz\<rparr>), 1))"

definition coap_get_header_block1 :: "coap_packet_t \<Rightarrow> (u32 \<times> u8 \<times> u16 \<times> u32) option" where
  "coap_get_header_block1 p =
     (if \<not> IS_OPTION p COAP_OPTION_BLOCK1 then None
      else Some (block1_num p, block1_more p, block1_size p, block1_offset p))"

definition coap_set_header_block1 :: "coap_packet_t \<Rightarrow> u32 \<Rightarrow> u8 \<Rightarrow> u16 \<Rightarrow> coap_packet_t \<times> nat" where
  "coap_set_header_block1 p num mo sz =
     (if sz < 16 then (p, 0) else if sz > 2048 then (p, 0) else if num > 0x0FFFFF then (p, 0)
      else (SET_OPTION COAP_OPTION_BLOCK1 (p\<lparr>block1_num := num, block1_more := mo, block1_size := sz\<rparr>), 1))"

definition coap_get_header_block :: "coap_packet_t \<Rightarrow> (u32 \<times> u8 \<times> u16 \<times> u32) option" where
  "coap_get_header_block p =
     (case coap_get_header_block1 p of Some r \<Rightarrow> Some r | None \<Rightarrow> coap_get_header_block1 p)"

definition coap_get_header_size :: "coap_packet_t \<Rightarrow> u32 option" where
  "coap_get_header_size p = (if \<not> IS_OPTION p COAP_OPTION_SIZE then None else Some (size_opt p))"

definition coap_set_header_size :: "coap_packet_t \<Rightarrow> u32 \<Rightarrow> coap_packet_t \<times> nat" where
  "coap_set_header_size p x = (SET_OPTION COAP_OPTION_SIZE (p\<lparr>size_opt := x\<rparr>), 1)"

definition coap_get_payload :: "coap_packet_t \<Rightarrow> bytes option \<times> nat" where
  "coap_get_payload p = (case payload p of Some b \<Rightarrow> (Some b, payload_len p) | None \<Rightarrow> (None, 0))"

text \<open>A null pointer comes with length 0; the length is cut to 16 bits.\<close>

definition coap_set_payload :: "coap_packet_t \<Rightarrow> bytes option \<Rightarrow> coap_packet_t \<times> nat" where
  "coap_set_payload p pl =
     (let p' = p\<lparr>payload := map_option (\<lambda>b. take (unat (of_nat (length b) :: u16)) b) pl\<rparr> in (p', payload_len p'))"

text \<open>The static counter \<open>current_mid\<close> is threaded through.\<close>

definition coap_get_mid :: "u16 \<Rightarrow> u16 \<times> u16" where
  "coap_get_mid current_mid = (let m = current_mid + 1 in (m, m))"

section \<open>Repeatable options\<close>

text \<open>The loop of the three setters that split a string at a separator; the \<open>int\<close> counter is the
  sum of the lengths and separators passed.\<close>

function split_option_loop :: "(nat \<Rightarrow> bool) \<Rightarrow> u8 \<Rightarrow> bytes \<Rightarrow> bytes list \<Rightarrow> nat \<Rightarrow> bytes list \<times> nat" where
  "split_option_loop mem sep path dst len =
     (let i = length (takeWhile (\<lambda>c. c \<noteq> sep) path);
          dst' = coap_add_multi_option mem dst (take i path) False;
          i' = (if i < length path then i + 1 else i) in
      if drop i' path \<noteq> [] then split_option_loop mem sep (drop i' path) dst' (len + i')
      else (dst', len + i'))"
  by pat_completeness auto
termination by (relation "measure (\<lambda>(m, s, p, d, l). length p)") (auto split: if_splits)

declare split_option_loop.simps [simp del]

definition skip_first :: "u8 \<Rightarrow> bytes \<Rightarrow> bytes" where
  "skip_first c s = (case s of x # r \<Rightarrow> if x = c then r else s | [] \<Rightarrow> [])"

definition coap_get_header_uri_path :: "coap_packet_t \<Rightarrow> nat" where
  "coap_get_header_uri_path p = 0"

definition coap_set_header_uri_path :: "(nat \<Rightarrow> bool) \<Rightarrow> coap_packet_t \<Rightarrow> bytes \<Rightarrow> coap_packet_t \<times> nat" where
  "coap_set_header_uri_path mem p path =
     (case split_option_loop mem (chr CHR ''/'') (skip_first (chr CHR ''/'') path) [] 0 of
        (segs, l) \<Rightarrow> (SET_OPTION COAP_OPTION_URI_PATH (p\<lparr>uri_path := segs\<rparr>), l))"

text \<open>A null segment is the empty string.\<close>

definition coap_set_header_uri_path_segment :: "(nat \<Rightarrow> bool) \<Rightarrow> coap_packet_t \<Rightarrow> bytes \<Rightarrow> coap_packet_t \<times> nat" where
  "coap_set_header_uri_path_segment mem p segment =
     (if segment = []
      then (SET_OPTION COAP_OPTION_URI_PATH (p\<lparr>uri_path := coap_add_multi_option mem (uri_path p) [] True\<rparr>), 0)
      else (SET_OPTION COAP_OPTION_URI_PATH
              (p\<lparr>uri_path := coap_add_multi_option mem (uri_path p) segment False\<rparr>), length segment))"

definition coap_get_header_uri_query :: "coap_packet_t \<Rightarrow> nat" where
  "coap_get_header_uri_query p = 0"

definition coap_set_header_uri_query :: "(nat \<Rightarrow> bool) \<Rightarrow> coap_packet_t \<Rightarrow> bytes \<Rightarrow> coap_packet_t \<times> nat" where
  "coap_set_header_uri_query mem p query =
     (case split_option_loop mem (chr CHR ''&'') (skip_first (chr CHR ''?'') query) [] 0 of
        (segs, l) \<Rightarrow> (SET_OPTION COAP_OPTION_URI_QUERY (p\<lparr>uri_query := segs\<rparr>), l))"

definition coap_set_header_uri_query_segment :: "(nat \<Rightarrow> bool) \<Rightarrow> coap_packet_t \<Rightarrow> bytes \<Rightarrow> coap_packet_t \<times> nat" where
  "coap_set_header_uri_query_segment mem p segment =
     (if segment = []
      then (SET_OPTION COAP_OPTION_URI_QUERY (p\<lparr>uri_query := coap_add_multi_option mem (uri_query p) [] True\<rparr>), 0)
      else (SET_OPTION COAP_OPTION_URI_QUERY
              (p\<lparr>uri_query := coap_add_multi_option mem (uri_query p) segment False\<rparr>), length segment))"

definition coap_get_header_location_path :: "coap_packet_t \<Rightarrow> nat" where
  "coap_get_header_location_path p = 0"

definition coap_set_header_location_path :: "(nat \<Rightarrow> bool) \<Rightarrow> coap_packet_t \<Rightarrow> bytes \<Rightarrow> coap_packet_t \<times> nat" where
  "coap_set_header_location_path mem p path =
     (case split_option_loop mem (chr CHR ''/'') (skip_first (chr CHR ''/'') path) [] 0 of
        (segs, l) \<Rightarrow> (SET_OPTION COAP_OPTION_LOCATION_PATH (p\<lparr>location_path := segs\<rparr>), l))"

section \<open>Strings\<close>

fun multi_string :: "u8 \<Rightarrow> u8 \<Rightarrow> bytes list \<Rightarrow> bytes" where
  "multi_string lead delimiter [] = []"
| "multi_string lead delimiter (s # segs) = lead # s @ multi_string delimiter delimiter segs"

text \<open>The allocated buffer without its terminator; \<open>None\<close> is a null pointer.\<close>

definition prv_coap_get_multi_option_as_string :: "(nat \<Rightarrow> bool) \<Rightarrow> bytes list \<Rightarrow> u8 \<Rightarrow> u8 \<Rightarrow> bytes option" where
  "prv_coap_get_multi_option_as_string mem segs lead delimiter =
     (let len = sum_list (map (\<lambda>s. length s + 1) segs) in
      if mem (len + 1) then Some (multi_string lead delimiter segs) else None)"

definition coap_get_multi_option_as_path_string :: "(nat \<Rightarrow> bool) \<Rightarrow> bytes list \<Rightarrow> bytes option" where
  "coap_get_multi_option_as_path_string mem segs =
     prv_coap_get_multi_option_as_string mem segs (chr CHR ''/'') (chr CHR ''/'')"

definition coap_get_multi_option_as_query_string :: "(nat \<Rightarrow> bool) \<Rightarrow> bytes list \<Rightarrow> bytes option" where
  "coap_get_multi_option_as_query_string mem segs =
     prv_coap_get_multi_option_as_string mem segs (chr CHR ''?'') (chr CHR ''&'')"

definition is_non_std_coap_port :: "u16 \<Rightarrow> bool" where
  "is_non_std_coap_port port \<longleftrightarrow> \<not> (port = 0 \<or> port = 5683 \<or> port = 5684)"

definition nDigits :: "nat \<Rightarrow> nat" where
  "nDigits x = (if x \<ge> 1000000000 then 10 else if x \<ge> 100000000 then 9 else if x \<ge> 10000000 then 8
     else if x \<ge> 1000000 then 7 else if x \<ge> 100000 then 6 else if x \<ge> 10000 then 5
     else if x \<ge> 1000 then 4 else if x \<ge> 100 then 3 else if x \<ge> 10 then 2 else 1)"

text \<open>The bytes before the first terminator, as \<open>strlen\<close> and \<open>strncat\<close> see a buffer.\<close>

definition c_str :: "bytes \<Rightarrow> bytes" where
  "c_str b = takeWhile (\<lambda>c. c \<noteq> 0) b"

text \<open>\<open>strlen\<close> of a null pointer is undefined; the inner \<open>None\<close> is the null pointer returned.
  The string must fit the allocated buffer of \<open>len + 1\<close> bytes.\<close>

definition coap_get_packet_uri_as_string :: "(nat \<Rightarrow> bool) \<Rightarrow> coap_packet_t \<Rightarrow> bytes option c" where
  "coap_get_packet_uri_as_string mem p =
     do { path \<leftarrow> map_option c_str (coap_get_multi_option_as_path_string mem (uri_path p));
          query \<leftarrow> map_option c_str (coap_get_multi_option_as_query_string mem (uri_query p));
          let len = 2 + length (uri_host p)
                    + (if is_non_std_coap_port (uri_port p) then nDigits (unat (uri_port p)) else 0)
                    + (if 1 > length path then 1 else length path) + length query;
          if \<not> mem (len + 1) then Some None
          else do { let s = str ''//'' @ c_str (uri_host p) @ (if 1 > length path then str ''/'' else path) @ query;
                    guard_c (length s \<le> len);
                    Some (Some s) } }"

section \<open>Variables\<close>

text \<open>The result is the offset of the value and its length; \<open>None\<close> is the return of 0 with a
  null output.\<close>

function get_variable_loop :: "bytes \<Rightarrow> bytes \<Rightarrow> nat \<Rightarrow> (nat \<times> nat) option" where
  "get_variable_loop buffer name start =
     (if start + length name < length buffer
      then if (start = 0 \<or> buffer ! (start - 1) = chr CHR ''&'') \<and> buffer ! (start + length name) = chr CHR ''=''
              \<and> take (length name) (drop start buffer) = name
           then Some (start + length name + 1,
                      length (takeWhile (\<lambda>c. c \<noteq> chr CHR ''&'') (drop (start + length name + 1) buffer)))
           else get_variable_loop buffer name (start + 1)
      else None)"
  by pat_completeness auto
termination by (relation "measure (\<lambda>(b, n, s). length b - s)") auto

declare get_variable_loop.simps [simp del]

definition coap_get_variable :: "bytes \<Rightarrow> bytes \<Rightarrow> (nat \<times> nat) option" where
  "coap_get_variable buffer name = get_variable_loop buffer name 0"

definition coap_get_query_variable :: "coap_packet_t \<Rightarrow> bytes \<Rightarrow> nat" where
  "coap_get_query_variable p name = 0"

definition coap_get_post_variable :: "coap_packet_t \<Rightarrow> bytes \<Rightarrow> (nat \<times> nat) option" where
  "coap_get_post_variable p name =
     (if payload_len p \<noteq> 0 then (case payload p of Some b \<Rightarrow> coap_get_variable b name | None \<Rightarrow> None) else None)"

section \<open>Splitting and joining\<close>

text \<open>Segments the splitting setters can represent: no separator inside, and the last one is not
  empty unless it is the only one.\<close>

definition segs_plain :: "u8 \<Rightarrow> bytes list \<Rightarrow> bool" where
  "segs_plain sep segs \<longleftrightarrow> segs \<noteq> [] \<and> (length segs > 1 \<longrightarrow> last segs \<noteq> []) \<and>
     list_all (\<lambda>s. sep \<notin> set s \<and> length s \<le> 255) segs"

lemma add_multi_dynamic:
  "(\<And>n. mem n) \<Longrightarrow> length v \<le> 255 \<Longrightarrow> coap_add_multi_option mem dst v False = dst @ [v]"
  by (simp add: coap_add_multi_option_def Let_def take_segment)

lemma takeWhile_sep: "sep \<notin> set s \<Longrightarrow> takeWhile (\<lambda>c. c \<noteq> sep) (s @ sep # r) = s"
  "sep \<notin> set s \<Longrightarrow> takeWhile (\<lambda>c. c \<noteq> sep) s = s"
  by (induction s) auto

lemma multi_string_nonempty: "segs \<noteq> [] \<Longrightarrow> multi_string sep sep segs \<noteq> []"
  by (cases segs) auto

lemma split_multi_string:
  assumes mem: "\<And>n. mem n" and "segs_plain sep segs"
  shows "fst (split_option_loop mem sep (tl (multi_string sep sep segs)) dst len) = dst @ segs"
  using assms(2)
proof (induction segs arbitrary: dst len)
  case (Cons s segs)
  then have s: "sep \<notin> set s" "length s \<le> 255" by (auto simp: segs_plain_def)
  show ?case
  proof (cases segs)
    case Nil
    then show ?thesis using s by (subst split_option_loop.simps) (simp add: takeWhile_sep add_multi_dynamic [of mem, OF mem])
  next
    case (Cons t r)
    then have "segs_plain sep segs" and l: "last segs \<noteq> []"
      using Cons.prems by (auto simp: segs_plain_def)
    then have ih: "fst (split_option_loop mem sep (tl (multi_string sep sep segs)) (dst @ [s]) l) = dst @ s # segs" for l
      using Cons.IH by simp
    obtain m where m: "multi_string sep sep segs = sep # m" and ne: "m \<noteq> []" using l Cons by (cases r) auto
    have "split_option_loop mem sep (s @ sep # m) dst len = split_option_loop mem sep m (dst @ [s]) (len + length s + 1)"
      using ne s by (subst split_option_loop.simps) (simp add: Let_def takeWhile_sep add_multi_dynamic [of mem, OF mem])
    then have "split_option_loop mem sep (tl (multi_string sep sep (s # segs))) dst len =
        split_option_loop mem sep (tl (multi_string sep sep segs)) (dst @ [s]) (len + length s + 1)"
      using m by simp
    then show ?thesis using ih by simp
  qed
qed (simp add: segs_plain_def)


text \<open>A path of segments without separators, set with \<open>coap_set_header_uri_path\<close>, becomes one
  Uri-Path option per segment, and \<open>coap_get_multi_option_as_path_string\<close> prints the same path.\<close>

theorem uri_path_string_roundtrip:
  assumes "segs_plain (chr CHR ''/'') segs"
  shows "fst (coap_set_header_uri_path (\<lambda>_. True) p (multi_string (chr CHR ''/'') (chr CHR ''/'') segs))
      = SET_OPTION COAP_OPTION_URI_PATH (p\<lparr>uri_path := segs\<rparr>) \<and>
    coap_get_multi_option_as_path_string (\<lambda>_. True) (uri_path (fst (coap_set_header_uri_path (\<lambda>_. True) p
        (multi_string (chr CHR ''/'') (chr CHR ''/'') segs)))) = Some (multi_string (chr CHR ''/'') (chr CHR ''/'') segs)"
proof -
  let ?c = "chr CHR ''/''"
  have "skip_first ?c (multi_string ?c ?c segs) = tl (multi_string ?c ?c segs)"
    using assms by (cases segs) (auto simp: skip_first_def segs_plain_def)
  moreover have "fst (split_option_loop (\<lambda>_. True) ?c (tl (multi_string ?c ?c segs)) [] 0) = segs"
    using split_multi_string [of "\<lambda>_. True", OF _ assms, of "[]" 0] by simp
  ultimately show ?thesis
    by (auto simp: coap_set_header_uri_path_def coap_get_multi_option_as_path_string_def
        prv_coap_get_multi_option_as_string_def Let_def SET_OPTION_def option_numbers split: prod.split)
qed

theorem uri_path_string_roundtrip_witness:
  "fst (coap_set_header_uri_path (\<lambda>_. True) zero_packet (str ''/rd/5'')) =
     SET_OPTION COAP_OPTION_URI_PATH (zero_packet\<lparr>uri_path := [str ''rd'', str ''5'']\<rparr>)"
  using uri_path_string_roundtrip [of "[str ''rd'', str ''5'']" zero_packet]
  by (simp add: segs_plain_def str_def)

section \<open>Building messages\<close>

text \<open>One call of a setter on the packet under construction, with memory available.\<close>

inductive api_step :: "coap_packet_t \<Rightarrow> coap_packet_t \<Rightarrow> bool" where
  status: "api_step p (fst (coap_set_status_code p c))"
| content_type: "api_step p (fst (coap_set_header_content_type p x))"
| accept: "api_step p (fst (coap_set_header_accept p a))"
| max_age: "api_step p (fst (coap_set_header_max_age p x))"
| etag: "api_step p (fst (coap_set_header_etag p v))"
| if_match: "api_step p (fst (coap_set_header_if_match p v))"
| if_none_match: "api_step p (fst (coap_set_header_if_none_match p))"
| token: "api_step p (fst (coap_set_header_token p v))"
| proxy_uri: "api_step p (fst (coap_set_header_proxy_uri p v))"
| uri_host: "api_step p (fst (coap_set_header_uri_host p v))"
| uri_path: "api_step p (fst (coap_set_header_uri_path (\<lambda>_. True) p v))"
| uri_path_segment: "api_step p (fst (coap_set_header_uri_path_segment (\<lambda>_. True) p v))"
| uri_port: "api_step p (coap_set_header_uri_port p a)"
| uri_query: "api_step p (fst (coap_set_header_uri_query (\<lambda>_. True) p v))"
| uri_query_segment: "api_step p (fst (coap_set_header_uri_query_segment (\<lambda>_. True) p v))"
| location_path: "api_step p (fst (coap_set_header_location_path (\<lambda>_. True) p v))"
| location_query: "api_step p (fst (coap_set_header_location_query p v))"
| observe: "api_step p (fst (coap_set_header_observe p x))"
| block2: "api_step p (fst (coap_set_header_block2 p x m a))"
| block1: "api_step p (fst (coap_set_header_block1 p x m a))"
| size: "api_step p (fst (coap_set_header_size p x))"
| payload: "api_step p (fst (coap_set_payload p pl))"

text \<open>What every setter keeps.\<close>

definition api_inv :: "coap_packet_t \<Rightarrow> bool" where
  "api_inv p \<longleftrightarrow> length (token p) \<le> COAP_TOKEN_LEN \<and> length (etag p) \<le> COAP_ETAG_LEN \<and>
     length (if_match p) \<le> COAP_ETAG_LEN \<and> length (accept p) \<le> COAP_MAX_ACCEPT_NUM \<and>
     block1_num p < 2 ^ 20 \<and> block2_num p < 2 ^ 20 \<and> observe p < 2 ^ 24 \<and>
     (IS_OPTION p COAP_OPTION_LOCATION_PATH \<longrightarrow> location_path p \<noteq> []) \<and>
     (IS_OPTION p COAP_OPTION_URI_PATH \<longrightarrow> uri_path p \<noteq> []) \<and>
     (IS_OPTION p COAP_OPTION_URI_QUERY \<longrightarrow> uri_query p \<noteq> []) \<and>
     (IS_OPTION p COAP_OPTION_ACCEPT \<longrightarrow> accept p \<noteq> []) \<and> payload_len p < 2 ^ 16"

lemma split_nonempty: "fst (split_option_loop (\<lambda>_. True) sep path dst len) \<noteq> []"
proof (induction "\<lambda>_ :: nat. True" sep path dst len rule: split_option_loop.induct)
  case (1 sep path dst len)
  then show ?case
    by (subst split_option_loop.simps) (auto simp: Let_def coap_add_multi_option_def)
qed

lemma observe_mask: "(0x00FFFFFF AND x :: u32) < 2 ^ 24"
proof -
  have "(0x00FFFFFF :: u32) = mask 24" by (simp add: mask_eq_exp_minus_1)
  then show ?thesis using and_mask_less_size [of 24 x] by (simp add: word_size ac_simps)
qed

lemma num_small: "(\<not> (0xFFFFF :: u32) < x) = (x < 2 ^ 20)"
  by (simp add: not_less word_le_nat_alt word_less_nat_alt) linarith

lemmas setter_defs = coap_set_status_code_def coap_set_header_content_type_def coap_set_header_accept_def
  coap_set_header_max_age_def coap_set_header_etag_def coap_set_header_if_match_def coap_set_header_if_none_match_def
  coap_set_header_token_def coap_set_header_proxy_uri_def coap_set_header_uri_host_def coap_set_header_uri_path_def
  coap_set_header_uri_path_segment_def coap_set_header_uri_port_def coap_set_header_uri_query_def
  coap_set_header_uri_query_segment_def coap_set_header_location_path_def coap_set_header_location_query_def
  coap_set_header_observe_def coap_set_header_block2_def coap_set_header_block1_def coap_set_header_size_def
  coap_set_payload_def

lemma payload_cut: "payload_len (p\<lparr>payload := map_option (\<lambda>b. take (unat (of_nat (length b) :: u16)) b) pl\<rparr>) < 65536"
proof -
  have "min (length b) (unat (of_nat (length b) :: u16)) < 65536" for b :: bytes
    using unat_u16_less [of "of_nat (length b)"] by linarith
  then show ?thesis by (cases pl) (simp_all add: payload_len_def)
qed

lemma api_step_inv:
  assumes "api_step p q" and "api_inv p"
  shows "api_inv q"
  using assms split_nonempty observe_mask payload_cut num_small
  by cases
     (simp_all add: setter_defs api_inv_def Let_def coap_sizes IS_OPTION_def SET_OPTION_def option_numbers
       payload_len_def coap_add_multi_option_def split_beta)



lemma set_block_cases:
  "fst (coap_set_header_block1 p x b a) = (if 16 \<le> a \<and> a \<le> 2048 \<and> x < 2 ^ 20
     then SET_OPTION COAP_OPTION_BLOCK1 (p\<lparr>block1_num := x, block1_more := b, block1_size := a\<rparr>) else p)"
  "fst (coap_set_header_block2 p x b a) = (if 16 \<le> a \<and> a \<le> 2048 \<and> x < 2 ^ 20
     then SET_OPTION COAP_OPTION_BLOCK2 (p\<lparr>block2_num := x, block2_more := (if b \<noteq> 0 then 1 else 0), block2_size := a\<rparr>)
     else p)"
  unfolding coap_set_header_block1_def coap_set_header_block2_def num_small [symmetric]
  by (auto simp: not_less)

text \<open>Reading an option after setting it gives the value set, cut to the size of its array;
  block sizes outside 16 to 2048 and block numbers above 20 bits are refused and leave the packet
  unchanged.\<close>

theorem option_get_set:
  "coap_get_header_content_type (fst (coap_set_header_content_type p x)) = x \<and>
   coap_get_header_max_age (fst (coap_set_header_max_age p x)) = x \<and>
   coap_get_header_etag (fst (coap_set_header_etag p v)) = Some (take 8 v) \<and>
   coap_get_header_if_match (fst (coap_set_header_if_match p v)) = Some (take 8 v) \<and>
   coap_get_header_if_none_match (fst (coap_set_header_if_none_match p)) = 1 \<and>
   coap_get_header_token (fst (coap_set_header_token p v)) = Some (take 8 v) \<and>
   coap_get_header_uri_host (fst (coap_set_header_uri_host p v)) = Some v \<and>
   coap_get_header_uri_port (coap_set_header_uri_port p a) = a \<and>
   coap_get_header_observe (fst (coap_set_header_observe p x)) = Some (take_bit 24 x) \<and>
   coap_get_header_size (fst (coap_set_header_size p x)) = Some x \<and>
   coap_get_header_block1 (fst (coap_set_header_block1 p x b a)) =
     (if 16 \<le> a \<and> a \<le> 2048 \<and> x < 2 ^ 20 then Some (x, b, a, block1_offset p) else coap_get_header_block1 p) \<and>
   coap_get_header_block2 (fst (coap_set_header_block2 p x b a)) =
     (if 16 \<le> a \<and> a \<le> 2048 \<and> x < 2 ^ 20 then Some (x, if b = 0 then 0 else 1, a, block2_offset p)
      else coap_get_header_block2 p)"
proof -
  have m: "(0x00FFFFFF AND x) = take_bit 24 x" by (simp add: take_bit_eq_mask mask_eq_exp_minus_1 ac_simps)
  note g = coap_get_header_content_type_def coap_get_header_max_age_def coap_get_header_etag_def
    coap_get_header_if_match_def coap_get_header_if_none_match_def coap_get_header_token_def
    coap_get_header_uri_host_def coap_get_header_uri_port_def coap_get_header_observe_def
    coap_get_header_size_def coap_get_header_block1_def coap_get_header_block2_def
  show ?thesis
    unfolding set_block_cases
    by (intro conjI) (simp_all add: g setter_defs Let_def coap_sizes IS_OPTION_def SET_OPTION_def option_numbers m min_def)
qed

text \<open>\<open>coap_get_header_block\<close> never looks at Block2: a message with only a Block2 option has no
  block for it.\<close>

theorem block_getter_misses_block2:
  "coap_get_header_block (fst (coap_set_header_block2 zero_packet 3 1 64)) = None \<and>
   coap_get_header_block2 (fst (coap_set_header_block2 zero_packet 3 1 64)) = Some (3, 1, 64, 0)"
  by (simp add: coap_get_header_block_def coap_get_header_block1_def coap_get_header_block2_def
      coap_set_header_block2_def zero_packet_def IS_OPTION_def SET_OPTION_def option_numbers)

text \<open>The URI string fits the buffer allocated for it.\<close>

lemma coap_get_packet_uri_defined: "\<exists>s. coap_get_packet_uri_as_string (\<lambda>_. True) p = Some (Some s)"
proof -
  have "length (c_str (uri_host p)) \<le> length (uri_host p)" by (simp add: c_str_def length_takeWhile_le)
  then show ?thesis
    by (auto simp: coap_get_packet_uri_as_string_def coap_get_multi_option_as_path_string_def
        coap_get_multi_option_as_query_string_def prv_coap_get_multi_option_as_string_def Let_def)
qed

text \<open>Printing the URI of a packet never leaves the allocated buffer when memory is available;
  when the first allocation fails, \<open>strlen\<close> is applied to a null pointer.\<close>

theorem packet_uri_string_safe:
  "(\<exists>s. coap_get_packet_uri_as_string (\<lambda>_. True) p = Some (Some s)) \<and>
   coap_get_packet_uri_as_string (\<lambda>_. False) p = None"
  using coap_get_packet_uri_defined
  by (simp add: coap_get_packet_uri_as_string_def coap_get_multi_option_as_path_string_def
      prv_coap_get_multi_option_as_string_def Let_def)

end
