(* ===== verification/Coap_Block.thy ===== *)
theory Coap_Block
  imports Coap_Header
begin

text \<open>
  Block-wise transfers, \<^verbatim>\<open>coap/block.c\<close>: the list of transfers a peer has under way and the
  handlers that collect the blocks of a Block1 request or a Block2 response.

  A pointer to an allocated buffer is indeterminate (memory from \<open>malloc\<close> that was not written),
  null, or the buffer; using an indeterminate pointer is undefined, and so is reading the
  identifier of a Block2 entry as the \<open>uri\<close> pointer of the union.  The identifier of a Block1
  entry read as \<open>mid\<close> is the low half of the pointer, the parameter \<open>addr32\<close>.  \<open>mem\<close> says whether
  an allocation of a size succeeds.
\<close>

section \<open>Transfers\<close>

datatype block_type_t = BLOCK_1 | BLOCK_2

datatype block_data_identifier_t = Block_uri "bytes option" | Block_mid int

datatype c_buffer = Indeterminate | Null_ptr | Buffer bytes

record lwm2m_block_data_t =
  blockType :: block_type_t
  block_identifier :: block_data_identifier_t
  blockBuffer :: c_buffer
  blockBufferSize :: "nat option"
  blockNum :: "u32 option"

definition sizeof_block_data :: nat where "sizeof_block_data = 48"

definition LWM2M_COAP_MAX_MESSAGE_SIZE :: nat where "LWM2M_COAP_MAX_MESSAGE_SIZE = 2048"

definition prv_matchBlock1 :: "bytes option \<Rightarrow> lwm2m_block_data_t \<Rightarrow> bool c" where
  "prv_matchBlock1 uri bd =
     (case block_identifier bd of
        Block_uri u \<Rightarrow> Some (case (u, uri) of (Some a, Some b) \<Rightarrow> b = a | _ \<Rightarrow> False)
      | Block_mid m \<Rightarrow> None)"

definition prv_matchBlock2 :: "(bytes option \<Rightarrow> int) \<Rightarrow> int \<Rightarrow> lwm2m_block_data_t \<Rightarrow> bool c" where
  "prv_matchBlock2 addr32 msgId bd =
     (case block_identifier bd of Block_mid m \<Rightarrow> Some (msgId = m) | Block_uri u \<Rightarrow> Some (msgId = addr32 u))"

text \<open>The matcher is chosen by the type of the transfer sought.\<close>

definition prv_get_matcher ::
  "(bytes option \<Rightarrow> int) \<Rightarrow> block_data_identifier_t \<Rightarrow> block_type_t \<Rightarrow> lwm2m_block_data_t \<Rightarrow> bool c" where
  "prv_get_matcher addr32 ident ty =
     (case ty of
        BLOCK_1 \<Rightarrow> (case ident of Block_uri u \<Rightarrow> prv_matchBlock1 u | Block_mid m \<Rightarrow> (\<lambda>_. None))
      | BLOCK_2 \<Rightarrow> prv_matchBlock2 addr32 (case ident of Block_mid m \<Rightarrow> m | Block_uri u \<Rightarrow> addr32 u))"

text \<open>The result is the position of the entry in the list.\<close>

fun find_block_data :: "(lwm2m_block_data_t \<Rightarrow> bool c) \<Rightarrow> lwm2m_block_data_t list \<Rightarrow> nat option c" where
  "find_block_data match [] = Some None"
| "find_block_data match (bd # bds) =
     do { found \<leftarrow> match bd;
          if found then Some (Some 0)
          else do { r \<leftarrow> find_block_data match bds; Some (map_option Suc r) } }"

text \<open>The entry is put in front; its buffer, size and number are not initialized.  \<open>None\<close> inside
  is the null pointer returned when the allocation fails.\<close>

definition prv_block_insert ::
  "(nat \<Rightarrow> bool) \<Rightarrow> lwm2m_block_data_t list \<Rightarrow> block_data_identifier_t \<Rightarrow> block_type_t \<Rightarrow>
   lwm2m_block_data_t list \<times> nat option" where
  "prv_block_insert mem head ident ty =
     (if \<not> mem sizeof_block_data then (head, None)
      else (\<lparr>blockType = ty,
             block_identifier = (case (ty, ident) of
                 (BLOCK_1, Block_uri (Some u)) \<Rightarrow> Block_uri (if mem (length u + 1) then Some u else None)
               | _ \<Rightarrow> ident),
             blockBuffer = Indeterminate, blockBufferSize = None, blockNum = None\<rparr> # head, Some 0))"

text \<open>\<open>free\<close> of an indeterminate pointer is undefined.\<close>

definition free_buffer :: "c_buffer \<Rightarrow> unit c" where
  "free_buffer b = (case b of Indeterminate \<Rightarrow> None | _ \<Rightarrow> Some ())"

definition free_block_data :: "lwm2m_block_data_t \<Rightarrow> unit c" where
  "free_block_data bd = free_buffer (blockBuffer bd)"

definition prv_block_data_delete ::
  "(bytes option \<Rightarrow> int) \<Rightarrow> lwm2m_block_data_t list \<Rightarrow> block_data_identifier_t \<Rightarrow> block_type_t \<Rightarrow>
   lwm2m_block_data_t list c" where
  "prv_block_data_delete addr32 head ident ty =
     do { removed \<leftarrow> find_block_data (prv_get_matcher addr32 ident ty) head;
          (case removed of
             None \<Rightarrow> Some head
           | Some i \<Rightarrow> do { free_block_data (head ! i); Some (take i head @ drop (Suc i) head) }) }"

section \<open>The handlers\<close>

text \<open>The result is the status, the list of transfers and, for a complete transfer, the buffer
  and the length given to the caller.\<close>

type_synonym block_result = "u8 \<times> lwm2m_block_data_t list \<times> (c_buffer \<times> nat option) option"

definition block_finish :: "lwm2m_block_data_t list \<Rightarrow> nat \<Rightarrow> bool \<Rightarrow> block_result" where
  "block_finish head i blockMore =
     (if blockMore then (COAP_231_CONTINUE, head, None)
      else (COAP_NO_ERROR, head, Some (blockBuffer (head ! i), blockBufferSize (head ! i))))"

definition first_block ::
  "(nat \<Rightarrow> bool) \<Rightarrow> lwm2m_block_data_t list \<Rightarrow> block_data_identifier_t \<Rightarrow> block_type_t \<Rightarrow> nat option \<Rightarrow>
   bytes \<Rightarrow> u32 \<Rightarrow> bool \<Rightarrow> block_result c" where
  "first_block mem head ident ty found buffer num blockMore =
     do { (head, bd) \<leftarrow> (case found of
              None \<Rightarrow> Some (prv_block_insert mem head ident ty)
            | Some i \<Rightarrow> do { free_buffer (blockBuffer (head ! i));
                              Some (head[i := (head ! i)\<lparr>blockBuffer := Null_ptr, blockBufferSize := Some 0\<rparr>], Some i) });
          if \<not> mem (length buffer) then Some (COAP_500_INTERNAL_SERVER_ERROR, head, None)
          else do { i \<leftarrow> bd;
                    let head = head[i := (head ! i)\<lparr>blockBuffer := Buffer buffer,
                                 blockBufferSize := Some (length buffer), blockNum := Some num\<rparr>];
                    Some (block_finish head i blockMore) } }"

definition next_block ::
  "(nat \<Rightarrow> bool) \<Rightarrow> lwm2m_block_data_t list \<Rightarrow> nat \<Rightarrow> bytes \<Rightarrow> u16 \<Rightarrow> u32 \<Rightarrow> bool \<Rightarrow> block_result c" where
  "next_block mem head i buffer blockSize num blockMore =
     do { let bd = head ! i;
          lastNum \<leftarrow> blockNum bd;
          if num \<le> lastNum then Some (COAP_RETRANSMISSION, head, None)
          else if num = lastNum + 1
          then do { oldSize \<leftarrow> blockBufferSize bd;
                    if oldSize \<noteq> unat blockSize * unat num then Some (COAP_408_REQ_ENTITY_INCOMPLETE, head, None)
                    else if LWM2M_COAP_MAX_MESSAGE_SIZE < oldSize + length buffer
                    then Some (COAP_413_ENTITY_TOO_LARGE, head, None)
                    else if \<not> mem (oldSize + length buffer)
                    then Some (COAP_500_INTERNAL_SERVER_ERROR,
                               head[i := bd\<lparr>blockBuffer := Null_ptr, blockBufferSize := Some (oldSize + length buffer)\<rparr>],
                               None)
                    else do { old \<leftarrow> (case blockBuffer bd of Buffer b \<Rightarrow> rd_range b 0 oldSize | _ \<Rightarrow> None);
                              let head = head[i := bd\<lparr>blockBuffer := Buffer (old @ buffer),
                                   blockBufferSize := Some (oldSize + length buffer), blockNum := Some num\<rparr>];
                              Some (block_finish head i blockMore) } }
          else Some (block_finish head i blockMore) }"

definition prv_coap_block_handler ::
  "(nat \<Rightarrow> bool) \<Rightarrow> (bytes option \<Rightarrow> int) \<Rightarrow> lwm2m_block_data_t list \<Rightarrow> block_data_identifier_t \<Rightarrow>
   block_type_t \<Rightarrow> bytes \<Rightarrow> u16 \<Rightarrow> u32 \<Rightarrow> bool \<Rightarrow> block_result c" where
  "prv_coap_block_handler mem addr32 head ident ty buffer blockSize num blockMore =
     do { found \<leftarrow> find_block_data (prv_get_matcher addr32 ident ty) head;
          if num = 0 then first_block mem head ident ty found buffer num blockMore
          else (case found of
                  None \<Rightarrow> Some (COAP_408_REQ_ENTITY_INCOMPLETE, head, None)
                | Some i \<Rightarrow> next_block mem head i buffer blockSize num blockMore) }"

definition block1_create ::
  "(nat \<Rightarrow> bool) \<Rightarrow> lwm2m_block_data_t list \<Rightarrow> bytes \<Rightarrow> lwm2m_block_data_t list \<times> nat option" where
  "block1_create mem head uri = prv_block_insert mem head (Block_uri (Some uri)) BLOCK_1"

definition block1_delete ::
  "(bytes option \<Rightarrow> int) \<Rightarrow> lwm2m_block_data_t list \<Rightarrow> bytes \<Rightarrow> lwm2m_block_data_t list c" where
  "block1_delete addr32 head uri = prv_block_data_delete addr32 head (Block_uri (Some uri)) BLOCK_1"

definition coap_block1_handler ::
  "(nat \<Rightarrow> bool) \<Rightarrow> (bytes option \<Rightarrow> int) \<Rightarrow> lwm2m_block_data_t list \<Rightarrow> bytes \<Rightarrow> bytes \<Rightarrow> u16 \<Rightarrow> u32 \<Rightarrow>
   bool \<Rightarrow> block_result c" where
  "coap_block1_handler mem addr32 head uri buffer blockSize num blockMore =
     prv_coap_block_handler mem addr32 head (Block_uri (Some uri)) BLOCK_1 buffer blockSize num blockMore"

definition block2_create ::
  "(nat \<Rightarrow> bool) \<Rightarrow> lwm2m_block_data_t list \<Rightarrow> u16 \<Rightarrow> lwm2m_block_data_t list \<times> nat option" where
  "block2_create mem head msgId = prv_block_insert mem head (Block_mid (uint msgId)) BLOCK_2"

definition block2_delete ::
  "(bytes option \<Rightarrow> int) \<Rightarrow> lwm2m_block_data_t list \<Rightarrow> u16 \<Rightarrow> lwm2m_block_data_t list c" where
  "block2_delete addr32 head msgId = prv_block_data_delete addr32 head (Block_mid (uint msgId)) BLOCK_2"

text \<open>Storing a \<open>mid\<close> in the identifier of a Block1 entry makes its pointer invalid; the entry then
  carries the new \<open>mid\<close>.\<close>

definition coap_block2_set_expected_mid ::
  "(bytes option \<Rightarrow> int) \<Rightarrow> lwm2m_block_data_t list \<Rightarrow> u16 \<Rightarrow> u16 \<Rightarrow> lwm2m_block_data_t list c" where
  "coap_block2_set_expected_mid addr32 head currentMid expectedMid =
     do { r \<leftarrow> find_block_data (prv_get_matcher addr32 (Block_mid (uint currentMid)) BLOCK_2) head;
          (case r of
             None \<Rightarrow> Some head
           | Some i \<Rightarrow> Some (head[i := (head ! i)\<lparr>block_identifier := Block_mid (uint expectedMid)\<rparr>])) }"

definition coap_block2_handler ::
  "(nat \<Rightarrow> bool) \<Rightarrow> (bytes option \<Rightarrow> int) \<Rightarrow> lwm2m_block_data_t list \<Rightarrow> u16 \<Rightarrow> bytes \<Rightarrow> u16 \<Rightarrow> u32 \<Rightarrow>
   bool \<Rightarrow> block_result c" where
  "coap_block2_handler mem addr32 head msgId buffer blockSize num blockMore =
     prv_coap_block_handler mem addr32 head (Block_mid (uint msgId)) BLOCK_2 buffer blockSize num blockMore"

section \<open>Well-formed transfer lists\<close>

text \<open>Entries of one kind, each with an initialized buffer of the recorded size.\<close>

definition entry_ok :: "block_type_t \<Rightarrow> lwm2m_block_data_t \<Rightarrow> bool" where
  "entry_ok ty bd \<longleftrightarrow>
     (case block_identifier bd of Block_uri u \<Rightarrow> ty = BLOCK_1 \<and> u \<noteq> None | Block_mid m \<Rightarrow> ty = BLOCK_2) \<and>
     blockType bd = ty \<and> blockNum bd \<noteq> None \<and>
     (\<exists>b. blockBuffer bd = Buffer b \<and> blockBufferSize bd = Some (length b))"

definition blocks_ok :: "block_type_t \<Rightarrow> lwm2m_block_data_t list \<Rightarrow> bool" where
  "blocks_ok ty head \<longleftrightarrow> list_all (entry_ok ty) head"

definition ident_ok :: "block_type_t \<Rightarrow> block_data_identifier_t \<Rightarrow> bool" where
  "ident_ok ty ident \<longleftrightarrow> (case ident of Block_uri u \<Rightarrow> ty = BLOCK_1 \<and> u \<noteq> None | Block_mid m \<Rightarrow> ty = BLOCK_2)"

text \<open>On such lists the search is by equality of identifiers.\<close>

lemma matcher_eq:
  assumes "ident_ok ty ident" and "entry_ok ty bd"
  shows "prv_get_matcher addr32 ident ty bd = Some (block_identifier bd = ident)"
  using assms
  by (auto simp: prv_get_matcher_def ident_ok_def entry_ok_def prv_matchBlock1_def prv_matchBlock2_def
      split: block_data_identifier_t.splits block_type_t.splits)

fun find_pos :: "('a \<Rightarrow> bool) \<Rightarrow> 'a list \<Rightarrow> nat option" where
  "find_pos P [] = None"
| "find_pos P (x # xs) = (if P x then Some 0 else map_option Suc (find_pos P xs))"

lemma find_block_data_eq:
  assumes "ident_ok ty ident" and "blocks_ok ty head"
  shows "find_block_data (prv_get_matcher addr32 ident ty) head = Some (find_pos (\<lambda>bd. block_identifier bd = ident) head)"
  using assms(2) by (induction head) (simp_all add: blocks_ok_def matcher_eq [OF assms(1)])

lemma find_pos_Some: "find_pos P xs = Some i \<Longrightarrow> i < length xs \<and> P (xs ! i)"
  by (induction xs arbitrary: i) (auto split: if_splits)

lemma find_pos_update: "find_pos P xs = Some i \<Longrightarrow> P y \<Longrightarrow> find_pos P (xs[i := y]) = Some i"
  by (induction xs arbitrary: i) (auto split: if_splits)

lemma blocks_ok_update: "blocks_ok ty head \<Longrightarrow> entry_ok ty bd \<Longrightarrow> blocks_ok ty (head[i := bd])"
  unfolding blocks_ok_def list_all_iff using set_update_subset_insert [of head i bd] by auto

lemma blocks_ok_nth: "blocks_ok ty head \<Longrightarrow> i < length head \<Longrightarrow> entry_ok ty (head ! i)"
  by (simp add: blocks_ok_def list_all_length)

text \<open>What both parts of the handler leave behind.\<close>

definition result_ok :: "block_type_t \<Rightarrow> block_result c \<Rightarrow> bool" where
  "result_ok ty r \<longleftrightarrow> (case r of None \<Rightarrow> False
     | Some (st, head, out) \<Rightarrow> blocks_ok ty head \<and>
         (st = COAP_NO_ERROR \<longrightarrow> (\<exists>b. out = Some (Buffer b, Some (length b)))))"

lemma finish_ok: "blocks_ok ty h \<Longrightarrow> i < length h \<Longrightarrow> result_ok ty (Some (block_finish h i mo))"
  using blocks_ok_nth [of ty h i] by (auto simp: result_ok_def block_finish_def entry_ok_def coap_codes)

lemma insert_eq:
  "prv_block_insert (\<lambda>_. True) head ident ty =
     (\<lparr>blockType = ty, block_identifier = ident, blockBuffer = Indeterminate, blockBufferSize = None, blockNum = None\<rparr> # head,
      Some 0)"
  by (cases ident; cases ty) (auto simp: prv_block_insert_def split: option.split)

lemma first_block_ok:
  assumes "blocks_ok ty head" and "ident_ok ty ident"
    and "found = find_pos (\<lambda>bd. block_identifier bd = ident) head"
  shows "result_ok ty (first_block (\<lambda>_. True) head ident ty found buffer num mo)"
proof (cases found)
  case None
  let ?bd = "\<lparr>blockType = ty, block_identifier = ident, blockBuffer = Buffer buffer,
     blockBufferSize = Some (length buffer), blockNum = Some num\<rparr>"
  have "entry_ok ty ?bd" using assms(2) by (simp add: entry_ok_def ident_ok_def)
  then have "blocks_ok ty (?bd # head)" using assms(1) by (simp add: blocks_ok_def)
  then have "result_ok ty (Some (block_finish (?bd # head) 0 mo))" by (rule finish_ok) simp
  then show ?thesis by (simp add: first_block_def None insert_eq)
next
  case (Some i)
  then have i: "i < length head" "block_identifier (head ! i) = ident" 
    using find_pos_Some [of _ head i] assms(3) by auto
  have ok: "entry_ok ty (head ! i)" using assms(1) i(1) by (rule blocks_ok_nth)
  then obtain b where b: "blockBuffer (head ! i) = Buffer b" by (auto simp: entry_ok_def)
  let ?h = "head[i := (head ! i)\<lparr>blockBuffer := Buffer buffer, blockBufferSize := Some (length buffer), blockNum := Some num\<rparr>]"
  have "blocks_ok ty ?h" using ok by (intro blocks_ok_update assms(1)) (simp add: entry_ok_def)
  then have "result_ok ty (Some (block_finish ?h i mo))" using i(1) by (intro finish_ok) simp_all
  then show ?thesis using i(1) by (simp add: first_block_def Some free_buffer_def b Let_def)
qed

lemma next_block_ok:
  assumes "blocks_ok ty head" and "i < length head"
  shows "result_ok ty (next_block (\<lambda>_. True) head i buffer sz num mo)"
proof -
  have ok: "entry_ok ty (head ! i)" using assms by (rule blocks_ok_nth)
  then obtain b n where b: "blockBuffer (head ! i) = Buffer b" "blockBufferSize (head ! i) = Some (length b)"
    "blockNum (head ! i) = Some n"
    by (auto simp: entry_ok_def)
  let ?h = "head[i := (head ! i)\<lparr>blockBuffer := Buffer (b @ buffer), blockBufferSize := Some (length b + length buffer),
     blockNum := Some num\<rparr>]"
  have "blocks_ok ty ?h" using ok by (intro blocks_ok_update assms(1)) (simp add: entry_ok_def)
  then have "result_ok ty (Some (block_finish ?h i mo))" using assms(2) by (intro finish_ok) simp_all
  moreover have "result_ok ty (Some (block_finish head i mo))" using assms by (rule finish_ok)
  moreover have "result_ok ty (Some (st, head, None))" if "st \<noteq> COAP_NO_ERROR" for st
    using that assms(1) by (simp add: result_ok_def)
  ultimately show ?thesis by (auto simp: next_block_def b Let_def coap_codes)
qed

text \<open>C19: On a list of initialized transfers of one kind, and with memory available, a block handler
  is free of undefined behaviour for every block number, size and content, and leaves a list of
  initialized transfers; a complete transfer hands out its buffer with its exact length.\<close>

theorem block_handler_safe:
  assumes "blocks_ok ty head" and "ident_ok ty ident"
  shows "result_ok ty (prv_coap_block_handler (\<lambda>_. True) addr32 head ident ty buffer blockSize num blockMore)"
proof -
  note find = find_block_data_eq [OF assms(2,1)]
  have "result_ok ty (Some (COAP_408_REQ_ENTITY_INCOMPLETE, head, None))"
    using assms(1) by (simp add: result_ok_def coap_codes)
  moreover have "i < length head" if "find_pos (\<lambda>bd. block_identifier bd = ident) head = Some i" for i
    using find_pos_Some [OF that] by blast
  ultimately show ?thesis
    using first_block_ok [OF assms refl] next_block_ok [OF assms(1)]
    by (simp add: prv_coap_block_handler_def find split: option.split)
qed

definition example_entry :: lwm2m_block_data_t where
  "example_entry = \<lparr>blockType = BLOCK_1, block_identifier = Block_uri (Some (str ''//5/0/0'')), blockBuffer = Buffer [1, 2],
     blockBufferSize = Some 2, blockNum = Some 0\<rparr>"

theorem block_handler_safe_witness:
  "result_ok BLOCK_1 (prv_coap_block_handler (\<lambda>_. True) (\<lambda>_. 7) [example_entry] (Block_uri (Some (str ''//5/0/0'')))
     BLOCK_1 [3] 16 1 False)"
  by (rule block_handler_safe) (simp_all add: blocks_ok_def entry_ok_def example_entry_def ident_ok_def)

section \<open>Reassembly\<close>

text \<open>A transfer under way: the bytes received so far and the number of the last block.\<close>

definition in_progress ::
  "block_type_t \<Rightarrow> block_data_identifier_t \<Rightarrow> bytes \<Rightarrow> u32 \<Rightarrow> lwm2m_block_data_t list \<Rightarrow> bool" where
  "in_progress ty ident acc n head \<longleftrightarrow> blocks_ok ty head \<and>
     (\<exists>i. find_pos (\<lambda>bd. block_identifier bd = ident) head = Some i \<and>
          blockBuffer (head ! i) = Buffer acc \<and> blockNum (head ! i) = Some n)"

definition block_reply :: "bool \<Rightarrow> bytes \<Rightarrow> u8 \<times> (c_buffer \<times> nat option) option" where
  "block_reply mo acc = (if mo then (COAP_231_CONTINUE, None) else (COAP_NO_ERROR, Some (Buffer acc, Some (length acc))))"

lemma first_block_step:
  assumes "blocks_ok ty head" and "ident_ok ty ident"
  shows "\<exists>head'. prv_coap_block_handler (\<lambda>_. True) addr32 head ident ty b sz 0 mo
      = Some (fst (block_reply mo b), head', snd (block_reply mo b)) \<and> in_progress ty ident b 0 head'"
proof -
  let ?r = "find_pos (\<lambda>bd. block_identifier bd = ident) head"
  have "result_ok ty (first_block (\<lambda>_. True) head ident ty ?r b 0 mo)" by (rule first_block_ok [OF assms refl])
  moreover have "\<exists>head' i. first_block (\<lambda>_. True) head ident ty ?r b 0 mo
      = Some (fst (block_reply mo b), head', snd (block_reply mo b)) \<and>
      find_pos (\<lambda>bd. block_identifier bd = ident) head' = Some i \<and>
      blockBuffer (head' ! i) = Buffer b \<and> blockNum (head' ! i) = Some 0"
  proof (cases ?r)
    case None
    then show ?thesis by (auto simp: first_block_def insert_eq block_finish_def block_reply_def)
  next
    case (Some i)
    then have i: "i < length head" "block_identifier (head ! i) = ident" using find_pos_Some [of _ head i] by auto
    then obtain c where "blockBuffer (head ! i) = Buffer c"
      using blocks_ok_nth [OF assms(1)] by (auto simp: entry_ok_def)
    then show ?thesis
      using Some i by (simp add: first_block_def free_buffer_def Let_def block_finish_def block_reply_def find_pos_update)
  qed
  ultimately show ?thesis
    by (auto simp: prv_coap_block_handler_def find_block_data_eq [OF assms(2,1)] in_progress_def result_ok_def)
qed

lemma next_block_step:
  assumes "in_progress ty ident acc n head" and "ident_ok ty ident" and "num = n + 1" and "n < num"
    and "length acc = unat sz * unat num" and "length acc + length b \<le> 2048"
  shows "\<exists>head'. prv_coap_block_handler (\<lambda>_. True) addr32 head ident ty b sz num mo
      = Some (fst (block_reply mo (acc @ b)), head', snd (block_reply mo (acc @ b))) \<and> in_progress ty ident (acc @ b) num head'"
proof -
  obtain i where ok: "blocks_ok ty head" and i: "find_pos (\<lambda>bd. block_identifier bd = ident) head = Some i"
    and b: "blockBuffer (head ! i) = Buffer acc" "blockNum (head ! i) = Some n"
    using assms(1) by (auto simp: in_progress_def)
  have il: "i < length head" "block_identifier (head ! i) = ident" using find_pos_Some [OF i] by auto
  have sz: "blockBufferSize (head ! i) = Some (length acc)"
    using blocks_ok_nth [OF ok il(1)] b by (auto simp: entry_ok_def)
  let ?h = "head[i := (head ! i)\<lparr>blockBuffer := Buffer (acc @ b), blockBufferSize := Some (length acc + length b),
     blockNum := Some num\<rparr>]"
  have "num \<noteq> 0" "\<not> num \<le> n" using assms(4) by auto
  then have "prv_coap_block_handler (\<lambda>_. True) addr32 head ident ty b sz num mo = Some (block_finish ?h i mo)"
    using assms(3,5,6) i b sz
    by (auto simp: prv_coap_block_handler_def find_block_data_eq [OF assms(2) ok] next_block_def Let_def
        LWM2M_COAP_MAX_MESSAGE_SIZE_def)
  moreover have "blocks_ok ty ?h"
    using blocks_ok_nth [OF ok il(1)] by (intro blocks_ok_update ok) (simp add: entry_ok_def)
  moreover have "find_pos (\<lambda>bd. block_identifier bd = ident) ?h = Some i" using i il by (simp add: find_pos_update)
  ultimately show ?thesis
    using il by (intro exI [of _ ?h]) (simp add: block_finish_def block_reply_def in_progress_def)
qed

text \<open>A repeated block is answered as a retransmission and changes nothing.\<close>

lemma repeated_block_step:
  assumes "in_progress ty ident acc n head" and "ident_ok ty ident" and "0 < num" and "num \<le> n"
  shows "prv_coap_block_handler mem addr32 head ident ty b sz num mo = Some (COAP_RETRANSMISSION, head, None)"
  using assms find_block_data_eq [OF assms(2), of head addr32]
  by (auto simp: in_progress_def prv_coap_block_handler_def next_block_def)

text \<open>Sending the blocks of a payload in order, the last without the More flag: the statuses and
  the last output.\<close>

fun feed_blocks :: "block_type_t \<Rightarrow> block_data_identifier_t \<Rightarrow> lwm2m_block_data_t list \<Rightarrow> u16 \<Rightarrow> nat \<Rightarrow> bytes list \<Rightarrow>
    (u8 list \<times> (c_buffer \<times> nat option) option) c" where
  "feed_blocks ty ident head sz k [] = Some ([], None)"
| "feed_blocks ty ident head sz k (b # bs) =
     do { (st, head', out) \<leftarrow> prv_coap_block_handler (\<lambda>_. True) (\<lambda>_. 0) head ident ty b sz (of_nat k) (bs \<noteq> []);
          (sts, out') \<leftarrow> feed_blocks ty ident head' sz (Suc k) bs;
          Some (st # sts, if bs = [] then out else out') }"

definition blocks_of :: "u16 \<Rightarrow> bytes list \<Rightarrow> bool" where
  "blocks_of sz bs \<longleftrightarrow> sz \<noteq> 0 \<and> bs \<noteq> [] \<and> list_all (\<lambda>b. length b = unat sz) (butlast bs) \<and>
     length (concat bs) \<le> LWM2M_COAP_MAX_MESSAGE_SIZE"

lemma replicate_length: "xs \<noteq> [] \<Longrightarrow> replicate (length xs) x = x # replicate (length xs - 1) x"
  by (cases xs) simp_all

lemma feed_rest:
  assumes "ident_ok ty ident" and "sz \<noteq> 0"
  shows "in_progress ty ident acc (of_nat k) head \<Longrightarrow> length acc = unat sz * Suc k \<Longrightarrow>
     bs \<noteq> [] \<Longrightarrow> list_all (\<lambda>b. length b = unat sz) (butlast bs) \<Longrightarrow> length acc + length (concat bs) \<le> 2048 \<Longrightarrow>
     feed_blocks ty ident head sz (Suc k) bs =
       Some (replicate (length bs - 1) COAP_231_CONTINUE @ [COAP_NO_ERROR],
             Some (Buffer (acc @ concat bs), Some (length acc + length (concat bs))))"
proof (induction bs arbitrary: acc k head)
  case (Cons b bs)
  have pos: "1 \<le> unat sz" using assms(2) by (metis One_nat_def Suc_leI unat_gt_0)
  then have "Suc k \<le> unat sz * Suc k" by (metis mult.commute mult_le_mono2 nat_mult_1_right)
  then have "Suc k \<le> 2048" using Cons.prems(2,5) by simp
  then have n: "unat (of_nat (Suc k) :: u32) = Suc k" "unat (of_nat k :: u32) = k"
    by (intro unat_of_nat_small; simp)+
  have lt: "(of_nat k :: u32) < of_nat (Suc k)" using n by (simp only: word_less_nat_alt)
  obtain head' where h': "prv_coap_block_handler (\<lambda>_. True) (\<lambda>_. 0) head ident ty b sz (of_nat (Suc k)) (bs \<noteq> [])
      = Some (fst (block_reply (bs \<noteq> []) (acc @ b)), head', snd (block_reply (bs \<noteq> []) (acc @ b)))"
    and p: "in_progress ty ident (acc @ b) (of_nat (Suc k)) head'"
    using next_block_step [OF Cons.prems(1) assms(1), of "of_nat (Suc k)" sz b "\<lambda>_. 0" "bs \<noteq> []"]
      lt n Cons.prems(2,5) by (auto simp: ac_simps)
  show ?case
  proof (cases "bs = []")
    case True
    then show ?thesis using h' by (simp add: block_reply_def del: of_nat_Suc)
  next
    case False
    then have "feed_blocks ty ident head' sz (Suc (Suc k)) bs =
        Some (replicate (length bs - 1) COAP_231_CONTINUE @ [COAP_NO_ERROR],
             Some (Buffer ((acc @ b) @ concat bs), Some (length (acc @ b) + length (concat bs))))"
      using Cons.prems by (intro Cons.IH p) auto
    then show ?thesis
      using h' False replicate_length [OF False, of COAP_231_CONTINUE] by (simp add: block_reply_def del: of_nat_Suc)
  qed
qed simp

lemma feed_blocks_payload:
  assumes "blocks_ok ty head" and "ident_ok ty ident" and "blocks_of sz bs"
  shows "feed_blocks ty ident head sz 0 bs =
    Some (replicate (length bs - 1) COAP_231_CONTINUE @ [COAP_NO_ERROR],
          Some (Buffer (concat bs), Some (length (concat bs))))"
proof -
  obtain b r where bs: "bs = b # r" using assms(3) by (cases bs) (auto simp: blocks_of_def)
  obtain head' where h': "prv_coap_block_handler (\<lambda>_. True) (\<lambda>_. 0) head ident ty b sz 0 (r \<noteq> [])
      = Some (fst (block_reply (r \<noteq> []) b), head', snd (block_reply (r \<noteq> []) b))"
    and p: "in_progress ty ident b (of_nat 0) head'"
    using first_block_step [OF assms(1,2)] by fastforce
  show ?thesis
  proof (cases "r = []")
    case True
    then show ?thesis using h' bs by (simp add: block_reply_def)
  next
    case False
    have "sz \<noteq> 0" using assms(3) by (simp add: blocks_of_def)
    then have "feed_blocks ty ident head' sz (Suc 0) r =
        Some (replicate (length r - 1) COAP_231_CONTINUE @ [COAP_NO_ERROR],
             Some (Buffer (b @ concat r), Some (length b + length (concat r))))"
      using assms(3) bs False
      by (intro feed_rest [OF assms(2) _ p]) (auto simp: blocks_of_def LWM2M_COAP_MAX_MESSAGE_SIZE_def)
    then show ?thesis 
      using h' bs False replicate_length [OF False, of COAP_231_CONTINUE] by (simp add: block_reply_def)
  qed
qed

text \<open>C8: Sending the blocks of a payload of at most 2048 bytes in order, from any list of
  initialized transfers, is answered with 2.31 Continue for every block but the last, and the
  last one hands out exactly the payload.\<close>

theorem block_reassembly:
  assumes "blocks_ok ty head" and "ident_ok ty ident" and "blocks_of sz bs"
  shows "feed_blocks ty ident head sz 0 bs =
    Some (replicate (length bs - 1) COAP_231_CONTINUE @ [COAP_NO_ERROR],
          Some (Buffer (concat bs), Some (length (concat bs))))"
  using assms by (rule feed_blocks_payload)

theorem block_reassembly_witness:
  "feed_blocks BLOCK_2 (Block_mid 9) [] 16 0 [replicate 16 1, replicate 16 2, [3]] =
    Some ([COAP_231_CONTINUE, COAP_231_CONTINUE, COAP_NO_ERROR],
          Some (Buffer (replicate 16 1 @ replicate 16 2 @ [3]), Some 33))"
  using block_reassembly [of BLOCK_2 "[]" "Block_mid 9" 16 "[replicate 16 1, replicate 16 2, [3]]"]
  by (simp add: blocks_ok_def ident_ok_def blocks_of_def LWM2M_COAP_MAX_MESSAGE_SIZE_def)

section \<open>Retransmissions and errors\<close>

text \<open>A block that was received before is answered as a retransmission and leaves every
  transfer as it is, whatever it carries and whether or not memory is available.\<close>

theorem block_retransmission:
  assumes "in_progress ty ident acc n head" and "ident_ok ty ident" and "0 < num" and "num \<le> n"
  shows "prv_coap_block_handler mem addr32 head ident ty b sz num mo = Some (COAP_RETRANSMISSION, head, None)"
  using assms by (rule repeated_block_step)

theorem block_retransmission_witness:
  "prv_coap_block_handler (\<lambda>_. False) (\<lambda>_. 7) [example_entry\<lparr>blockNum := Some 3\<rparr>] (Block_uri (Some (str ''//5/0/0'')))
     BLOCK_1 [9] 16 2 False = Some (COAP_RETRANSMISSION, [example_entry\<lparr>blockNum := Some 3\<rparr>], None)"
  by (rule block_retransmission [where acc = "[1, 2]" and n = 3])
     (simp_all add: in_progress_def blocks_ok_def entry_ok_def example_entry_def ident_ok_def)

text \<open>A block whose number skips ahead is not refused: after the first block, block 5 without
  the More flag completes the transfer with the first block alone.\<close>

theorem block_gap_accepted:
  "prv_coap_block_handler (\<lambda>_. True) (\<lambda>_. 0) [example_entry] (Block_uri (Some (str ''//5/0/0''))) BLOCK_1 [9] 16 5 False
     = Some (COAP_NO_ERROR, [example_entry], Some (Buffer [1, 2], Some 2))"
  by (simp add: prv_coap_block_handler_def prv_get_matcher_def prv_matchBlock1_def next_block_def block_finish_def
      example_entry_def)

text \<open>The transfers of a peer share one list: a Block1 request that comes while a Block2 transfer
  is under way reads the identifier of that entry as a string pointer.  A failed allocation leaves
  an entry with an uninitialized buffer that the next first block frees, or dereferences the null
  pointer of the entry.\<close>

theorem block_list_hazards:
  "coap_block1_handler (\<lambda>_. True) addr32 [\<lparr>blockType = BLOCK_2, block_identifier = Block_mid 9, blockBuffer = Buffer [1],
       blockBufferSize = Some 1, blockNum = Some 0\<rparr>] uri b sz num mo = None \<and>
   (\<exists>h. coap_block2_handler (\<lambda>n. n = sizeof_block_data) addr32 [] 9 [1] 16 0 True = Some (COAP_500_INTERNAL_SERVER_ERROR, h, None) \<and>
        coap_block2_handler (\<lambda>_. True) addr32 h 9 [1] 16 0 True = None) \<and>
   coap_block2_handler (\<lambda>n. n \<noteq> sizeof_block_data) addr32 [] 9 [1] 16 0 True = None"
  by (simp add: coap_block1_handler_def coap_block2_handler_def prv_coap_block_handler_def prv_get_matcher_def
      prv_matchBlock1_def prv_matchBlock2_def first_block_def prv_block_insert_def free_buffer_def sizeof_block_data_def)

end
