(* ===== verification/Lwm2m_List.thy ===== *)
theory Lwm2m_List
  imports Wakaama_Base "HOL-Library.Multiset"
begin

text \<open>
  The sorted linked lists of \<^verbatim>\<open>core/list.c\<close>, in two levels.  The pointer level runs the C
  code on an explicit store of list nodes; the list level (\<open>LWM2M_LIST_ADD\<close> and its kin,
  named after the macros of \<^verbatim>\<open>include/liblwm2m.h\<close> through which the other components use
  the lists) works on HOL lists of nodes.  The refinement lemmas relate them, the locale
  \<open>id_list\<close> states what the clients rely on.
\<close>

section \<open>The pointer level\<close>

type_synonym addr = nat
type_synonym ptr = "addr option"  \<comment> \<open>\<open>None\<close> is \<open>NULL\<close>\<close>

record lwm2m_list_t =
  lnext :: ptr
  lid :: u16

type_synonym list_heap = "addr \<rightharpoonup> lwm2m_list_t"

text \<open>The loop of \<open>lwm2m_list_add\<close> and \<open>lwm2m_list_remove\<close> that stops before the first
  node whose identifier is not smaller.\<close>

partial_function (option) list_walk :: "list_heap \<Rightarrow> addr \<Rightarrow> u16 \<Rightarrow> addr option" where
  "list_walk h target i =
     do { t \<leftarrow> h target;
          (case lnext t of
             None \<Rightarrow> Some target
           | Some n \<Rightarrow> do { nn \<leftarrow> h n; if lid nn < i then list_walk h n i else Some target }) }"

definition lwm2m_list_add :: "list_heap \<Rightarrow> ptr \<Rightarrow> addr \<Rightarrow> (list_heap \<times> ptr) c" where
  "lwm2m_list_add h head node =
     (case head of
        None \<Rightarrow> Some (h, Some node)
      | Some a \<Rightarrow>
          do { hn \<leftarrow> h a;
               nn \<leftarrow> h node;
               if lid nn < lid hn then Some (h(node \<mapsto> nn\<lparr>lnext := head\<rparr>), Some node)
               else do { target \<leftarrow> list_walk h a (lid nn);
                         t \<leftarrow> h target;
                         let h1 = h(node \<mapsto> nn\<lparr>lnext := lnext t\<rparr>);
                         t1 \<leftarrow> h1 target;
                         Some (h1(target \<mapsto> t1\<lparr>lnext := Some node\<rparr>), head) } })"

partial_function (option) list_find_walk :: "list_heap \<Rightarrow> ptr \<Rightarrow> u16 \<Rightarrow> ptr option" where
  "list_find_walk h p i =
     (case p of
        None \<Rightarrow> Some None
      | Some a \<Rightarrow> do { n \<leftarrow> h a; if lid n < i then list_find_walk h (lnext n) i else Some p })"

definition lwm2m_list_find :: "list_heap \<Rightarrow> ptr \<Rightarrow> u16 \<Rightarrow> ptr c" where
  "lwm2m_list_find h head i =
     do { p \<leftarrow> list_find_walk h head i;
          (case p of
             None \<Rightarrow> Some None
           | Some a \<Rightarrow> do { n \<leftarrow> h a; Some (if lid n = i then p else None) }) }"

partial_function (option) list_count_walk :: "list_heap \<Rightarrow> ptr \<Rightarrow> nat \<Rightarrow> nat option" where
  "list_count_walk h p k =
     (case p of None \<Rightarrow> Some k
      | Some a \<Rightarrow> do { n \<leftarrow> h a; list_count_walk h (lnext n) (Suc k) })"

definition lwm2m_list_count :: "list_heap \<Rightarrow> ptr \<Rightarrow> nat c" where
  "lwm2m_list_count h head = list_count_walk h head 0"

text \<open>The result is the heap, the new head and the removed node (\<open>*nodeP\<close>).\<close>

definition lwm2m_list_remove :: "list_heap \<Rightarrow> ptr \<Rightarrow> u16 \<Rightarrow> (list_heap \<times> ptr \<times> ptr) c" where
  "lwm2m_list_remove h head i =
     (case head of
        None \<Rightarrow> Some (h, None, None)
      | Some a \<Rightarrow>
          do { hn \<leftarrow> h a;
               if lid hn = i then Some (h, lnext hn, head)
               else do { target \<leftarrow> list_walk h a i;
                         t \<leftarrow> h target;
                         (case lnext t of
                            None \<Rightarrow> Some (h, head, None)
                          | Some n \<Rightarrow>
                              do { nn \<leftarrow> h n;
                                   if lid nn = i
                                   then Some (h(target \<mapsto> t\<lparr>lnext := lnext nn\<rparr>), head, Some n)
                                   else Some (h, head, None) }) } })"

partial_function (option) list_newId_walk :: "list_heap \<Rightarrow> ptr \<Rightarrow> u16 \<Rightarrow> u16 option" where
  "list_newId_walk h p i =
     (case p of None \<Rightarrow> Some i
      | Some a \<Rightarrow> do { n \<leftarrow> h a;
                       if i = lid n then list_newId_walk h (lnext n) (lid n + 1) else Some i })"

definition lwm2m_list_newId :: "list_heap \<Rightarrow> ptr \<Rightarrow> u16 c" where
  "lwm2m_list_newId h head = list_newId_walk h head 0"

text \<open>Freeing removes the node from the store: a later access to it is undefined.\<close>

partial_function (option) lwm2m_list_free :: "list_heap \<Rightarrow> ptr \<Rightarrow> list_heap option" where
  "lwm2m_list_free h head =
     (case head of None \<Rightarrow> Some h
      | Some a \<Rightarrow> do { n \<leftarrow> h a; lwm2m_list_free (h(a := None)) (lnext n) })"

section \<open>The list level\<close>

fun list_add_after :: "('n \<Rightarrow> u16) \<Rightarrow> 'n list \<Rightarrow> 'n \<Rightarrow> 'n list" where
  "list_add_after idf [] n = [n]"
| "list_add_after idf (x # xs) n =
     (if idf x < idf n then x # list_add_after idf xs n else n # x # xs)"

fun LWM2M_LIST_ADD :: "('n \<Rightarrow> u16) \<Rightarrow> 'n list \<Rightarrow> 'n \<Rightarrow> 'n list" where
  "LWM2M_LIST_ADD idf [] n = [n]"
| "LWM2M_LIST_ADD idf (x # xs) n =
     (if idf n < idf x then n # x # xs else x # list_add_after idf xs n)"

fun LWM2M_LIST_FIND :: "('n \<Rightarrow> u16) \<Rightarrow> 'n list \<Rightarrow> u16 \<Rightarrow> 'n option" where
  "LWM2M_LIST_FIND idf [] i = None"
| "LWM2M_LIST_FIND idf (x # xs) i =
     (if idf x < i then LWM2M_LIST_FIND idf xs i else if idf x = i then Some x else None)"

fun list_rm_after :: "('n \<Rightarrow> u16) \<Rightarrow> 'n list \<Rightarrow> u16 \<Rightarrow> 'n list \<times> 'n option" where
  "list_rm_after idf [] i = ([], None)"
| "list_rm_after idf (x # xs) i =
     (if idf x < i then (let (ys, r) = list_rm_after idf xs i in (x # ys, r))
      else if idf x = i then (xs, Some x) else (x # xs, None))"

fun LWM2M_LIST_RM :: "('n \<Rightarrow> u16) \<Rightarrow> 'n list \<Rightarrow> u16 \<Rightarrow> 'n list \<times> 'n option" where
  "LWM2M_LIST_RM idf [] i = ([], None)"
| "LWM2M_LIST_RM idf (x # xs) i =
     (if idf x = i then (xs, Some x)
      else (let (ys, r) = list_rm_after idf xs i in (x # ys, r)))"

fun list_newId_from :: "('n \<Rightarrow> u16) \<Rightarrow> 'n list \<Rightarrow> u16 \<Rightarrow> u16" where
  "list_newId_from idf [] i = i"
| "list_newId_from idf (x # xs) i = (if i = idf x then list_newId_from idf xs (idf x + 1) else i)"

definition LWM2M_LIST_NEW_ID :: "('n \<Rightarrow> u16) \<Rightarrow> 'n list \<Rightarrow> u16" where
  "LWM2M_LIST_NEW_ID idf xs = list_newId_from idf xs 0"

definition LWM2M_LIST_COUNT :: "'n list \<Rightarrow> nat" where
  "LWM2M_LIST_COUNT xs = length xs"

section \<open>The list level: order, look-up, removal\<close>

text \<open>The invariant of every list the program keeps: identifiers strictly ascending.\<close>

definition sorted_ids :: "('n \<Rightarrow> u16) \<Rightarrow> 'n list \<Rightarrow> bool" where
  "sorted_ids idf xs \<longleftrightarrow> sorted_wrt (<) (map idf xs)"

lemma sorted_ids_Nil [simp]: "sorted_ids idf []"
  by (simp add: sorted_ids_def)

lemma sorted_ids_Cons [simp]:
  "sorted_ids idf (x # xs) \<longleftrightarrow> (\<forall>y\<in>set xs. idf x < idf y) \<and> sorted_ids idf xs"
  by (simp add: sorted_ids_def)

lemma set_list_add_after [simp]: "set (list_add_after idf xs n) = insert n (set xs)"
  by (induction xs) auto

lemma set_LWM2M_LIST_ADD [simp]: "set (LWM2M_LIST_ADD idf xs n) = insert n (set xs)"
  by (cases xs) auto

lemma mset_list_add_after: "mset (list_add_after idf xs n) = add_mset n (mset xs)"
  by (induction xs) auto

lemma mset_LWM2M_LIST_ADD: "mset (LWM2M_LIST_ADD idf xs n) = add_mset n (mset xs)"
  by (cases xs) (auto simp: mset_list_add_after)

lemma sorted_list_add_after:
  "sorted_ids idf xs \<Longrightarrow> idf n \<notin> idf ` set xs \<Longrightarrow> sorted_ids idf (list_add_after idf xs n)"
  by (induction xs) (auto simp: not_less order_le_less)

lemma sorted_LWM2M_LIST_ADD:
  "sorted_ids idf xs \<Longrightarrow> idf n \<notin> idf ` set xs \<Longrightarrow> sorted_ids idf (LWM2M_LIST_ADD idf xs n)"
  by (cases xs) (auto simp: not_less order_le_less sorted_list_add_after)

text \<open>On a sorted list the early exit of the search loop loses nothing.\<close>

lemma find_beyond:
  fixes idf :: "'n \<Rightarrow> u16"
  shows "\<forall>y\<in>set xs. idf a < idf y \<Longrightarrow> i \<le> idf a \<Longrightarrow> find (\<lambda>n. idf n = i) xs = None"
  by (auto simp: find_None_iff dest: leD)

lemma filter_beyond:
  fixes idf :: "'n \<Rightarrow> u16"
  shows "\<forall>y\<in>set xs. idf a < idf y \<Longrightarrow> i \<le> idf a \<Longrightarrow> filter (\<lambda>n. idf n \<noteq> i) xs = xs"
  by (auto simp: filter_id_conv dest: leD)

lemma LWM2M_LIST_FIND_eq:
  "sorted_ids idf xs \<Longrightarrow> LWM2M_LIST_FIND idf xs i = find (\<lambda>n. idf n = i) xs"
  by (induction xs) (auto simp: find_beyond not_less)

lemma LWM2M_LIST_FIND_Some:
  "LWM2M_LIST_FIND idf xs i = Some n \<Longrightarrow> n \<in> set xs \<and> idf n = i"
  by (induction xs) (auto split: if_splits)

lemma LWM2M_LIST_FIND_member:
  "sorted_ids idf xs \<Longrightarrow> n \<in> set xs \<Longrightarrow> LWM2M_LIST_FIND idf xs (idf n) = Some n"
  by (induction xs) auto

lemma LWM2M_LIST_FIND_None:
  "sorted_ids idf xs \<Longrightarrow> LWM2M_LIST_FIND idf xs i = None \<longleftrightarrow> i \<notin> idf ` set xs"
  by (auto simp: LWM2M_LIST_FIND_eq find_None_iff)

lemma LWM2M_LIST_FIND_add:
  assumes "sorted_ids idf xs" and "idf n \<notin> idf ` set xs"
  shows "LWM2M_LIST_FIND idf (LWM2M_LIST_ADD idf xs n) i =
    (if i = idf n then Some n else LWM2M_LIST_FIND idf xs i)"
proof (cases "i = idf n")
  case True
  then show ?thesis
    using LWM2M_LIST_FIND_member [OF sorted_LWM2M_LIST_ADD [OF assms]] by simp
next
  case False
  have s: "sorted_ids idf (LWM2M_LIST_ADD idf xs n)"
    using assms by (rule sorted_LWM2M_LIST_ADD)
  show ?thesis
  proof (cases "LWM2M_LIST_FIND idf xs i")
    case None
    then have "i \<notin> idf ` set (LWM2M_LIST_ADD idf xs n)"
      using False assms(1) by (simp add: LWM2M_LIST_FIND_None)
    then have "LWM2M_LIST_FIND idf (LWM2M_LIST_ADD idf xs n) i = None"
      using s by (rule LWM2M_LIST_FIND_None [THEN iffD2, rotated])
    then show ?thesis using None False by simp
  next
    case (Some m)
    then have "m \<in> set xs" "idf m = i" by (auto dest: LWM2M_LIST_FIND_Some)
    then show ?thesis
      using Some False LWM2M_LIST_FIND_member [OF s, of m] by auto
  qed
qed

lemma list_rm_after_eq:
  "sorted_ids idf xs \<Longrightarrow>
   list_rm_after idf xs i = (filter (\<lambda>n. idf n \<noteq> i) xs, find (\<lambda>n. idf n = i) xs)"
  by (induction xs) (auto simp: find_beyond filter_beyond not_less)

lemma LWM2M_LIST_RM_eq:
  "sorted_ids idf xs \<Longrightarrow>
   LWM2M_LIST_RM idf xs i = (filter (\<lambda>n. idf n \<noteq> i) xs, find (\<lambda>n. idf n = i) xs)"
  by (cases xs) (auto simp: list_rm_after_eq filter_beyond)

lemma sorted_ids_filter: "sorted_ids idf xs \<Longrightarrow> sorted_ids idf (filter P xs)"
  by (induction xs) auto

lemma find_filter_neq:
  "find (\<lambda>n. idf n = j) (filter (\<lambda>n. idf n \<noteq> i) xs) =
     (if j = i then None else find (\<lambda>n. idf n = j) xs)"
  by (induction xs) auto

lemma LWM2M_LIST_FIND_rm:
  "sorted_ids idf xs \<Longrightarrow>
   LWM2M_LIST_FIND idf (fst (LWM2M_LIST_RM idf xs i)) j =
     (if j = i then None else LWM2M_LIST_FIND idf xs j)"
  by (simp add: LWM2M_LIST_RM_eq LWM2M_LIST_FIND_eq sorted_ids_filter find_filter_neq)

lemma LWM2M_LIST_RM_found:
  "sorted_ids idf xs \<Longrightarrow> snd (LWM2M_LIST_RM idf xs i) = LWM2M_LIST_FIND idf xs i"
  by (simp add: LWM2M_LIST_RM_eq LWM2M_LIST_FIND_eq)

text \<open>A new identifier: the walk returns the least identifier not in the list, unless all
  65536 are taken.\<close>

lemma newId_from_least:
  assumes "sorted_ids idf xs" and "\<forall>y\<in>set xs. k \<le> idf y"
    and "unat k + length xs < 2 ^ 16"
  shows "list_newId_from idf xs k \<notin> idf ` set xs \<and> k \<le> list_newId_from idf xs k \<and>
    (\<forall>j. k \<le> j \<and> j < list_newId_from idf xs k \<longrightarrow> j \<in> idf ` set xs)"
  using assms
proof (induction xs arbitrary: k)
  case Nil
  then show ?case by auto
next
  case (Cons x xs)
  show ?case
  proof (cases "k = idf x")
    case False
    with Cons.prems(2) have "k < idf x" by (auto simp: order_le_less)
    with Cons.prems(1) False show ?thesis by (auto dest: less_trans)
  next
    case True
    have suc: "unat (k + 1) = unat k + 1"
      using Cons.prems(3) by (simp add: unat_word_ariths)
    have above: "\<forall>y\<in>set xs. k + 1 \<le> idf y"
      using Cons.prems(1) True suc by (auto simp: word_le_nat_alt word_less_nat_alt)
    have "list_newId_from idf xs (k + 1) \<notin> idf ` set xs \<and> k + 1 \<le> list_newId_from idf xs (k + 1) \<and>
      (\<forall>j. k + 1 \<le> j \<and> j < list_newId_from idf xs (k + 1) \<longrightarrow> j \<in> idf ` set xs)"
      using Cons.prems(1,3) above suc by (intro Cons.IH) auto
    moreover have "k + 1 \<le> j \<longleftrightarrow> k < j" for j :: u16
      using suc by (auto simp: word_le_nat_alt word_less_nat_alt)
    ultimately show ?thesis
      using True by (auto simp: order_le_less)
  qed
qed

lemma sorted_ids_length: "sorted_ids idf xs \<Longrightarrow> length xs \<le> 2 ^ 16"
proof -
  assume "sorted_ids idf xs"
  then have "distinct (map idf xs)"
    by (simp add: sorted_ids_def strict_sorted_iff)
  then have "length xs = card (set (map idf xs))"
    by (metis distinct_card length_map)
  also have "\<dots> \<le> card (UNIV :: u16 set)"
    by (rule card_mono) auto
  finally show ?thesis by (simp add: card_word)
qed

section \<open>The contract of the lists\<close>

text \<open>
  What the other components rely on: the operations keep the invariant and act on the
  look-up function as updates of a finite map from 16-bit identifiers to nodes.
\<close>

locale id_list =
  fixes idf :: "'n \<Rightarrow> u16"
    and add :: "'l \<Rightarrow> 'n \<Rightarrow> 'l"
    and lookup :: "'l \<Rightarrow> u16 \<Rightarrow> 'n option"
    and rm :: "'l \<Rightarrow> u16 \<Rightarrow> 'l \<times> 'n option"
    and new_id :: "'l \<Rightarrow> u16"
    and count :: "'l \<Rightarrow> nat"
    and invar :: "'l \<Rightarrow> bool"
  assumes invar_add: "invar l \<Longrightarrow> lookup l (idf n) = None \<Longrightarrow> invar (add l n)"
    and invar_rm: "invar l \<Longrightarrow> invar (fst (rm l i))"
    and lookup_add: "invar l \<Longrightarrow> lookup l (idf n) = None \<Longrightarrow>
      lookup (add l n) = (lookup l)(idf n \<mapsto> n)"
    and lookup_rm: "invar l \<Longrightarrow> lookup (fst (rm l i)) = (lookup l)(i := None)"
    and rm_node: "invar l \<Longrightarrow> snd (rm l i) = lookup l i"
    and lookup_id: "lookup l i = Some n \<Longrightarrow> idf n = i"
    and new_id_free: "invar l \<Longrightarrow> count l < 2 ^ 16 \<Longrightarrow> lookup l (new_id l) = None"
    and count_add: "count (add l n) = Suc (count l)"
begin

text \<open>Allocating an identifier and inserting under it never hides an existing node.\<close>

lemma add_new_id:
  assumes "invar l" and "count l < 2 ^ 16" and "idf n = new_id l"
  shows "invar (add l n)" and "lookup (add l n) (new_id l) = Some n"
    and "j \<noteq> new_id l \<Longrightarrow> lookup (add l n) j = lookup l j"
proof -
  have free: "lookup l (idf n) = None"
    using assms by (simp add: new_id_free)
  show "invar (add l n)"
    using assms(1) free by (rule invar_add)
  show "lookup (add l n) (new_id l) = Some n"
    and "j \<noteq> new_id l \<Longrightarrow> lookup (add l n) j = lookup l j"
    using lookup_add [OF assms(1) free] assms(3) by simp_all
qed

lemma rm_add:
  assumes "invar l" and "lookup l (idf n) = None"
  shows "lookup (fst (rm (add l n) (idf n))) = lookup l" and "snd (rm (add l n) (idf n)) = Some n"
  using assms by (auto simp: lookup_rm invar_add lookup_add rm_node)

end

interpretation idl: id_list idf "LWM2M_LIST_ADD idf" "LWM2M_LIST_FIND idf" "LWM2M_LIST_RM idf"
  "LWM2M_LIST_NEW_ID idf" LWM2M_LIST_COUNT "sorted_ids idf" for idf :: "'n \<Rightarrow> u16"
proof (unfold_locales, goal_cases)
  case (1 l n)
  then show ?case by (simp add: LWM2M_LIST_FIND_None sorted_LWM2M_LIST_ADD)
next
  case (2 l i)
  then show ?case by (simp add: LWM2M_LIST_RM_eq sorted_ids_filter)
next
  case (3 l n)
  then show ?case by (auto simp: fun_eq_iff LWM2M_LIST_FIND_add LWM2M_LIST_FIND_None)
next
  case (4 l i)
  then show ?case by (auto simp: fun_eq_iff LWM2M_LIST_FIND_rm)
next
  case (5 l i)
  then show ?case by (rule LWM2M_LIST_RM_found)
next
  case (6 l i n)
  then show ?case by (auto dest: LWM2M_LIST_FIND_Some)
next
  case (7 l)
  then show ?case
    using newId_from_least [of idf l 0]
    by (simp add: LWM2M_LIST_FIND_None LWM2M_LIST_NEW_ID_def LWM2M_LIST_COUNT_def)
next
  case (8 l n)
  then show ?case
    using mset_LWM2M_LIST_ADD [of idf l n] by (metis LWM2M_LIST_COUNT_def size_add_mset size_mset)
qed

section \<open>Refinement: the pointer level implements the list level\<close>

text \<open>\<open>seg h p as q\<close>: following \<open>next\<close> from \<open>p\<close> visits the nodes at \<open>as\<close> and ends in \<open>q\<close>;
  a list of the program is a segment that ends in \<open>NULL\<close>.\<close>

fun seg :: "list_heap \<Rightarrow> ptr \<Rightarrow> addr list \<Rightarrow> ptr \<Rightarrow> bool" where
  "seg h p [] q \<longleftrightarrow> p = q"
| "seg h p (a # as) q \<longleftrightarrow> p = Some a \<and> (case h a of None \<Rightarrow> False | Some n \<Rightarrow> seg h (lnext n) as q)"

abbreviation chain :: "list_heap \<Rightarrow> ptr \<Rightarrow> addr list \<Rightarrow> bool" where
  "chain h p as \<equiv> seg h p as None"

definition node_id :: "list_heap \<Rightarrow> addr \<Rightarrow> u16" where
  "node_id h a = (case h a of None \<Rightarrow> 0 | Some n \<Rightarrow> lid n)"

lemma seg_append: "seg h p (xs @ ys) q \<longleftrightarrow> (\<exists>r. seg h p xs r \<and> seg h r ys q)"
  by (induction xs arbitrary: p) (auto split: option.splits)

lemma seg_snoc:
  "seg h p (xs @ [t]) q \<longleftrightarrow> seg h p xs (Some t) \<and> (\<exists>n. h t = Some n \<and> lnext n = q)"
  by (auto simp: seg_append split: option.splits)

lemma seg_upd_other [simp]: "b \<notin> set as \<Longrightarrow> seg (h(b := v)) p as q = seg h p as q"
  by (induction as arbitrary: p) (auto split: option.splits)

lemma seg_mem: "seg h p as q \<Longrightarrow> a \<in> set as \<Longrightarrow> \<exists>n. h a = Some n"
  by (induction as arbitrary: p) (auto split: option.splits)

lemma chain_unique: "chain h p as \<Longrightarrow> chain h p bs \<Longrightarrow> as = bs"
proof (induction as arbitrary: p bs)
  case Nil
  then show ?case by (cases bs) auto
next
  case (Cons a as)
  then show ?case by (cases bs) (auto split: option.splits)
qed

lemma chain_distinct: "chain h p as \<Longrightarrow> distinct as"
proof (induction as arbitrary: p)
  case (Cons a as)
  then have c: "chain h (Some a) (a # as)" and d: "distinct as"
    by (auto split: option.splits)
  have "a \<notin> set as"
  proof
    assume "a \<in> set as"
    then obtain us vs where as: "as = us @ a # vs" by (auto simp: in_set_conv_decomp)
    have "chain h p ((a # us) @ (a # vs))" using Cons.prems as by simp
    then obtain r where "chain h r (a # vs)" by (auto simp only: seg_append)
    then have "chain h (Some a) (a # vs)" by simp
    from chain_unique [OF this c] as show False by simp
  qed
  with d show ?case by simp
qed simp

lemma list_walk_last:
  "chain h (Some a) (a # as) \<Longrightarrow>
   list_walk h a i = Some (last (a # takeWhile (\<lambda>x. node_id h x < i) as))"
proof (induction as arbitrary: a)
  case Nil
  then show ?case by (subst list_walk.simps) (auto split: option.splits)
next
  case (Cons b as)
  then show ?case by (subst list_walk.simps) (auto simp: node_id_def split: option.splits)
qed

lemma list_add_after_split:
  "list_add_after idf xs n =
     takeWhile (\<lambda>x. idf x < idf n) xs @ n # dropWhile (\<lambda>x. idf x < idf n) xs"
  by (induction xs) auto

text \<open>Splicing a node in behind the target of the walk.\<close>

lemma seg_splice_in:
  assumes "chain h p (xs @ [t] @ ys)" and "node \<notin> set (xs @ [t] @ ys)"
    and "h node = Some nn" and "h t = Some tn"
  shows "chain (h(node \<mapsto> nn\<lparr>lnext := lnext tn\<rparr>, t \<mapsto> tn\<lparr>lnext := Some node\<rparr>)) p
    (xs @ [t] @ node # ys)"
proof -
  have d: "distinct (xs @ [t] @ ys)" using assms(1) by (rule chain_distinct)
  from assms(1,4) have "seg h p xs (Some t)" and "chain h (lnext tn) ys"
    by (auto simp: seg_append)
  with assms d show ?thesis by (auto simp: seg_append)
qed

lemma seg_splice_out:
  assumes "chain h p (xs @ [t] @ b # ys)" and "h t = Some tn" and "h b = Some bn"
  shows "chain (h(t \<mapsto> tn\<lparr>lnext := lnext bn\<rparr>)) p (xs @ [t] @ ys)"
proof -
  have d: "distinct (xs @ [t] @ b # ys)" using assms(1) by (rule chain_distinct)
  from assms have "seg h p xs (Some t)" and "chain h (lnext bn) ys"
    by (auto simp: seg_append)
  with assms d show ?thesis by (auto simp: seg_append)
qed

text \<open>The heap after an insertion: only \<open>next\<close> fields change.\<close>

definition same_ids :: "list_heap \<Rightarrow> list_heap \<Rightarrow> bool" where
  "same_ids h h' \<longleftrightarrow> dom h' = dom h \<and> (\<forall>a. node_id h' a = node_id h a)"

lemma same_ids_upd_next: "h a = Some n \<Longrightarrow> same_ids h (h(a \<mapsto> n\<lparr>lnext := q\<rparr>))"
  by (auto simp: same_ids_def node_id_def)

lemma same_ids_trans: "same_ids h h1 \<Longrightarrow> same_ids h1 h2 \<Longrightarrow> same_ids h h2"
  by (simp add: same_ids_def)

lemma same_ids_refl [simp]: "same_ids h h"
  by (simp add: same_ids_def)

lemma list_add_refines:
  assumes c: "chain h head as" and fresh: "node \<notin> set as"
    and node: "h node = Some nn" "lnext nn = None"
  shows "\<exists>h' head'. lwm2m_list_add h head node = Some (h', head') \<and>
    chain h' head' (LWM2M_LIST_ADD (node_id h) as node) \<and> same_ids h h'"
proof (cases as)
  case Nil
  then show ?thesis using c node by (auto simp: lwm2m_list_add_def)
next
  case (Cons a bs)
  then obtain hn where head: "head = Some a" and a: "h a = Some hn"
    and bs: "chain h (lnext hn) bs" using c by (auto split: option.splits)
  have idn: "node_id h node = lid nn" and ida: "node_id h a = lid hn"
    using node a by (auto simp: node_id_def)
  show ?thesis
  proof (cases "lid nn < lid hn")
    case True
    then show ?thesis
      using c head a node fresh Cons idn ida
      by (auto simp: lwm2m_list_add_def same_ids_upd_next split: option.splits)
  next
    case False
    let ?tw = "takeWhile (\<lambda>x. node_id h x < lid nn) bs"
    let ?dw = "dropWhile (\<lambda>x. node_id h x < lid nn) bs"
    obtain xs t where xt: "a # ?tw = xs @ [t]" by (metis append_butlast_last_id list.distinct(1))
    have w: "list_walk h a (lid nn) = Some t"
      using list_walk_last [of h a bs "lid nn"] c head Cons xt by (simp del: last.simps)
    have all: "as = xs @ [t] @ ?dw"
      using Cons xt by (metis append.assoc append_Cons takeWhile_dropWhile_id)
    then obtain tn where t: "h t = Some tn" using seg_mem [OF c, of t] by auto
    have tnode: "t \<noteq> node" using fresh all by auto
    let ?h1 = "h(node \<mapsto> nn\<lparr>lnext := lnext tn\<rparr>)" and ?h2 =
      "h(node \<mapsto> nn\<lparr>lnext := lnext tn\<rparr>, t \<mapsto> tn\<lparr>lnext := Some node\<rparr>)"
    have res: "lwm2m_list_add h head node = Some (?h2, head)"
      using head a node False w t tnode by (simp add: lwm2m_list_add_def)
    have "chain ?h2 head (xs @ [t] @ node # ?dw)"
      using c fresh node t all seg_splice_in [of h head xs t ?dw node nn tn] by simp
    moreover have "LWM2M_LIST_ADD (node_id h) as node = xs @ [t] @ node # ?dw"
      using Cons False idn ida xt by (simp add: list_add_after_split)
    moreover have "same_ids h ?h2"
      using same_ids_trans [of h ?h1 ?h2] same_ids_upd_next [of h node nn] same_ids_upd_next [of ?h1 t tn]
        node t tnode by simp
    ultimately show ?thesis using res by auto
  qed
qed

lemma list_rm_after_split:
  "list_rm_after idf xs i =
     (case dropWhile (\<lambda>x. idf x < i) xs of
        [] \<Rightarrow> (xs, None)
      | y # ys \<Rightarrow> if idf y = i then (takeWhile (\<lambda>x. idf x < i) xs @ ys, Some y) else (xs, None))"
  by (induction xs) (auto split: list.splits simp del: dropWhile_eq_Nil_conv)

lemma list_remove_refines:
  assumes c: "chain h head as"
  shows "\<exists>h' head'. lwm2m_list_remove h head i =
      Some (h', head', snd (LWM2M_LIST_RM (node_id h) as i)) \<and>
    chain h' head' (fst (LWM2M_LIST_RM (node_id h) as i)) \<and> same_ids h h'"
proof (cases as)
  case Nil
  then show ?thesis using c by (auto simp: lwm2m_list_remove_def)
next
  case (Cons a bs)
  then obtain hn where head: "head = Some a" and a: "h a = Some hn"
    and bs: "chain h (lnext hn) bs" using c by (auto split: option.splits)
  have ida: "node_id h a = lid hn" using a by (auto simp: node_id_def)
  show ?thesis
  proof (cases "lid hn = i")
    case True
    then show ?thesis using head a ida bs Cons by (auto simp: lwm2m_list_remove_def)
  next
    case False
    let ?tw = "takeWhile (\<lambda>x. node_id h x < i) bs" and ?dw = "dropWhile (\<lambda>x. node_id h x < i) bs"
    obtain xs t where xt: "a # ?tw = xs @ [t]" by (metis append_butlast_last_id list.distinct(1))
    have w: "list_walk h a i = Some t"
      using list_walk_last [of h a bs i] c head Cons xt by (simp del: last.simps)
    have all: "as = xs @ [t] @ ?dw"
      using Cons xt by (metis append.assoc append_Cons takeWhile_dropWhile_id)
    then obtain tn where t: "h t = Some tn" using seg_mem [OF c, of t] by auto
    show ?thesis
    proof (cases ?dw)
      case Nil
      then have "lnext tn = None"
        using c all t by (simp add: seg_append del: dropWhile_eq_Nil_conv)
      then show ?thesis
        using head a False w t c Cons ida Nil
        by (auto simp: lwm2m_list_remove_def list_rm_after_split simp del: dropWhile_eq_Nil_conv)
    next
      case dw: (Cons b ys)
      then have tb: "lnext tn = Some b" using c all t by (simp add: seg_append)
      from dw all obtain bn where b: "h b = Some bn" using seg_mem [OF c, of b] by auto
      have "chain (h(t \<mapsto> tn\<lparr>lnext := lnext bn\<rparr>)) head (xs @ [t] @ ys)"
        using seg_splice_out [of h head xs t b ys tn bn] c all dw t b by simp
      then have "chain (h(t \<mapsto> tn\<lparr>lnext := lnext bn\<rparr>)) head (a # ?tw @ ys)"
        using xt by (metis append.assoc append_Cons)
      moreover have "LWM2M_LIST_RM (node_id h) as i =
          (if lid bn = i then (a # ?tw @ ys, Some b) else (as, None))"
        using Cons False ida dw b by (simp add: list_rm_after_split node_id_def [of h b])
      moreover have "lwm2m_list_remove h head i =
          (if lid bn = i then Some (h(t \<mapsto> tn\<lparr>lnext := lnext bn\<rparr>), head, Some b)
           else Some (h, head, None))"
        using head a False w t tb b by (simp add: lwm2m_list_remove_def)
      ultimately show ?thesis using c same_ids_upd_next [of h t tn] t by auto
    qed
  qed
qed

lemma list_find_refines:
  "chain h head as \<Longrightarrow> lwm2m_list_find h head i = Some (LWM2M_LIST_FIND (node_id h) as i)"
proof (induction as arbitrary: head)
  case Nil
  then show ?case by (simp add: lwm2m_list_find_def list_find_walk.simps [of h None i])
next
  case (Cons a as)
  then obtain n where n: "head = Some a" "h a = Some n" "chain h (lnext n) as"
    by (auto split: option.splits)
  with Cons.IH [of "lnext n"] show ?case
    by (auto simp: lwm2m_list_find_def node_id_def list_find_walk.simps [of h "Some a" i])
qed

lemma list_count_walk_chain: "chain h p as \<Longrightarrow> list_count_walk h p k = Some (k + length as)"
proof (induction as arbitrary: p k)
  case Nil
  then show ?case by (subst list_count_walk.simps) simp
next
  case (Cons a as)
  then show ?case by (subst list_count_walk.simps) (auto split: option.splits)
qed

lemma list_newId_walk_chain:
  "chain h p as \<Longrightarrow> list_newId_walk h p k = Some (list_newId_from (node_id h) as k)"
proof (induction as arbitrary: p k)
  case Nil
  then show ?case by (subst list_newId_walk.simps) simp
next
  case (Cons a as)
  then show ?case
    by (subst list_newId_walk.simps) (auto simp: node_id_def [of h a] split: option.splits)
qed

lemma list_free_chain: "chain h p as \<Longrightarrow> lwm2m_list_free h p = Some (h |` (- set as))"
proof (induction as arbitrary: h p)
  case Nil
  then show ?case by (simp add: lwm2m_list_free.simps)
next
  case (Cons a as)
  then obtain n where n: "p = Some a" "h a = Some n" "chain h (lnext n) as"
    by (auto split: option.splits)
  have "a \<notin> set as" using chain_distinct [OF Cons.prems] by simp
  then have "chain (h(a := None)) (lnext n) as" using n(3) by simp
  then have "lwm2m_list_free (h(a := None)) (lnext n) = Some ((h(a := None)) |` (- set as))"
    by (rule Cons.IH)
  moreover have "(h(a := None)) |` (- set as) = h |` (- set (a # as))"
    by (auto simp: restrict_map_def)
  ultimately show ?case using n by (subst lwm2m_list_free.simps) simp
qed

section \<open>Properties\<close>

text \<open>C6: On a well-formed list with ascending identifiers, \<open>lwm2m_list_add\<close> of a fresh
  unlinked node whose identifier is not in the list terminates without an invalid access,
  and the result is a well-formed list with ascending identifiers that holds exactly the old
  nodes and the new one; searching it finds the new node under its identifier and every other
  identifier as before.\<close>

theorem lwm2m_list_add_correct:
  assumes "chain h head as" and "sorted_ids (node_id h) as"
    and "node \<notin> set as" and "h node = Some nn" and "lnext nn = None"
    and "lid nn \<notin> node_id h ` set as"
  shows "\<exists>h' head' as'. lwm2m_list_add h head node = Some (h', head') \<and> chain h' head' as' \<and>
    sorted_ids (node_id h') as' \<and> mset as' = add_mset node (mset as) \<and>
    (\<forall>i. lwm2m_list_find h' head' i =
       (if i = lid nn then Some (Some node) else lwm2m_list_find h head i))"
proof -
  have idn: "node_id h node = lid nn" using assms(4) by (simp add: node_id_def)
  obtain h' head' where r: "lwm2m_list_add h head node = Some (h', head')"
    "chain h' head' (LWM2M_LIST_ADD (node_id h) as node)" "same_ids h h'"
    using list_add_refines [OF assms(1,3,4,5)] by auto
  have eq: "node_id h' = node_id h" using r(3) by (auto simp: same_ids_def)
  let ?as' = "LWM2M_LIST_ADD (node_id h) as node"
  have "lwm2m_list_find h' head' i =
      (if i = lid nn then Some (Some node) else lwm2m_list_find h head i)" for i
    using LWM2M_LIST_FIND_add [OF assms(2), of node i] assms(1,6) r(2) idn eq
    by (simp add: list_find_refines)
  moreover have "sorted_ids (node_id h') ?as'"
    using sorted_LWM2M_LIST_ADD [OF assms(2)] assms(6) idn eq by simp
  ultimately show ?thesis
    using r mset_LWM2M_LIST_ADD [of "node_id h" as node] by blast
qed

definition demo_heap :: list_heap where
  "demo_heap = [0 \<mapsto> \<lparr>lnext = Some 1, lid = 1\<rparr>, 1 \<mapsto> \<lparr>lnext = None, lid = 5\<rparr>,
     2 \<mapsto> \<lparr>lnext = None, lid = 3\<rparr>]"

lemma demo_heap_simps [simp]:
  "demo_heap 0 = Some \<lparr>lnext = Some 1, lid = 1\<rparr>"
  "demo_heap (Suc 0) = Some \<lparr>lnext = None, lid = 5\<rparr>"
  "demo_heap 2 = Some \<lparr>lnext = None, lid = 3\<rparr>"
  by (simp_all add: demo_heap_def)

theorem lwm2m_list_add_correct_witness:
  "\<exists>h' head' as'. lwm2m_list_add demo_heap (Some 0) 2 = Some (h', head') \<and> chain h' head' as' \<and>
    sorted_ids (node_id h') as' \<and> mset as' = add_mset 2 (mset [0, 1]) \<and>
    (\<forall>i. lwm2m_list_find h' head' i =
       (if i = 3 then Some (Some 2) else lwm2m_list_find demo_heap (Some 0) i))"
  using lwm2m_list_add_correct [of demo_heap "Some 0" "[0, 1]" 2 "\<lparr>lnext = None, lid = 3\<rparr>"]
  by (simp add: node_id_def)

text \<open>On a well-formed list with ascending identifiers, \<open>lwm2m_list_remove\<close> terminates
  without an invalid access; it returns the node with the given identifier (or \<open>NULL\<close> when
  there is none) and a well-formed ascending list in which searching that identifier fails
  and every other search gives the same result as before.\<close>

theorem lwm2m_list_remove_correct:
  assumes "chain h head as" and "sorted_ids (node_id h) as"
  shows "\<exists>h' head' as' r. lwm2m_list_remove h head i = Some (h', head', r) \<and>
    chain h' head' as' \<and> sorted_ids (node_id h') as' \<and> lwm2m_list_find h head i = Some r \<and>
    (\<forall>j. lwm2m_list_find h' head' j = (if j = i then Some None else lwm2m_list_find h head j))"
proof -
  let ?rm = "LWM2M_LIST_RM (node_id h) as i"
  obtain h' head' where r: "lwm2m_list_remove h head i = Some (h', head', snd ?rm)"
    "chain h' head' (fst ?rm)" "same_ids h h'"
    using list_remove_refines [OF assms(1)] by blast
  have eq: "node_id h' = node_id h" using r(3) by (auto simp: same_ids_def)
  have "sorted_ids (node_id h') (fst ?rm)"
    using assms(2) eq by (simp add: idl.invar_rm)
  moreover have "lwm2m_list_find h head i = Some (snd ?rm)"
    using assms by (simp add: list_find_refines LWM2M_LIST_RM_found)
  moreover have "lwm2m_list_find h' head' j =
      (if j = i then Some None else lwm2m_list_find h head j)" for j
    using assms r(2) eq by (simp add: list_find_refines LWM2M_LIST_FIND_rm)
  ultimately show ?thesis using r by blast
qed

theorem lwm2m_list_remove_correct_witness:
  "\<exists>h' head' as' r. lwm2m_list_remove demo_heap (Some 0) 5 = Some (h', head', r) \<and>
    chain h' head' as' \<and> sorted_ids (node_id h') as' \<and>
    lwm2m_list_find demo_heap (Some 0) 5 = Some r \<and>
    (\<forall>j. lwm2m_list_find h' head' j =
       (if j = 5 then Some None else lwm2m_list_find demo_heap (Some 0) j))"
  using lwm2m_list_remove_correct [of demo_heap "Some 0" "[0, 1]" 5] by (simp add: node_id_def)

text \<open>\<open>lwm2m_list_newId\<close> on a well-formed ascending list with fewer than 65536 nodes
  returns an identifier that no node has, and every smaller identifier is taken: it is the
  lowest unused identifier.\<close>

theorem lwm2m_list_newId_correct:
  assumes "chain h head as" and "sorted_ids (node_id h) as" and "length as < 2 ^ 16"
  shows "\<exists>i. lwm2m_list_newId h head = Some i \<and> i \<notin> node_id h ` set as \<and>
    (\<forall>j<i. j \<in> node_id h ` set as)"
  using assms newId_from_least [of "node_id h" as 0]
  by (auto simp: lwm2m_list_newId_def list_newId_walk_chain)

theorem lwm2m_list_newId_correct_witness:
  "\<exists>i. lwm2m_list_newId demo_heap (Some 0) = Some i \<and> i \<notin> node_id demo_heap ` set [0, 1] \<and>
    (\<forall>j<i. j \<in> node_id demo_heap ` set [0, 1])"
  using lwm2m_list_newId_correct [of demo_heap "Some 0" "[0, 1]"] by (simp add: node_id_def)

end
