(* ===== verification/Coap_Transaction.thy ===== *)
theory Coap_Transaction
  imports Coap_Header Lwm2m_List
begin

text \<open>
  CoAP transactions, \<^verbatim>\<open>coap/transaction.c\<close>: creation, transmission with exponential back-off,
  matching of responses and the periodic step, and \<open>message_send\<close> of \<^verbatim>\<open>core/packet.c\<close>.

  The platform is a record of parameters: the allocator, the clock (read once per call), the
  comparison of sessions, the transport's send function and the callbacks of the transactions,
  which may change the context.  A session or user data pointer is a number, 0 is \<open>NULL\<close>.  The
  context records every datagram handed to the transport.  A transaction in the list is
  identified by its message id; times are unbounded integers.
\<close>

section \<open>Transactions and their context\<close>

type_synonym session = nat

record lwm2m_transaction_t =
  mID :: u16
  peerH :: session
  ack_received :: bool
  retrans_counter :: u8
  retrans_time :: int
  message :: coap_packet_t
  buffer_len :: u16
  buffer :: "bytes option"
  tx_payload :: "bytes option"
  callback :: "nat option"
  userData :: nat

record tx_context =
  transactionList :: "lwm2m_transaction_t list"
  nextMID :: u16
  sent :: "(session \<times> bytes) list"

record 'c platform =
  mem_ok :: "nat \<Rightarrow> bool"
  gettime :: int
  session_is_equal :: "session \<Rightarrow> session \<Rightarrow> bool"
  buffer_send :: "session \<Rightarrow> bytes \<Rightarrow> u8"
  callback_fn :: "nat \<Rightarrow> 'c \<Rightarrow> lwm2m_transaction_t \<Rightarrow> coap_packet_t option \<Rightarrow> 'c"

definition COAP_RESPONSE_TIMEOUT :: int where "COAP_RESPONSE_TIMEOUT = 2"
definition COAP_MAX_RETRANSMIT :: u8 where "COAP_MAX_RETRANSMIT = 4"
definition COAP_SEPARATE_TIMEOUT :: int where "COAP_SEPARATE_TIMEOUT = 15"
definition LWM2M_STRING_ID_MAX_LEN :: nat where "LWM2M_STRING_ID_MAX_LEN = 6"

lemmas tx_constants = COAP_RESPONSE_TIMEOUT_def COAP_MAX_RETRANSMIT_def COAP_SEPARATE_TIMEOUT_def COAP_DELETE_def

text \<open>Sizes of the LP64 ABI.\<close>

definition sizeof_transaction :: nat where "sizeof_transaction = 96"
definition sizeof_coap_packet :: nat where "sizeof_coap_packet = 216"

text \<open>A store through a pointer to a transaction of the list.\<close>

definition put_tx :: "lwm2m_transaction_t \<Rightarrow> 'a tx_context_scheme \<Rightarrow> 'a tx_context_scheme" where
  "put_tx t ctx = ctx\<lparr>transactionList := map (\<lambda>x. if mID x = mID t then t else x) (transactionList ctx)\<rparr>"

text \<open>The transport is called with the session and the bytes; the call is recorded.\<close>

definition lwm2m_buffer_send ::
  "('a tx_context_scheme) platform \<Rightarrow> session \<Rightarrow> bytes \<Rightarrow> 'a tx_context_scheme \<Rightarrow> 'a tx_context_scheme \<times> u8" where
  "lwm2m_buffer_send P s b ctx = (ctx\<lparr>sent := sent ctx @ [(s, b)]\<rparr>, buffer_send P s b)"

section \<open>Operations\<close>

definition prv_checkFinished :: "lwm2m_transaction_t \<Rightarrow> coap_packet_t \<Rightarrow> bool" where
  "prv_checkFinished t receivedMessage =
     (let tm = message t in
      if mid tm = mid receivedMessage \<and> (COAP_DELETE < code tm \<or> \<not> IS_OPTION tm COAP_OPTION_TOKEN)
      then ack_received t
      else if COAP_DELETE \<ge> code tm \<and> IS_OPTION tm COAP_OPTION_TOKEN
      then (case coap_get_header_token receivedMessage of
              None \<Rightarrow> token tm = []
            | Some tok \<Rightarrow> length (token tm) = length tok \<and> token tm = tok)
      else False)"

text \<open>The segment of an identifier; \<open>None\<close> inside stands for a result of 0.\<close>

definition id_segment :: "u16 \<Rightarrow> bytes option c" where
  "id_segment i = do { (s, result) \<leftarrow> utils_intToText (ucast i) (replicate LWM2M_STRING_ID_MAX_LEN 0);
     if result = 0 then Some None
     else do { s' \<leftarrow> wr s result 0; Some (Some (take result s')) } }"

text \<open>The segments of the set identifiers of a path.\<close>

fun add_id_segments :: "(nat \<Rightarrow> bool) \<Rightarrow> u16 list \<Rightarrow> coap_packet_t \<Rightarrow> coap_packet_t option c" where
  "add_id_segments mem [] p = Some (Some p)"
| "add_id_segments mem (i # is) p =
     do { s \<leftarrow> id_segment i;
          (case s of None \<Rightarrow> Some None
                   | Some sg \<Rightarrow> add_id_segments mem is (fst (coap_set_header_uri_path_segment mem p sg))) }"

definition uri_set_ids :: "lwm2m_uri_t option \<Rightarrow> u16 list" where
  "uri_set_ids uri = (case uri of None \<Rightarrow> [] | Some u \<Rightarrow>
     if \<not> LWM2M_URI_IS_SET_OBJECT u then []
     else objectId u # (if \<not> LWM2M_URI_IS_SET_INSTANCE u then []
     else instanceId u # (if \<not> LWM2M_URI_IS_SET_RESOURCE u then []
     else resourceId u # (if \<not> LWM2M_URI_IS_SET_RESOURCE_INSTANCE u then [] else [resourceInstanceId u]))))"

text \<open>The generated token: message id and time; the last two bytes of the array are not
  initialized, the parameter \<open>stack\<close>.\<close>

definition generated_token :: "u16 \<Rightarrow> int \<Rightarrow> bytes \<Rightarrow> bytes" where
  "generated_token m tv stack =
     [ucast m, ucast (drop_bit 8 m), word_of_int tv, word_of_int (tv div 2 ^ 8), word_of_int (tv div 2 ^ 16),
      word_of_int (tv div 2 ^ 24)] @ take 2 stack"

text \<open>The alternative path, when there is one, starts with a slash that is skipped.\<close>

definition transaction_new ::
  "'c platform \<Rightarrow> session \<Rightarrow> u8 \<Rightarrow> bytes option \<Rightarrow> lwm2m_uri_t option \<Rightarrow> u16 \<Rightarrow> u8 \<Rightarrow> bytes option \<Rightarrow> bytes \<Rightarrow>
   lwm2m_transaction_t option c" where
  "transaction_new P sessionH method altPath uriP m token_len tok stack =
     (if sessionH = 0 then Some None
      else if \<not> mem_ok P sizeof_transaction then Some None
      else if \<not> mem_ok P sizeof_coap_packet then Some None
      else do {
        let p = coap_init_message COAP_TYPE_CON method m;
        let p = (case altPath of None \<Rightarrow> p
                 | Some a \<Rightarrow> fst (coap_set_header_uri_path_segment (mem_ok P) p (drop 1 a)));
        r \<leftarrow> add_id_segments (mem_ok P) (uri_set_ids uriP) p;
        (case r of
           None \<Rightarrow> Some None
         | Some p \<Rightarrow> do {
             p \<leftarrow> (if 0 < token_len
                   then do { t \<leftarrow> (case tok of Some t \<Rightarrow> rd_range t 0 (min 8 (unat token_len))
                                            | None \<Rightarrow> rd_range (generated_token m (gettime P) stack) 0 (min 8 (unat token_len)));
                             Some (fst (coap_set_header_token p t)) }
                   else Some p);
             Some (Some \<lparr>mID = m, peerH = sessionH, ack_received = False, retrans_counter = 0, retrans_time = 0,
                message = p, buffer_len = 0, buffer = None, tx_payload = None, callback = None, userData = 0\<rparr>) }) })"

definition transaction_remove :: "lwm2m_transaction_t \<Rightarrow> 'a tx_context_scheme \<Rightarrow> 'a tx_context_scheme" where
  "transaction_remove t ctx = ctx\<lparr>transactionList := fst (LWM2M_LIST_RM mID (transactionList ctx) (mID t))\<rparr>"

text \<open>\<open>message_send\<close> of \<^verbatim>\<open>core/packet.c\<close>.\<close>

definition message_send ::
  "('a tx_context_scheme) platform \<Rightarrow> coap_packet_t \<Rightarrow> session \<Rightarrow> 'a tx_context_scheme \<Rightarrow>
   ('a tx_context_scheme \<times> coap_packet_t \<times> u8) c" where
  "message_send P m s ctx =
     (let allocLen = coap_serialize_get_size m in
      if allocLen = 0 then Some (ctx, m, COAP_500_INTERNAL_SERVER_ERROR)
      else if \<not> mem_ok P allocLen then Some (ctx, m, COAP_500_INTERNAL_SERVER_ERROR)
      else do { (b, n, m') \<leftarrow> coap_serialize_message m (replicate allocLen 0);
                if n \<noteq> 0
                then do { bytes \<leftarrow> rd_range b 0 n;
                          let r = lwm2m_buffer_send P s bytes ctx;
                          Some (fst r, m', snd r) }
                else Some (ctx, m', COAP_500_INTERNAL_SERVER_ERROR) })"

definition run_callback ::
  "('a tx_context_scheme) platform \<Rightarrow> lwm2m_transaction_t \<Rightarrow> coap_packet_t option \<Rightarrow> 'a tx_context_scheme \<Rightarrow>
   'a tx_context_scheme" where
  "run_callback P t m ctx = (case callback t of None \<Rightarrow> ctx | Some f \<Rightarrow> callback_fn P f ctx t m)"

text \<open>The marking of an acknowledged transaction: the transaction, \<open>found\<close> and \<open>reset\<close>.\<close>

definition ack_transaction :: "coap_packet_t \<Rightarrow> lwm2m_transaction_t \<Rightarrow> lwm2m_transaction_t \<times> bool \<times> bool" where
  "ack_transaction m t =
     (if \<not> ack_received t \<and> (mtype m = COAP_TYPE_ACK \<or> mtype m = COAP_TYPE_RST) \<and> mID t = mid m
      then (t\<lparr>ack_received := True\<rparr>, True, mtype m = COAP_TYPE_RST)
      else (t, False, False))"

text \<open>The branch for a finished transaction; \<open>response\<close> is \<open>None\<close> for a null pointer.\<close>

definition finish_transaction ::
  "('a tx_context_scheme) platform \<Rightarrow> session \<Rightarrow> coap_packet_t \<Rightarrow> coap_packet_t option \<Rightarrow> lwm2m_transaction_t \<Rightarrow> bool \<Rightarrow>
   'a tx_context_scheme \<Rightarrow> ('a tx_context_scheme \<times> coap_packet_t option) c" where
  "finish_transaction P s m response t reset ctx =
     do { (ctx, response) \<leftarrow>
            (if \<not> reset \<and> mtype m = COAP_TYPE_CON \<and> response \<noteq> None
             then do { (ctx, r, _) \<leftarrow> message_send P (coap_init_message COAP_TYPE_ACK 0 (mid m)) s ctx;
                       Some (ctx, Some r) }
             else Some (ctx, response));
          if \<not> reset \<and> code m = COAP_401_UNAUTHORIZED \<and> COAP_MAX_RETRANSMIT > retrans_counter t
          then Some (put_tx (t\<lparr>ack_received := False, retrans_time := retrans_time t + COAP_RESPONSE_TIMEOUT\<rparr>) ctx, response)
          else Some (transaction_remove t (run_callback P t (Some m) ctx), response) }"

fun handle_response_loop ::
  "('a tx_context_scheme) platform \<Rightarrow> session \<Rightarrow> coap_packet_t \<Rightarrow> coap_packet_t option \<Rightarrow> lwm2m_transaction_t list \<Rightarrow>
   'a tx_context_scheme \<Rightarrow> ('a tx_context_scheme \<times> coap_packet_t option \<times> bool) c" where
  "handle_response_loop P s m response [] ctx = Some (ctx, response, False)"
| "handle_response_loop P s m response (t # ts) ctx =
     (if session_is_equal P s (peerH t)
      then (case ack_transaction m t of (t1, found, reset) \<Rightarrow>
             if reset \<or> prv_checkFinished t1 m
             then do { (ctx', r) \<leftarrow> finish_transaction P s m response t1 reset (put_tx t1 ctx); Some (ctx', r, True) }
             else if found
             then let base = (if 0 \<le> gettime P then gettime P else retrans_time t1);
                      wait = (if code m = COAP_EMPTY_MESSAGE_CODE then COAP_SEPARATE_TIMEOUT
                              else COAP_RESPONSE_TIMEOUT * int (unat (retrans_counter t1))) in
                  Some (put_tx (t1\<lparr>retrans_time := base + wait\<rparr>) ctx, response, True)
             else handle_response_loop P s m response ts ctx)
      else handle_response_loop P s m response ts ctx)"

definition transaction_handleResponse ::
  "('a tx_context_scheme) platform \<Rightarrow> session \<Rightarrow> coap_packet_t \<Rightarrow> coap_packet_t option \<Rightarrow> 'a tx_context_scheme \<Rightarrow>
   ('a tx_context_scheme \<times> coap_packet_t option \<times> bool) c" where
  "transaction_handleResponse P s m response ctx = handle_response_loop P s m response (transactionList ctx) ctx"

text \<open>The serialized form of a transaction, made before its first transmission: \<open>None\<close> inside when
  it cannot be made.  The estimate is cut to the 16 bits of \<open>buffer_len\<close> before the allocation.\<close>

definition prepare_buffer :: "'c platform \<Rightarrow> lwm2m_transaction_t \<Rightarrow> lwm2m_transaction_t option c" where
  "prepare_buffer P t =
     (if buffer t \<noteq> None then Some (Some t)
      else let len = (of_nat (coap_serialize_get_size (message t)) :: u16) in
      if len = 0 then Some None
      else if \<not> mem_ok P (unat len) then Some None
      else do { (b, n, m) \<leftarrow> coap_serialize_message (message t) (replicate (unat len) 0);
                let t' = t\<lparr>message := m, buffer := Some b, buffer_len := of_nat n\<rparr>;
                if buffer_len t' = 0 then Some None else Some (Some t') })"

text \<open>\<open>2 << (counter - 1)\<close> is undefined when the result does not fit an \<open>int\<close>.\<close>

definition retransmit_timeout :: "u8 \<Rightarrow> int c" where
  "retransmit_timeout counter =
     (if unat counter - 1 < 30 then Some (COAP_RESPONSE_TIMEOUT * 2 ^ (unat counter - 1)) else None)"

definition expire_transaction ::
  "('a tx_context_scheme) platform \<Rightarrow> lwm2m_transaction_t \<Rightarrow> 'a tx_context_scheme \<Rightarrow> 'a tx_context_scheme \<times> int" where
  "expire_transaction P t ctx = (transaction_remove t (run_callback P t None ctx), - 1)"

definition transaction_send ::
  "('a tx_context_scheme) platform \<Rightarrow> lwm2m_transaction_t \<Rightarrow> 'a tx_context_scheme \<Rightarrow> ('a tx_context_scheme \<times> int) c" where
  "transaction_send P t ctx =
     do { r \<leftarrow> prepare_buffer P t;
          (case r of
             None \<Rightarrow> Some (transaction_remove t ctx, uint COAP_500_INTERNAL_SERVER_ERROR)
           | Some t \<Rightarrow>
               if ack_received t then Some (expire_transaction P t (put_tx t ctx))
               else do {
                 (t, timeout, clockFailed) \<leftarrow>
                   (if retrans_counter t = 0
                    then if 0 \<le> gettime P
                         then Some (t\<lparr>retrans_time := gettime P + COAP_RESPONSE_TIMEOUT, retrans_counter := 1\<rparr>, 0, False)
                         else Some (t, 0, True)
                    else do { timeout \<leftarrow> retransmit_timeout (retrans_counter t); Some (t, timeout, False) });
                 if unat COAP_MAX_RETRANSMIT + 1 \<ge> unat (retrans_counter t)
                 then do { b \<leftarrow> buffer t;
                           bytes \<leftarrow> rd_range b 0 (unat (buffer_len t));
                           let t' = t\<lparr>retrans_time := retrans_time t + timeout, retrans_counter := retrans_counter t + 1\<rparr>;
                           let ctx' = put_tx t' (fst (lwm2m_buffer_send P (peerH t) bytes ctx));
                           Some (if clockFailed then expire_transaction P t' ctx' else (ctx', 0)) }
                 else Some (expire_transaction P t (put_tx t ctx)) }) }"

text \<open>The successor in the list, read before the transaction is sent.\<close>

fun next_id :: "lwm2m_transaction_t list \<Rightarrow> u16 \<Rightarrow> u16 option" where
  "next_id [] i = None"
| "next_id (t # ts) i = (if mID t = i then (case ts of [] \<Rightarrow> None | t' # _ \<Rightarrow> Some (mID t')) else next_id ts i)"

text \<open>The loop of \<open>transaction_step\<close>: a transaction that is no longer in the list was freed, and
  using its pointer is undefined.  Fuel bounds the number of rounds.\<close>

fun transaction_step_loop ::
  "nat \<Rightarrow> ('a tx_context_scheme) platform \<Rightarrow> int \<Rightarrow> u16 option \<Rightarrow> int \<Rightarrow> 'a tx_context_scheme \<Rightarrow>
   ('a tx_context_scheme \<times> int) c" where
  "transaction_step_loop fuel P currentTime None timeout ctx = Some (ctx, timeout)"
| "transaction_step_loop 0 P currentTime (Some i) timeout ctx = None"
| "transaction_step_loop (Suc fuel) P currentTime (Some i) timeout ctx =
     do { t \<leftarrow> find (\<lambda>x. mID x = i) (transactionList ctx);
          let nextP = next_id (transactionList ctx) i;
          (ctx, removed) \<leftarrow> (if retrans_time t \<le> currentTime then transaction_send P t ctx else Some (ctx, 0));
          timeout \<leftarrow> (if removed = 0
             then do { t' \<leftarrow> find (\<lambda>x. mID x = i) (transactionList ctx);
                       let interval = (if retrans_time t' > currentTime then retrans_time t' - currentTime else 1);
                       Some (if timeout > interval then interval else timeout) }
             else Some 1);
          transaction_step_loop fuel P currentTime nextP timeout ctx }"

definition transaction_step ::
  "nat \<Rightarrow> ('a tx_context_scheme) platform \<Rightarrow> int \<Rightarrow> int \<Rightarrow> 'a tx_context_scheme \<Rightarrow> ('a tx_context_scheme \<times> int) c" where
  "transaction_step fuel P currentTime timeout ctx =
     transaction_step_loop fuel P currentTime
       (case transactionList ctx of [] \<Rightarrow> None | t # _ \<Rightarrow> Some (mID t)) timeout ctx"

definition transaction_set_payload ::
  "(nat \<Rightarrow> bool) \<Rightarrow> u16 \<Rightarrow> lwm2m_transaction_t \<Rightarrow> bytes \<Rightarrow> lwm2m_transaction_t \<times> bool" where
  "transaction_set_payload mem block_size t b =
     (if \<not> mem (length b) then (t, False)
      else let m = message t;
               m = (if length b > unat block_size then fst (coap_set_header_block1 m 0 1 block_size) else m);
               m = fst (coap_set_payload m (Some (take (min (length b) (unat block_size)) b))) in
      (t\<lparr>tx_payload := Some b, message := m\<rparr>, True))"

definition transaction_free_userData ::
  "lwm2m_transaction_t \<Rightarrow> 'a tx_context_scheme \<Rightarrow> 'a tx_context_scheme \<times> bool" where
  "transaction_free_userData t ctx =
     (if \<exists>x\<in>set (transactionList ctx). userData x = userData t \<and> mID x \<noteq> mID t then (ctx, False)
      else (put_tx (t\<lparr>userData := 0\<rparr>) ctx, True))"

fun remove_client_loop ::
  "('a tx_context_scheme) platform \<Rightarrow> session \<Rightarrow> lwm2m_transaction_t list \<Rightarrow> 'a tx_context_scheme \<Rightarrow> 'a tx_context_scheme" where
  "remove_client_loop P s [] ctx = ctx"
| "remove_client_loop P s (t # ts) ctx =
     remove_client_loop P s ts (if session_is_equal P (peerH t) s then transaction_remove t ctx else ctx)"

definition transaction_remove_client ::
  "('a tx_context_scheme) platform \<Rightarrow> session \<Rightarrow> 'a tx_context_scheme \<Rightarrow> 'a tx_context_scheme" where
  "transaction_remove_client P s ctx = remove_client_loop P s (transactionList ctx) ctx"

section \<open>The list of transactions\<close>

lemma mIDs_put_tx [simp]: "map mID (transactionList (put_tx t ctx)) = map mID (transactionList ctx)"
  by (auto simp: put_tx_def)

lemma sorted_put_tx [simp]: "sorted_ids mID (transactionList (put_tx t ctx)) = sorted_ids mID (transactionList ctx)"
  by (simp add: sorted_ids_def)

lemma put_tx_put_tx: "mID u = mID t \<Longrightarrow> put_tx u (put_tx t ctx) = put_tx u ctx"
  by (auto simp: put_tx_def)

lemma put_tx_sent: "put_tx t (ctx\<lparr>sent := x\<rparr>) = (put_tx t ctx)\<lparr>sent := x\<rparr>" "sent (put_tx t ctx) = sent ctx"
  by (simp_all add: put_tx_def)

lemma find_put_tx:
  "find (\<lambda>x. mID x = i) (transactionList ctx) = Some t \<Longrightarrow> mID u = i \<Longrightarrow>
   find (\<lambda>x. mID x = i) (transactionList (put_tx u ctx)) = Some u"
proof -
  have "find (\<lambda>x. mID x = i) ts = Some t \<Longrightarrow> mID u = i \<Longrightarrow>
      find (\<lambda>x. mID x = i) (map (\<lambda>x. if mID x = mID u then u else x) ts) = Some u" for ts
    by (induction ts) (auto split: if_splits)
  then show "find (\<lambda>x. mID x = i) (transactionList ctx) = Some t \<Longrightarrow> mID u = i \<Longrightarrow>
      find (\<lambda>x. mID x = i) (transactionList (put_tx u ctx)) = Some u" by (simp add: put_tx_def)
qed

definition mids :: "'a tx_context_scheme \<Rightarrow> u16 set" where
  "mids ctx = mID ` set (transactionList ctx)"

lemma mids_map: "mids ctx = set (map mID (transactionList ctx))"
  by (simp add: mids_def)

lemma mids_put_tx [simp]: "mids (put_tx t ctx) = mids ctx"
  by (simp add: mids_map del: set_map)

lemma transactionList_remove:
  "sorted_ids mID (transactionList ctx) \<Longrightarrow>
   transactionList (transaction_remove t ctx) = filter (\<lambda>x. mID x \<noteq> mID t) (transactionList ctx)"
  by (simp add: transaction_remove_def LWM2M_LIST_RM_eq)

lemma mids_remove: "sorted_ids mID (transactionList ctx) \<Longrightarrow> mids (transaction_remove t ctx) = mids ctx - {mID t}"
  by (auto simp: mids_def transactionList_remove)

section \<open>Transmission\<close>

text \<open>A message that can be serialized into a buffer whose size fits \<open>buffer_len\<close>.\<close>

definition sendable :: "coap_packet_t \<Rightarrow> bool" where
  "sendable m \<longleftrightarrow> size_ok m \<and> multi_ok m \<and> coap_serialize_get_size m < 2 ^ 16"

lemma get_size_pos: "4 \<le> coap_serialize_get_size m"
  by (simp add: coap_serialize_get_size_def coap_sizes Let_def)

lemma prepare_buffer_sendable:
  assumes "sendable (message t)" and "buffer t = None"
  shows "prepare_buffer P t =
    (if mem_ok P (coap_serialize_get_size (message t))
     then Some (Some (t\<lparr>message := coap_free_header ((message t)\<lparr>version := 1\<rparr>),
        buffer := Some (msg_bytes (message t) @ replicate (coap_serialize_get_size (message t) - length (msg_bytes (message t))) 0),
        buffer_len := of_nat (length (msg_bytes (message t)))\<rparr>))
     else Some None)"
proof -
  let ?m = "message t" and ?n = "coap_serialize_get_size (message t)"
  have s: "size_ok ?m" "multi_ok ?m" "?n < 65536" using assms(1) by (simp_all add: sendable_def)
  have len: "length (msg_bytes ?m) \<le> ?n" "4 \<le> length (msg_bytes ?m)"
    using msg_bytes_size [OF s(1,2)] by (simp_all add: msg_bytes_def)
  have n: "unat (of_nat ?n :: u16) = ?n" "unat (of_nat (length (msg_bytes ?m)) :: u16) = length (msg_bytes ?m)"
    using s(3) len by (intro unat_of_nat_small; simp)+
  have nz: "(of_nat ?n :: u16) \<noteq> 0" "(of_nat (length (msg_bytes ?m)) :: u16) \<noteq> 0"
    using n get_size_pos [of ?m] len by (metis not_numeral_le_zero unat_0)+
  show ?thesis
    using assms(2) coap_serialize_message_bytes [OF s(2), of "replicate ?n 0"] len n nz
    by (simp add: prepare_buffer_def Let_def)
qed

lemma counter_succ: "c < 255 \<Longrightarrow> (of_nat c + 1 :: u8) = of_nat (Suc c)" "c < 256 \<Longrightarrow> unat (of_nat c :: u8) = c"
  by (auto intro: unat_of_nat_small)

text \<open>Transmitting a prepared transaction again.\<close>

lemma transaction_send_again:
  assumes "buffer t = Some b" and "unat (buffer_len t) \<le> length b" and "\<not> ack_received t"
    and "retrans_counter t = of_nat c" and "1 \<le> c" and "c \<le> 5"
  shows "transaction_send P t ctx =
    Some (put_tx (t\<lparr>retrans_time := retrans_time t + 2 ^ c, retrans_counter := of_nat (Suc c)\<rparr>)
            (ctx\<lparr>sent := sent ctx @ [(peerH t, take (unat (buffer_len t)) b)]\<rparr>), 0)"
proof -
  have c: "unat (of_nat c :: u8) = c" "(of_nat c :: u8) \<noteq> 0"
    using assms(5,6) by (auto simp: unat_eq_0 [symmetric] counter_succ)
  have two: "2 * 2 ^ (c - Suc 0) = (2 :: int) ^ c" using assms(5) by (simp flip: power_Suc)
  have "c - Suc 0 < 30" using assms(6) by simp
  then show ?thesis
    using assms(1-4,6) c
    by (simp add: add.commute [of 1] transaction_send_def prepare_buffer_def retransmit_timeout_def tx_constants lwm2m_buffer_send_def two)
qed

lemma transaction_send_expired:
  assumes "buffer t = Some b" and "\<not> ack_received t" and "retrans_counter t = 6"
  shows "transaction_send P t ctx = Some (expire_transaction P t (put_tx t ctx))"
  using assms by (simp add: transaction_send_def prepare_buffer_def retransmit_timeout_def tx_constants)

text \<open>Transmitting the transaction with a given message id a number of times.\<close>

fun send_times :: "('a tx_context_scheme) platform \<Rightarrow> nat \<Rightarrow> u16 \<Rightarrow> 'a tx_context_scheme \<Rightarrow>
    ('a tx_context_scheme \<times> int list) c" where
  "send_times P 0 i ctx = Some (ctx, [])"
| "send_times P (Suc k) i ctx =
     do { t \<leftarrow> find (\<lambda>x. mID x = i) (transactionList ctx);
          (ctx, r) \<leftarrow> transaction_send P t ctx;
          (ctx, rs) \<leftarrow> send_times P k i ctx;
          Some (ctx, r # rs) }"

lemma send_rest:
  assumes "find (\<lambda>x. mID x = i) (transactionList ctx) = Some t" and "mID t = i"
    and "buffer t = Some b" and "unat (buffer_len t) \<le> length b" and "\<not> ack_received t"
    and "retrans_counter t = of_nat (6 - k)" and "k \<le> 5"
  shows "send_times P (Suc k) i ctx =
    (let u = t\<lparr>retrans_time := retrans_time t + (2 ^ 6 - 2 ^ (6 - k)), retrans_counter := 6\<rparr> in
     Some (fst (expire_transaction P u (put_tx u
            (ctx\<lparr>sent := sent ctx @ replicate k (peerH t, take (unat (buffer_len t)) b)\<rparr>))), replicate k 0 @ [- 1]))"
  using assms
proof (induction k arbitrary: t ctx)
  case 0
  then have e: "t\<lparr>retrans_counter := 6\<rparr> = t" by (cases t) simp
  show ?case using 0 transaction_send_expired [of t b P ctx] by (simp add: expire_transaction_def Let_def e)
next
  case (Suc k)
  let ?c = "6 - Suc k"
  let ?t = "t\<lparr>retrans_time := retrans_time t + 2 ^ ?c, retrans_counter := of_nat (Suc ?c)\<rparr>"
  let ?x = "(peerH t, take (unat (buffer_len t)) b)"
  let ?ctx = "put_tx ?t (ctx\<lparr>sent := sent ctx @ [?x]\<rparr>)"
  have c: "Suc ?c = 6 - k" using Suc.prems(7) by simp
  have send: "transaction_send P t ctx = Some (?ctx, 0)"
    using Suc.prems by (intro transaction_send_again) auto
  have f: "find (\<lambda>x. mID x = i) (transactionList ?ctx) = Some ?t"
    using Suc.prems(1,2) by (intro find_put_tx [of i _ t]) simp_all
  have "(2 :: int) ^ (6 - k) = 2 * 2 ^ ?c" using c by (metis power_Suc)
  then have rest: "send_times P (Suc k) i ?ctx =
      (let u = t\<lparr>retrans_time := retrans_time t + (2 ^ 6 - 2 ^ ?c), retrans_counter := 6\<rparr> in
       Some (fst (expire_transaction P u (put_tx u
            (ctx\<lparr>sent := sent ctx @ ?x # replicate k ?x\<rparr>))), replicate k 0 @ [- 1]))"
    using Suc.IH [OF f] Suc.prems c by (simp add: Let_def put_tx_put_tx put_tx_sent algebra_simps)
  have "send_times P (Suc (Suc k)) i ctx = send_times P (Suc k) i ?ctx \<bind> (\<lambda>(ctx, rs). Some (ctx, 0 # rs))"
    unfolding send_times.simps(2) [of P "Suc k"] Suc.prems(1) bind.bind_lunit send prod.case ..
  then show ?case unfolding rest by (simp only: Let_def bind.bind_lunit prod.case replicate_Suc append_Cons append_assoc)
qed

lemma replicate_4: "replicate 4 (x :: int) = [x, x, x, x]"
  by (simp add: eval_nat_numeral)

text \<open>The first transmission of a new transaction.\<close>

definition first_sent :: "'c platform \<Rightarrow> lwm2m_transaction_t \<Rightarrow> lwm2m_transaction_t" where
  "first_sent P t = t\<lparr>message := coap_free_header ((message t)\<lparr>version := 1\<rparr>),
     buffer := Some (msg_bytes (message t) @ replicate (coap_serialize_get_size (message t) - length (msg_bytes (message t))) 0),
     buffer_len := of_nat (length (msg_bytes (message t))), retrans_time := gettime P + 2, retrans_counter := 2\<rparr>"

lemma sendable_length: "sendable m \<Longrightarrow> unat (of_nat (length (msg_bytes m)) :: u16) = length (msg_bytes m)"
  using msg_bytes_size [of m] by (intro unat_of_nat_small) (simp add: sendable_def)

lemma transaction_send_first:
  assumes "sendable (message t)" and "buffer t = None" and "\<not> ack_received t" and "retrans_counter t = 0"
    and "\<And>n. mem_ok P n" and "0 \<le> gettime P"
  shows "transaction_send P t ctx =
    Some (put_tx (first_sent P t) (ctx\<lparr>sent := sent ctx @ [(peerH t, msg_bytes (message t))]\<rparr>), 0)"
  using assms(3-6) sendable_length [OF assms(1)]
  by (simp add: transaction_send_def prepare_buffer_sendable [OF assms(1,2)] tx_constants lwm2m_buffer_send_def first_sent_def)


definition example_platform :: "tx_context platform" where
  "example_platform = \<lparr>mem_ok = (\<lambda>_. True), gettime = 100, session_is_equal = (=), buffer_send = (\<lambda>_ _. 0),
     callback_fn = (\<lambda>_ ctx _ _. ctx)\<rparr>"

definition example_tx :: lwm2m_transaction_t where
  "example_tx = \<lparr>mID = 7, peerH = 3, ack_received = False, retrans_counter = 0, retrans_time = 0,
     message = coap_init_message COAP_TYPE_CON 1 7, buffer_len = 0, buffer = None, tx_payload = None, callback = Some 1,
     userData = 0\<rparr>"

definition example_ctx :: tx_context where
  "example_ctx = \<lparr>transactionList = [example_tx], nextMID = 8, sent = []\<rparr>"

lemma example_sendable: "sendable (message example_tx)"
  by (simp add: sendable_def size_ok_def multi_ok_def IS_OPTION_def example_tx_def coap_init_message_def zero_packet_def
      coap_serialize_get_size_def payload_len_def coap_sizes)


section \<open>The invariant and the periodic step\<close>

definition tx_ok :: "lwm2m_transaction_t \<Rightarrow> bool" where
  "tx_ok t \<longleftrightarrow> unat (retrans_counter t) \<le> 6 \<and>
     (case buffer t of None \<Rightarrow> sendable (message t) | Some b \<Rightarrow> unat (buffer_len t) \<le> length b)"

definition ctx_ok :: "'a tx_context_scheme \<Rightarrow> bool" where
  "ctx_ok ctx \<longleftrightarrow> sorted_ids mID (transactionList ctx) \<and> list_all tx_ok (transactionList ctx)"

text \<open>What the transactions rely on in their callbacks: a callback keeps the list in order, adds
  only well-formed transactions and removes no other transaction.\<close>

definition callbacks_ok :: "('a tx_context_scheme) platform \<Rightarrow> bool" where
  "callbacks_ok P \<longleftrightarrow> (\<forall>f ctx t m. ctx_ok ctx \<longrightarrow>
     ctx_ok (callback_fn P f ctx t m) \<and> mids ctx - {mID t} \<subseteq> mids (callback_fn P f ctx t m))"

lemma ctx_ok_put_tx: "ctx_ok ctx \<Longrightarrow> tx_ok t \<Longrightarrow> ctx_ok (put_tx t ctx)"
  by (auto simp: ctx_ok_def list_all_iff) (auto simp: put_tx_def)

lemma ctx_ok_sent [simp]: "ctx_ok (ctx\<lparr>sent := x\<rparr>) = ctx_ok ctx" "mids (ctx\<lparr>sent := x\<rparr>) = mids ctx"
  by (simp_all add: ctx_ok_def mids_def)

lemma ctx_ok_remove: "ctx_ok ctx \<Longrightarrow> ctx_ok (transaction_remove t ctx)"
  by (auto simp: ctx_ok_def transactionList_remove sorted_ids_filter list_all_iff)

lemma mids_remove_ok: "ctx_ok ctx \<Longrightarrow> mids (transaction_remove t ctx) = mids ctx - {mID t}"
  by (simp add: ctx_ok_def mids_remove)

lemma run_callback_ok:
  "callbacks_ok P \<Longrightarrow> ctx_ok ctx \<Longrightarrow> ctx_ok (run_callback P t m ctx) \<and> mids ctx - {mID t} \<subseteq> mids (run_callback P t m ctx)"
  by (auto simp: run_callback_def callbacks_ok_def split: option.split)

text \<open>What every operation on one transaction guarantees.\<close>

definition keeps :: "u16 \<Rightarrow> 'a tx_context_scheme \<Rightarrow> 'a tx_context_scheme \<Rightarrow> bool" where
  "keeps i ctx ctx' \<longleftrightarrow> ctx_ok ctx' \<and> mids ctx - {i} \<subseteq> mids ctx'"

lemma keeps_put: "ctx_ok ctx \<Longrightarrow> tx_ok t \<Longrightarrow> keeps i ctx (put_tx t ctx)"
  by (simp add: keeps_def ctx_ok_put_tx)

lemma keeps_remove: "ctx_ok ctx \<Longrightarrow> keeps (mID t) ctx (transaction_remove t ctx)"
  by (simp add: keeps_def ctx_ok_remove mids_remove_ok)

lemma keeps_finish:
  assumes "callbacks_ok P" and "ctx_ok ctx"
  shows "keeps (mID t) ctx (transaction_remove t (run_callback P t m ctx))"
  using run_callback_ok [OF assms, of t m] by (auto simp: keeps_def mids_remove_ok ctx_ok_remove)

lemma prepare_buffer_ok:
  assumes "tx_ok t"
  obtains "prepare_buffer P t = Some None"
  | t' b where "prepare_buffer P t = Some (Some t')" and "buffer t' = Some b" and "unat (buffer_len t') \<le> length b"
      and "mID t' = mID t" and "retrans_counter t' = retrans_counter t" and "callback t' = callback t" and "peerH t' = peerH t"
proof (cases "buffer t")
  case None
  then have s: "sendable (message t)" using assms by (simp add: tx_ok_def)
  have "length (msg_bytes (message t)) < 65536" using msg_bytes_size [of "message t"] s by (simp add: sendable_def)
  then have "unat (of_nat (length (msg_bytes (message t))) :: u16) = length (msg_bytes (message t))"
    by (intro unat_of_nat_small) simp
  then show ?thesis
    using that prepare_buffer_sendable [OF s None, of P] by (cases "mem_ok P (coap_serialize_get_size (message t))") auto
next
  case (Some b)
  then show ?thesis using assms that(2) [of t b] by (simp add: prepare_buffer_def tx_ok_def)
qed

lemma transaction_send_ok:
  assumes cb: "callbacks_ok P" and ok: "ctx_ok ctx" and t: "tx_ok t"
  shows "\<exists>ctx' r. transaction_send P t ctx = Some (ctx', r) \<and> keeps (mID t) ctx ctx' \<and>
    (r = 0 \<longrightarrow> mids ctx \<subseteq> mids ctx')"
  using t
proof (cases rule: prepare_buffer_ok [where P = P])
  case 1
  then show ?thesis using keeps_remove [OF ok] by (simp add: transaction_send_def coap_codes)
next
  case (2 t' b)
  have c: "unat (retrans_counter t') \<le> 6" using t 2 by (simp add: tx_ok_def)
  have tx: "tx_ok (t'\<lparr>retrans_time := x, retrans_counter := y\<rparr>)" if "unat y \<le> 6" for x y
    using 2 that by (simp add: tx_ok_def)
  have exp: "keeps (mID t) ctx (transaction_remove v (run_callback P v None (put_tx v (ctx\<lparr>sent := x\<rparr>))))"
    if "tx_ok v" "mID v = mID t" for v x
    using keeps_finish [OF cb, of "put_tx v (ctx\<lparr>sent := x\<rparr>)" v None] that ok ctx_ok_put_tx [of "ctx\<lparr>sent := x\<rparr>" v]
    by (simp add: keeps_def)
  have exp0: "keeps (mID t) ctx (transaction_remove v (run_callback P v None (put_tx v ctx)))"
    if "tx_ok v" "mID v = mID t" for v
    using exp [OF that, of "sent ctx"] by simp
  have put: "ctx_ok (put_tx v (ctx\<lparr>sent := x\<rparr>))" if "tx_ok v" for v x
    using ok that by (simp add: ctx_ok_put_tx)
  have t': "tx_ok t'" using 2 c by (simp add: tx_ok_def)
  consider "ack_received t'" | "\<not> ack_received t'" "retrans_counter t' = 0"
    | k where "\<not> ack_received t'" "retrans_counter t' = of_nat k" "1 \<le> k" "k \<le> 5"
    | "\<not> ack_received t'" "retrans_counter t' = 6"
  proof -
    define k where "k = unat (retrans_counter t')"
    have k: "retrans_counter t' = of_nat k" "k \<le> 6" using c by (simp_all add: k_def)
    show ?thesis
      using that k by (cases "k = 0"; cases "k = 6"; cases "ack_received t'") auto
  qed
  then show ?thesis
  proof cases
    case 1
    then show ?thesis using 2(1) exp0 [OF t' 2(4)] by (simp add: transaction_send_def expire_transaction_def)
  next
    case 22: 2
    let ?s = "sent ctx @ [(peerH t', take (unat (buffer_len t')) b)]"
    have v: "tx_ok (t'\<lparr>retrans_time := x, retrans_counter := 2\<rparr>)" "tx_ok (t'\<lparr>retrans_counter := 1\<rparr>)" for x
      using 2 by (simp_all add: tx_ok_def)
    then show ?thesis
      using 22 2(1-4) put [OF v(1)] exp [OF v(2)]
      by (auto simp: transaction_send_def lwm2m_buffer_send_def expire_transaction_def keeps_def tx_constants Let_def)
  next
    case (3 k)
    then have "transaction_send P t' ctx = Some (put_tx (t'\<lparr>retrans_time := retrans_time t' + 2 ^ k, retrans_counter := of_nat (Suc k)\<rparr>)
        (ctx\<lparr>sent := sent ctx @ [(peerH t', take (unat (buffer_len t')) b)]\<rparr>), 0)"
      using 2 by (intro transaction_send_again)
    moreover have "transaction_send P t' ctx = transaction_send P t ctx"
      using 2(1,2) by (simp add: transaction_send_def prepare_buffer_def)
    moreover have "unat (of_nat (Suc k) :: u8) \<le> 6" using 3 counter_succ(2) [of "Suc k"] by simp
    ultimately show ?thesis using put [OF tx] by (simp add: keeps_def)
  next
    case 4
    have "transaction_send P t ctx = transaction_send P t' ctx"
      using 2(1,2) by (simp add: transaction_send_def prepare_buffer_def)
    then show ?thesis
      using transaction_send_expired [OF 2(2) 4, of P ctx] exp0 [OF t' 2(4)] by (simp add: expire_transaction_def)
  qed
qed

lemma next_id_sorted:
  "sorted_ids mID ts \<Longrightarrow> next_id ts i = Some j \<Longrightarrow> i < j \<and> j \<in> mID ` set ts"
  by (induction ts i rule: next_id.induct) (auto split: if_splits list.splits)

lemma find_mids: "i \<in> mids ctx \<Longrightarrow> \<exists>t. find (\<lambda>x. mID x = i) (transactionList ctx) = Some t"
  by (auto simp: mids_def not_None_eq [symmetric] find_None_iff simp del: not_None_eq)

lemma find_ctx_ok:
  assumes "ctx_ok ctx" and "find (\<lambda>x. mID x = i) (transactionList ctx) = Some t"
  shows "tx_ok t" and "mID t = i"
  using assms by (auto simp: ctx_ok_def list_all_iff find_Some_iff)

lemma transaction_step_loop_ok:
  assumes cb: "callbacks_ok P"
  shows "ctx_ok ctx \<Longrightarrow> 1 \<le> timeout \<Longrightarrow> (\<forall>i. p = Some i \<longrightarrow> i \<in> mids ctx \<and> 2 ^ 16 \<le> fuel + unat i) \<Longrightarrow>
    \<exists>ctx' w. transaction_step_loop fuel P now p timeout ctx = Some (ctx', w) \<and> ctx_ok ctx' \<and> 1 \<le> w \<and> w \<le> timeout"
proof (induction fuel arbitrary: p timeout ctx)
  case 0
  then show ?case
  proof (cases p)
    case (Some i)
    then show ?thesis using 0 unat_u16_less [of i] by simp
  qed simp
next
  case (Suc fuel)
  show ?case
  proof (cases p)
    case None
    then show ?thesis using Suc.prems by simp
  next
    case (Some i)
    then have i: "i \<in> mids ctx" and fuel: "2 ^ 16 \<le> Suc fuel + unat i" using Suc.prems(3) by auto
    obtain t where f: "find (\<lambda>x. mID x = i) (transactionList ctx) = Some t" using find_mids [OF i] by blast
    have t: "tx_ok t" "mID t = i" using find_ctx_ok [OF Suc.prems(1) f] .
    let ?n = "next_id (transactionList ctx) i"
    have nxt: "j \<in> mids ctx - {i} \<and> 2 ^ 16 \<le> fuel + unat j" if "?n = Some j" for j
      using next_id_sorted [OF _ that] Suc.prems(1) fuel by (auto simp: ctx_ok_def mids_def word_less_nat_alt)
    let ?s = "if retrans_time t \<le> now then transaction_send P t ctx else Some (ctx, 0)"
    obtain ctx' r where s: "?s = Some (ctx', r)" and k: "keeps i ctx ctx'" "r = 0 \<longrightarrow> mids ctx \<subseteq> mids ctx'"
      using transaction_send_ok [OF cb Suc.prems(1) t(1)] t(2) Suc.prems(1) that
      by (cases "retrans_time t \<le> now") (auto simp: keeps_def)
    obtain w where w: "(if r = 0
        then do { t' \<leftarrow> find (\<lambda>x. mID x = i) (transactionList ctx');
                  let interval = (if retrans_time t' > now then retrans_time t' - now else 1);
                  Some (if timeout > interval then interval else timeout) }
        else Some 1) = Some w" and w1: "1 \<le> w" "w \<le> timeout"
    proof (cases "r = 0")
      case True
      then obtain t' where "find (\<lambda>x. mID x = i) (transactionList ctx') = Some t'" using find_mids [of i ctx'] k(2) i by blast
      then show ?thesis using that Suc.prems(2) True by (auto simp: Let_def)
    qed (use that Suc.prems(2) in simp)
    have "\<exists>c v. transaction_step_loop fuel P now ?n w ctx' = Some (c, v) \<and> ctx_ok c \<and> 1 \<le> v \<and> v \<le> w"
      using k(1) nxt w1(1) by (intro Suc.IH) (auto simp: keeps_def)
    then show ?thesis using Some f s w w1(2) by (auto simp: Let_def)
  qed
qed


lemma tx_example_ok: "ctx_ok example_ctx" "callbacks_ok example_platform"
  using example_sendable
  by (auto simp: ctx_ok_def example_ctx_def tx_ok_def callbacks_ok_def example_platform_def example_tx_def)


section \<open>Responses\<close>

text \<open>A message concerns a transaction of its peer when it acknowledges or finishes it.\<close>

definition concerns :: "'c platform \<Rightarrow> session \<Rightarrow> coap_packet_t \<Rightarrow> lwm2m_transaction_t \<Rightarrow> bool" where
  "concerns P s m t \<longleftrightarrow> session_is_equal P s (peerH t) \<and> (fst (snd (ack_transaction m t)) \<or> prv_checkFinished t m)"

lemma handle_response_skip:
  "\<not> concerns P s m t \<Longrightarrow> handle_response_loop P s m resp (t # ts) ctx = handle_response_loop P s m resp ts ctx"
  by (auto simp: concerns_def ack_transaction_def split: if_splits)

lemma handle_response_prefix:
  "\<forall>t\<in>set ts. \<not> concerns P s m t \<Longrightarrow>
   handle_response_loop P s m resp (ts @ us) ctx = handle_response_loop P s m resp us ctx"
  by (induction ts) (simp_all add: handle_response_skip del: handle_response_loop.simps(2))

text \<open>A message that acknowledges or finishes no transaction of its sender is not handled and
  changes nothing.\<close>

theorem response_unmatched:
  assumes "\<forall>t\<in>set (transactionList ctx). \<not> concerns P s m t"
  shows "transaction_handleResponse P s m resp ctx = Some (ctx, resp, False)"
  using handle_response_prefix [OF assms, of resp "[]"] by (simp add: transaction_handleResponse_def)

theorem response_unmatched_witness:
  "transaction_handleResponse example_platform 3 (coap_init_message COAP_TYPE_ACK 0x45 9) None example_ctx
     = Some (example_ctx, None, False)"
  by (rule response_unmatched)
     (simp add: example_ctx_def concerns_def ack_transaction_def prv_checkFinished_def example_tx_def IS_OPTION_def
       coap_init_message_def zero_packet_def)

text \<open>The acknowledgement of a request without a token, from its peer and with a code other than
  4.01, finishes exactly that transaction: its callback gets the message and it is removed, all
  other transactions stay.\<close>

theorem response_finishes:
  fixes P :: "('a tx_context_scheme) platform"
  assumes "transactionList ctx = ts @ t # us" and "\<forall>x\<in>set ts. \<not> concerns P s m x"
    and "session_is_equal P s (peerH t)" and "mtype m = COAP_TYPE_ACK" and "mid m = mID t"
    and "mid (message t) = mID t" and "\<not> IS_OPTION (message t) COAP_OPTION_TOKEN" and "\<not> ack_received t"
    and "code m \<noteq> COAP_401_UNAUTHORIZED"
  shows "transaction_handleResponse P s m resp ctx =
    (let t' = t\<lparr>ack_received := True\<rparr> in
     Some (transaction_remove t' (run_callback P t' (Some m) (put_tx t' ctx)), resp, True))"
proof -
  have "transaction_handleResponse P s m resp ctx = handle_response_loop P s m resp (t # us) ctx"
    unfolding transaction_handleResponse_def assms(1) by (rule handle_response_prefix [OF assms(2)])
  moreover have "ack_transaction m t = (t\<lparr>ack_received := True\<rparr>, True, False)"
    using assms(4,5,8) by (simp add: ack_transaction_def)
  moreover have "prv_checkFinished (t\<lparr>ack_received := True\<rparr>) m"
    using assms(5-7) by (simp add: prv_checkFinished_def)
  ultimately show ?thesis
    using assms(3,4,9) by (simp add: finish_transaction_def Let_def)
qed

theorem response_finishes_witness:
  "transactionList (fst (the (transaction_handleResponse example_platform 3 (coap_init_message COAP_TYPE_ACK 0x45 7) None
     example_ctx))) = []"
proof -
  have "transaction_handleResponse example_platform 3 (coap_init_message COAP_TYPE_ACK 0x45 7) None example_ctx =
    (let t' = example_tx\<lparr>ack_received := True\<rparr> in
     Some (transaction_remove t' (run_callback example_platform t' (Some (coap_init_message COAP_TYPE_ACK 0x45 7))
             (put_tx t' example_ctx)), None, True))"
    by (rule response_finishes [where ts = "[]" and us = "[]"])
       (simp_all add: example_ctx_def example_tx_def example_platform_def coap_init_message_def zero_packet_def
         IS_OPTION_def coap_codes)
  then show ?thesis
    by (simp add: Let_def run_callback_def example_platform_def example_tx_def example_ctx_def put_tx_def transaction_remove_def)
qed

text \<open>The invariant under responses.\<close>

lemma message_send_ctx: "message_send P m s ctx = Some (ctx', m', r) \<Longrightarrow> ctx_ok ctx' = ctx_ok ctx"
  by (auto simp: message_send_def Let_def lwm2m_buffer_send_def split: if_splits bind_splits)

lemma tx_ok_fields [simp]:
  "tx_ok (t\<lparr>retrans_time := x\<rparr>) = tx_ok t" "tx_ok (t\<lparr>ack_received := b\<rparr>) = tx_ok t"
  by (auto simp: tx_ok_def split: option.split)

lemma ack_transaction_ok: "tx_ok t \<Longrightarrow> tx_ok (fst (ack_transaction m t))"
  by (simp add: ack_transaction_def)

lemma finish_transaction_ok:
  assumes "callbacks_ok P" and "ctx_ok ctx" and "tx_ok t" and "finish_transaction P s m resp t reset ctx = Some (ctx', r)"
  shows "ctx_ok ctx'"
proof -
  have t: "tx_ok (t\<lparr>ack_received := False, retrans_time := x\<rparr>)" for x using assms(3) by simp
  have k: "ctx_ok (transaction_remove t (run_callback P t (Some m) c))" if "ctx_ok c" for c
    using keeps_finish [OF assms(1) that] by (simp add: keeps_def)
  show ?thesis
    using assms(2,4) ctx_ok_put_tx [OF _ t] k
    by (fastforce simp: finish_transaction_def split: if_splits bind_splits dest: message_send_ctx)
qed

lemma handle_response_ok:
  assumes "callbacks_ok P"
  shows "ctx_ok ctx \<Longrightarrow> list_all tx_ok ts \<Longrightarrow> handle_response_loop P s m resp ts ctx = Some (ctx', r, b) \<Longrightarrow> ctx_ok ctx'"
proof (induction ts)
  case (Cons t ts)
  obtain t1 found reset where a: "ack_transaction m t = (t1, found, reset)" by (cases "ack_transaction m t")
  have t1: "tx_ok t1" "tx_ok (t1\<lparr>retrans_time := x\<rparr>)" for x
    using Cons.prems(2) ack_transaction_ok [of t m] a by auto
  show ?case
    using Cons a ctx_ok_put_tx [OF Cons.prems(1)] t1 finish_transaction_ok [OF assms ctx_ok_put_tx [OF Cons.prems(1) t1(1)] t1(1)]
    by (auto simp: Let_def split: if_splits bind_splits)
qed simp

section \<open>The transaction system\<close>

text \<open>The steps of the system: new transactions get the next message id, and the callbacks of each
  call are well-behaved.\<close>

inductive tx_reachable :: "'a tx_context_scheme \<Rightarrow> bool" where
  init: "transactionList ctx = [] \<Longrightarrow> tx_reachable ctx"
| add: "tx_reachable ctx \<Longrightarrow> tx_ok t \<Longrightarrow> mID t = nextMID ctx \<Longrightarrow> nextMID ctx \<notin> mids ctx \<Longrightarrow>
    tx_reachable (ctx\<lparr>transactionList := LWM2M_LIST_ADD mID (transactionList ctx) t, nextMID := nextMID ctx + 1\<rparr>)"
| send: "tx_reachable ctx \<Longrightarrow> callbacks_ok P \<Longrightarrow> t \<in> set (transactionList ctx) \<Longrightarrow>
    transaction_send P t ctx = Some (ctx', r) \<Longrightarrow> tx_reachable ctx'"
| step: "tx_reachable ctx \<Longrightarrow> callbacks_ok P \<Longrightarrow> 1 \<le> timeout \<Longrightarrow>
    transaction_step (2 ^ 16) P now timeout ctx = Some (ctx', timeout') \<Longrightarrow> tx_reachable ctx'"
| response: "tx_reachable ctx \<Longrightarrow> callbacks_ok P \<Longrightarrow>
    transaction_handleResponse P s m resp ctx = Some (ctx', resp', b) \<Longrightarrow> tx_reachable ctx'"
| remove: "tx_reachable ctx \<Longrightarrow> tx_reachable (transaction_remove t ctx)"
| remove_client: "tx_reachable ctx \<Longrightarrow> tx_reachable (transaction_remove_client P s ctx)"

lemma remove_client_ok: "ctx_ok ctx \<Longrightarrow> ctx_ok (remove_client_loop P s ts ctx)"
  by (induction ts arbitrary: ctx) (simp_all add: ctx_ok_remove)

lemma ctx_ok_add:
  assumes "ctx_ok ctx" and "tx_ok t" and "mID t \<notin> mids ctx"
  shows "ctx_ok (ctx\<lparr>transactionList := LWM2M_LIST_ADD mID (transactionList ctx) t, nextMID := x\<rparr>)"
  using assms sorted_LWM2M_LIST_ADD [of mID "transactionList ctx" t] by (auto simp: ctx_ok_def mids_def list_all_iff)

lemma ctx_ok_empty: "transactionList ctx = [] \<Longrightarrow> ctx_ok ctx"
  by (simp add: ctx_ok_def)

lemma tx_reachable_ok: "tx_reachable ctx \<Longrightarrow> ctx_ok ctx"
proof (induction rule: tx_reachable.induct)
  case (add ctx t)
  then show ?case by (intro ctx_ok_add) simp_all
next
  case (send ctx P t ctx' r)
  then have "tx_ok t" by (simp add: ctx_ok_def list_all_iff)
  then show ?case using transaction_send_ok [OF send.hyps(2) send.IH, of t] send.hyps(4) by (auto simp: keeps_def)
next
  case (step ctx P timeout now ctx' timeout')
  then have "\<exists>c v. transaction_step (2 ^ 16) P now timeout ctx = Some (c, v) \<and> ctx_ok c \<and> 1 \<le> v \<and> v \<le> timeout"
    unfolding transaction_step_def
    by (intro transaction_step_loop_ok) (auto simp: mids_def split: list.splits)
  then show ?case using step.hyps(4) by simp
next
  case (response ctx P s m resp ctx' resp' b)
  then show ?case
    using handle_response_ok [OF response.hyps(2) response.IH, of "transactionList ctx" s m resp ctx' resp' b]
    by (simp add: transaction_handleResponse_def ctx_ok_def)
qed (simp_all add: ctx_ok_empty ctx_ok_remove remove_client_ok transaction_remove_client_def)



section \<open>New requests\<close>

lemma id_segment_eq: "id_segment i = Some (Some (dec_text (unat i)))"
proof -
  let ?d = "ucast i :: u64"
  have d: "unat ?d = unat i" by (simp add: unat_ucast_up)
  have "uint ?d = int (unat ?d)" by (simp only: unat_eq_nat_uint int_nat_eq unsigned_greater_eq if_True)
  then have "uint ?d < 2 ^ 63" unfolding d
    using unat_u16_less [of i] by (simp only:) (simp only: of_nat_less_iff [where 'a = int, symmetric] power_numeral, simp)
  then have "signed_take_bit 63 (uint ?d) = uint ?d"
    by (intro signed_take_bit_int_eq_self) (simp_all add: order_trans [OF _ unsigned_greater_eq])
  moreover have "sint ?d = signed_take_bit 63 (uint ?d)" by (simp add: sint_uint)
  ultimately have "sint ?d = uint ?d" by (simp only:)
  then have nn: "\<not> sint ?d < 0" by (simp only: not_less unsigned_greater_eq simp_thms)
  have "unat i < 10 ^ 5" using unat_u16_less [of i] by simp
  then have l: "length (dec_text (unat i)) \<le> 5" by (rule dec_text_length_less) simp
  obtain b where b: "utils_uintToText ?d (replicate 6 0) = Some (b, length (dec_text (unat i)))" "length b = 6"
    "take (length (dec_text (unat i))) b = dec_text (unat i)"
    using utils_uintToText_fits [of ?d "replicate 6 0"] l d by auto
  then show ?thesis
    using l nn by (simp add: id_segment_def utils_intToText_def LWM2M_STRING_ID_MAX_LEN_def)
qed

lemma add_id_segments_eq:
  assumes "\<And>n. mem n"
  shows "add_id_segments mem is p = Some (Some (if is = [] then p
     else p\<lparr>options := insert 11 (options p), uri_path := uri_path p @ map (\<lambda>i. dec_text (unat i)) is\<rparr>))"
proof (induction "is" arbitrary: p)
  case (Cons i "is")
  have "unat i < 10 ^ 5" using unat_u16_less [of i] by simp
  then have "length (dec_text (unat i)) \<le> 5" by (rule dec_text_length_less) simp
  then have "coap_add_multi_option mem (uri_path p) (dec_text (unat i)) False = uri_path p @ [dec_text (unat i)]"
    by (intro add_multi_dynamic [of mem, OF assms]) simp
  then show ?case
    using Cons.IH by (simp add: id_segment_eq coap_set_header_uri_path_segment_def SET_OPTION_def option_numbers)
qed simp

lemma uri_set_ids_of: "uri_ids ids \<Longrightarrow> uri_set_ids (Some (uri_of ids)) = ids"
  by (erule uri_ids_cases) (simp_all add: uri_set_ids_def uri_of_def uri_set_defs)

text \<open>The message of a new transaction for a path, without alternative path.\<close>

definition request_packet :: "u8 \<Rightarrow> u16 \<Rightarrow> u16 list \<Rightarrow> bytes \<Rightarrow> coap_packet_t" where
  "request_packet method m ids tok = (coap_init_message COAP_TYPE_CON method m)\<lparr>
     options := (if ids = [] then {} else {11}) \<union> (if tok = [] then {} else {19}),
     uri_path := map (\<lambda>i. dec_text (unat i)) ids, token := take 8 tok\<rparr>"

lemma transaction_new_request:
  assumes "uri_set_ids uriP = ids" and "\<And>n. mem_ok P n" and "s \<noteq> 0" and "length tok < 256"
  shows "transaction_new P s method None uriP m (of_nat (length tok)) (Some tok) stack =
    Some (Some \<lparr>mID = m, peerH = s, ack_received = False, retrans_counter = 0, retrans_time = 0,
       message = request_packet method m ids tok, buffer_len = 0, buffer = None, tx_payload = None, callback = None,
       userData = 0\<rparr>)"
proof -
  have u: "unat (of_nat (length tok) :: u8) = length tok" using assms(4) by (intro unat_of_nat_small) simp
  then have z: "(0 :: u8) < of_nat (length tok) \<longleftrightarrow> tok \<noteq> []" by (simp add: word_less_nat_alt)
  show ?thesis
    using assms(2,3) u z
    by (auto simp: transaction_new_def add_id_segments_eq [of "mem_ok P", OF assms(2)] assms(1)
        request_packet_def coap_set_header_token_def SET_OPTION_def option_numbers coap_sizes Let_def
        coap_init_message_def zero_packet_def min_def)
qed

lemma request_packet_wf:
  assumes "uri_ids ids" and "method \<noteq> 0"
  shows "coap_wf (request_packet method m ids tok)" "size_ok (request_packet method m ids tok)"
    "coap_serialize_get_size (request_packet method m ids tok) \<le> 128"
proof -
  have l: "length (dec_text (unat i)) \<le> 5" for i :: u16
    using unat_u16_less [of i] by (intro dec_text_length_less) simp_all
  then have "list_all (\<lambda>x. length x \<le> 255) (map (\<lambda>i. dec_text (unat i)) ids)"
    by (auto simp: list_all_iff intro: order_trans [OF l])
  then show "coap_wf (request_packet method m ids tok)" "size_ok (request_packet method m ids tok)"
    using assms(2)
    by (auto simp: coap_wf_def size_ok_def request_packet_def multi_ok_def unset_zero_def limits_ok_def known_options_def
        IS_OPTION_def option_numbers coap_init_message_def zero_packet_def COAP_EMPTY_MESSAGE_CODE_def)
  have "sum_list (map (\<lambda>s. 5 + length s) (map (\<lambda>i. dec_text (unat i)) ids)) \<le> sum_list (map (\<lambda>_. 10) ids)"
    unfolding map_map comp_def using l by (intro sum_list_mono) simp
  also have "\<dots> \<le> 40" using assms(1) by (simp add: uri_ids_def sum_list_triv)
  finally show "coap_serialize_get_size (request_packet method m ids tok) \<le> 128"
    by (simp add: coap_serialize_get_size_def request_packet_def IS_OPTION_def option_numbers coap_init_message_def
        zero_packet_def payload_len_def coap_sizes Let_def) linarith
qed

text \<open>A request for a path is created ready to be sent: its message is within the limits of the
  serializer, and parsing the serialized message gives a request with the same method, message id
  and token whose Uri-Path spells the path.\<close>

theorem request_transaction_ready:
  assumes "uri_ids ids" and "\<forall>n. mem_ok P n" and "s \<noteq> 0" and "method \<noteq> 0" and "length tok < 256"
  shows "\<exists>t q. transaction_new P s method None (Some (uri_of ids)) m (of_nat (length tok)) (Some tok) stack = Some (Some t) \<and>
    tx_ok t \<and> peerH t = s \<and> mID t = m \<and>
    coap_parse_message (\<lambda>_. True) (msg_bytes (message t)) = (COAP_NO_ERROR, q) \<and> mtype q = COAP_TYPE_CON \<and>
    code q = method \<and> mid q = m \<and> token q = take 8 tok \<and> uri_path q = map (\<lambda>i. dec_text (unat i)) ids"
proof -
  let ?p = "request_packet method m ids tok"
  note wf = request_packet_wf [OF assms(1,4), of m tok]
  have "multi_ok ?p" using wf(1) by (simp add: coap_wf_def)
  then have "sendable ?p" using wf by (simp add: sendable_def)
  moreover have "coap_parse_message (\<lambda>_. True) (msg_bytes ?p) = (COAP_NO_ERROR, received ?p)"
    by (rule parse_msg_bytes [OF wf(1)]) simp
  ultimately show ?thesis
    using transaction_new_request [OF uri_set_ids_of [OF assms(1)], of P s tok _ m stack] assms(2-5)
    by (simp add: tx_ok_def received_def request_packet_def coap_init_message_def zero_packet_def)
qed

theorem request_transaction_ready_witness:
  "\<exists>t q. transaction_new example_platform 3 1 None (Some (uri_of [3, 0, 9])) 77 2 (Some [5, 6]) [] = Some (Some t) \<and>
    tx_ok t \<and> peerH t = 3 \<and> mID t = 77 \<and>
    coap_parse_message (\<lambda>_. True) (msg_bytes (message t)) = (COAP_NO_ERROR, q) \<and> mtype q = COAP_TYPE_CON \<and>
    code q = 1 \<and> mid q = 77 \<and> token q = [5, 6] \<and> uri_path q = map (\<lambda>i. dec_text (unat i)) [3 :: u16, 0, 9]"
  using request_transaction_ready [of "[3, 0, 9]" example_platform 3 1 "[5, 6]" 77 "[]"]
  by (simp add: uri_ids_def LWM2M_MAX_ID_def example_platform_def)

end
