(* ===== verification/Packet.thy ===== *)
theory Packet
  imports Coap_Block Coap_Transaction
begin

text \<open>
  Block-wise exchanges at the message layer, \<^verbatim>\<open>core/packet.c\<close>: the block size setting, the
  transactions that send the blocks of a payload (Block1), and the test for messages that are too
  large.

  The static variable \<open>coap_block_size\<close> is the argument \<open>block_size\<close> of the functions that read it.
\<close>

section \<open>Block size\<close>

definition validate_block_size :: "u16 \<Rightarrow> bool" where
  "validate_block_size n \<longleftrightarrow> n \<in> set [16, 32, 64, 128, 256, 512, 1024]"

definition lwm2m_set_coap_block_size :: "u16 \<Rightarrow> u16 \<Rightarrow> u16 \<times> bool" where
  "lwm2m_set_coap_block_size coap_block_size arg =
     (if validate_block_size arg then (arg, True) else (coap_block_size, False))"

definition lwm2m_get_coap_block_size :: "u16 \<Rightarrow> u16" where
  "lwm2m_get_coap_block_size coap_block_size = coap_block_size"

definition lwm2m_get_coap_message_size :: u16 where
  "lwm2m_get_coap_message_size = of_nat LWM2M_COAP_MAX_MESSAGE_SIZE"

definition is_message_too_large :: "u16 \<Rightarrow> coap_packet_t \<Rightarrow> nat \<Rightarrow> bool" where
  "is_message_too_large block_size m packet_size =
     (if IS_OPTION m COAP_OPTION_BLOCK1 \<or> IS_OPTION m COAP_OPTION_BLOCK2
      then payload_len m > unat (lwm2m_get_coap_block_size block_size)
      else packet_size > LWM2M_COAP_MAX_MESSAGE_SIZE)"

section \<open>Transactions for blocks\<close>

definition prv_get_transaction ::
  "('a tx_context_scheme) platform \<Rightarrow> 'a tx_context_scheme \<Rightarrow> session \<Rightarrow> u16 \<Rightarrow> lwm2m_transaction_t option" where
  "prv_get_transaction P ctx s m = find (\<lambda>t. session_is_equal P s (peerH t) \<and> mID t = m) (transactionList ctx)"

text \<open>The options that are copied to the message of the next block.  The strings for Proxy-Uri,
  Uri-Host and Location-Query are kept in arrays of inner blocks of the function and the packet
  keeps pointers to them: the later use of these pointers is undefined, and every caller
  serializes the packet, so the copy itself is counted as undefined.\<close>

definition copy_block_options :: "coap_packet_t \<Rightarrow> coap_packet_t \<Rightarrow> coap_packet_t c" where
  "copy_block_options m p =
     (if IS_OPTION m COAP_OPTION_PROXY_URI \<or> IS_OPTION m COAP_OPTION_URI_HOST \<or> IS_OPTION m COAP_OPTION_LOCATION_QUERY
      then None
      else Some (
        let p = fst (coap_set_header_content_type p (ucast (type_num (mtype m))));
            p = (if IS_OPTION m COAP_OPTION_ETAG then fst (coap_set_header_etag p (etag m)) else p);
            p = (if IS_OPTION m COAP_OPTION_URI_PORT then coap_set_header_uri_port p (uri_port m) else p);
            p = (if IS_OPTION m COAP_OPTION_LOCATION_PATH
                 then SET_OPTION COAP_OPTION_LOCATION_PATH (p\<lparr>location_path := location_path m\<rparr>) else p);
            p = (if IS_OPTION m COAP_OPTION_CONTENT_TYPE
                 then SET_OPTION COAP_OPTION_CONTENT_TYPE (p\<lparr>content_type := content_type m\<rparr>) else p);
            p = (if IS_OPTION m COAP_OPTION_URI_PATH
                 then SET_OPTION COAP_OPTION_URI_PATH (p\<lparr>uri_path := uri_path m\<rparr>) else p);
            p = (if IS_OPTION m COAP_OPTION_OBSERVE then fst (coap_set_header_observe p (observe m)) else p);
            p = foldl (\<lambda>p a. fst (coap_set_header_accept p a)) p (accept m);
            p = (if IS_OPTION m COAP_OPTION_IF_MATCH then fst (coap_set_header_if_match p (if_match m)) else p);
            p = (if IS_OPTION m COAP_OPTION_URI_QUERY
                 then SET_OPTION COAP_OPTION_URI_QUERY (p\<lparr>uri_query := uri_query m\<rparr>) else p);
            p = (if IS_OPTION m COAP_OPTION_IF_NONE_MATCH then fst (coap_set_header_if_none_match p) else p)
        in p))"

text \<open>The datagram sent before is parsed again; \<open>None\<close> inside is the null pointer.\<close>

definition prv_create_next_block_transaction ::
  "'c platform \<Rightarrow> lwm2m_transaction_t \<Rightarrow> u16 \<Rightarrow> lwm2m_transaction_t option c" where
  "prv_create_next_block_transaction P t nextMid =
     do { bytes \<leftarrow> (case buffer t of None \<Rightarrow> if buffer_len t = 0 then Some [] else None
                                 | Some b \<Rightarrow> rd_range b 0 (unat (buffer_len t)));
          (case coap_parse_message (mem_ok P) bytes of (status, m) \<Rightarrow>
             if status \<noteq> COAP_NO_ERROR then Some None
             else do {
               r \<leftarrow> transaction_new P (peerH t) (code m) None None nextMid (of_nat (length (token m))) (Some (token m)) [];
               (case r of
                  None \<Rightarrow> Some None
                | Some clone \<Rightarrow> do {
                    p \<leftarrow> copy_block_options m (message clone);
                    let pl = (case tx_payload t of None \<Rightarrow> [] | Some b \<Rightarrow> b);
                    if \<not> mem_ok P (length pl) then Some None
                    else Some (Some (clone\<lparr>message := p, tx_payload := Some pl, callback := callback t,
                                           userData := userData t\<rparr>)) }) }) }"

definition tx_payload_len :: "lwm2m_transaction_t \<Rightarrow> nat" where
  "tx_payload_len t = (case tx_payload t of None \<Rightarrow> 0 | Some b \<Rightarrow> length b)"

text \<open>Appending a transaction to the context and sending it.\<close>

definition add_and_send ::
  "('a tx_context_scheme) platform \<Rightarrow> lwm2m_transaction_t \<Rightarrow> 'a tx_context_scheme \<Rightarrow> ('a tx_context_scheme \<times> int) c" where
  "add_and_send P t ctx =
     transaction_send P t (ctx\<lparr>transactionList := LWM2M_LIST_ADD mID (transactionList ctx) t\<rparr>)"

definition prv_send_new_block1 ::
  "('a tx_context_scheme) platform \<Rightarrow> lwm2m_transaction_t \<Rightarrow> u32 \<Rightarrow> u16 \<Rightarrow> 'a tx_context_scheme \<Rightarrow>
   ('a tx_context_scheme \<times> int) c" where
  "prv_send_new_block1 P previous block_num size_arg ctx =
     (let off = unat block_num * unat size_arg in
      if off \<ge> tx_payload_len previous then Some (ctx, 0)
      else do {
        r \<leftarrow> prv_create_next_block_transaction P previous (nextMID ctx);
        let ctx = ctx\<lparr>nextMID := nextMID ctx + 1\<rparr>;
        (case r of
           None \<Rightarrow> Some (ctx, uint COAP_500_INTERNAL_SERVER_ERROR)
         | Some nxt \<Rightarrow> do {
             pl \<leftarrow> tx_payload nxt;
             let remaining = length pl - off;
             let p = fst (coap_set_header_block1 (message nxt) block_num (if remaining > unat size_arg then 1 else 0) size_arg);
             block \<leftarrow> rd_range pl (unat (block_num * ucast size_arg)) (min (unat size_arg) remaining);
             let p = fst (coap_set_payload p (Some block));
             add_and_send P (nxt\<lparr>message := p\<rparr>) ctx }) })"

text \<open>Division by zero is undefined.\<close>

definition prv_send_next_block1 ::
  "('a tx_context_scheme) platform \<Rightarrow> session \<Rightarrow> u16 \<Rightarrow> u16 \<Rightarrow> 'a tx_context_scheme \<Rightarrow> ('a tx_context_scheme \<times> int) c" where
  "prv_send_next_block1 P s m size_arg ctx =
     (case prv_get_transaction P ctx s m of
        None \<Rightarrow> Some (ctx, uint COAP_500_INTERNAL_SERVER_ERROR)
      | Some t \<Rightarrow>
          let p = message t;
              size_arg = (if size_arg > block1_size p \<or> size_arg = 0 then block1_size p else size_arg) in
          do { block_num \<leftarrow> (if block1_num p = 0
                             then if size_arg = 0 then None else Some (ucast (block1_size p div size_arg))
                             else Some (block1_num p + 1));
               prv_send_new_block1 P t block_num size_arg ctx })"

text \<open>The loop of \<open>prv_change_to_block1\<close> ends because \<open>16 << n\<close> exceeds 16 bits at \<open>n = 12\<close>.\<close>

fun change_size_loop :: "nat \<Rightarrow> nat \<Rightarrow> u16 \<Rightarrow> u16 \<Rightarrow> u16" where
  "change_size_loop 0 n size16 result = result"
| "change_size_loop (Suc fuel) n size16 result =
     (if 16 * 2 ^ n \<le> unat size16 then change_size_loop fuel (n + 1) size16 (push_bit n 16) else result)"

text \<open>The transaction is used without a test for the null pointer.\<close>

definition prv_change_to_block1 ::
  "('a tx_context_scheme) platform \<Rightarrow> u16 \<Rightarrow> session \<Rightarrow> u16 \<Rightarrow> u32 \<Rightarrow> 'a tx_context_scheme \<Rightarrow>
   ('a tx_context_scheme \<times> int) c" where
  "prv_change_to_block1 P block_size s m sz ctx =
     do { t \<leftarrow> prv_get_transaction P ctx s m;
          let n = min (change_size_loop 16 1 (ucast sz) 16) (lwm2m_get_coap_block_size block_size);
          prv_send_new_block1 P t 0 n ctx }"

definition prv_retry_block1 ::
  "('a tx_context_scheme) platform \<Rightarrow> session \<Rightarrow> u16 \<Rightarrow> u16 \<Rightarrow> 'a tx_context_scheme \<Rightarrow> ('a tx_context_scheme \<times> int) c" where
  "prv_retry_block1 P s m size_arg ctx =
     (case prv_get_transaction P ctx s m of
        None \<Rightarrow> Some (ctx, uint COAP_500_INTERNAL_SERVER_ERROR)
      | Some t \<Rightarrow>
          let p = message t in
          if \<not> IS_OPTION p COAP_OPTION_BLOCK1 then prv_send_new_block1 P t 0 size_arg ctx
          else let n = (if size_arg = block1_size p \<and> size_arg > 16 then size_arg div 2 else size_arg) in
          if n \<ge> block1_size p \<or> n = 0 then Some (ctx, uint COAP_400_BAD_REQUEST)
          else prv_send_new_block1 P t (block1_num p) n ctx)"

section \<open>The message of the next block\<close>

text \<open>Each copying step stores the value of the option, set or not, when the fields of options that
  are not set are zero on both sides.\<close>

lemma copy_steps:
  "S = options p \<union> ({4} \<inter> options m) \<Longrightarrow> 4 \<notin> options m \<longrightarrow> etag m = etag p \<Longrightarrow> length (etag m) \<le> 8 \<Longrightarrow>
   (if IS_OPTION m COAP_OPTION_ETAG then fst (coap_set_header_etag p (etag m)) else p) =
     p\<lparr>etag := etag m, options := S\<rparr>"
  "S = options p \<union> ({7} \<inter> options m) \<Longrightarrow> 7 \<notin> options m \<longrightarrow> uri_port m = uri_port p \<Longrightarrow>
   (if IS_OPTION m COAP_OPTION_URI_PORT then coap_set_header_uri_port p (uri_port m) else p) =
     p\<lparr>uri_port := uri_port m, options := S\<rparr>"
  "S = options p \<union> ({8} \<inter> options m) \<Longrightarrow> 8 \<notin> options m \<longrightarrow> location_path m = location_path p \<Longrightarrow>
   (if IS_OPTION m COAP_OPTION_LOCATION_PATH then SET_OPTION COAP_OPTION_LOCATION_PATH (p\<lparr>location_path := location_path m\<rparr>) else p) =
     p\<lparr>location_path := location_path m, options := S\<rparr>"
  "S = options p \<union> ({12} \<inter> options m) \<Longrightarrow> (if IS_OPTION m COAP_OPTION_CONTENT_TYPE then SET_OPTION COAP_OPTION_CONTENT_TYPE (p\<lparr>content_type := content_type m\<rparr>) else p) =
     p\<lparr>content_type := (if 12 \<in> options m then content_type m else content_type p), options := S\<rparr>"
  "S = options p \<union> ({11} \<inter> options m) \<Longrightarrow> 11 \<notin> options m \<longrightarrow> uri_path m = uri_path p \<Longrightarrow>
   (if IS_OPTION m COAP_OPTION_URI_PATH then SET_OPTION COAP_OPTION_URI_PATH (p\<lparr>uri_path := uri_path m\<rparr>) else p) =
     p\<lparr>uri_path := uri_path m, options := S\<rparr>"
  "S = options p \<union> ({6} \<inter> options m) \<Longrightarrow> 6 \<notin> options m \<longrightarrow> observe m = observe p \<Longrightarrow> 0x00FFFFFF AND observe m = observe m \<Longrightarrow>
   (if IS_OPTION m COAP_OPTION_OBSERVE then fst (coap_set_header_observe p (observe m)) else p) =
     p\<lparr>observe := observe m, options := S\<rparr>"
  "S = options p \<union> ({1} \<inter> options m) \<Longrightarrow> 1 \<notin> options m \<longrightarrow> if_match m = if_match p \<Longrightarrow> length (if_match m) \<le> 8 \<Longrightarrow>
   (if IS_OPTION m COAP_OPTION_IF_MATCH then fst (coap_set_header_if_match p (if_match m)) else p) =
     p\<lparr>if_match := if_match m, options := S\<rparr>"
  "S = options p \<union> ({15} \<inter> options m) \<Longrightarrow> 15 \<notin> options m \<longrightarrow> uri_query m = uri_query p \<Longrightarrow>
   (if IS_OPTION m COAP_OPTION_URI_QUERY then SET_OPTION COAP_OPTION_URI_QUERY (p\<lparr>uri_query := uri_query m\<rparr>) else p) =
     p\<lparr>uri_query := uri_query m, options := S\<rparr>"
  "S = options p \<union> ({5} \<inter> options m) \<Longrightarrow> (if IS_OPTION m COAP_OPTION_IF_NONE_MATCH then fst (coap_set_header_if_none_match p) else p) =
     p\<lparr>options := S\<rparr>"
  by (auto simp: IS_OPTION_def SET_OPTION_def option_numbers coap_set_header_etag_def coap_set_header_uri_port_def
      coap_set_header_observe_def coap_set_header_if_match_def coap_set_header_if_none_match_def coap_sizes Let_def)

lemma fold_accept:
  "length (accept p) + length as \<le> 2 \<Longrightarrow> foldl (\<lambda>p a. fst (coap_set_header_accept p a)) p as =
     p\<lparr>accept := accept p @ as, options := options p \<union> (if as = [] then {} else {17})\<rparr>"
proof (induction as arbitrary: p)
  case (Cons a as)
  then have "foldl (\<lambda>p a. fst (coap_set_header_accept p a)) (fst (coap_set_header_accept p a)) as =
      (fst (coap_set_header_accept p a))\<lparr>accept := accept (fst (coap_set_header_accept p a)) @ as,
         options := options (fst (coap_set_header_accept p a)) \<union> (if as = [] then {} else {17})\<rparr>"
    by (intro Cons.IH) (simp add: coap_set_header_accept_def Let_def SET_OPTION_def option_numbers coap_sizes)
  then show ?case
    using Cons.prems by (auto simp: coap_set_header_accept_def Let_def SET_OPTION_def option_numbers coap_sizes)
qed simp

definition block_options :: "nat set" where
  "block_options = {1, 4, 5, 6, 7, 8, 11, 12, 15, 17, 19}"

definition block_packet :: "coap_packet_t \<Rightarrow> u16 \<Rightarrow> coap_packet_t" where
  "block_packet m msgId = (coap_init_message COAP_TYPE_CON (code m) msgId)\<lparr>
     options := insert 12 (options m \<inter> block_options),
     token := token m, content_type := (if 12 \<in> options m then content_type m else ucast (type_num (mtype m))),
     etag := etag m, uri_port := uri_port m, location_path := location_path m, uri_path := uri_path m,
     observe := observe m, accept := accept m, if_match := if_match m, uri_query := uri_query m\<rparr>"

lemma observe_small: "x < 2 ^ 24 \<Longrightarrow> (0x00FFFFFF AND x :: u32) = x"
proof -
  assume "x < 2 ^ 24"
  then have "take_bit 24 x = x" using high_bits_zero [of x 24] by (intro bit_word_eqI) (auto simp: bit_simps)
  then show ?thesis by (simp add: take_bit_eq_mask mask_eq_exp_minus_1 ac_simps)
qed

lemma copy_block_options_eq:
  assumes wf: "coap_wf m" and host: "3 \<notin> options m" and obs: "observe m < 2 ^ 24"
  shows "copy_block_options m (request_packet (code m) msgId [] (token m)) = Some (block_packet m msgId)"
proof -
  have z: "unset_zero m" and l: "limits_ok m" and sub: "options m \<subseteq> known_options" and mu: "multi_ok m"
    and tk: "19 \<in> options m \<longleftrightarrow> token m \<noteq> []"
    using wf by (simp_all add: coap_wf_def)
  have u: "4 \<notin> options m \<longrightarrow> etag m = []" "6 \<notin> options m \<longrightarrow> observe m = 0" "7 \<notin> options m \<longrightarrow> uri_port m = 0"
    "8 \<notin> options m \<longrightarrow> location_path m = []" "11 \<notin> options m \<longrightarrow> uri_path m = []" "15 \<notin> options m \<longrightarrow> uri_query m = []"
    "17 \<notin> options m \<longrightarrow> accept m = []" "1 \<notin> options m \<longrightarrow> if_match m = []"
    using z by (simp_all add: unset_zero_def)
  have lim: "length (etag m) \<le> 8" "length (if_match m) \<le> 8" "length (accept m) \<le> 2" "length (token m) \<le> 8"
    using l by (simp_all add: limits_ok_def)
  have acc: "accept m = [] \<longleftrightarrow> 17 \<notin> options m" using mu u(7) by (auto simp: multi_ok_def IS_OPTION_def option_numbers)
  have no: "\<not> IS_OPTION m COAP_OPTION_PROXY_URI" "\<not> IS_OPTION m COAP_OPTION_URI_HOST" "\<not> IS_OPTION m COAP_OPTION_LOCATION_QUERY"
    using sub host by (auto simp: IS_OPTION_def option_numbers known_options_def)
  define q0 where "q0 = request_packet (code m) msgId [] (token m)"
  define X1 where "X1 = insert 12 (options q0)"
  define q1 where "q1 = q0\<lparr>content_type := ucast (type_num (mtype m)), options := X1\<rparr>"
  define X2 where "X2 = X1 \<union> ({4} \<inter> options m)"
  define q2 where "q2 = q1\<lparr>etag := etag m, options := X2\<rparr>"
  define X3 where "X3 = X2 \<union> ({7} \<inter> options m)"
  define q3 where "q3 = q2\<lparr>uri_port := uri_port m, options := X3\<rparr>"
  define X4 where "X4 = X3 \<union> ({8} \<inter> options m)"
  define q4 where "q4 = q3\<lparr>location_path := location_path m, options := X4\<rparr>"
  define X5 where "X5 = X4 \<union> ({12} \<inter> options m)"
  define q5 where "q5 = q4\<lparr>content_type := (if 12 \<in> options m then content_type m else content_type q4), options := X5\<rparr>"
  define X6 where "X6 = X5 \<union> ({11} \<inter> options m)"
  define q6 where "q6 = q5\<lparr>uri_path := uri_path m, options := X6\<rparr>"
  define X7 where "X7 = X6 \<union> ({6} \<inter> options m)"
  define q7 where "q7 = q6\<lparr>observe := observe m, options := X7\<rparr>"
  define X8 where "X8 = X7 \<union> (if accept m = [] then {} else {17})"
  define q8 where "q8 = q7\<lparr>accept := accept q7 @ accept m, options := X8\<rparr>"
  define X9 where "X9 = X8 \<union> ({1} \<inter> options m)"
  define q9 where "q9 = q8\<lparr>if_match := if_match m, options := X9\<rparr>"
  define X10 where "X10 = X9 \<union> ({15} \<inter> options m)"
  define q10 where "q10 = q9\<lparr>uri_query := uri_query m, options := X10\<rparr>"
  define X11 where "X11 = X10 \<union> ({5} \<inter> options m)"
  define q11 where "q11 = q10\<lparr>options := X11\<rparr>"
  note q = q0_def q1_def q2_def q3_def q4_def q5_def q6_def q7_def q8_def q9_def q10_def q11_def request_packet_def
    coap_init_message_def zero_packet_def
  note X = X1_def X2_def X3_def X4_def X5_def X6_def X7_def X8_def X9_def X10_def X11_def
  have s1: "fst (coap_set_header_content_type q0 (ucast (type_num (mtype m)))) = q1"
    by (simp add: q1_def X1_def coap_set_header_content_type_def SET_OPTION_def option_numbers)
  have f: "etag q1 = []" "uri_port q2 = 0" "location_path q3 = []" "uri_path q5 = []" "observe q6 = 0" "accept q7 = []"
    "if_match q8 = []" "uri_query q9 = []"
    by (simp_all add: q)
  have o: "X2 = options q1 \<union> ({4} \<inter> options m)" "X3 = options q2 \<union> ({7} \<inter> options m)" "X4 = options q3 \<union> ({8} \<inter> options m)"
    "X5 = options q4 \<union> ({12} \<inter> options m)" "X6 = options q5 \<union> ({11} \<inter> options m)" "X7 = options q6 \<union> ({6} \<inter> options m)"
    "X8 = options q7 \<union> (if accept m = [] then {} else {17})" "X9 = options q8 \<union> ({1} \<inter> options m)"
    "X10 = options q9 \<union> ({15} \<inter> options m)" "X11 = options q10 \<union> ({5} \<inter> options m)"
    by (simp_all add: q2_def q3_def q4_def q5_def q6_def q7_def q8_def q9_def q10_def q1_def X2_def X3_def X4_def X5_def
        X6_def X7_def X8_def X9_def X10_def X11_def)
  have acc8: "foldl (\<lambda>p a. fst (coap_set_header_accept p a)) q7 (accept m) = q8"
    using fold_accept [of q7 "accept m"] f(6) lim(3) by (simp add: q8_def o(7))
  note s2 = copy_steps(1) [OF o(1), folded q2_def] copy_steps(2) [OF o(2), folded q3_def] copy_steps(3) [OF o(3), folded q4_def]
    copy_steps(4) [OF o(4), folded q5_def] copy_steps(5) [OF o(5), folded q6_def] copy_steps(6) [OF o(6), folded q7_def]
    copy_steps(7) [OF o(8), folded q9_def] copy_steps(8) [OF o(9), folded q10_def] copy_steps(9) [OF o(10), folded q11_def]
  note s3 = s2(1) [OF _ lim(1)] s2(2-5) s2(6) [OF _ observe_small [OF obs]] s2(7) [OF _ lim(2)] s2(8,9)
  have "copy_block_options m q0 = Some q11"
    unfolding copy_block_options_def Let_def s1 using no f u
    by (simp only: s3 acc8 if_False simp_thms)
  moreover have "q11 = block_packet m msgId"
  proof -
    have "X11 = insert 12 ((if token m = [] then {} else {19}) \<union> (if accept m = [] then {} else {17}) \<union>
        (\<Union>n\<in>{4, 7, 8, 12, 11, 6, 1, 15, 5}. {n} \<inter> options m))"
      by (simp add: X q0_def request_packet_def ac_simps)
    also have "\<dots> = insert 12 (options m \<inter> block_options)"
      using tk acc by (auto simp: block_options_def)
    finally have "X11 = insert 12 (options m \<inter> block_options)" .
    then show ?thesis using lim(4) by (simp add: q block_packet_def)
  qed
  ultimately show ?thesis by (simp add: q0_def)
qed

section \<open>Sending the blocks of a payload\<close>

text \<open>A transaction whose datagram, the serialized message \<open>m\<close>, was sent.\<close>

definition sent_as :: "lwm2m_transaction_t \<Rightarrow> coap_packet_t \<Rightarrow> bool" where
  "sent_as t m \<longleftrightarrow> (\<exists>b. buffer t = Some b \<and> unat (buffer_len t) \<le> length b \<and> take (unat (buffer_len t)) b = msg_bytes m)"

definition block_copyable :: "coap_packet_t \<Rightarrow> bool" where
  "block_copyable m \<longleftrightarrow> coap_wf m \<and> 3 \<notin> options m \<and> observe m < 2 ^ 24 \<and> code m \<noteq> COAP_EMPTY_MESSAGE_CODE"

definition block_clone :: "lwm2m_transaction_t \<Rightarrow> coap_packet_t \<Rightarrow> u16 \<Rightarrow> lwm2m_transaction_t" where
  "block_clone t m msgId = \<lparr>mID = msgId, peerH = peerH t, ack_received = False, retrans_counter = 0, retrans_time = 0,
     message = block_packet m msgId, buffer_len = 0, buffer = None,
     tx_payload = Some (case tx_payload t of None \<Rightarrow> [] | Some b \<Rightarrow> b), callback = callback t, userData = userData t\<rparr>"

lemma received_fields:
  "IS_OPTION (received m) n = IS_OPTION m n" "mtype (received m) = mtype m" "code (received m) = code m"
  "token (received m) = token m" "etag (received m) = etag m" "uri_port (received m) = uri_port m"
  "location_path (received m) = location_path m" "content_type (received m) = content_type m"
  "uri_path (received m) = uri_path m" "observe (received m) = observe m" "accept (received m) = accept m"
  "if_match (received m) = if_match m" "uri_query (received m) = uri_query m"
  by (simp_all add: received_def IS_OPTION_def)

lemma received_copy: "copy_block_options (received m) p = copy_block_options m p"
  unfolding copy_block_options_def received_fields ..

lemma create_next_block:
  assumes "sent_as t m" and "block_copyable m" and "\<And>n. mem_ok P n" and "peerH t \<noteq> 0"
  shows "prv_create_next_block_transaction P t msgId = Some (Some (block_clone t m msgId))"
proof -
  obtain b where b: "buffer t = Some b" "unat (buffer_len t) \<le> length b" "take (unat (buffer_len t)) b = msg_bytes m"
    using assms(1) by (auto simp: sent_as_def)
  have m: "coap_wf m" "3 \<notin> options m" "observe m < 2 ^ 24" using assms(2) by (simp_all add: block_copyable_def)
  have parse: "coap_parse_message (mem_ok P) (msg_bytes m) = (COAP_NO_ERROR, received m)"
    by (rule parse_msg_bytes [OF m(1) assms(3)])
  have "length (token m) < 256" using m(1) by (simp add: coap_wf_def limits_ok_def)
  then have new: "transaction_new P (peerH t) (code m) None None msgId (of_nat (length (token m))) (Some (token m)) [] =
      Some (Some \<lparr>mID = msgId, peerH = peerH t, ack_received = False, retrans_counter = 0, retrans_time = 0,
       message = request_packet (code m) msgId [] (token m), buffer_len = 0, buffer = None, tx_payload = None, callback = None,
       userData = 0\<rparr>)"
    using assms(3,4) by (intro transaction_new_request) (simp_all add: uri_set_ids_def)
  show ?thesis
    using b assms(3) parse new copy_block_options_eq [OF m]
    by (simp add: prv_create_next_block_transaction_def received_copy received_fields block_clone_def)
qed

text \<open>The type of the message is passed where a content format is expected: the message of a block
  carries a Content-Format option even when the request had none.\<close>

lemma next_block_content_format:
  assumes "sent_as t m" and "block_copyable m" and "\<And>n. mem_ok P n" and "peerH t \<noteq> 0" and "12 \<notin> options m"
  shows "\<exists>u. prv_create_next_block_transaction P t msgId = Some (Some u) \<and>
    12 \<in> options (message u) \<and> content_type (message u) = ucast (type_num (mtype m))"
  using create_next_block [OF assms(1-4), of msgId] assms(5) by (simp add: block_clone_def block_packet_def)

text \<open>The message that carries block \<open>k\<close> of a payload.\<close>

definition block_at :: "nat \<Rightarrow> nat \<Rightarrow> bytes \<Rightarrow> bytes" where
  "block_at bs k pl = take bs (drop (k * bs) pl)"

definition block1_packet :: "coap_packet_t \<Rightarrow> u16 \<Rightarrow> nat \<Rightarrow> u16 \<Rightarrow> bytes \<Rightarrow> coap_packet_t" where
  "block1_packet m msgId k bs pl = (block_packet m msgId)\<lparr>options := insert 27 (options (block_packet m msgId)),
     block1_num := of_nat k, block1_more := (if Suc k * unat bs < length pl then 1 else 0), block1_size := bs,
     payload := Some (block_at (unat bs) k pl)\<rparr>"

lemma type_num_small: "(ucast (type_num t) :: u32) < 2 ^ 16"
  by (cases t) (simp_all add: type_num_def)

lemma block1_packet_wf:
  assumes "block_copyable m" and "k < 2 ^ 20" and "validate_block_size bs" and "k * unat bs < length pl"
  shows "coap_wf (block1_packet m msgId k bs pl)" "size_ok (block1_packet m msgId k bs pl)"
    "multi_ok (block1_packet m msgId k bs pl)"
proof -
  have wf: "coap_wf m" and c: "code m \<noteq> 0"
    using assms(1) by (simp_all add: block_copyable_def COAP_EMPTY_MESSAGE_CODE_def)
  have z: "unset_zero m" and l: "limits_ok m" and mu: "multi_ok m" and tk: "19 \<in> options m \<longleftrightarrow> token m \<noteq> []"
    using wf by (simp_all add: coap_wf_def)
  have "unat (of_nat k :: u32) = k" using assms(2) by (intro unat_of_nat_small) simp
  then have k: "(of_nat k :: u32) < 2 ^ 20" using assms(2) by (simp add: word_less_nat_alt)
  have bs: "bs \<in> block_sizes" "0 < unat bs" using assms(3) by (auto simp: validate_block_size_def block_sizes_def)
  then have ne: "block_at (unat bs) k pl \<noteq> []" using assms(4) by (simp add: block_at_def)
  let ?q = "block1_packet m msgId k bs pl"
  note d = block1_packet_def block_packet_def coap_init_message_def zero_packet_def block_options_def
  show mq: "multi_ok ?q" using mu by (auto simp: multi_ok_def d IS_OPTION_def option_numbers)
  show "size_ok ?q" using k by (simp add: size_ok_def d)
  have "unset_zero ?q" using z by (simp add: unset_zero_def d)
  moreover have "limits_ok ?q" using l k bs ne type_num_small by (simp add: limits_ok_def d)
  moreover have "options ?q \<subseteq> known_options" "19 \<in> options ?q \<longleftrightarrow> token ?q \<noteq> []" "code ?q \<noteq> COAP_EMPTY_MESSAGE_CODE"
    using tk c by (auto simp: d known_options_def COAP_EMPTY_MESSAGE_CODE_def)
  ultimately show "coap_wf ?q" using mq by (simp add: coap_wf_def)
qed

text \<open>Sending block \<open>k\<close>: one transaction is added, with the message of the block, and transmitted.\<close>

definition block_tx :: "lwm2m_transaction_t \<Rightarrow> coap_packet_t \<Rightarrow> u16 \<Rightarrow> nat \<Rightarrow> u16 \<Rightarrow> bytes \<Rightarrow> lwm2m_transaction_t" where
  "block_tx t m msgId k bs pl = (block_clone t m msgId)\<lparr>message := block1_packet m msgId k bs pl\<rparr>"

lemma block_size_bounds: "validate_block_size bs \<Longrightarrow> 16 \<le> bs \<and> bs \<le> 1024 \<and> 16 \<le> unat bs \<and> unat bs \<le> 1024"
  by (auto simp: validate_block_size_def)

lemma send_new_block1:
  fixes P :: "('a tx_context_scheme) platform"
  assumes "sent_as t m" and "block_copyable m" and mem: "\<And>n. mem_ok P n" and "peerH t \<noteq> 0" and "0 \<le> gettime P"
    and bs: "validate_block_size bs" and k: "k < 2 ^ 20" and pl: "tx_payload t = Some pl" and off: "k * unat bs < length pl"
    and size: "coap_serialize_get_size (block1_packet m (nextMID ctx) k bs pl) < 2 ^ 16"
  shows "prv_send_new_block1 P t (of_nat k) bs ctx =
    Some (put_tx (first_sent P (block_tx t m (nextMID ctx) k bs pl))
      (ctx\<lparr>nextMID := nextMID ctx + 1,
           transactionList := LWM2M_LIST_ADD mID (transactionList ctx) (block_tx t m (nextMID ctx) k bs pl),
           sent := sent ctx @ [(peerH t, msg_bytes (block1_packet m (nextMID ctx) k bs pl))]\<rparr>), 0)"
proof -
  let ?i = "nextMID ctx"
  let ?q = "block1_packet m ?i k bs pl" and ?n = "unat bs"
  have kn: "unat (of_nat k :: u32) = k" using k by (intro unat_of_nat_small) simp
  have b: "16 \<le> bs" "bs \<le> 1024" "?n \<le> 1024" using block_size_bounds [OF bs] by simp_all
  have "k * ?n \<le> 2 ^ 20 * 2 ^ 10" using k b(3) by (intro mult_mono) auto
  then have kb: "unat (of_nat k * ucast bs :: u32) = k * ?n" using kn by (simp add: unat_word_ariths unat_ucast_up)
  have le: "\<not> bs < 16" "\<not> 2048 < bs" "\<not> 0xFFFFF < (of_nat k :: u32)"
    using b(1,2) kn k by (auto simp: word_less_nat_alt word_le_nat_alt)
  have blk: "rd_range pl (k * ?n) (min ?n (length pl - k * ?n)) = Some (block_at ?n k pl)"
    using off by (auto simp: rd_range_def block_at_def min_def)
  have "length (block_at ?n k pl) \<le> 1024" using b(3) by (simp add: block_at_def)
  then have cut: "unat (of_nat (length (block_at ?n k pl)) :: u16) = length (block_at ?n k pl)"
    by (intro unat_of_nat_small) simp
  have mo: "?n < length pl - k * ?n \<longleftrightarrow> Suc k * ?n < length pl" by auto
  have u: "message (block_clone t m ?i) = block_packet m ?i" "tx_payload (block_clone t m ?i) = Some pl"
    using pl by (simp_all add: block_clone_def)
  have q: "fst (coap_set_payload (fst (coap_set_header_block1 (block_packet m ?i) (of_nat k)
      (if ?n < length pl - k * ?n then 1 else 0) bs)) (Some (block_at ?n k pl))) = ?q"
    using le cut mo by (simp add: Let_def coap_set_header_block1_def coap_set_payload_def SET_OPTION_def option_numbers block1_packet_def)
  let ?c = "ctx\<lparr>nextMID := ?i + 1\<rparr>" and ?u = "block_tx t m ?i k bs pl"
  have "prv_send_new_block1 P t (of_nat k) bs ctx = add_and_send P ?u ?c"
    using create_next_block [OF assms(1,2) mem assms(4), of ?i] off pl u q blk kn kb
    by (simp add: prv_send_new_block1_def tx_payload_len_def block_tx_def)
  moreover have "sendable ?q" using block1_packet_wf [OF assms(2) k bs off, of ?i] size by (simp add: sendable_def)
  then have "add_and_send P ?u ?c = Some (put_tx (first_sent P ?u)
     (?c\<lparr>transactionList := LWM2M_LIST_ADD mID (transactionList ?c) ?u, sent := sent ?c @ [(peerH ?u, msg_bytes (message ?u))]\<rparr>), 0)"
    unfolding add_and_send_def by (subst transaction_send_first) (simp_all add: block_tx_def block_clone_def mem assms(5))
  ultimately show ?thesis by (simp add: block_tx_def block_clone_def)
qed

section \<open>The blocks of a payload\<close>

lemma block_index: "0 < (sz :: nat) \<Longrightarrow> k * sz < n \<Longrightarrow> k < n"
  by (rule le_less_trans [of _ "k * sz"]) simp_all

lemma concat_blocks: "concat (map (\<lambda>k. block_at sz k pl) [0..<n]) = take (n * sz) pl"
proof (induction n)
  case (Suc n)
  then show ?case by (simp add: block_at_def take_add [symmetric] add.commute)
qed simp

definition block_count :: "nat \<Rightarrow> bytes \<Rightarrow> nat" where
  "block_count sz pl = (length pl + sz - 1) div sz"

lemma block_count:
  assumes "0 < sz" and "pl \<noteq> []"
  shows "0 < block_count sz pl" "(block_count sz pl - 1) * sz < length pl" "length pl \<le> block_count sz pl * sz"
    "k < block_count sz pl \<longleftrightarrow> k * sz < length pl"
proof -
  have l: "0 < length pl" using assms(2) by simp
  let ?n = "block_count sz pl"
  have "length pl + sz - 1 = length pl - 1 + sz" using l by linarith
  then have e: "?n = Suc ((length pl - 1) div sz)"
    using assms(1) div_add_self2 [of sz "length pl - 1"] by (simp only: block_count_def)
  have d: "sz * ((length pl - 1) div sz) \<le> length pl - 1" "length pl - 1 < sz * Suc ((length pl - 1) div sz)"
    using assms(1) by (simp, metis dividend_less_times_div mult_Suc_right)
  show "0 < ?n" by (simp add: e)
  show a: "(?n - 1) * sz < length pl" using d(1) l unfolding e diff_Suc_1 mult.commute [of _ sz] by linarith
  show b: "length pl \<le> ?n * sz" using d(2) l unfolding e mult.commute [of _ sz] by linarith
  show "k < ?n \<longleftrightarrow> k * sz < length pl"
  proof
    assume "k < ?n"
    then have "k * sz \<le> (?n - 1) * sz" by (intro mult_right_mono) auto
    then show "k * sz < length pl" using a by linarith
  next
    assume "k * sz < length pl"
    then have "k * sz < ?n * sz" using b by linarith
    then show "k < ?n" using assms(1) by simp
  qed
qed

definition payload_blocks :: "nat \<Rightarrow> bytes \<Rightarrow> bytes list" where
  "payload_blocks sz pl = map (\<lambda>k. block_at sz k pl) [0..<block_count sz pl]"

lemma payload_blocks:
  assumes "validate_block_size sz" and "pl \<noteq> []"
  shows "concat (payload_blocks (unat sz) pl) = pl"
    "length pl \<le> LWM2M_COAP_MAX_MESSAGE_SIZE \<Longrightarrow> blocks_of sz (payload_blocks (unat sz) pl)"
proof -
  have pos: "0 < unat sz" "sz \<noteq> 0" using block_size_bounds [OF assms(1)] by auto
  note n = block_count [OF pos(1) assms(2)]
  show c: "concat (payload_blocks (unat sz) pl) = pl" using n(3) by (simp add: payload_blocks_def concat_blocks)
  have full: "length (block_at (unat sz) k pl) = unat sz" if "Suc k < block_count (unat sz) pl" for k
    using that n(4) [of "Suc k"] by (simp add: block_at_def)
  have "butlast (payload_blocks (unat sz) pl) = map (\<lambda>k. block_at (unat sz) k pl) [0..<block_count (unat sz) pl - 1]"
    using n(1) by (cases "block_count (unat sz) pl") (simp_all add: payload_blocks_def)
  then have "list_all (\<lambda>b. length b = unat sz) (butlast (payload_blocks (unat sz) pl))"
    using full by (auto simp: list_all_iff)
  then show "length pl \<le> LWM2M_COAP_MAX_MESSAGE_SIZE \<Longrightarrow> blocks_of sz (payload_blocks (unat sz) pl)"
    using c pos(2) n(1) by (simp add: blocks_of_def) (auto simp: payload_blocks_def)
qed

end
