(* ===== verification/Handle_Packet.thy ===== *)
theory Handle_Packet
  imports Packet
begin

text \<open>
  The dispatcher of a client, \<open>lwm2m_handle_packet\<close> of \<^verbatim>\<open>core/packet.c\<close>: a datagram is parsed; a
  request is reassembled when it comes in blocks, decoded and given to its handler, and answered
  in blocks when the answer is large; a response is matched with the transaction it answers and
  may send or fetch the next block.

  The client is built with bootstrap support.  The handlers of the requests (device management
  and bootstrap) and the cancellation of observations are parameters.  A server is found by its
  session; the pointer to a server that was removed meanwhile is undefined.  The static variables
  \<open>coap_block_size\<close> and \<open>coap_error_message\<close> are part of the context.
\<close>

section \<open>Servers and the context\<close>

datatype lwm2m_status_t = STATE_DEREGISTERED | STATE_REG_HOLD_OFF | STATE_REG_PENDING | STATE_REGISTERED
  | STATE_REG_FAILED | STATE_REG_UPDATE_PENDING | STATE_REG_UPDATE_NEEDED | STATE_REG_FULL_UPDATE_NEEDED
  | STATE_DEREG_PENDING | STATE_BS_HOLD_OFF | STATE_BS_INITIATED | STATE_BS_PENDING | STATE_BS_FINISHING
  | STATE_BS_FINISHED | STATE_BS_FAILING | STATE_BS_FAILED

record lwm2m_server_t =
  secObjInstID :: u16
  shortID :: u16
  lifetime :: int
  registration :: int
  binding :: u8
  sessionH :: session
  server_status :: lwm2m_status_t
  location :: "bytes option"
  dirty :: bool
  blockData :: "lwm2m_block_data_t list"
  servObjInstID :: u16
  attempt :: u8
  sequence_num :: u8

record client_context = tx_context +
  altPath :: "bytes option"
  serverList :: "lwm2m_server_t list"
  bootstrapServerList :: "lwm2m_server_t list"
  coap_block_size :: u16
  coap_error_message :: bytes

record 'c client_handlers =
  dm_handleRequest :: "'c \<Rightarrow> lwm2m_uri_t \<Rightarrow> lwm2m_server_t \<Rightarrow> coap_packet_t \<Rightarrow> coap_packet_t \<Rightarrow> ('c \<times> coap_packet_t \<times> u8) c"
  bootstrap_handleCommand :: "'c \<Rightarrow> lwm2m_uri_t \<Rightarrow> lwm2m_server_t \<Rightarrow> coap_packet_t \<Rightarrow> coap_packet_t \<Rightarrow> ('c \<times> coap_packet_t \<times> u8) c"
  bootstrap_handleDeleteAll :: "'c \<Rightarrow> session \<Rightarrow> ('c \<times> u8) c"
  bootstrap_handleFinish :: "'c \<Rightarrow> session \<Rightarrow> ('c \<times> u8) c"
  observe_cancel :: "'c \<Rightarrow> u16 \<Rightarrow> session \<Rightarrow> 'c c"

type_synonym 'a client = "'a client_context_scheme"

definition utils_findServer :: "('a client) platform \<Rightarrow> 'a client \<Rightarrow> session \<Rightarrow> lwm2m_server_t option" where
  "utils_findServer P ctx s = find (\<lambda>t. session_is_equal P (sessionH t) s) (serverList ctx)"

definition utils_findBootstrapServer :: "('a client) platform \<Rightarrow> 'a client \<Rightarrow> session \<Rightarrow> lwm2m_server_t option" where
  "utils_findBootstrapServer P ctx s = find (\<lambda>t. session_is_equal P (sessionH t) s) (bootstrapServerList ctx)"

text \<open>The peer of a session, and a store to its list of block transfers.\<close>

definition find_peer :: "('a client) platform \<Rightarrow> 'a client \<Rightarrow> session \<Rightarrow> lwm2m_server_t option" where
  "find_peer P ctx s =
     (case utils_findServer P ctx s of Some t \<Rightarrow> Some t | None \<Rightarrow> utils_findBootstrapServer P ctx s)"

fun update_first :: "('b \<Rightarrow> bool) \<Rightarrow> ('b \<Rightarrow> 'b) \<Rightarrow> 'b list \<Rightarrow> 'b list" where
  "update_first Q f [] = []"
| "update_first Q f (x # xs) = (if Q x then f x # xs else x # update_first Q f xs)"

definition put_blocks :: "('a client) platform \<Rightarrow> session \<Rightarrow> lwm2m_block_data_t list \<Rightarrow> 'a client \<Rightarrow> 'a client" where
  "put_blocks P s bds ctx =
     (let upd = update_first (\<lambda>t. session_is_equal P (sessionH t) s) (\<lambda>t. t\<lparr>blockData := bds\<rparr>) in
      case utils_findServer P ctx s of
        Some t \<Rightarrow> ctx\<lparr>serverList := upd (serverList ctx)\<rparr>
      | None \<Rightarrow> ctx\<lparr>bootstrapServerList := upd (bootstrapServerList ctx)\<rparr>)"

section \<open>Fetching the blocks of a response\<close>

definition prv_send_get_block2 ::
  "('a client) platform \<Rightarrow> (bytes option \<Rightarrow> int) \<Rightarrow> session \<Rightarrow> lwm2m_server_t \<Rightarrow> u16 \<Rightarrow> u32 \<Rightarrow> u16 \<Rightarrow> 'a client \<Rightarrow>
   ('a client \<times> int) c" where
  "prv_send_get_block2 P addr32 s peer currentMid num sz ctx =
     (case prv_get_transaction P ctx s currentMid of
        None \<Rightarrow> Some (ctx, uint COAP_500_INTERNAL_SERVER_ERROR)
      | Some t \<Rightarrow>
          if num = 0 \<and> IS_OPTION (message t) COAP_OPTION_BLOCK2 then Some (ctx, uint COAP_IGNORE)
          else do {
            let nextMid = nextMID ctx;
            let ctx = ctx\<lparr>nextMID := nextMID ctx + 1\<rparr>;
            r \<leftarrow> prv_create_next_block_transaction P t nextMid;
            (case r of
               None \<Rightarrow> Some (ctx, uint COAP_500_INTERNAL_SERVER_ERROR)
             | Some nxt \<Rightarrow> do {
                 let p = fst (coap_set_header_block2 (message nxt) num 0
                                (min sz (lwm2m_get_coap_block_size (coap_block_size ctx))));
                 bds \<leftarrow> coap_block2_set_expected_mid addr32 (blockData peer) currentMid nextMid;
                 add_and_send P (nxt\<lparr>message := p\<rparr>) (put_blocks P s bds ctx) }) })"

definition prv_send_get_next_block2 ::
  "('a client) platform \<Rightarrow> (bytes option \<Rightarrow> int) \<Rightarrow> session \<Rightarrow> lwm2m_server_t \<Rightarrow> u16 \<Rightarrow> u32 \<Rightarrow> u16 \<Rightarrow> 'a client \<Rightarrow>
   ('a client \<times> int) c" where
  "prv_send_get_next_block2 P addr32 s peer currentMid num sz ctx =
     prv_send_get_block2 P addr32 s peer currentMid (num + 1) sz ctx"

section \<open>Requests\<close>

definition COAP_GET :: u8 where "COAP_GET = 1"
definition COAP_POST :: u8 where "COAP_POST = 2"

text \<open>The request handler: the new context, the response and the status.\<close>

definition handle_request ::
  "('a client) client_handlers \<Rightarrow> ('a client) platform \<Rightarrow> session \<Rightarrow> coap_packet_t \<Rightarrow> coap_packet_t \<Rightarrow> 'a client \<Rightarrow>
   ('a client \<times> coap_packet_t \<times> u8) c" where
  "handle_request H P s m response ctx =
     do { (requestType, uri) \<leftarrow> uri_decode (altPath ctx) (uri_path m) (code m);
          if requestType = LWM2M_REQUEST_TYPE_UNKNOWN then Some (ctx, response, COAP_400_BAD_REQUEST)
          else do {
            (ctx, response, result) \<leftarrow> (case requestType of
                LWM2M_REQUEST_TYPE_DM \<Rightarrow>
                  (case utils_findServer P ctx s of
                     Some srv \<Rightarrow> dm_handleRequest H ctx uri srv m response
                   | None \<Rightarrow> (case utils_findBootstrapServer P ctx s of
                                Some srv \<Rightarrow> bootstrap_handleCommand H ctx uri srv m response
                              | None \<Rightarrow> Some (ctx, response, COAP_IGNORE)))
              | LWM2M_REQUEST_TYPE_DELETE_ALL \<Rightarrow>
                  do { (ctx, result) \<leftarrow> bootstrap_handleDeleteAll H ctx s; Some (ctx, response, result) }
              | LWM2M_REQUEST_TYPE_BOOTSTRAP \<Rightarrow>
                  if code m = COAP_POST
                  then do { (ctx, result) \<leftarrow> bootstrap_handleFinish H ctx s; Some (ctx, response, result) }
                  else Some (ctx, response, COAP_IGNORE)
              | _ \<Rightarrow> Some (ctx, response, COAP_IGNORE));
            let response = fst (coap_set_status_code response (ucast result));
            Some (ctx, response,
                  if COAP_IGNORE < result \<and> result < COAP_400_BAD_REQUEST then COAP_NO_ERROR else result) } }"

text \<open>The answer to a message that is too large, and the reassembly of a request in blocks.\<close>

definition too_large_answer :: "u16 \<Rightarrow> coap_packet_t \<Rightarrow> coap_packet_t \<Rightarrow> coap_packet_t" where
  "too_large_answer block_size m response =
     (case coap_get_header_block1 m of
        Some (num, mo, _) \<Rightarrow> fst (coap_set_header_block1 response num mo (lwm2m_get_coap_block_size block_size))
      | None \<Rightarrow> fst (coap_set_header_block1 response 0 1 (lwm2m_get_coap_block_size block_size)))"

definition payload_bytes :: "coap_packet_t \<Rightarrow> bytes" where
  "payload_bytes m = (case payload m of None \<Rightarrow> [] | Some b \<Rightarrow> b)"

text \<open>The buffer handed out by a block handler becomes the payload of the message.\<close>

definition set_complete :: "(c_buffer \<times> nat option) option \<Rightarrow> coap_packet_t \<Rightarrow> coap_packet_t c" where
  "set_complete out m =
     (case out of
        Some (Buffer b, Some n) \<Rightarrow> do { pl \<leftarrow> rd_range b 0 n; Some (m\<lparr>payload := Some pl\<rparr>) }
      | _ \<Rightarrow> None)"

definition receive_block1 ::
  "('a client) platform \<Rightarrow> (bytes option \<Rightarrow> int) \<Rightarrow> session \<Rightarrow> coap_packet_t \<Rightarrow> coap_packet_t \<Rightarrow> 'a client \<Rightarrow>
   ('a client \<times> coap_packet_t \<times> coap_packet_t \<times> u8) c" where
  "receive_block1 P addr32 s m response ctx =
     (case find_peer P ctx s of
        None \<Rightarrow> Some (ctx, m, response, COAP_500_INTERNAL_SERVER_ERROR)
      | Some peer \<Rightarrow> do {
          uri \<leftarrow> coap_get_packet_uri_as_string (mem_ok P) m;
          (ctx, m', st) \<leftarrow> (case uri of
              None \<Rightarrow> Some (ctx, m, COAP_500_INTERNAL_SERVER_ERROR)
            | Some u \<Rightarrow> do {
                (st, bds, out) \<leftarrow> coap_block1_handler (mem_ok P) addr32 (blockData peer) u (payload_bytes m)
                                    (block1_size m) (block1_num m) (block1_more m \<noteq> 0);
                m' \<leftarrow> (if st = COAP_NO_ERROR then set_complete out m else Some m);
                Some (put_blocks P s bds ctx, m', st) });
          Some (ctx, m', fst (coap_set_header_block1 response (block1_num m) (block1_more m)
                  (min (block1_size m) (lwm2m_get_coap_block_size (coap_block_size ctx)))), st) })"

text \<open>The part of the payload that is sent, as the request or its size asks.\<close>

definition split_response :: "u16 \<Rightarrow> coap_packet_t \<Rightarrow> coap_packet_t \<Rightarrow> coap_packet_t" where
  "split_response block_size m response =
     (case coap_get_header_block2 m of
        Some (num, _, sz, off) \<Rightarrow>
          let sz = min sz (lwm2m_get_coap_block_size block_size); pl = payload_bytes response in
          if unat off \<ge> payload_len response
          then fst (coap_set_payload (response\<lparr>code := COAP_402_BAD_OPTION\<rparr>) (Some (str ''BlockOutOfScope'')))
          else fst (coap_set_payload
                 (fst (coap_set_header_block2 response num (if payload_len response - unat off > unat sz then 1 else 0) sz))
                 (Some (take (min (payload_len response - unat off) (unat sz)) (drop (unat off) pl))))
      | None \<Rightarrow>
          let sz = lwm2m_get_coap_block_size block_size in
          if payload_len response > unat sz
          then fst (coap_set_payload (fst (coap_set_header_block2 response 0 1 sz))
                      (Some (take (unat sz) (payload_bytes response))))
          else response)"

definition init_response :: "coap_packet_t \<Rightarrow> 'a client \<Rightarrow> 'a client \<times> coap_packet_t" where
  "init_response m ctx =
     (case (if mtype m = COAP_TYPE_CON then (ctx, coap_init_message COAP_TYPE_ACK COAP_205_CONTENT (mid m))
            else (ctx\<lparr>nextMID := nextMID ctx + 1\<rparr>, coap_init_message COAP_TYPE_NON COAP_205_CONTENT (nextMID ctx))) of
        (ctx, response) \<Rightarrow>
          (ctx, if token m \<noteq> [] then fst (coap_set_header_token response (token m)) else response))"

definition retransmission_status :: "coap_packet_t \<Rightarrow> u8 \<Rightarrow> u8" where
  "retransmission_status response st =
     (if st = COAP_RETRANSMISSION \<and> IS_OPTION response COAP_OPTION_BLOCK1
      then if block1_more response \<noteq> 0 then COAP_231_CONTINUE else COAP_204_CHANGED
      else st)"

text \<open>The call of the handler and the answer.\<close>

definition finish_request ::
  "('a client) client_handlers \<Rightarrow> ('a client) platform \<Rightarrow> session \<Rightarrow> coap_packet_t \<Rightarrow> coap_packet_t \<Rightarrow> u8 \<Rightarrow> 'a client \<Rightarrow>
   ('a client \<times> u8) c" where
  "finish_request H P s m response st ctx =
     do { (ctx, response, st) \<leftarrow>
            (if st = COAP_NO_ERROR then handle_request H P s m response ctx else Some (ctx, response, st));
          if st = COAP_NO_ERROR
          then do { (ctx, _, st) \<leftarrow> message_send P (split_response (coap_block_size ctx) m response) s ctx; Some (ctx, st) }
          else if st \<noteq> COAP_IGNORE
          then do { (ctx, _, st) \<leftarrow> message_send P
                      (fst (coap_set_status_code response (ucast (retransmission_status response st)))) s ctx;
                    Some (ctx, st) }
          else Some (ctx, st) }"

definition handle_request_message ::
  "('a client) client_handlers \<Rightarrow> ('a client) platform \<Rightarrow> (bytes option \<Rightarrow> int) \<Rightarrow> session \<Rightarrow> coap_packet_t \<Rightarrow> nat \<Rightarrow>
   'a client \<Rightarrow> ('a client \<times> u8) c" where
  "handle_request_message H P addr32 s m len ctx =
     (case init_response m ctx of (ctx, response) \<Rightarrow>
      do { (ctx, m, response, st) \<leftarrow>
             (if is_message_too_large (coap_block_size ctx) m len
              then Some (ctx, m, too_large_answer (coap_block_size ctx) m response, COAP_413_ENTITY_TOO_LARGE)
              else if IS_OPTION m COAP_OPTION_BLOCK1 then receive_block1 P addr32 s m response ctx
              else Some (ctx, m, response, COAP_NO_ERROR));
           finish_request H P s m response st ctx })"

section \<open>Responses\<close>

text \<open>A payload larger than the block size: the request is repeated with a Block2 option.\<close>

definition retry_as_block2 ::
  "('a client) platform \<Rightarrow> (bytes option \<Rightarrow> int) \<Rightarrow> session \<Rightarrow> coap_packet_t \<Rightarrow> 'a client \<Rightarrow> ('a client) c" where
  "retry_as_block2 P addr32 s m ctx =
     do { ctx \<leftarrow> (case find_peer P ctx s of
              None \<Rightarrow> Some ctx
            | Some peer \<Rightarrow> do { (ctx, _) \<leftarrow> prv_send_get_block2 P addr32 s peer (mid m) 0
                                               (lwm2m_get_coap_block_size (coap_block_size ctx)) ctx;
                                Some ctx });
          (ctx, _, _) \<leftarrow> transaction_handleResponse P s m None ctx;
          Some ctx }"

definition handle_separate ::
  "('a client) platform \<Rightarrow> (bytes option \<Rightarrow> int) \<Rightarrow> session \<Rightarrow> coap_packet_t \<Rightarrow> nat \<Rightarrow> 'a client \<Rightarrow> ('a client \<times> u8) c" where
  "handle_separate P addr32 s m len ctx =
     (if payload_len m > unat (lwm2m_get_coap_block_size (coap_block_size ctx))
      then do { ctx \<leftarrow> retry_as_block2 P addr32 s m ctx; Some (ctx, COAP_NO_ERROR) }
      else do {
        (ctx, _, finished) \<leftarrow> transaction_handleResponse P s m (Some zero_packet) ctx;
        if \<not> finished \<and> mtype m = COAP_TYPE_CON
        then do { let ack = coap_init_message COAP_TYPE_ACK 0 (mid m);
                  let ack = (if is_message_too_large (coap_block_size ctx) m len
                             then fst (coap_set_status_code ack (ucast COAP_413_ENTITY_TOO_LARGE)) else ack);
                  (ctx, _, st) \<leftarrow> message_send P ack s ctx;
                  Some (ctx, st) }
        else Some (ctx, COAP_NO_ERROR) })"

text \<open>An acknowledgement with a Block1 option.\<close>

definition handle_ack_block1 :: "('a client) platform \<Rightarrow> session \<Rightarrow> coap_packet_t \<Rightarrow> 'a client \<Rightarrow> ('a client) c" where
  "handle_ack_block1 P s m ctx =
     do { (ctx, _) \<leftarrow>
            (if code m \<in> set [COAP_201_CREATED, COAP_204_CHANGED, COAP_231_CONTINUE]
             then prv_send_next_block1 P s (mid m) (block1_size m) ctx
             else if code m = COAP_413_ENTITY_TOO_LARGE \<and> \<not> block1_num m > 0
             then prv_retry_block1 P s (mid m) (block1_size m) ctx
             else Some (ctx, 0));
          (ctx, _, _) \<leftarrow> transaction_handleResponse P s m None ctx;
          Some ctx }"

definition handle_ack_block2 ::
  "('a client) platform \<Rightarrow> (bytes option \<Rightarrow> int) \<Rightarrow> session \<Rightarrow> coap_packet_t \<Rightarrow> 'a client \<Rightarrow> ('a client \<times> u8) c" where
  "handle_ack_block2 P addr32 s m ctx =
     (case find_peer P ctx s of
        None \<Rightarrow> Some (ctx, COAP_500_INTERNAL_SERVER_ERROR)
      | Some peer \<Rightarrow> do {
          (st, bds, out) \<leftarrow> coap_block2_handler (mem_ok P) addr32 (blockData peer) (mid m) (payload_bytes m)
                              (block2_size m) (block2_num m) (block2_more m \<noteq> 0);
          let ctx = put_blocks P s bds ctx;
          if st = COAP_NO_ERROR
          then do { m' \<leftarrow> set_complete out m;
                    (ctx, _, _) \<leftarrow> transaction_handleResponse P s m' None ctx;
                    peer \<leftarrow> find_peer P ctx s;
                    bds \<leftarrow> block2_delete addr32 (blockData peer) (mid m);
                    Some (put_blocks P s bds ctx, st) }
          else if st = COAP_231_CONTINUE
          then do { (ctx, _) \<leftarrow> prv_send_get_next_block2 P addr32 s (peer\<lparr>blockData := bds\<rparr>) (mid m)
                                 (block2_num m) (block2_size m) ctx;
                    (ctx, _, _) \<leftarrow> transaction_handleResponse P s m None ctx;
                    Some (ctx, COAP_NO_ERROR) }
          else Some (ctx, st) })"

definition handle_ack ::
  "('a client) platform \<Rightarrow> (bytes option \<Rightarrow> int) \<Rightarrow> session \<Rightarrow> coap_packet_t \<Rightarrow> 'a client \<Rightarrow> ('a client \<times> u8) c" where
  "handle_ack P addr32 s m ctx =
     (if payload_len m > unat (lwm2m_get_coap_block_size (coap_block_size ctx))
      then do { ctx \<leftarrow> retry_as_block2 P addr32 s m ctx; Some (ctx, COAP_NO_ERROR) }
      else if IS_OPTION m COAP_OPTION_BLOCK1
      then do { ctx \<leftarrow> handle_ack_block1 P s m ctx; Some (ctx, COAP_NO_ERROR) }
      else if IS_OPTION m COAP_OPTION_BLOCK2 then handle_ack_block2 P addr32 s m ctx
      else if code m = COAP_413_ENTITY_TOO_LARGE
      then do { (ctx, _) \<leftarrow> prv_change_to_block1 P (coap_block_size ctx) s (mid m) (size_opt m) ctx;
                (ctx, _, _) \<leftarrow> transaction_handleResponse P s m None ctx;
                Some (ctx, COAP_NO_ERROR) }
      else do { (ctx, _, _) \<leftarrow> transaction_handleResponse P s m None ctx; Some (ctx, COAP_NO_ERROR) })"

definition handle_reset ::
  "('a client) client_handlers \<Rightarrow> session \<Rightarrow> coap_packet_t \<Rightarrow> 'a client \<Rightarrow> ('a client) c" where
  "handle_reset H s m ctx = observe_cancel H ctx (mid m) s"

section \<open>The dispatcher\<close>

text \<open>The text left in \<open>coap_error_message\<close> by \<open>coap_parse_message\<close>.\<close>

definition parse_error_message :: "bytes \<Rightarrow> u8 \<Rightarrow> coap_packet_t \<Rightarrow> bytes" where
  "parse_error_message data st p =
     (if st = COAP_402_BAD_OPTION then str ''Unsupported critical option''
      else if st = COAP_505_PROXYING_NOT_SUPPORTED then str ''This is a constrained server (Contiki)''
      else if \<not> length data < COAP_HEADER_LEN \<and> version p \<noteq> 1 then str ''CoAP version must be 1''
      else str ''Invalid COAP message'')"

definition send_error :: "('a client) platform \<Rightarrow> session \<Rightarrow> u16 \<Rightarrow> u8 \<Rightarrow> 'a client \<Rightarrow> ('a client) c" where
  "send_error P s msgId st ctx =
     (if st \<noteq> COAP_NO_ERROR \<and> st \<noteq> COAP_IGNORE
      then do { let st = (if st \<ge> 192 then COAP_500_INTERNAL_SERVER_ERROR else st);
                (ctx, _, _) \<leftarrow> message_send P (fst (coap_set_payload (coap_init_message COAP_TYPE_ACK st msgId)
                                 (Some (coap_error_message ctx)))) s ctx;
                Some ctx }
      else Some ctx)"

definition lwm2m_handle_packet ::
  "('a client) client_handlers \<Rightarrow> ('a client) platform \<Rightarrow> (bytes option \<Rightarrow> int) \<Rightarrow> bytes \<Rightarrow> session \<Rightarrow> 'a client \<Rightarrow>
   ('a client) c" where
  "lwm2m_handle_packet H P addr32 datagram s ctx =
     (let data = take (length datagram mod 2 ^ 16) datagram in
      case coap_parse_message (mem_ok P) data of (st, m) \<Rightarrow>
      do { (ctx, st) \<leftarrow>
             (if st = COAP_NO_ERROR
              then if code m \<ge> COAP_GET \<and> code m \<le> COAP_DELETE
                   then handle_request_message H P addr32 s m (length datagram) ctx
                   else (case mtype m of
                           COAP_TYPE_CON \<Rightarrow> handle_separate P addr32 s m (length datagram) ctx
                         | COAP_TYPE_NON \<Rightarrow> handle_separate P addr32 s m (length datagram) ctx
                         | COAP_TYPE_RST \<Rightarrow>
                             do { ctx \<leftarrow> handle_reset H s m ctx;
                                  (ctx, _, _) \<leftarrow> transaction_handleResponse P s m None ctx;
                                  Some (ctx, COAP_NO_ERROR) }
                         | COAP_TYPE_ACK \<Rightarrow> handle_ack P addr32 s m ctx)
              else Some (ctx\<lparr>coap_error_message := parse_error_message data st m\<rparr>, st));
           send_error P s (mid m) st ctx })"

section \<open>Malformed datagrams\<close>

text \<open>A client with one server, whose handler keeps the payload it is given.\<close>

definition example_server :: lwm2m_server_t where
  "example_server = \<lparr>secObjInstID = 1, shortID = 123, lifetime = 300, registration = 0, binding = 2, sessionH = 3,
     server_status = STATE_REGISTERED, location = None, dirty = False, blockData = [], servObjInstID = 0, attempt = 0,
     sequence_num = 0\<rparr>"

definition example_client :: client_context where
  "example_client = \<lparr>transactionList = [], nextMID = 8, sent = [], altPath = None, serverList = [example_server],
     bootstrapServerList = [], coap_block_size = 1024, coap_error_message = []\<rparr>"

definition client_platform :: "client_context platform" where
  "client_platform = \<lparr>mem_ok = (\<lambda>_. True), gettime = 100, session_is_equal = (=), buffer_send = (\<lambda>_ _. 0),
     callback_fn = (\<lambda>_ ctx _ _. ctx)\<rparr>"

definition example_store :: "client_context \<Rightarrow> bytes \<Rightarrow> client_context" where
  "example_store c b = c\<lparr>coap_error_message := b\<rparr>"

definition example_handlers :: "client_context client_handlers" where
  "example_handlers = \<lparr>dm_handleRequest = (\<lambda>c u v m r. Some (example_store c (payload_bytes m), r, COAP_204_CHANGED)),
     bootstrap_handleCommand = (\<lambda>c u v m r. Some (c, r, COAP_IGNORE)), bootstrap_handleDeleteAll = (\<lambda>c s. Some (c, COAP_IGNORE)),
     bootstrap_handleFinish = (\<lambda>c s. Some (c, COAP_IGNORE)), observe_cancel = (\<lambda>c m s. Some c)\<rparr>"

lemmas example_client_defs = example_server_def example_client_def client_platform_def example_handlers_def example_store_def

lemma example_findServer: "utils_findServer client_platform example_client 3 = Some example_server"
  by (simp add: utils_findServer_def example_client_defs)

lemma message_send_bytes:
  assumes "size_ok m" and "multi_ok m" and "\<And>n. mem_ok P n"
  shows "message_send P m s ctx =
    Some (ctx\<lparr>sent := sent ctx @ [(s, msg_bytes m)]\<rparr>, coap_free_header (m\<lparr>version := 1\<rparr>), buffer_send P s (msg_bytes m))"
proof -
  have len: "length (msg_bytes m) \<le> coap_serialize_get_size m" "4 \<le> length (msg_bytes m)"
    using msg_bytes_size [OF assms(1,2)] by (simp_all add: msg_bytes_def)
  have ser: "coap_serialize_message m (replicate (coap_serialize_get_size m) 0) =
      Some (msg_bytes m @ drop (length (msg_bytes m)) (replicate (coap_serialize_get_size m) 0), length (msg_bytes m),
        coap_free_header (m\<lparr>version := 1\<rparr>))"
    using len(1) by (intro coap_serialize_message_bytes assms(2)) simp
  show ?thesis
    unfolding message_send_def Let_def ser using len assms(3) get_size_pos [of m]
    by (auto simp: rd_range_def lwm2m_buffer_send_def)
qed

definition error_answer :: "u8 \<Rightarrow> u16 \<Rightarrow> bytes \<Rightarrow> coap_packet_t" where
  "error_answer st msgId txt = (coap_init_message COAP_TYPE_ACK st msgId)\<lparr>payload := Some txt\<rparr>"

lemma error_answer_ok:
  assumes "st \<noteq> 0" and "txt \<noteq> []"
  shows "coap_wf (error_answer st msgId txt)" "size_ok (error_answer st msgId txt)" "multi_ok (error_answer st msgId txt)"
  using assms
  by (simp_all add: coap_wf_def size_ok_def multi_ok_def unset_zero_def limits_ok_def error_answer_def coap_init_message_def
      zero_packet_def IS_OPTION_def COAP_EMPTY_MESSAGE_CODE_def)

lemma error_message_length: "parse_error_message data st p \<noteq> [] \<and> length (parse_error_message data st p) < 2 ^ 16"
  by (simp add: parse_error_message_def str_def)

text \<open>Every datagram that cannot be parsed is answered with exactly one message, an
  acknowledgement that carries the message id of the datagram, the status of the parser and its
  error text; nothing else of the context changes.\<close>

theorem malformed_answered:
  assumes "coap_parse_message (mem_ok P) (take (length d mod 2 ^ 16) d) = (st, m)" and "st \<noteq> COAP_NO_ERROR"
    and "\<forall>n. mem_ok P n"
  shows "\<exists>txt a. lwm2m_handle_packet H P addr32 d s ctx =
      Some (ctx\<lparr>coap_error_message := txt, sent := sent ctx @ [(s, msg_bytes a)]\<rparr>) \<and>
    coap_parse_message (mem_ok P) (msg_bytes a) = (COAP_NO_ERROR, received a) \<and>
    mtype a = COAP_TYPE_ACK \<and> code a = st \<and> mid a = mid m \<and> payload a = Some txt \<and> txt \<noteq> []"
proof -
  let ?txt = "parse_error_message (take (length d mod 2 ^ 16) d) st m"
  let ?a = "error_answer st (mid m) ?txt"
  have st: "st \<in> {COAP_NO_ERROR, COAP_400_BAD_REQUEST, COAP_402_BAD_OPTION, COAP_505_PROXYING_NOT_SUPPORTED}"
    using coap_parse_facts [OF assms(1)] by blast
  then have n: "st \<noteq> 0" "\<not> st \<ge> 192" "st \<noteq> COAP_IGNORE" using assms(2) by (auto simp: coap_codes)
  note a = error_answer_ok [OF n(1), of ?txt "mid m"]
  have ne: "?txt \<noteq> []" "length ?txt < 65536" using error_message_length by auto
  then have cut: "unat (of_nat (length ?txt) :: u16) = length ?txt" by (intro unat_of_nat_small) simp
  have "send_error P s (mid m) st (ctx\<lparr>coap_error_message := ?txt\<rparr>) =
      Some (ctx\<lparr>coap_error_message := ?txt, sent := sent ctx @ [(s, msg_bytes ?a)]\<rparr>)"
    using n assms(2,3) message_send_bytes [OF a(2,3), of P s "ctx\<lparr>coap_error_message := ?txt\<rparr>"] ne cut
    by (simp add: send_error_def coap_set_payload_def Let_def error_answer_def)
  then have "lwm2m_handle_packet H P addr32 d s ctx =
      Some (ctx\<lparr>coap_error_message := ?txt, sent := sent ctx @ [(s, msg_bytes ?a)]\<rparr>)"
    using assms(1,2) by (simp add: lwm2m_handle_packet_def Let_def)
  moreover have "coap_parse_message (mem_ok P) (msg_bytes ?a) = (COAP_NO_ERROR, received ?a)"
    using a(1) ne assms(3) by (intro parse_msg_bytes) simp_all
  ultimately show ?thesis
    using ne(1) by (intro exI [of _ ?txt] exI [of _ ?a]) (simp add: error_answer_def coap_init_message_def)
qed

theorem malformed_answered_witness:
  "\<exists>txt a. lwm2m_handle_packet example_handlers client_platform (\<lambda>_. 0) [0x40] 3 example_client =
      Some (example_client\<lparr>coap_error_message := txt, sent := [(3, msg_bytes a)]\<rparr>) \<and> code a = COAP_400_BAD_REQUEST \<and> mid a = 0"
proof -
  have "coap_parse_message (mem_ok client_platform) (take (length [0x40 :: u8] mod 2 ^ 16) [0x40]) =
      (COAP_400_BAD_REQUEST, coap_free_header zero_packet)"
    by (simp add: coap_parse_message_def parse_error_def coap_sizes)
  from malformed_answered [OF this, of example_handlers "\<lambda>_. 0" 3 example_client] show ?thesis
    by (fastforce simp: coap_codes client_platform_def example_client_def coap_free_header_def zero_packet_def)
qed

section \<open>Requests and their answers\<close>

text \<open>The answer to a confirmable request before its handler runs.\<close>

definition ack_of :: "coap_packet_t \<Rightarrow> coap_packet_t" where
  "ack_of q = (coap_init_message COAP_TYPE_ACK COAP_205_CONTENT (mid q))\<lparr>
     token := token q, options := (if token q = [] then {} else {19})\<rparr>"

lemma init_response_con:
  assumes "mtype q = COAP_TYPE_CON" and "length (token q) \<le> 8"
  shows "init_response q ctx = (ctx, ack_of q)"
  using assms by (simp add: init_response_def ack_of_def coap_set_header_token_def coap_init_message_def zero_packet_def
      SET_OPTION_def option_numbers coap_sizes min_def)

lemma handle_request_dm:
  assumes "uri_ids ids" and "ids \<noteq> []" and "uri_path m = map (\<lambda>i. dec_text (unat i)) ids" and "altPath ctx = None"
    and "utils_findServer P ctx s = Some srv"
    and "dm_handleRequest H ctx (uri_of ids) srv m r = Some (ctx1, r1, res)" and "COAP_IGNORE < res" and "res < COAP_400_BAD_REQUEST"
  shows "handle_request H P s m r ctx = Some (ctx1, r1\<lparr>code := res\<rparr>, COAP_NO_ERROR)"
proof -
  have "unat res < 256" using unsigned_less [of res, where 'a = nat] by simp
  then have "(ucast (ucast res :: u32) :: u8) = res" "(ucast res :: u32) \<le> 255"
    by (simp_all add: word_le_nat_alt unat_ucast_up)
  then show ?thesis
    using assms uri_decode_spelled [OF assms(1,2), of "code m"]
    by (simp add: handle_request_def coap_set_status_code_def)
qed

lemma received_message [simp]:
  "mtype (received q) = mtype q" "code (received q) = code q" "mid (received q) = mid q" "token (received q) = token q"
  "options (received q) = options q" "uri_path (received q) = uri_path q" "payload (received q) = payload q"
  "payload_len (received q) = payload_len q" "block1_num (received q) = block1_num q"
  "block1_more (received q) = block1_more q" "block1_size (received q) = block1_size q"
  "block2_num (received q) = block2_num q" "block2_more (received q) = block2_more q" "block2_size (received q) = block2_size q"
  "size_opt (received q) = size_opt q"
  by (simp_all add: received_def payload_len_def)

text \<open>A well-formed datagram reaches the branch for its kind.\<close>

lemma handle_packet_wf:
  fixes P :: "('a client) platform"
  assumes "coap_wf q" and "length (msg_bytes q) < 2 ^ 16" and "\<And>n. mem_ok P n"
  shows "COAP_GET \<le> code q \<Longrightarrow> code q \<le> COAP_DELETE \<Longrightarrow> lwm2m_handle_packet H P addr32 (msg_bytes q) s ctx =
      do { (ctx, st) \<leftarrow> handle_request_message H P addr32 s (received q) (length (msg_bytes q)) ctx;
           send_error P s (mid q) st ctx }"
    and "\<not> (COAP_GET \<le> code q \<and> code q \<le> COAP_DELETE) \<Longrightarrow> mtype q = COAP_TYPE_ACK \<Longrightarrow>
      lwm2m_handle_packet H P addr32 (msg_bytes q) s ctx =
      do { (ctx, st) \<leftarrow> handle_ack P addr32 s (received q) ctx; send_error P s (mid q) st ctx }"
proof -
  have "coap_parse_message (mem_ok P) (msg_bytes q) = (COAP_NO_ERROR, received q)"
    by (rule parse_msg_bytes [OF assms(1,3)])
  then show "COAP_GET \<le> code q \<Longrightarrow> code q \<le> COAP_DELETE \<Longrightarrow> lwm2m_handle_packet H P addr32 (msg_bytes q) s ctx =
      do { (ctx, st) \<leftarrow> handle_request_message H P addr32 s (received q) (length (msg_bytes q)) ctx;
           send_error P s (mid q) st ctx }"
    "\<not> (COAP_GET \<le> code q \<and> code q \<le> COAP_DELETE) \<Longrightarrow> mtype q = COAP_TYPE_ACK \<Longrightarrow>
      lwm2m_handle_packet H P addr32 (msg_bytes q) s ctx =
      do { (ctx, st) \<leftarrow> handle_ack P addr32 s (received q) ctx; send_error P s (mid q) st ctx }"
    using assms(2) by (auto simp: lwm2m_handle_packet_def Let_def)
qed

lemma send_error_none [simp]: "send_error P s i COAP_NO_ERROR ctx = Some ctx"
  by (simp add: send_error_def)

definition is_request :: "coap_packet_t \<Rightarrow> bool" where
  "is_request q \<longleftrightarrow> coap_wf q \<and> mtype q = COAP_TYPE_CON \<and> COAP_GET \<le> code q \<and> code q \<le> COAP_DELETE"

lemma handle_dm_request:
  fixes P :: "('a client) platform"
  assumes "is_request q" and "27 \<notin> options q" and "23 \<notin> options q"
    and "length (msg_bytes q) \<le> LWM2M_COAP_MAX_MESSAGE_SIZE" and "\<forall>n. mem_ok P n"
    and "uri_ids ids" and "ids \<noteq> []" and "uri_path q = map (\<lambda>i. dec_text (unat i)) ids" and "altPath ctx = None"
    and "utils_findServer P ctx s = Some srv"
    and "dm_handleRequest H ctx (uri_of ids) srv (received q) (ack_of q) = Some (ctx1, r, res)"
    and "COAP_IGNORE < res" and "res < COAP_400_BAD_REQUEST"
    and "size_ok r" and "multi_ok r" and "payload_len r \<le> unat (coap_block_size ctx1)"
    and "buffer_send P s (msg_bytes (r\<lparr>code := res\<rparr>)) = COAP_NO_ERROR"
  shows "lwm2m_handle_packet H P addr32 (msg_bytes q) s ctx =
    Some (ctx1\<lparr>sent := sent ctx1 @ [(s, msg_bytes (r\<lparr>code := res\<rparr>))]\<rparr>)"
proof -
  let ?r = "r\<lparr>code := res\<rparr>"
  have q: "coap_wf q" "mtype q = COAP_TYPE_CON" "COAP_GET \<le> code q" "code q \<le> COAP_DELETE" "length (token q) \<le> 8"
    using assms(1) by (auto simp: is_request_def coap_wf_def limits_ok_def)
  have len: "length (msg_bytes q) < 2 ^ 16" using assms(4) by (simp add: LWM2M_COAP_MAX_MESSAGE_SIZE_def)
  have small: "\<not> is_message_too_large (coap_block_size ctx) (received q) (length (msg_bytes q))"
    using assms(2-4) by (simp add: is_message_too_large_def IS_OPTION_def option_numbers)
  have init: "init_response (received q) ctx = (ctx, ack_of q)"
    using init_response_con [of "received q" ctx] q by (simp add: ack_of_def)
  have req: "handle_request H P s (received q) (ack_of q) ctx = Some (ctx1, ?r, COAP_NO_ERROR)"
    using assms(6-13) by (intro handle_request_dm) simp_all
  have split: "split_response (coap_block_size ctx1) (received q) ?r = ?r"
    using assms(3,16) by (simp add: split_response_def coap_get_header_block2_def IS_OPTION_def option_numbers
        lwm2m_get_coap_block_size_def payload_len_def)
  have "message_send P ?r s ctx1 =
      Some (ctx1\<lparr>sent := sent ctx1 @ [(s, msg_bytes ?r)]\<rparr>, coap_free_header (?r\<lparr>version := 1\<rparr>), COAP_NO_ERROR)"
    using message_send_bytes [of ?r P s ctx1] assms(5,14,15,17) by (simp add: size_ok_def multi_ok_def IS_OPTION_def)
  then have "handle_request_message H P addr32 s (received q) (length (msg_bytes q)) ctx =
      Some (ctx1\<lparr>sent := sent ctx1 @ [(s, msg_bytes ?r)]\<rparr>, COAP_NO_ERROR)"
    using assms(2) init small req split by (simp add: handle_request_message_def finish_request_def IS_OPTION_def option_numbers)
  then show ?thesis using handle_packet_wf(1) [OF q(1) len _ q(3,4), of P H addr32 s ctx] assms(5) by simp
qed

text \<open>C11: A confirmable device management request for a path, from a known server, reaches the handler
  with the decoded path and message, and its answer goes back as one piggybacked response with
  the code the handler returned.\<close>

theorem request_dispatched:
  fixes P :: "('a client) platform"
  assumes "is_request q" and "27 \<notin> options q" and "23 \<notin> options q"
    and "length (msg_bytes q) \<le> LWM2M_COAP_MAX_MESSAGE_SIZE" and "\<forall>n. mem_ok P n"
    and "uri_ids ids" and "ids \<noteq> []" and "uri_path q = map (\<lambda>i. dec_text (unat i)) ids" and "altPath ctx = None"
    and "utils_findServer P ctx s = Some srv"
    and "dm_handleRequest H ctx (uri_of ids) srv (received q) (ack_of q) = Some (ctx1, r, res)"
    and "COAP_IGNORE < res" and "res < COAP_400_BAD_REQUEST"
    and "size_ok r" and "multi_ok r" and "payload_len r \<le> unat (coap_block_size ctx1)"
    and "buffer_send P s (msg_bytes (r\<lparr>code := res\<rparr>)) = COAP_NO_ERROR"
  shows "lwm2m_handle_packet H P addr32 (msg_bytes q) s ctx =
    Some (ctx1\<lparr>sent := sent ctx1 @ [(s, msg_bytes (r\<lparr>code := res\<rparr>))]\<rparr>)"
  using assms by (rule handle_dm_request)

definition example_request :: coap_packet_t where
  "example_request = request_packet COAP_GET 5 [3, 0] [7]"

lemma example_request_ok:
  "is_request example_request" "length (msg_bytes example_request) \<le> LWM2M_COAP_MAX_MESSAGE_SIZE"
proof -
  have ids: "uri_ids [3, 0]" by (simp add: uri_ids_def LWM2M_MAX_ID_def)
  have wf: "coap_wf example_request" "size_ok example_request"
    using request_packet_wf [OF ids, of COAP_GET 5 "[7]"] by (simp_all add: example_request_def COAP_GET_def)
  then show "is_request example_request"
    by (simp add: is_request_def)
       (simp add: example_request_def request_packet_def coap_init_message_def zero_packet_def COAP_GET_def COAP_DELETE_def)
  have "length (dec_text 3) \<le> 5" "length (dec_text 0) \<le> 5" by (rule dec_text_length_less; simp)+
  then have "coap_serialize_get_size example_request \<le> 2048"
    by (simp add: example_request_def coap_serialize_get_size_def request_packet_def IS_OPTION_def option_numbers
        coap_init_message_def zero_packet_def payload_len_def coap_sizes Let_def)
  then show "length (msg_bytes example_request) \<le> LWM2M_COAP_MAX_MESSAGE_SIZE"
    using msg_bytes_size [of example_request] wf by (simp add: coap_wf_def LWM2M_COAP_MAX_MESSAGE_SIZE_def)
qed

theorem request_dispatched_witness:
  "lwm2m_handle_packet example_handlers client_platform (\<lambda>_. 0) (msg_bytes example_request) 3 example_client =
    Some ((example_store example_client [])\<lparr>sent := [(3, msg_bytes ((ack_of example_request)\<lparr>code := COAP_204_CHANGED\<rparr>))]\<rparr>)"
proof -
  have "lwm2m_handle_packet example_handlers client_platform (\<lambda>_. 0) (msg_bytes example_request) 3 example_client =
    Some ((example_store example_client [])\<lparr>sent := sent (example_store example_client []) @
      [(3, msg_bytes ((ack_of example_request)\<lparr>code := COAP_204_CHANGED\<rparr>))]\<rparr>)"
    by (rule request_dispatched [OF example_request_ok(1) _ _ example_request_ok(2), where ids = "[3, 0]" and srv = example_server])
       (simp_all add: example_findServer, simp_all add: example_client_defs example_request_def request_packet_def coap_init_message_def zero_packet_def
         payload_bytes_def uri_ids_def LWM2M_MAX_ID_def coap_codes ack_of_def size_ok_def multi_ok_def IS_OPTION_def option_numbers
         payload_len_def)
  then show ?thesis by (simp add: example_client_defs)
qed

section \<open>Answers in blocks\<close>

text \<open>A request for block \<open>k\<close> of size \<open>sz\<close>, as the parser delivers it.\<close>

definition asks_block2 :: "coap_packet_t \<Rightarrow> nat \<Rightarrow> u16 \<Rightarrow> bool" where
  "asks_block2 m k sz \<longleftrightarrow> (\<exists>mo. coap_get_header_block2 m = Some (of_nat k, mo, sz, of_nat k * ucast sz))"

lemma split_response_block:
  assumes "asks_block2 m k sz" and "validate_block_size sz" and "sz \<le> bs" and "payload r = Some pl" and "length pl < 2 ^ 16"
    and "k * unat sz < length pl"
  shows "split_response bs m r = r\<lparr>options := insert 23 (options r), block2_num := of_nat k,
     block2_more := (if Suc k * unat sz < length pl then 1 else 0), block2_size := sz, payload := Some (block_at (unat sz) k pl)\<rparr>"
proof -
  obtain mo where h: "coap_get_header_block2 m = Some (of_nat k, mo, sz, of_nat k * ucast sz)"
    using assms(1) by (auto simp: asks_block2_def)
  have b: "16 \<le> sz" "sz \<le> 1024" "16 \<le> unat sz" "unat sz \<le> 1024" using block_size_bounds [OF assms(2)] by simp_all
  have "k < length pl" using b(3) assms(6) block_index [of "unat sz" k "length pl"] by simp
  then have k: "k < 65536" using assms(5) by simp
  then have kn: "unat (of_nat k :: u32) = k" by (intro unat_of_nat_small) simp
  have off: "unat (of_nat k * ucast sz :: u32) = k * unat sz"
    using kn assms(5,6) by (simp add: unat_word_ariths unat_ucast_up)
  have le: "\<not> sz < 16" "\<not> 2048 < sz" "\<not> 0xFFFFF < (of_nat k :: u32)" "min sz bs = sz"
    using b(1,2) kn k assms(3) by (auto simp: word_less_nat_alt word_le_nat_alt min_def)
  let ?b = "take (min (length pl - k * unat sz) (unat sz)) (drop (k * unat sz) pl)"
  have blk: "?b = block_at (unat sz) k pl" by (auto simp: block_at_def min_def)
  have "length ?b \<le> 1024" using b(4) by simp
  then have cut: "unat (of_nat (length ?b) :: u16) = length ?b" by (intro unat_of_nat_small) simp
  have more: "unat sz < length pl - k * unat sz \<longleftrightarrow> Suc k * unat sz < length pl" by auto
  show ?thesis
    using assms(4,6) h off le cut more
    by (simp add: split_response_def payload_len_def payload_bytes_def lwm2m_get_coap_block_size_def Let_def
        coap_set_header_block2_def coap_set_payload_def SET_OPTION_def option_numbers blk)
qed


definition example_block2_request :: "nat \<Rightarrow> u16 \<Rightarrow> coap_packet_t" where
  "example_block2_request k sz =
     zero_packet\<lparr>options := {23}, block2_num := of_nat k, block2_size := sz, block2_offset := of_nat k * ucast sz\<rparr>"

lemma example_block2_request: "asks_block2 (example_block2_request k sz) k sz"
  by (simp add: asks_block2_def example_block2_request_def coap_get_header_block2_def IS_OPTION_def option_numbers)


text \<open>When the requested block size exceeds the own block size, the answer is labelled with the
  smaller size but cut at the offset of the larger one: the second block of a response of 2000
  bytes, requested with size 1024 from an endpoint that uses 512, is announced as bytes 512 to
  1023 and carries bytes 1024 to 1535.\<close>

theorem block2_size_reduced:
  assumes "asks_block2 m 1 1024" and "payload r = Some pl" and "length pl = 2000"
  shows "coap_get_header_block2 (split_response 512 m r) = Some (1, 1, 512, block2_offset r) \<and>
    payload (split_response 512 m r) = Some (take 512 (drop 1024 pl))"
proof -
  obtain mo where "coap_get_header_block2 m = Some (1, mo, 1024, 1024)" using assms(1) by (auto simp: asks_block2_def)
  then show ?thesis
    using assms(2,3)
    by (simp add: split_response_def payload_len_def payload_bytes_def lwm2m_get_coap_block_size_def Let_def
        coap_set_header_block2_def coap_get_header_block2_def coap_set_payload_def SET_OPTION_def option_numbers IS_OPTION_def)
qed

theorem block2_size_reduced_witness:
  "coap_get_header_block2 (split_response 512 (example_block2_request 1 1024) (zero_packet\<lparr>payload := Some (replicate 2000 7)\<rparr>)) =
     Some (1, 1, 512, 0)"
  using block2_size_reduced [of "example_block2_request 1 1024" "zero_packet\<lparr>payload := Some (replicate 2000 7)\<rparr>" "replicate 2000 7"]
    example_block2_request [of 1 1024] by (simp add: zero_packet_def)

end
