(* ===== verification/Upload.thy ===== *)
theory Upload
  imports Handle_Packet
begin

text \<open>
  Transfers in blocks from end to end: the datagrams that the sender of \<^verbatim>\<open>core/packet.c\<close> makes for
  the blocks of a payload, handled one after the other by \<open>lwm2m_handle_packet\<close> of the receiver,
  and the acknowledgements handled by the sender.
\<close>

section \<open>The receiver of an upload\<close>

fun handle_packets ::
  "('a client) client_handlers \<Rightarrow> ('a client) platform \<Rightarrow> (bytes option \<Rightarrow> int) \<Rightarrow> session \<Rightarrow> bytes list \<Rightarrow> 'a client \<Rightarrow>
   ('a client) c" where
  "handle_packets H P addr32 s [] ctx = Some ctx"
| "handle_packets H P addr32 s (d # ds) ctx =
     do { ctx \<leftarrow> lwm2m_handle_packet H P addr32 d s ctx; handle_packets H P addr32 s ds ctx }"

lemma handle_packets_append:
  "handle_packets H P addr32 s (xs @ ys) ctx =
     do { ctx \<leftarrow> handle_packets H P addr32 s xs ctx; handle_packets H P addr32 s ys ctx }"
  by (induction xs arbitrary: ctx) (auto split: bind_splits)

lemma find_update_first: "find Q xs = Some x \<Longrightarrow> Q (f x) \<Longrightarrow> find Q (update_first Q f xs) = Some (f x)"
  by (induction xs) (auto split: if_splits)

lemma update_first_twice:
  "(\<And>x. Q (f x) = Q x) \<Longrightarrow> update_first Q g (update_first Q f xs) = update_first Q (\<lambda>x. g (f x)) xs"
  by (induction xs) auto

lemma put_blocks_fields [simp]:
  "altPath (put_blocks P s b ctx) = altPath ctx" "sent (put_blocks P s b ctx) = sent ctx"
  "coap_block_size (put_blocks P s b ctx) = coap_block_size ctx" "transactionList (put_blocks P s b ctx) = transactionList ctx"
  by (simp_all add: put_blocks_def Let_def split: option.split)

lemma findServer_sent [simp]: "utils_findServer P (ctx\<lparr>sent := x\<rparr>) s = utils_findServer P ctx s"
  by (simp add: utils_findServer_def)

lemma put_blocks_sent: "put_blocks P s b (ctx\<lparr>sent := x\<rparr>) = (put_blocks P s b ctx)\<lparr>sent := x\<rparr>"
  by (simp add: put_blocks_def Let_def split: option.split)

lemma put_blocks_server:
  "utils_findServer P ctx s = Some srv \<Longrightarrow> put_blocks P s b ctx =
     ctx\<lparr>serverList := update_first (\<lambda>t. session_is_equal P (sessionH t) s) (\<lambda>t. t\<lparr>blockData := b\<rparr>) (serverList ctx)\<rparr>"
  by (simp add: put_blocks_def)

lemma findServer_put_blocks:
  assumes "utils_findServer P ctx s = Some srv"
  shows "utils_findServer P (put_blocks P s b ctx) s = Some (srv\<lparr>blockData := b\<rparr>)"
proof -
  have f: "find (\<lambda>t. session_is_equal P (sessionH t) s) (serverList ctx) = Some srv"
    using assms by (simp add: utils_findServer_def)
  then have "session_is_equal P (sessionH srv) s" by (auto simp: find_Some_iff)
  then show ?thesis
    using find_update_first [OF f, of "\<lambda>t. t\<lparr>blockData := b\<rparr>"] unfolding put_blocks_server [OF assms]
    by (simp add: utils_findServer_def)
qed

lemma put_blocks_twice:
  assumes "utils_findServer P ctx s = Some srv"
  shows "put_blocks P s b' (put_blocks P s b ctx) = put_blocks P s b' ctx"
  unfolding put_blocks_server [OF findServer_put_blocks [OF assms]] unfolding put_blocks_server [OF assms]
  by (simp add: update_first_twice)

text \<open>What the receiver has after \<open>k\<close> blocks.\<close>

definition collected :: "bytes \<Rightarrow> u16 \<Rightarrow> bytes \<Rightarrow> nat \<Rightarrow> lwm2m_block_data_t list \<Rightarrow> bool" where
  "collected u sz pl k head \<longleftrightarrow>
     (if k = 0 then blocks_ok BLOCK_1 head
      else in_progress BLOCK_1 (Block_uri (Some u)) (take (k * unat sz) pl) (of_nat (k - 1)) head)"

lemma collected_step:
  assumes "collected u sz pl k head" and "validate_block_size sz" and "k * unat sz < length pl"
    and "length pl \<le> LWM2M_COAP_MAX_MESSAGE_SIZE"
  shows "\<exists>bds. coap_block1_handler (\<lambda>_. True) addr32 head u (block_at (unat sz) k pl) sz (of_nat k) mo =
      Some (fst (block_reply mo (take (Suc k * unat sz) pl)), bds, snd (block_reply mo (take (Suc k * unat sz) pl))) \<and>
    collected u sz pl (Suc k) bds"
proof -
  have id: "ident_ok BLOCK_1 (Block_uri (Some u))" by (simp add: ident_ok_def)
  have app: "take (k * unat sz) pl @ block_at (unat sz) k pl = take (Suc k * unat sz) pl"
    by (simp add: block_at_def take_add [symmetric] add.commute)
  show ?thesis
  proof (cases k)
    case 0
    then show ?thesis
      using first_block_step [OF _ id, of head addr32 "block_at (unat sz) 0 pl" sz mo] assms(1) app
      by (auto simp: collected_def coap_block1_handler_def)
  next
    case (Suc j)
    have sz: "16 \<le> unat sz" using block_size_bounds [OF assms(2)] by simp
    then have "k < length pl" using assms(3) block_index [of "unat sz" k "length pl"] by simp
    then have "k < 2048" using assms(4) by (simp add: LWM2M_COAP_MAX_MESSAGE_SIZE_def)
    then have n: "unat (of_nat k :: u32) = k" "unat (of_nat j :: u32) = j" using Suc by (intro unat_of_nat_small; simp)+
    then have lt: "(of_nat j :: u32) < of_nat k" using Suc by (simp only: word_less_nat_alt)
    have len: "length (take (k * unat sz) pl) = unat sz * unat (of_nat k :: u32)" using assms(3) n(1) by (simp add: mult.commute)
    have "length (take (k * unat sz) pl @ block_at (unat sz) k pl) \<le> 2048"
      unfolding app using assms(4) by (simp add: LWM2M_COAP_MAX_MESSAGE_SIZE_def)
    then have "\<exists>head'. prv_coap_block_handler (\<lambda>_. True) addr32 head (Block_uri (Some u)) BLOCK_1 (block_at (unat sz) k pl) sz (of_nat k) mo
      = Some (fst (block_reply mo (take (k * unat sz) pl @ block_at (unat sz) k pl)), head',
              snd (block_reply mo (take (k * unat sz) pl @ block_at (unat sz) k pl))) \<and>
        in_progress BLOCK_1 (Block_uri (Some u)) (take (k * unat sz) pl @ block_at (unat sz) k pl) (of_nat k) head'"
      using assms(1) Suc len lt by (intro next_block_step [OF _ id, of _ "of_nat j"]) (auto simp: collected_def)
    then show ?thesis unfolding app by (simp add: collected_def coap_block1_handler_def)
  qed
qed

text \<open>The answers to a block: 2.31 Continue, or the final code, with the Block1 option of the request.\<close>

definition block1_answer :: "coap_packet_t \<Rightarrow> u8 \<Rightarrow> coap_packet_t" where
  "block1_answer q st = (ack_of q)\<lparr>options := insert 27 (options (ack_of q)), block1_num := block1_num q,
     block1_more := block1_more q, block1_size := block1_size q, code := st\<rparr>"

definition block1_request :: "coap_packet_t \<Rightarrow> u16 \<Rightarrow> bool" where
  "block1_request q bs \<longleftrightarrow> is_request q \<and> 27 \<in> options q \<and> 23 \<notin> options q \<and> block1_size q \<le> bs \<and>
     16 \<le> block1_size q \<and> block1_size q \<le> 1024 \<and> payload_len q \<le> unat bs \<and> length (msg_bytes q) < 2 ^ 16"

lemma block1_answer_ok:
  assumes "block1_request q bs"
  shows "size_ok (block1_answer q st)" "multi_ok (block1_answer q st)"
proof -
  have "block1_num q < 2 ^ 20"
    using assms by (auto simp: block1_request_def is_request_def coap_wf_def limits_ok_def)
  then show "size_ok (block1_answer q st)" "multi_ok (block1_answer q st)"
    by (simp_all add: size_ok_def multi_ok_def block1_answer_def ack_of_def coap_init_message_def zero_packet_def IS_OPTION_def
        option_numbers)
qed

text \<open>The handling of a block by the receiver, up to the decision of the block handler.\<close>

lemma receive_block1_step:
  fixes P :: "('a client) platform"
  assumes q: "block1_request q (coap_block_size ctx)" and mem: "mem_ok P = (\<lambda>_. True)"
    and srv: "utils_findServer P ctx s = Some srv"
    and uri: "coap_get_packet_uri_as_string (\<lambda>_. True) (received q) = Some (Some u)"
    and blk: "coap_block1_handler (\<lambda>_. True) addr32 (blockData srv) u (payload_bytes q) (block1_size q) (block1_num q)
       (block1_more q \<noteq> 0) = Some (st, bds, out)"
    and m': "(if st = COAP_NO_ERROR then set_complete out (received q) else Some (received q)) = Some m'"
  shows "receive_block1 P addr32 s (received q) (ack_of q) ctx =
    Some (put_blocks P s bds ctx, m', (block1_answer q st)\<lparr>code := code (ack_of q)\<rparr>, st)"
proof -
  have sz: "min (block1_size q) (coap_block_size ctx) = block1_size q" "\<not> block1_size q < 16" "\<not> 2048 < block1_size q"
    using q by (auto simp: block1_request_def min_def word_le_nat_alt word_less_nat_alt)
  have "block1_num q < 2 ^ 20"
    using q by (auto simp: block1_request_def is_request_def coap_wf_def limits_ok_def)
  then have n: "\<not> 0xFFFFF < block1_num q" by (auto simp: word_less_nat_alt)
  have pb: "payload_bytes (received q) = payload_bytes q" by (simp add: payload_bytes_def)
  show ?thesis
    using srv uri blk sz n m' mem pb
    by (simp add: receive_block1_def find_peer_def lwm2m_get_coap_block_size_def coap_set_header_block1_def SET_OPTION_def
        option_numbers block1_answer_def)
qed

lemma handle_block1_request:
  fixes P :: "('a client) platform"
  assumes q: "block1_request q (coap_block_size ctx)" and mem: "mem_ok P = (\<lambda>_. True)"
    and recv: "receive_block1 P addr32 s (received q) (ack_of q) ctx = Some (ctx1, m', r, st)"
  shows "lwm2m_handle_packet H P addr32 (msg_bytes q) s ctx =
    do { (ctx, st) \<leftarrow> finish_request H P s m' r st ctx1; send_error P s (mid q) st ctx }"
proof -
  have wf: "coap_wf q" "mtype q = COAP_TYPE_CON" "COAP_GET \<le> code q" "code q \<le> COAP_DELETE" "length (token q) \<le> 8"
    "length (msg_bytes q) < 2 ^ 16"
    using q by (auto simp: block1_request_def is_request_def coap_wf_def limits_ok_def)
  have "init_response (received q) ctx = (ctx, ack_of q)"
    using init_response_con [of "received q" ctx] wf by (simp add: ack_of_def)
  moreover have "IS_OPTION (received q) COAP_OPTION_BLOCK1"
    "\<not> is_message_too_large (coap_block_size ctx) (received q) (length (msg_bytes q))"
    using q by (auto simp: block1_request_def is_message_too_large_def IS_OPTION_def option_numbers lwm2m_get_coap_block_size_def)
  ultimately have "handle_request_message H P addr32 s (received q) (length (msg_bytes q)) ctx = finish_request H P s m' r st ctx1"
    using recv by (simp add: handle_request_message_def)
  then show ?thesis using handle_packet_wf(1) [OF wf(1,6) _ wf(3,4), of P H addr32 s ctx] mem by simp
qed

text \<open>A block that is not the last is answered with 2.31 Continue.\<close>

lemma receive_continue:
  fixes P :: "('a client) platform"
  assumes q: "block1_request q (coap_block_size ctx)" and mem: "mem_ok P = (\<lambda>_. True)"
    and "utils_findServer P ctx s = Some srv" and "coap_get_packet_uri_as_string (\<lambda>_. True) (received q) = Some (Some u)"
    and "coap_block1_handler (\<lambda>_. True) addr32 (blockData srv) u (payload_bytes q) (block1_size q) (block1_num q)
       (block1_more q \<noteq> 0) = Some (COAP_231_CONTINUE, bds, out)"
    and send: "\<And>b. buffer_send P s b = COAP_NO_ERROR"
  shows "lwm2m_handle_packet H P addr32 (msg_bytes q) s ctx =
    Some ((put_blocks P s bds ctx)\<lparr>sent := sent ctx @ [(s, msg_bytes (block1_answer q COAP_231_CONTINUE))]\<rparr>)"
proof -
  let ?a = "block1_answer q COAP_231_CONTINUE"
  have "receive_block1 P addr32 s (received q) (ack_of q) ctx =
      Some (put_blocks P s bds ctx, received q, ?a\<lparr>code := code (ack_of q)\<rparr>, COAP_231_CONTINUE)"
    using assms(3-5) by (intro receive_block1_step [OF q mem]) (simp_all add: coap_codes)
  note h = handle_block1_request [OF q mem this, of H]
  have m: "message_send P ?a s c = Some (c\<lparr>sent := sent c @ [(s, msg_bytes ?a)]\<rparr>, coap_free_header (?a\<lparr>version := 1\<rparr>), 0)" for c
    using message_send_bytes [OF block1_answer_ok [OF q], of P COAP_231_CONTINUE s c] send mem by (simp add: coap_codes)
  have "fst (coap_set_status_code (?a\<lparr>code := code (ack_of q)\<rparr>)
      (ucast (retransmission_status (?a\<lparr>code := code (ack_of q)\<rparr>) COAP_231_CONTINUE))) = ?a"
    by (simp add: coap_set_status_code_def retransmission_status_def coap_codes block1_answer_def)
  then show ?thesis unfolding h using m by (simp add: finish_request_def coap_codes send_error_def)
qed

text \<open>The last block: the handler gets the whole payload.\<close>

lemma receive_last:
  fixes P :: "('a client) platform"
  assumes q: "block1_request q (coap_block_size ctx)" and mem: "mem_ok P = (\<lambda>_. True)"
    and srv: "utils_findServer P ctx s = Some srv" and "coap_get_packet_uri_as_string (\<lambda>_. True) (received q) = Some (Some u)"
    and "coap_block1_handler (\<lambda>_. True) addr32 (blockData srv) u (payload_bytes q) (block1_size q) (block1_num q)
       (block1_more q \<noteq> 0) = Some (COAP_NO_ERROR, bds, Some (Buffer pl, Some (length pl)))"
    and send: "\<And>b. buffer_send P s b = COAP_NO_ERROR"
    and ids: "uri_ids ids" "ids \<noteq> []" "uri_path q = map (\<lambda>i. dec_text (unat i)) ids" "altPath ctx = None"
    and H: "\<And>c v m r. dm_handleRequest H c (uri_of ids) v m r = Some (store c (payload_bytes m), r, COAP_204_CHANGED)"
  shows "lwm2m_handle_packet H P addr32 (msg_bytes q) s ctx =
    (let c = store (put_blocks P s bds ctx) pl in Some (c\<lparr>sent := sent c @ [(s, msg_bytes (block1_answer q COAP_204_CHANGED))]\<rparr>))"
proof -
  let ?a = "block1_answer q COAP_204_CHANGED" and ?m = "(received q)\<lparr>payload := Some pl\<rparr>"
  let ?r = "(block1_answer q COAP_NO_ERROR)\<lparr>code := code (ack_of q)\<rparr>"
  have "set_complete (Some (Buffer pl, Some (length pl))) (received q) = Some ?m"
    by (simp add: set_complete_def)
  then have "receive_block1 P addr32 s (received q) (ack_of q) ctx = Some (put_blocks P s bds ctx, ?m, ?r, COAP_NO_ERROR)"
    using assms(3-5) by (intro receive_block1_step [OF q mem]) simp_all
  note h = handle_block1_request [OF q mem this, of H]
  have "dm_handleRequest H (put_blocks P s bds ctx) (uri_of ids) (srv\<lparr>blockData := bds\<rparr>) ?m ?r =
      Some (store (put_blocks P s bds ctx) pl, ?r, COAP_204_CHANGED)"
    using H by (simp add: payload_bytes_def)
  then have "handle_request H P s ?m ?r (put_blocks P s bds ctx) = Some (store (put_blocks P s bds ctx) pl, ?r\<lparr>code := COAP_204_CHANGED\<rparr>, COAP_NO_ERROR)"
    using ids findServer_put_blocks [OF srv] by (intro handle_request_dm) (simp_all add: coap_codes)
  moreover have "?r\<lparr>code := COAP_204_CHANGED\<rparr> = ?a" by (simp add: block1_answer_def)
  moreover have "split_response bs ?m ?a = ?a" for bs
    using q by (simp add: block1_request_def split_response_def coap_get_header_block2_def IS_OPTION_def option_numbers Let_def
        block1_answer_def ack_of_def coap_init_message_def zero_packet_def payload_len_def)
  moreover have "message_send P ?a s c = Some (c\<lparr>sent := sent c @ [(s, msg_bytes ?a)]\<rparr>, coap_free_header (?a\<lparr>version := 1\<rparr>), COAP_NO_ERROR)" for c
    using message_send_bytes [OF block1_answer_ok [OF q], of P COAP_204_CHANGED s c] send mem by simp
  ultimately show ?thesis unfolding h by (simp add: finish_request_def Let_def)
qed

section \<open>Uploads\<close>

definition upload_packet :: "coap_packet_t \<Rightarrow> (nat \<Rightarrow> u16) \<Rightarrow> u16 \<Rightarrow> bytes \<Rightarrow> nat \<Rightarrow> coap_packet_t" where
  "upload_packet m i sz pl k = block1_packet m (i k) k sz pl"

text \<open>What an upload relies on: the request, its path and size, and the state of the receiver.\<close>

definition upload_ok :: "coap_packet_t \<Rightarrow> (nat \<Rightarrow> u16) \<Rightarrow> u16 \<Rightarrow> bytes \<Rightarrow> u16 list \<Rightarrow> u16 \<Rightarrow> bool" where
  "upload_ok m i sz pl ids bs \<longleftrightarrow> block_copyable m \<and> COAP_GET \<le> code m \<and> code m \<le> COAP_DELETE \<and> uri_ids ids \<and> ids \<noteq> [] \<and>
     uri_path m = map (\<lambda>i. dec_text (unat i)) ids \<and> validate_block_size sz \<and> sz \<le> bs \<and> pl \<noteq> [] \<and>
     length pl \<le> LWM2M_COAP_MAX_MESSAGE_SIZE \<and>
     (\<forall>k < block_count (unat sz) pl. length (msg_bytes (upload_packet m i sz pl k)) < 2 ^ 16)"

lemma upload_packet_request:
  assumes ok: "upload_ok m i sz pl ids bs" and k: "k < block_count (unat sz) pl"
  defines "q \<equiv> upload_packet m i sz pl k"
  shows "block1_request q bs" "payload_bytes q = block_at (unat sz) k pl" "block1_size q = sz" "block1_num q = of_nat k"
    "block1_more q \<noteq> 0 \<longleftrightarrow> Suc k < block_count (unat sz) pl" "uri_path q = map (\<lambda>i. dec_text (unat i)) ids"
    "coap_get_packet_uri_as_string mem (received q) = coap_get_packet_uri_as_string mem (block_packet m 0)"
proof -
  have sz: "validate_block_size sz" "sz \<le> bs" "pl \<noteq> []" and m: "block_copyable m" "COAP_GET \<le> code m" "code m \<le> COAP_DELETE"
    "uri_path m = map (\<lambda>i. dec_text (unat i)) ids"
    using ok by (simp_all add: upload_ok_def)
  have b: "16 \<le> sz" "sz \<le> 1024" "16 \<le> unat sz" using block_size_bounds [OF sz(1)] by simp_all
  have pos: "0 < unat sz" using b(3) by simp
  note n = block_count [OF pos sz(3)]
  have off: "k * unat sz < length pl" using n(4) k by blast
  have "k < length pl" using block_index [OF pos off] .
  then have k20: "k < 2 ^ 20" using ok by (simp add: upload_ok_def LWM2M_COAP_MAX_MESSAGE_SIZE_def)
  note d = q_def upload_packet_def block1_packet_def block_packet_def coap_init_message_def zero_packet_def
  have len: "length (block_at (unat sz) k pl) \<le> unat bs"
    using sz(2) by (simp add: block_at_def word_le_nat_alt min.coboundedI1 min.coboundedI2)
  have wf: "coap_wf q" using block1_packet_wf(1) [OF m(1) k20 sz(1) off, of "i k"] by (simp add: q_def upload_packet_def)
  have "length (msg_bytes q) < 2 ^ 16" using ok k unfolding q_def upload_ok_def by blast
  moreover have "mtype q = COAP_TYPE_CON" "code q = code m" "27 \<in> options q" "23 \<notin> options q" "block1_size q = sz"
    "payload_len q \<le> unat bs"
    using len by (simp_all add: d block_options_def payload_len_def)
  ultimately show "block1_request q bs"
    using wf m(2,3) sz(2) b unfolding block1_request_def is_request_def by simp
  show "payload_bytes q = block_at (unat sz) k pl" "block1_size q = sz" "block1_num q = of_nat k"
    "uri_path q = map (\<lambda>i. dec_text (unat i)) ids"
    using m(4) by (simp_all add: d payload_bytes_def)
  show "block1_more q \<noteq> 0 \<longleftrightarrow> Suc k < block_count (unat sz) pl" using n(4) [of "Suc k"] by (simp add: d)
  show "coap_get_packet_uri_as_string mem (received q) = coap_get_packet_uri_as_string mem (block_packet m 0)"
  proof -
    have f: "uri_path (received q) = uri_path (block_packet m 0)" "uri_query (received q) = uri_query (block_packet m 0)"
      "uri_host (received q) = uri_host (block_packet m 0)" "uri_port (received q) = uri_port (block_packet m 0)"
      by (simp_all add: d received_def)
    show ?thesis unfolding coap_get_packet_uri_as_string_def f ..
  qed
qed

text \<open>The state after \<open>k\<close> blocks, while more are to come.\<close>

lemma upload_prefix:
  fixes P :: "('a client) platform"
  assumes ok: "upload_ok m i sz pl ids (coap_block_size ctx)" and mem: "mem_ok P = (\<lambda>_. True)"
    and srv: "utils_findServer P ctx s = Some srv" and blocks: "blocks_ok BLOCK_1 (blockData srv)"
    and send: "\<And>b. buffer_send P s b = COAP_NO_ERROR"
    and uri: "coap_get_packet_uri_as_string (\<lambda>_. True) (block_packet m 0) = Some (Some u)"
    and k: "k < block_count (unat sz) pl"
  shows "\<exists>bds. handle_packets H P addr32 s (map (\<lambda>k. msg_bytes (upload_packet m i sz pl k)) [0..<k]) ctx =
      Some ((put_blocks P s bds ctx)\<lparr>sent := sent ctx @
        map (\<lambda>k. (s, msg_bytes (block1_answer (upload_packet m i sz pl k) COAP_231_CONTINUE))) [0..<k]\<rparr>) \<and>
    collected u sz pl k bds"
  using k
proof (induction k)
  case 0
  have "put_blocks P s (blockData srv) ctx = ctx"
  proof -
    have "update_first Q (\<lambda>t. t\<lparr>blockData := b\<rparr>) xs = xs" if "find Q xs = Some v" "blockData v = b"
      for Q b v and xs :: "lwm2m_server_t list"
      using that by (induction xs) (auto split: if_splits)
    then show ?thesis using srv by (simp add: put_blocks_server utils_findServer_def)
  qed
  then show ?case using blocks by (intro exI [of _ "blockData srv"]) (simp add: collected_def)
next
  case (Suc k)
  let ?q = "upload_packet m i sz pl k"
  obtain bds where h: "handle_packets H P addr32 s (map (\<lambda>k. msg_bytes (upload_packet m i sz pl k)) [0..<k]) ctx =
      Some ((put_blocks P s bds ctx)\<lparr>sent := sent ctx @
        map (\<lambda>k. (s, msg_bytes (block1_answer (upload_packet m i sz pl k) COAP_231_CONTINUE))) [0..<k]\<rparr>)"
    and c: "collected u sz pl k bds"
    using Suc.IH Suc.prems by auto
  let ?c = "(put_blocks P s bds ctx)\<lparr>sent := sent ctx @
        map (\<lambda>k. (s, msg_bytes (block1_answer (upload_packet m i sz pl k) COAP_231_CONTINUE))) [0..<k]\<rparr>"
  have sz: "validate_block_size sz" "pl \<noteq> []" "length pl \<le> LWM2M_COAP_MAX_MESSAGE_SIZE" using ok by (simp_all add: upload_ok_def)
  have pos: "0 < unat sz" using block_size_bounds [OF sz(1)] by simp
  have k: "k < block_count (unat sz) pl" using Suc.prems by simp
  note q = upload_packet_request [OF ok k]
  have "k * unat sz < length pl" using block_count(4) [OF pos sz(2)] k by blast
  then obtain bds' where b: "coap_block1_handler (\<lambda>_. True) addr32 bds u (block_at (unat sz) k pl) sz (of_nat k) True =
      Some (COAP_231_CONTINUE, bds', None)" and c': "collected u sz pl (Suc k) bds'"
    using collected_step [OF c sz(1) _ sz(3), of addr32 True] by (auto simp: block_reply_def)
  have "lwm2m_handle_packet H P addr32 (msg_bytes ?q) s ?c =
      Some ((put_blocks P s bds' ?c)\<lparr>sent := sent ?c @ [(s, msg_bytes (block1_answer ?q COAP_231_CONTINUE))]\<rparr>)"
    using q b Suc.prems uri findServer_put_blocks [OF srv] send
    by (intro receive_continue [OF _ mem, where srv = "srv\<lparr>blockData := bds\<rparr>" and u = u and out = None]) simp_all
  then show ?case
    using h c' put_blocks_twice [OF srv, of bds' bds]
    by (intro exI [of _ bds']) (simp add: handle_packets_append put_blocks_sent)
qed

text \<open>C3: The datagrams made for the blocks of a payload of at most 2048 bytes, handled in order by the
  receiver, are each answered with 2.31 Continue and an echo of their Block1 option, up to the
  last: then the handler of the request is called once, with exactly the payload, and its result
  is sent.\<close>

theorem block1_upload:
  fixes P :: "('a client) platform"
  assumes "upload_ok m i sz pl ids (coap_block_size ctx)" and "mem_ok P = (\<lambda>_. True)"
    and "utils_findServer P ctx s = Some srv" and "blocks_ok BLOCK_1 (blockData srv)" and "altPath ctx = None"
    and "\<forall>b. buffer_send P s b = COAP_NO_ERROR"
    and "\<forall>c v q r. dm_handleRequest H c (uri_of ids) v q r = Some (store c (payload_bytes q), r, COAP_204_CHANGED)"
  shows "\<exists>bds. handle_packets H P addr32 s (map (\<lambda>k. msg_bytes (upload_packet m i sz pl k)) [0..<block_count (unat sz) pl]) ctx =
    (let n = block_count (unat sz) pl - 1;
         c = store ((put_blocks P s bds ctx)\<lparr>sent := sent ctx @
               map (\<lambda>k. (s, msg_bytes (block1_answer (upload_packet m i sz pl k) COAP_231_CONTINUE))) [0..<n]\<rparr>) pl in
     Some (c\<lparr>sent := sent c @ [(s, msg_bytes (block1_answer (upload_packet m i sz pl n) COAP_204_CHANGED))]\<rparr>))"
proof -
  have sz: "validate_block_size sz" "pl \<noteq> []" "length pl \<le> LWM2M_COAP_MAX_MESSAGE_SIZE" "uri_ids ids" "ids \<noteq> []"
    using assms(1) by (simp_all add: upload_ok_def)
  have pos: "0 < unat sz" using block_size_bounds [OF sz(1)] by simp
  note n = block_count [OF pos sz(2)]
  define k where "k = block_count (unat sz) pl - 1"
  have k: "block_count (unat sz) pl = Suc k" using n(1) by (simp add: k_def)
  then have kn: "k < block_count (unat sz) pl" by simp
  obtain u where u: "coap_get_packet_uri_as_string (\<lambda>_. True) (block_packet m 0) = Some (Some u)"
    using coap_get_packet_uri_defined by blast
  let ?c = "\<lambda>bds. (put_blocks P s bds ctx)\<lparr>sent := sent ctx @
        map (\<lambda>k. (s, msg_bytes (block1_answer (upload_packet m i sz pl k) COAP_231_CONTINUE))) [0..<k]\<rparr>"
  obtain bds where h: "handle_packets H P addr32 s (map (\<lambda>k. msg_bytes (upload_packet m i sz pl k)) [0..<k]) ctx = Some (?c bds)"
    and c: "collected u sz pl k bds"
    using upload_prefix [OF assms(1-4) _ u kn, of H addr32] assms(6) by auto
  let ?q = "upload_packet m i sz pl k"
  note q = upload_packet_request [OF assms(1) kn]
  have "take (Suc k * unat sz) pl = pl" using n(3) k by simp
  then obtain bds' where b: "coap_block1_handler (\<lambda>_. True) addr32 bds u (block_at (unat sz) k pl) sz (of_nat k) False =
      Some (COAP_NO_ERROR, bds', Some (Buffer pl, Some (length pl)))"
    using collected_step [OF c sz(1) _ sz(3), of addr32 False] n(4) kn by (auto simp: block_reply_def)
  have "lwm2m_handle_packet H P addr32 (msg_bytes ?q) s (?c bds) =
    (let c = store (put_blocks P s bds' (?c bds)) pl in
     Some (c\<lparr>sent := sent c @ [(s, msg_bytes (block1_answer ?q COAP_204_CHANGED))]\<rparr>))"
    using q b k u assms(5-7) findServer_put_blocks [OF assms(3)] sz(4,5)
    by (intro receive_last [OF _ assms(2), where srv = "srv\<lparr>blockData := bds\<rparr>" and u = u and ids = ids]) simp_all
  then show ?thesis
    using h put_blocks_twice [OF assms(3), of bds' bds] unfolding k
    by (intro exI [of _ bds']) (simp add: handle_packets_append put_blocks_sent Let_def)
qed

definition example_write :: coap_packet_t where
  "example_write = request_packet 3 5 [3, 0] [7]"

lemma example_write_ok: "block_copyable example_write" "uri_ids [3, 0]"
proof -
  show ids: "uri_ids [3, 0]" by (simp add: uri_ids_def LWM2M_MAX_ID_def)
  have "coap_wf example_write" using request_packet_wf(1) [OF ids, of 3 5 "[7]"] by (simp add: example_write_def)
  then show "block_copyable example_write"
    by (simp add: block_copyable_def)
       (simp add: example_write_def request_packet_def coap_init_message_def zero_packet_def COAP_EMPTY_MESSAGE_CODE_def)
qed

lemma example_write_size:
  "coap_serialize_get_size (block1_packet example_write j k 16 pl) < 2 ^ 16"
proof -
  have d: "length (dec_text 3) \<le> 5" "length (dec_text 0) \<le> 5" by (rule dec_text_length_less; simp)+
  have "length (block_at 16 k pl) \<le> 16" by (simp add: block_at_def)
  then show ?thesis
    using d by (simp add: block1_packet_def block_packet_def block_options_def example_write_def coap_serialize_get_size_def
        request_packet_def IS_OPTION_def option_numbers coap_init_message_def zero_packet_def payload_len_def coap_sizes Let_def)
qed

lemma example_upload: "upload_ok example_write of_nat 16 (replicate 20 1) [3, 0] 1024"
proof -
  have v: "validate_block_size 16" by (simp add: validate_block_size_def)
  have n: "block_count (unat (16 :: u16)) (replicate 20 (1 :: u8)) = 2" by (simp add: block_count_def)
  have "length (msg_bytes (upload_packet example_write of_nat 16 (replicate 20 1) k)) < 2 ^ 16" if "k < 2" for k
  proof -
    let ?q = "block1_packet example_write (of_nat k) k 16 (replicate 20 1)"
    have "k * unat (16 :: u16) < length (replicate 20 (1 :: u8))" using that by simp
    then have "size_ok ?q" "multi_ok ?q"
      using that by (intro block1_packet_wf example_write_ok(1) v; simp)+
    then have "length (msg_bytes ?q) \<le> coap_serialize_get_size ?q" by (rule msg_bytes_size)
    then show ?thesis using example_write_size [of "of_nat k" k "replicate 20 1"] by (simp add: upload_packet_def)
  qed
  then show ?thesis
    unfolding upload_ok_def n using example_write_ok v
    by (simp add: LWM2M_COAP_MAX_MESSAGE_SIZE_def)
       (simp add: example_write_def request_packet_def coap_init_message_def zero_packet_def COAP_GET_def COAP_DELETE_def)
qed

theorem block1_upload_witness:
  "\<exists>bds. handle_packets example_handlers client_platform (\<lambda>_. 0) 3
      (map (\<lambda>k. msg_bytes (upload_packet example_write of_nat 16 (replicate 20 1) k)) [0..<2]) example_client =
    Some ((put_blocks client_platform 3 bds example_client)\<lparr>coap_error_message := replicate 20 1,
      sent := [(3, msg_bytes (block1_answer (upload_packet example_write of_nat 16 (replicate 20 1) 0) COAP_231_CONTINUE)),
               (3, msg_bytes (block1_answer (upload_packet example_write of_nat 16 (replicate 20 1) 1) COAP_204_CHANGED))]\<rparr>)"
proof -
  have n: "block_count (unat (16 :: u16)) (replicate 20 (1 :: u8)) = 2" "2 - 1 = (1 :: nat)" "[0..<1] = [0 :: nat]"
    by (simp_all add: block_count_def)
  have up: "upload_ok example_write of_nat 16 (replicate 20 1) [3, 0] (coap_block_size example_client)"
    using example_upload by (simp add: example_client_def)
  have "\<exists>bds. handle_packets example_handlers client_platform (\<lambda>_. 0) 3
      (map (\<lambda>k. msg_bytes (upload_packet example_write of_nat 16 (replicate 20 1) k)) [0..<block_count (unat (16 :: u16)) (replicate 20 1)])
      example_client =
    (let n = block_count (unat (16 :: u16)) (replicate 20 1) - 1;
         c = example_store ((put_blocks client_platform 3 bds example_client)\<lparr>sent := sent example_client @
               map (\<lambda>k. (3, msg_bytes (block1_answer (upload_packet example_write of_nat 16 (replicate 20 1) k) COAP_231_CONTINUE))) [0..<n]\<rparr>)
               (replicate 20 1) in
     Some (c\<lparr>sent := sent c @ [(3, msg_bytes (block1_answer (upload_packet example_write of_nat 16 (replicate 20 1) n) COAP_204_CHANGED))]\<rparr>))"
    by (rule block1_upload [OF up _ example_findServer])
       (simp_all add: client_platform_def example_server_def example_client_def example_handlers_def blocks_ok_def coap_codes)
  then show ?thesis unfolding n Let_def by (simp add: example_store_def example_client_def)
qed

section \<open>The sender of an upload\<close>

text \<open>The transaction of block \<open>k\<close>, whose datagram was sent.\<close>

definition block_sent :: "lwm2m_transaction_t \<Rightarrow> coap_packet_t \<Rightarrow> nat \<Rightarrow> u16 \<Rightarrow> bytes \<Rightarrow> bool" where
  "block_sent t m k sz pl \<longleftrightarrow> sent_as t m \<and> block_copyable m \<and> peerH t \<noteq> 0 \<and> tx_payload t = Some pl \<and>
     block1_num (message t) = of_nat k \<and> block1_size (message t) = sz"

lemma ack_handled:
  fixes P :: "('a client) platform"
  assumes "coap_wf a" and "mtype a = COAP_TYPE_ACK" and "COAP_DELETE < code a" and "length (msg_bytes a) < 2 ^ 16" and "\<And>n. mem_ok P n"
  shows "lwm2m_handle_packet H P addr32 (msg_bytes a) s ctx =
    do { (ctx, st) \<leftarrow> handle_ack P addr32 s (received a) ctx; send_error P s (mid a) st ctx }"
  using assms(2,3) by (intro handle_packet_wf(2) assms(1,4,5)) auto

lemma send_next_block1:
  fixes P :: "('a tx_context_scheme) platform"
  assumes t: "block_sent t m k sz pl" and find: "prv_get_transaction P ctx s i = Some t" and sz: "validate_block_size sz"
    and k: "Suc k < 2 ^ 20"
  shows "prv_send_next_block1 P s i sz ctx = prv_send_new_block1 P t (of_nat (Suc k)) sz ctx"
proof -
  have n: "unat (of_nat k :: u32) = k" using k by (intro unat_of_nat_small) simp
  then have z: "(of_nat k :: u32) = 0 \<longleftrightarrow> k = 0" by (metis unat_eq_zero)
  have s: "sz \<noteq> 0" "block1_num (message t) = of_nat k" "block1_size (message t) = sz"
    using t block_size_bounds [OF sz] by (auto simp: block_sent_def)
  have one: "sz div sz = 1" using sz by (auto simp: validate_block_size_def)
  show ?thesis
    using find s one z by (cases "k = 0") (simp_all add: prv_send_next_block1_def Let_def add.commute [of 1])
qed

lemma block1_packet_copyable:
  assumes "block_copyable m" and "k < 2 ^ 20" and "validate_block_size sz" and "k * unat sz < length pl"
  shows "block_copyable (block1_packet m i k sz pl)"
  using assms(1) block1_packet_wf(1) [OF assms]
  by (simp add: block_copyable_def) (simp add: block1_packet_def block_packet_def block_options_def coap_init_message_def zero_packet_def)

lemma block1_packet_again: "block1_packet (block1_packet m i k sz pl) j k' sz pl = block1_packet m j k' sz pl"
proof -
  have o: "insert 12 (options (block1_packet m i k sz pl) \<inter> block_options) = insert 12 (options m \<inter> block_options)"
    by (auto simp: block1_packet_def block_packet_def block_options_def)
  have "block_packet (block1_packet m i k sz pl) j = block_packet m j"
    unfolding block_packet_def [of "block1_packet m i k sz pl"] o
    by (simp add: block1_packet_def block_packet_def coap_init_message_def zero_packet_def)
  then show ?thesis by (simp add: block1_packet_def [of "block1_packet m i k sz pl"] block1_packet_def [of m j])
qed

text \<open>The transaction made for a block is again one whose next block can be sent.\<close>

lemma block_sent_first:
  assumes "block_copyable m" and "k < 2 ^ 20" and "validate_block_size sz" and "k * unat sz < length pl"
    and "coap_serialize_get_size (block1_packet m i k sz pl) < 2 ^ 16" and "peerH t \<noteq> 0" and "tx_payload t = Some pl"
  shows "block_sent (first_sent P (block_tx t m i k sz pl)) (block1_packet m i k sz pl) k sz pl"
proof -
  let ?q = "block1_packet m i k sz pl"
  have "sendable ?q" using block1_packet_wf(2,3) [OF assms(1-4)] assms(5) by (simp add: sendable_def)
  then have "unat (of_nat (length (msg_bytes ?q)) :: u16) = length (msg_bytes ?q)" by (rule sendable_length)
  then have "sent_as (first_sent P (block_tx t m i k sz pl)) ?q" by (simp add: sent_as_def first_sent_def block_tx_def)
  then show ?thesis
    using block1_packet_copyable [OF assms(1-4)] assms(6,7)
    by (simp add: block_sent_def)
       (simp add: first_sent_def block_tx_def block_clone_def coap_free_header_def block1_packet_def)
qed

text \<open>C9: When the peer acknowledges block \<open>k\<close> of an upload with 2.31 Continue, the sender transmits
  block \<open>k + 1\<close> as one new confirmable message with a fresh message id, and nothing when the
  acknowledged block was the last; only then the acknowledged transaction is finished.\<close>

theorem next_block_sent:
  fixes P :: "('a client) platform"
  assumes a: "coap_wf a" "mtype a = COAP_TYPE_ACK" "code a = COAP_231_CONTINUE" "27 \<in> options a" "block1_size a = sz" "payload a = None"
      "length (msg_bytes a) < 2 ^ 16"
    and t: "block_sent t m k sz pl" and find: "prv_get_transaction P ctx s (mid a) = Some t" and sz: "validate_block_size sz"
    and k: "Suc k < 2 ^ 20" and mem: "\<forall>n. mem_ok P n" and "0 \<le> gettime P"
    and size: "coap_serialize_get_size (block1_packet m (nextMID ctx) (Suc k) sz pl) < 2 ^ 16"
  shows "lwm2m_handle_packet H P addr32 (msg_bytes a) s ctx =
    (let t' = block_tx t m (nextMID ctx) (Suc k) sz pl;
         c = (if Suc k * unat sz < length pl
              then put_tx (first_sent P t')
                (ctx\<lparr>nextMID := nextMID ctx + 1, transactionList := LWM2M_LIST_ADD mID (transactionList ctx) t',
                     sent := sent ctx @ [(peerH t, msg_bytes (block1_packet m (nextMID ctx) (Suc k) sz pl))]\<rparr>)
              else ctx) in
     map_option fst (transaction_handleResponse P s (received a) None c))"
proof -
  let ?t = "block_tx t m (nextMID ctx) (Suc k) sz pl"
  let ?c = "if Suc k * unat sz < length pl
              then put_tx (first_sent P ?t)
                (ctx\<lparr>nextMID := nextMID ctx + 1, transactionList := LWM2M_LIST_ADD mID (transactionList ctx) ?t,
                     sent := sent ctx @ [(peerH t, msg_bytes (block1_packet m (nextMID ctx) (Suc k) sz pl))]\<rparr>)
              else ctx"
  have tt: "sent_as t m" "block_copyable m" "peerH t \<noteq> 0" "tx_payload t = Some pl" using t by (simp_all add: block_sent_def)
  have kn: "unat (of_nat (Suc k) :: u32) = Suc k" using k by (intro unat_of_nat_small) simp
  have "prv_send_new_block1 P t (of_nat (Suc k)) sz ctx = Some (?c, 0)"
  proof (cases "Suc k * unat sz < length pl")
    case True
    then show ?thesis
      using send_new_block1 [OF tt(1,2) _ tt(3) assms(13) sz k tt(4) True size] mem by simp
  next
    case False
    then show ?thesis using tt(4) kn by (simp add: prv_send_new_block1_def tx_payload_len_def del: of_nat_Suc)
  qed
  then have next_sent: "prv_send_next_block1 P s (mid a) sz ctx = Some (?c, 0)"
    using send_next_block1 [OF t find sz k] by simp
  have "handle_ack_block1 P s (received a) ctx = map_option fst (transaction_handleResponse P s (received a) None ?c)"
    using next_sent a(3,5) by (cases "transaction_handleResponse P s (received a) None ?c") (auto simp: handle_ack_block1_def)
  then have "handle_ack P addr32 s (received a) ctx =
      map_option (\<lambda>r. (fst r, COAP_NO_ERROR)) (transaction_handleResponse P s (received a) None ?c)"
    using a(4,6) by (cases "transaction_handleResponse P s (received a) None ?c")
      (auto simp: handle_ack_def payload_len_def IS_OPTION_def option_numbers)
  moreover have "COAP_DELETE < code a" using a(3) by (simp add: coap_codes COAP_DELETE_def)
  ultimately show ?thesis
    using ack_handled [OF a(1,2) _ a(7), of P H addr32 s ctx] mem
    by (cases "transaction_handleResponse P s (received a) None ?c") (auto simp: Let_def)
qed

definition example_block_tx :: lwm2m_transaction_t where
  "example_block_tx = first_sent client_platform
     (block_tx (example_tx\<lparr>tx_payload := Some (replicate 20 1)\<rparr>) example_write 7 0 16 (replicate 20 1))"

definition example_continue :: coap_packet_t where
  "example_continue = block1_answer (block1_packet example_write 7 0 16 (replicate 20 1)) COAP_231_CONTINUE"

lemma example_continue_ok: "coap_wf example_continue" "length (msg_bytes example_continue) < 2 ^ 16"
proof -
  note d = example_continue_def block1_answer_def ack_of_def block1_packet_def block_packet_def example_write_def request_packet_def
    coap_init_message_def zero_packet_def
  show wf: "coap_wf example_continue"
    by (simp add: d coap_wf_def multi_ok_def unset_zero_def limits_ok_def known_options_def IS_OPTION_def option_numbers
        COAP_EMPTY_MESSAGE_CODE_def coap_codes block_sizes_def)
  have "coap_serialize_get_size example_continue < 2 ^ 16"
    by (simp add: d coap_serialize_get_size_def IS_OPTION_def option_numbers payload_len_def coap_sizes Let_def)
  moreover have "size_ok example_continue" by (simp add: d size_ok_def)
  ultimately show "length (msg_bytes example_continue) < 2 ^ 16"
    using msg_bytes_size [of example_continue] wf by (simp add: coap_wf_def)
qed

theorem next_block_sent_witness:
  "let ctx = example_client\<lparr>transactionList := [example_block_tx]\<rparr>;
       m = block1_packet example_write 7 0 16 (replicate 20 1);
       t = block_tx example_block_tx m 8 1 16 (replicate 20 1) in
   lwm2m_handle_packet example_handlers client_platform (\<lambda>_. 0) (msg_bytes example_continue) 3 ctx =
     map_option fst (transaction_handleResponse client_platform 3 (received example_continue) None
       (put_tx (first_sent client_platform t)
         (ctx\<lparr>nextMID := 9, transactionList := LWM2M_LIST_ADD mID [example_block_tx] t,
              sent := [(3, msg_bytes (block1_packet m 8 1 16 (replicate 20 1)))]\<rparr>)))"
proof -
  let ?ctx = "example_client\<lparr>transactionList := [example_block_tx]\<rparr>"
  let ?m = "block1_packet example_write 7 0 16 (replicate 20 1)"
  have v: "validate_block_size 16" by (simp add: validate_block_size_def)
  have tx: "peerH example_block_tx = 3" "mID example_block_tx = 7"
    by (simp_all add: example_block_tx_def first_sent_def block_tx_def block_clone_def example_tx_def)
  have bs: "block_sent example_block_tx ?m 0 16 (replicate 20 1)"
    unfolding example_block_tx_def using example_write_size [of 7 0 "replicate 20 1"] v example_write_ok(1)
    by (intro block_sent_first) (simp_all add: example_tx_def)
  have size: "coap_serialize_get_size (block1_packet ?m (nextMID ?ctx) (Suc 0) 16 (replicate 20 1)) < 2 ^ 16"
    using example_write_size by (simp add: block1_packet_again)
  have find: "prv_get_transaction client_platform ?ctx 3 (mid example_continue) = Some example_block_tx"
    using tx by (simp add: prv_get_transaction_def client_platform_def example_continue_def block1_answer_def ack_of_def
        block1_packet_def block_packet_def coap_init_message_def)
  show ?thesis
    using next_block_sent [OF example_continue_ok(1) _ _ _ _ _ example_continue_ok(2) bs find v _ _ _ size, of example_handlers "\<lambda>_. 0"] tx
    by (simp add: Let_def)
       (simp add: example_client_def client_platform_def example_continue_def block1_answer_def ack_of_def
        block1_packet_def block_packet_def coap_init_message_def zero_packet_def)
qed

section \<open>Hazards\<close>

text \<open>An acknowledgement 4.13 that matches no transaction is enough to dereference a null pointer,
  and an acknowledgement with a Block1 option for a request that had none divides zero by zero.\<close>

theorem ack_hazards:
  fixes P :: "('a client) platform"
  assumes "coap_wf a" and "mtype a = COAP_TYPE_ACK" and "length (msg_bytes a) < 2 ^ 16" and "payload a = None" and "\<forall>n. mem_ok P n"
  shows "(code a = COAP_413_ENTITY_TOO_LARGE \<and> 23 \<notin> options a \<and> 27 \<notin> options a \<and>
        prv_get_transaction P ctx s (mid a) = None \<longrightarrow> lwm2m_handle_packet H P addr32 (msg_bytes a) s ctx = None) \<and>
    (code a = COAP_204_CHANGED \<and> 27 \<in> options a \<and> prv_get_transaction P ctx s (mid a) = Some t \<and>
        block1_size (message t) = 0 \<and> block1_num (message t) = 0 \<longrightarrow> lwm2m_handle_packet H P addr32 (msg_bytes a) s ctx = None)"
proof (intro conjI impI)
  note h = ack_handled [OF assms(1,2) _ assms(3), of P H addr32 s ctx]
  assume "code a = COAP_413_ENTITY_TOO_LARGE \<and> 23 \<notin> options a \<and> 27 \<notin> options a \<and> prv_get_transaction P ctx s (mid a) = None"
  then show "lwm2m_handle_packet H P addr32 (msg_bytes a) s ctx = None"
    using h assms(4,5)
    by (simp add: coap_codes COAP_DELETE_def handle_ack_def payload_len_def IS_OPTION_def option_numbers prv_change_to_block1_def)
next
  note h = ack_handled [OF assms(1,2) _ assms(3), of P H addr32 s ctx]
  assume "code a = COAP_204_CHANGED \<and> 27 \<in> options a \<and> prv_get_transaction P ctx s (mid a) = Some t \<and>
      block1_size (message t) = 0 \<and> block1_num (message t) = 0"
  then show "lwm2m_handle_packet H P addr32 (msg_bytes a) s ctx = None"
    using h assms(4,5) word_neq_0_conv [of "block1_size a"]
    by (auto simp: coap_codes COAP_DELETE_def handle_ack_def payload_len_def IS_OPTION_def option_numbers handle_ack_block1_def
        prv_send_next_block1_def Let_def)
qed

theorem ack_hazards_witness:
  "lwm2m_handle_packet example_handlers client_platform (\<lambda>_. 0)
     (msg_bytes (coap_init_message COAP_TYPE_ACK COAP_413_ENTITY_TOO_LARGE 9)) 3 example_client = None"
proof -
  let ?a = "coap_init_message COAP_TYPE_ACK COAP_413_ENTITY_TOO_LARGE 9"
  have wf: "coap_wf ?a"
    by (simp add: coap_wf_def multi_ok_def unset_zero_def limits_ok_def IS_OPTION_def coap_init_message_def zero_packet_def
        COAP_EMPTY_MESSAGE_CODE_def coap_codes)
  have "length (msg_bytes ?a) < 2 ^ 16"
    using msg_bytes_size [of ?a] wf
    by (simp add: coap_wf_def) (simp add: size_ok_def coap_init_message_def zero_packet_def coap_serialize_get_size_def IS_OPTION_def
        payload_len_def coap_sizes)
  then show ?thesis
    using ack_hazards [OF wf, of client_platform example_client 3 example_handlers "\<lambda>_. 0" example_tx]
    by (simp add: coap_init_message_def zero_packet_def client_platform_def prv_get_transaction_def example_client_def)
qed

end
