(* ===== verification/Observe_List.thy ===== *)
theory Observe_List
  imports Data_Format Upload
begin

text \<open>
  The state of a client above the CoAP layer, and the operations on its list of observed paths of
  \<^verbatim>\<open>core/observe.c\<close> that need nothing else: looking up and creating observations and watchers,
  cancelling, clearing and marking them.

  The head of the list is a freed node after a failed allocation in \<open>prv_getWatcher\<close>; then the list
  is \<open>None\<close> and every traversal is undefined.  A pointer to an observation or a watcher is its index
  in the list, a pointer to a server the identifier \<open>secObjInstID\<close> under which it is in the list of
  servers; a pointer to a server that is not in the list dangles.  The objects of the application
  are their identifier, version and instances; their callbacks are the parameters of the record
  \<open>app_objects\<close>, by object identifier, and may change the context.
\<close>

section \<open>State\<close>

record lwm2m_object_t =
  objID :: u16
  versionMajor :: u8
  versionMinor :: u8
  instanceList :: "u16 list"

record lwm2m_attributes_t =
  toSet :: u8
  toClear :: u8
  minPeriod :: u32
  maxPeriod :: u32
  greaterThan :: u64
  lessThan :: u64
  step_attr :: u64

definition LWM2M_ATTR_FLAG_MIN_PERIOD :: u8 where "LWM2M_ATTR_FLAG_MIN_PERIOD = 0x01"
definition LWM2M_ATTR_FLAG_MAX_PERIOD :: u8 where "LWM2M_ATTR_FLAG_MAX_PERIOD = 0x02"
definition LWM2M_ATTR_FLAG_GREATER_THAN :: u8 where "LWM2M_ATTR_FLAG_GREATER_THAN = 0x04"
definition LWM2M_ATTR_FLAG_LESS_THAN :: u8 where "LWM2M_ATTR_FLAG_LESS_THAN = 0x08"
definition LWM2M_ATTR_FLAG_STEP :: u8 where "LWM2M_ATTR_FLAG_STEP = 0x10"
definition ATTR_FLAG_NUMERIC :: u8 where
  "ATTR_FLAG_NUMERIC = LWM2M_ATTR_FLAG_LESS_THAN OR LWM2M_ATTR_FLAG_GREATER_THAN OR LWM2M_ATTR_FLAG_STEP"

lemmas attr_flags = LWM2M_ATTR_FLAG_MIN_PERIOD_def LWM2M_ATTR_FLAG_MAX_PERIOD_def LWM2M_ATTR_FLAG_GREATER_THAN_def
  LWM2M_ATTR_FLAG_LESS_THAN_def LWM2M_ATTR_FLAG_STEP_def ATTR_FLAG_NUMERIC_def

text \<open>The union \<open>lastValue\<close> is its bit pattern.\<close>

record lwm2m_watcher_t =
  w_active :: bool
  w_update :: bool
  w_server :: u16
  w_parameters :: "lwm2m_attributes_t option"
  w_format :: u16
  w_token :: bytes
  w_lastTime :: int
  w_counter :: u32
  w_lastMid :: u16
  w_lastValue :: u64

record lwm2m_observed_t =
  o_uri :: lwm2m_uri_t
  o_watchers :: "lwm2m_watcher_t list"

datatype lwm2m_client_state_t = STATE_INITIAL | STATE_BOOTSTRAP_REQUIRED | STATE_BOOTSTRAPPING | STATE_REGISTER_REQUIRED
  | STATE_REGISTERING | STATE_READY

record lwm2m_context_t = client_context +
  client_state :: lwm2m_client_state_t
  endpointName :: bytes
  msisdn :: "bytes option"
  objectList :: "lwm2m_object_t list"
  observedList :: "lwm2m_observed_t list c"

type_synonym 'a lwm2m = "'a lwm2m_context_t_scheme"

datatype lwm2m_write_type_t = LWM2M_WRITE_PARTIAL_UPDATE | LWM2M_WRITE_REPLACE_RESOURCES | LWM2M_WRITE_REPLACE_INSTANCE

record 'c app_objects =
  readFunc :: "u16 \<Rightarrow> ('c \<Rightarrow> u16 \<Rightarrow> lwm2m_data_t list \<Rightarrow> 'c \<times> lwm2m_data_t list \<times> u8) option"
  writeFunc :: "u16 \<Rightarrow> ('c \<Rightarrow> u16 \<Rightarrow> lwm2m_data_t list \<Rightarrow> lwm2m_write_type_t \<Rightarrow> 'c \<times> u8) option"
  executeFunc :: "u16 \<Rightarrow> ('c \<Rightarrow> u16 \<Rightarrow> u16 \<Rightarrow> bytes option \<Rightarrow> 'c \<times> u8) option"
  createFunc :: "u16 \<Rightarrow> ('c \<Rightarrow> u16 \<Rightarrow> lwm2m_data_t list \<Rightarrow> 'c \<times> u8) option"
  deleteFunc :: "u16 \<Rightarrow> ('c \<Rightarrow> u16 \<Rightarrow> 'c \<times> u8) option"
  discoverFunc :: "u16 \<Rightarrow> ('c \<Rightarrow> u16 \<Rightarrow> lwm2m_data_t list \<Rightarrow> 'c \<times> lwm2m_data_t list \<times> u8) option"

text \<open>Sizes of the LP64 ABI.\<close>

definition sizeof_observed :: nat where "sizeof_observed = 24"
definition sizeof_watcher :: nat where "sizeof_watcher = 80"
definition sizeof_attributes :: nat where "sizeof_attributes = 40"

text \<open>The index of the first element with a property.\<close>

fun find_index :: "('b \<Rightarrow> bool) \<Rightarrow> 'b list \<Rightarrow> nat option" where
  "find_index Q [] = None"
| "find_index Q (x # xs) = (if Q x then Some 0 else map_option Suc (find_index Q xs))"

section \<open>Looking up and creating\<close>

definition observed_matches :: "lwm2m_uri_t \<Rightarrow> lwm2m_observed_t \<Rightarrow> bool" where
  "observed_matches uri t \<longleftrightarrow>
     \<not> ((LWM2M_URI_IS_SET_OBJECT uri \<and> objectId (o_uri t) \<noteq> objectId uri)
        \<or> (LWM2M_URI_IS_SET_INSTANCE uri \<and> instanceId (o_uri t) \<noteq> instanceId uri)
        \<or> (LWM2M_URI_IS_SET_RESOURCE uri \<and> resourceId (o_uri t) \<noteq> resourceId uri)
        \<or> (LWM2M_URI_IS_SET_RESOURCE_INSTANCE uri \<and> resourceInstanceId (o_uri t) \<noteq> resourceInstanceId uri))"

definition prv_findObserved :: "lwm2m_observed_t list \<Rightarrow> lwm2m_uri_t \<Rightarrow> nat option" where
  "prv_findObserved obs uri = find_index (observed_matches uri) obs"

definition prv_unlinkObserved :: "lwm2m_observed_t list \<Rightarrow> nat \<Rightarrow> lwm2m_observed_t list" where
  "prv_unlinkObserved obs k = take k obs @ drop (Suc k) obs"

definition prv_findWatcher :: "lwm2m_observed_t \<Rightarrow> u16 \<Rightarrow> nat option" where
  "prv_findWatcher observed srv = find_index (\<lambda>w. w_server w = srv) (o_watchers observed)"

definition new_watcher :: "u16 \<Rightarrow> lwm2m_watcher_t" where
  "new_watcher srv = \<lparr>w_active = False, w_update = False, w_server = srv, w_parameters = None, w_format = 0, w_token = [],
     w_lastTime = 0, w_counter = 0, w_lastMid = 0, w_lastValue = 0\<rparr>"

text \<open>The watcher of a server: its indices, or nothing when an allocation fails.  When the watcher cannot
  be allocated, a new observation is freed but stays linked.\<close>

definition prv_getWatcher :: "('a lwm2m) platform \<Rightarrow> lwm2m_uri_t \<Rightarrow> u16 \<Rightarrow> 'a lwm2m \<Rightarrow> ('a lwm2m \<times> (nat \<times> nat) option) c" where
  "prv_getWatcher P uri srv ctx =
     do { obs \<leftarrow> observedList ctx;
          (case prv_findObserved obs uri of
             None \<Rightarrow>
               if \<not> mem_ok P sizeof_observed then Some (ctx, None)
               else if \<not> mem_ok P sizeof_watcher then Some (ctx\<lparr>observedList := None\<rparr>, None)
               else Some (ctx\<lparr>observedList := Some (\<lparr>o_uri = uri, o_watchers = [new_watcher srv]\<rparr> # obs)\<rparr>, Some (0, 0))
           | Some k \<Rightarrow>
               (case prv_findWatcher (obs ! k) srv of
                  Some j \<Rightarrow> Some (ctx, Some (k, j))
                | None \<Rightarrow>
                    if \<not> mem_ok P sizeof_watcher then Some (ctx, None)
                    else Some (ctx\<lparr>observedList := Some (obs[k := (obs ! k)\<lparr>o_watchers := new_watcher srv # o_watchers (obs ! k)\<rparr>])\<rparr>,
                               Some (k, 0)))) }"

text \<open>The watcher at a pointer, and a store through it.\<close>

definition get_watcher :: "'a lwm2m \<Rightarrow> nat \<times> nat \<Rightarrow> lwm2m_watcher_t c" where
  "get_watcher ctx p = do { obs \<leftarrow> observedList ctx; t \<leftarrow> rd obs (fst p); rd (o_watchers t) (snd p) }"

definition put_watcher :: "nat \<times> nat \<Rightarrow> lwm2m_watcher_t \<Rightarrow> 'a lwm2m \<Rightarrow> ('a lwm2m) c" where
  "put_watcher p w ctx =
     do { obs \<leftarrow> observedList ctx;
          t \<leftarrow> rd obs (fst p);
          ws \<leftarrow> wr (o_watchers t) (snd p) w;
          Some (ctx\<lparr>observedList := Some (obs[fst p := t\<lparr>o_watchers := ws\<rparr>])\<rparr>) }"

section \<open>Cancelling, clearing and marking\<close>

definition server_session :: "'a lwm2m \<Rightarrow> u16 \<Rightarrow> session c" where
  "server_session ctx srv = map_option sessionH (find (\<lambda>s. secObjInstID s = srv) (serverList ctx))"

text \<open>The first watcher with the message id and the session is removed; the flag says whether there was one.\<close>

fun cancel_watcher :: "('a lwm2m) platform \<Rightarrow> 'a lwm2m \<Rightarrow> u16 \<Rightarrow> session \<Rightarrow> lwm2m_watcher_t list \<Rightarrow> (lwm2m_watcher_t list \<times> bool) c" where
  "cancel_watcher P ctx m from [] = Some ([], False)"
| "cancel_watcher P ctx m from (w # ws) =
     do { hit \<leftarrow> (if w_lastMid w = m
                  then do { s \<leftarrow> server_session ctx (w_server w); Some (session_is_equal P s from) } else Some False);
          if hit then Some (ws, True)
          else do { (ws', found) \<leftarrow> cancel_watcher P ctx m from ws; Some (w # ws', found) } }"

fun cancel_loop :: "('a lwm2m) platform \<Rightarrow> 'a lwm2m \<Rightarrow> u16 \<Rightarrow> session \<Rightarrow> lwm2m_observed_t list \<Rightarrow> nat \<Rightarrow> nat \<Rightarrow> (lwm2m_observed_t list) c" where
  "cancel_loop P ctx m from obs k 0 = Some obs"
| "cancel_loop P ctx m from obs k (Suc n) =
     do { t \<leftarrow> rd obs k;
          if o_watchers t = [] then None
          else do { (ws, found) \<leftarrow> cancel_watcher P ctx m from (o_watchers t);
                    if found
                    then Some (if ws = [] then prv_unlinkObserved obs k else obs[k := t\<lparr>o_watchers := ws\<rparr>])
                    else cancel_loop P ctx m from obs (Suc k) n } }"

definition client_observe_cancel :: "('a lwm2m) platform \<Rightarrow> 'a lwm2m \<Rightarrow> u16 \<Rightarrow> session \<Rightarrow> ('a lwm2m) c" where
  "client_observe_cancel P ctx m from =
     do { obs \<leftarrow> observedList ctx;
          obs' \<leftarrow> cancel_loop P ctx m from obs 0 (length obs);
          Some (ctx\<lparr>observedList := Some obs'\<rparr>) }"

definition clear_matches :: "lwm2m_uri_t \<Rightarrow> lwm2m_observed_t \<Rightarrow> bool" where
  "clear_matches uri t \<longleftrightarrow>
     objectId (o_uri t) = objectId uri \<and> (\<not> LWM2M_URI_IS_SET_INSTANCE uri \<or> instanceId (o_uri t) = instanceId uri)"

fun clear_loop :: "lwm2m_uri_t \<Rightarrow> lwm2m_observed_t list \<Rightarrow> nat \<Rightarrow> nat \<Rightarrow> (lwm2m_observed_t list) c" where
  "clear_loop uri obs k 0 = Some obs"
| "clear_loop uri obs k (Suc n) =
     do { t \<leftarrow> rd obs k;
          if clear_matches uri t then clear_loop uri (prv_unlinkObserved obs k) k n
          else clear_loop uri obs (Suc k) n }"

definition observe_clear :: "lwm2m_uri_t \<Rightarrow> 'a lwm2m \<Rightarrow> ('a lwm2m) c" where
  "observe_clear uri ctx =
     do { obs \<leftarrow> observedList ctx; obs' \<leftarrow> clear_loop uri obs 0 (length obs); Some (ctx\<lparr>observedList := Some obs'\<rparr>) }"

text \<open>One level of a path is the same: set in both and equal, or set in neither.\<close>

definition same_level :: "bool \<Rightarrow> bool \<Rightarrow> u16 \<Rightarrow> u16 \<Rightarrow> bool" where
  "same_level a b x y \<longleftrightarrow> (\<not> a \<and> \<not> b) \<or> (a \<and> b \<and> x = y)"

definition observe_findByUri :: "lwm2m_observed_t list \<Rightarrow> lwm2m_uri_t \<Rightarrow> nat option" where
  "observe_findByUri obs uri =
     find_index (\<lambda>t. let u = o_uri t in
       objectId u = objectId uri
       \<and> same_level (LWM2M_URI_IS_SET_INSTANCE uri) (LWM2M_URI_IS_SET_INSTANCE u) (instanceId uri) (instanceId u)
       \<and> same_level (LWM2M_URI_IS_SET_RESOURCE uri) (LWM2M_URI_IS_SET_RESOURCE u) (resourceId uri) (resourceId u)
       \<and> same_level (LWM2M_URI_IS_SET_RESOURCE_INSTANCE uri) (LWM2M_URI_IS_SET_RESOURCE_INSTANCE u)
           (resourceInstanceId uri) (resourceInstanceId u)) obs"

definition change_concerns :: "lwm2m_uri_t \<Rightarrow> lwm2m_uri_t \<Rightarrow> bool" where
  "change_concerns uri u \<longleftrightarrow>
     objectId u = objectId uri
     \<and> (\<not> LWM2M_URI_IS_SET_INSTANCE uri \<or> \<not> LWM2M_URI_IS_SET_INSTANCE u \<or> instanceId uri = instanceId u)
     \<and> (\<not> LWM2M_URI_IS_SET_RESOURCE uri \<or> \<not> LWM2M_URI_IS_SET_RESOURCE u \<or> resourceId uri = resourceId u)
     \<and> (\<not> LWM2M_URI_IS_SET_RESOURCE_INSTANCE uri \<or> \<not> LWM2M_URI_IS_SET_RESOURCE_INSTANCE u
        \<or> resourceInstanceId uri = resourceInstanceId u)"

definition lwm2m_resource_value_changed :: "lwm2m_uri_t \<Rightarrow> 'a lwm2m \<Rightarrow> ('a lwm2m) c" where
  "lwm2m_resource_value_changed uri ctx =
     do { obs \<leftarrow> observedList ctx;
          Some (ctx\<lparr>observedList := Some (map (\<lambda>t. if change_concerns uri (o_uri t)
             then t\<lparr>o_watchers := map (\<lambda>w. if w_active w then w\<lparr>w_update := True\<rparr> else w) (o_watchers t)\<rparr> else t) obs)\<rparr>) }"

section \<open>The invariant of the list\<close>

text \<open>Every path is observed once, every observation has a watcher, at most one for each server, and
  the servers of the watchers are known.\<close>

definition observed_ok :: "lwm2m_server_t list \<Rightarrow> lwm2m_observed_t \<Rightarrow> bool" where
  "observed_ok srvs t \<longleftrightarrow> o_watchers t \<noteq> [] \<and> distinct (map w_server (o_watchers t)) \<and>
     w_server ` set (o_watchers t) \<subseteq> secObjInstID ` set srvs"

definition obs_ok :: "lwm2m_server_t list \<Rightarrow> lwm2m_observed_t list \<Rightarrow> bool" where
  "obs_ok srvs obs \<longleftrightarrow> distinct (map o_uri obs) \<and> (\<forall>t\<in>set obs. observed_ok srvs t)"

definition observe_inv :: "'a lwm2m \<Rightarrow> bool" where
  "observe_inv ctx \<longleftrightarrow> (\<exists>obs. observedList ctx = Some obs \<and> obs_ok (serverList ctx) obs)"

text \<open>Who watches what.\<close>

definition obs_pairs :: "lwm2m_observed_t list \<Rightarrow> (lwm2m_uri_t \<times> u16) set" where
  "obs_pairs obs = (\<Union>t\<in>set obs. (\<lambda>w. (o_uri t, w_server w)) ` set (o_watchers t))"

lemma find_index_Some:
  "find_index Q xs = Some k \<longleftrightarrow> k < length xs \<and> Q (xs ! k) \<and> (\<forall>i<k. \<not> Q (xs ! i))"
proof (induction xs arbitrary: k)
  case (Cons x xs)
  show ?case
  proof (cases k)
    case 0
    then show ?thesis by auto
  next
    case (Suc j)
    then show ?thesis using Cons [of j] by (auto simp: nth_Cons' less_Suc_eq_0_disj)
  qed
qed simp

lemma find_index_None: "find_index Q xs = None \<longleftrightarrow> (\<forall>x\<in>set xs. \<not> Q x)"
  by (induction xs) auto

lemma observed_matches_self: "observed_matches uri (t\<lparr>o_uri := uri\<rparr>)" "o_uri t = uri \<Longrightarrow> observed_matches uri t"
  by (auto simp: observed_matches_def)

lemma set_unlink: "k < length obs \<Longrightarrow> set (prv_unlinkObserved obs k) \<subseteq> set obs"
  by (auto simp: prv_unlinkObserved_def dest: in_set_takeD in_set_dropD)

lemma distinct_unlink: "distinct (map f obs) \<Longrightarrow> distinct (map f (prv_unlinkObserved obs k))"
proof -
  assume d: "distinct (map f obs)"
  have "map f obs = map f (take k obs) @ map f (drop k obs)" by (metis append_take_drop_id map_append)
  with d have "distinct (map f (take k obs) @ map f (drop k obs))" by simp
  moreover have "set (drop (Suc k) obs) \<subseteq> set (drop k obs)" by (metis set_drop_subset_set_drop le_SucI order_refl)
  moreover have "distinct (map f (drop (Suc k) obs))" using d by (metis distinct_drop drop_map)
  ultimately show ?thesis by (auto simp: prv_unlinkObserved_def)
qed

lemma obs_ok_unlink: "obs_ok srvs obs \<Longrightarrow> k < length obs \<Longrightarrow> obs_ok srvs (prv_unlinkObserved obs k)"
  using set_unlink [of k obs] distinct_unlink [of o_uri obs k] by (auto simp: obs_ok_def)

lemma obs_ok_nth: "obs_ok srvs obs \<Longrightarrow> k < length obs \<Longrightarrow> observed_ok srvs (obs ! k)"
  by (simp add: obs_ok_def)

lemma obs_ok_update:
  assumes "obs_ok srvs obs" and "k < length obs" and "observed_ok srvs ((obs ! k)\<lparr>o_watchers := ws\<rparr>)"
  shows "obs_ok srvs (obs[k := (obs ! k)\<lparr>o_watchers := ws\<rparr>])"
proof -
  have "map o_uri (obs[k := (obs ! k)\<lparr>o_watchers := ws\<rparr>]) = (map o_uri obs)[k := map o_uri obs ! k]"
    using assms(2) by (simp add: map_update)
  moreover have "\<forall>t\<in>set (obs[k := (obs ! k)\<lparr>o_watchers := ws\<rparr>]). observed_ok srvs t"
    using assms set_update_subset_insert [of obs k "(obs ! k)\<lparr>o_watchers := ws\<rparr>"] unfolding obs_ok_def by blast
  ultimately show ?thesis using assms(1) unfolding obs_ok_def by simp
qed

subsection \<open>Creating a watcher\<close>

text \<open>What a pointer to a watcher designates.\<close>

definition watcher_at :: "lwm2m_observed_t list \<Rightarrow> nat \<times> nat \<Rightarrow> lwm2m_uri_t \<Rightarrow> u16 \<Rightarrow> bool" where
  "watcher_at obs p uri srv \<longleftrightarrow> fst p < length obs \<and> snd p < length (o_watchers (obs ! fst p)) \<and>
     w_server (o_watchers (obs ! fst p) ! snd p) = srv \<and> observed_matches uri (obs ! fst p)"

lemma getWatcher_ok:
  assumes "observedList ctx = Some obs0" and "obs_ok (serverList ctx) obs0"
    and "srv \<in> secObjInstID ` set (serverList ctx)" and "\<forall>n. mem_ok P n"
  shows "\<exists>obs p. prv_getWatcher P uri srv ctx = Some (ctx\<lparr>observedList := Some obs\<rparr>, Some p) \<and>
    obs_ok (serverList ctx) obs \<and> watcher_at obs p uri srv"
proof (cases "prv_findObserved obs0 uri")
  case None
  then have no: "\<forall>t\<in>set obs0. \<not> observed_matches uri t" by (simp add: prv_findObserved_def find_index_None)
  then have new: "uri \<notin> o_uri ` set obs0" using observed_matches_self(2) by auto
  show ?thesis
    using None assms new observed_matches_self(1) [of uri "\<lparr>o_uri = uri, o_watchers = [new_watcher srv]\<rparr>"]
    by (intro exI [of _ "\<lparr>o_uri = uri, o_watchers = [new_watcher srv]\<rparr> # obs0"] exI [of _ "(0, 0)"])
       (simp add: prv_getWatcher_def obs_ok_def observed_ok_def watcher_at_def new_watcher_def)
next
  case (Some k)
  then have k: "k < length obs0" "observed_matches uri (obs0 ! k)" by (simp_all add: prv_findObserved_def find_index_Some)
  note ok = obs_ok_nth [OF assms(2) k(1)]
  show ?thesis
  proof (cases "prv_findWatcher (obs0 ! k) srv")
    case None
    then have "srv \<notin> w_server ` set (o_watchers (obs0 ! k))" by (auto simp: prv_findWatcher_def find_index_None)
    then have "observed_ok (serverList ctx) ((obs0 ! k)\<lparr>o_watchers := new_watcher srv # o_watchers (obs0 ! k)\<rparr>)"
      using ok assms(3) by (auto simp: observed_ok_def new_watcher_def)
    from obs_ok_update [OF assms(2) k(1) this] show ?thesis
      using None Some assms k by (auto simp: prv_getWatcher_def watcher_at_def observed_matches_def new_watcher_def)
  next
    case (Some j)
    then have "j < length (o_watchers (obs0 ! k))" "w_server (o_watchers (obs0 ! k) ! j) = srv"
      by (simp_all add: prv_findWatcher_def find_index_Some)
    moreover have "ctx = ctx\<lparr>observedList := Some obs0\<rparr>" using assms(1) by simp
    ultimately show ?thesis
      using Some \<open>prv_findObserved obs0 uri = Some k\<close> assms k
      by (intro exI [of _ obs0] exI [of _ "(k, j)"]) (simp add: prv_getWatcher_def watcher_at_def)
  qed
qed

lemma put_watcher_ok:
  assumes "observedList ctx = Some obs" and "obs_ok (serverList ctx) obs" and "watcher_at obs p uri srv" and "w_server w = srv"
  shows "\<exists>obs'. put_watcher p w ctx = Some (ctx\<lparr>observedList := Some obs'\<rparr>) \<and> obs_ok (serverList ctx) obs' \<and>
    watcher_at obs' p uri srv \<and> o_watchers (obs' ! fst p) ! snd p = w \<and> map o_uri obs' = map o_uri obs"
proof -
  let ?k = "fst p" and ?j = "snd p"
  let ?ws = "(o_watchers (obs ! ?k))[?j := w]"
  have p: "?k < length obs" "?j < length (o_watchers (obs ! ?k))" "w_server (o_watchers (obs ! ?k) ! ?j) = srv"
    "observed_matches uri (obs ! ?k)"
    using assms(3) by (simp_all add: watcher_at_def)
  have srv: "map w_server ?ws = map w_server (o_watchers (obs ! ?k))"
    using p assms(4) by (simp add: map_update list_update_same_conv)
  then have "w_server ` set ?ws = w_server ` set (o_watchers (obs ! ?k))" by (metis set_map)
  with srv have "observed_ok (serverList ctx) ((obs ! ?k)\<lparr>o_watchers := ?ws\<rparr>)"
    using obs_ok_nth [OF assms(2) p(1)] p(2) by (auto simp: observed_ok_def)
  note ok = obs_ok_update [OF assms(2) p(1) this]
  have "map o_uri (obs[?k := (obs ! ?k)\<lparr>o_watchers := ?ws\<rparr>]) = map o_uri obs"
    using p(1) by (simp add: map_update list_update_same_conv)
  with ok p assms(1,4) show ?thesis
    by (intro exI [of _ "obs[?k := (obs ! ?k)\<lparr>o_watchers := ?ws\<rparr>]"]) (simp add: put_watcher_def watcher_at_def observed_matches_def)
qed

subsection \<open>Cancelling\<close>

lemma cancel_watcher_ok:
  assumes "w_server ` set ws \<subseteq> secObjInstID ` set (serverList ctx)" and "distinct (map w_server ws)"
  shows "\<exists>ws' found. cancel_watcher P ctx m from ws = Some (ws', found) \<and> (\<not> found \<longrightarrow> ws' = ws) \<and>
    w_server ` set ws' \<subseteq> w_server ` set ws \<and> distinct (map w_server ws')"
  using assms
proof (induction ws)
  case (Cons w ws)
  have "server_session ctx (w_server w) \<noteq> None"
    using Cons.prems(1) by (auto simp: server_session_def find_None_iff image_iff)
  then obtain s where s: "server_session ctx (w_server w) = Some s" by blast
  obtain ws' found where "cancel_watcher P ctx m from ws = Some (ws', found)" "\<not> found \<longrightarrow> ws' = ws"
    "w_server ` set ws' \<subseteq> w_server ` set ws" "distinct (map w_server ws')"
    using Cons by auto
  then show ?case using s Cons.prems(2) by (auto simp: subset_iff)
qed auto

lemma cancel_loop_ok:
  assumes "obs_ok (serverList ctx) obs" and "k + n \<le> length obs"
  shows "\<exists>obs'. cancel_loop P ctx m from obs k n = Some obs' \<and> obs_ok (serverList ctx) obs'"
  using assms
proof (induction n arbitrary: k)
  case (Suc n)
  let ?t = "obs ! k"
  have k: "k < length obs" using Suc.prems(2) by simp
  note t = obs_ok_nth [OF Suc.prems(1) k]
  obtain ws found where ws: "cancel_watcher P ctx m from (o_watchers ?t) = Some (ws, found)"
    "\<not> found \<longrightarrow> ws = o_watchers ?t" "w_server ` set ws \<subseteq> w_server ` set (o_watchers ?t)" "distinct (map w_server ws)"
    using cancel_watcher_ok [of "o_watchers ?t" ctx P m "from"] t by (auto simp: observed_ok_def)
  show ?case
  proof (cases found)
    case True
    have "ws \<noteq> [] \<Longrightarrow> obs_ok (serverList ctx) (obs[k := ?t\<lparr>o_watchers := ws\<rparr>])"
      using t ws by (intro obs_ok_update [OF Suc.prems(1) k]) (auto simp: observed_ok_def)
    then show ?thesis using True t ws(1) k obs_ok_unlink [OF Suc.prems(1) k] by (auto simp: observed_ok_def)
  next
    case False
    then show ?thesis using Suc t ws(1) k by (auto simp: observed_ok_def)
  qed
qed simp

lemma observe_cancel_inv:
  assumes "observe_inv ctx"
  shows "\<exists>obs. client_observe_cancel P ctx m from = Some (ctx\<lparr>observedList := Some obs\<rparr>) \<and> obs_ok (serverList ctx) obs"
proof -
  obtain obs where obs: "observedList ctx = Some obs" "obs_ok (serverList ctx) obs" using assms by (auto simp: observe_inv_def)
  then show ?thesis using cancel_loop_ok [OF obs(2), of 0 "length obs" P m "from"] by (auto simp: client_observe_cancel_def)
qed

subsection \<open>Clearing and marking\<close>

lemma clear_loop_filter:
  "k + n = length obs \<Longrightarrow> clear_loop uri obs k n = Some (take k obs @ filter (\<lambda>t. \<not> clear_matches uri t) (drop k obs))"
proof (induction n arbitrary: obs k)
  case (Suc n)
  then have k: "k < length obs" by simp
  note d = Cons_nth_drop_Suc [OF k, symmetric]
  have "length (prv_unlinkObserved obs k) = k + n" "take k (prv_unlinkObserved obs k) = take k obs"
    "drop k (prv_unlinkObserved obs k) = drop (Suc k) obs"
    using Suc.prems k by (simp_all add: prv_unlinkObserved_def)
  with Suc.IH [of k "prv_unlinkObserved obs k"] Suc.IH [of "Suc k" obs] Suc.prems k
  show ?case by (simp add: take_Suc_conv_app_nth d)
qed simp

lemma observe_clear_filter:
  "observedList ctx = Some obs \<Longrightarrow>
   observe_clear uri ctx = Some (ctx\<lparr>observedList := Some (filter (\<lambda>t. \<not> clear_matches uri t) obs)\<rparr>)"
  by (simp add: observe_clear_def clear_loop_filter)

lemma obs_ok_filter: "obs_ok srvs obs \<Longrightarrow> obs_ok srvs (filter Q obs)"
  by (auto simp: obs_ok_def distinct_map_filter)

lemma obs_ok_map:
  assumes "obs_ok srvs obs" and "\<And>t. o_uri (f t) = o_uri t" and "\<And>t. map w_server (o_watchers (f t)) = map w_server (o_watchers t)"
  shows "obs_ok srvs (map f obs)"
proof -
  have "o_watchers (f t) = [] \<longleftrightarrow> o_watchers t = []" "w_server ` set (o_watchers (f t)) = w_server ` set (o_watchers t)" for t
    using assms(3) [of t] by (metis map_is_Nil_conv, metis set_map)
  then show ?thesis using assms by (simp add: obs_ok_def observed_ok_def o_def)
qed

end
