(* ===== verification/Discover.thy ===== *)
theory Discover
  imports Observe_List
begin

text \<open>
  Discover, \<^verbatim>\<open>core/discover.c\<close>: the link format of the objects, instances and resources of a client
  with the attributes that a server has set.

  The output buffer of \<open>PRV_LINK_BUFFER_SIZE\<close> bytes is the list of the bytes written so far: every
  write is at its end, after a comparison with the space left.  An inner \<open>None\<close> is the result -1.
  The context and the server are \<open>NULL\<close> when a value is serialized outside a request.
\<close>

definition PRV_LINK_BUFFER_SIZE :: nat where "PRV_LINK_BUFFER_SIZE = 1024"

definition or_fail :: "'a option c \<Rightarrow> ('a \<Rightarrow> 'b option c) \<Rightarrow> 'b option c" where
  "or_fail r f = do { x \<leftarrow> r; (case x of None \<Rightarrow> Some None | Some v \<Rightarrow> f v) }"

definition put_str :: "nat \<Rightarrow> bytes \<Rightarrow> bytes \<Rightarrow> bytes option c" where
  "put_str cap s out = Some (if cap - length out < length s then None else Some (out @ s))"

definition put_printed :: "(bytes \<Rightarrow> (bytes \<times> nat) c) \<Rightarrow> nat \<Rightarrow> bytes \<Rightarrow> bytes option c" where
  "put_printed print cap out =
     do { (b, res) \<leftarrow> print (replicate (cap - length out) 0);
          if res = 0 then Some None else do { t \<leftarrow> rd_range b 0 res; Some (Some (out @ t)) } }"

definition put_int :: "nat \<Rightarrow> u64 \<Rightarrow> bytes \<Rightarrow> bytes option c" where
  "put_int cap v out = put_printed (utils_intToText v) cap out"

definition put_float :: "data_formats \<Rightarrow> nat \<Rightarrow> u64 \<Rightarrow> bytes \<Rightarrow> bytes option c" where
  "put_float F cap v out = put_printed (\<lambda>b. utils_floatToText F v b False) cap out"

section \<open>Attributes\<close>

definition prv_findAttributes :: "'a lwm2m option \<Rightarrow> lwm2m_uri_t \<Rightarrow> u16 option \<Rightarrow> lwm2m_attributes_t option c" where
  "prv_findAttributes ctx uri srv =
     (case (ctx, srv) of
        (Some ctx, Some srv) \<Rightarrow>
          do { obs \<leftarrow> observedList ctx;
               Some (case observe_findByUri obs uri of
                       None \<Rightarrow> None
                     | Some k \<Rightarrow> foldl (\<lambda>p w. if w_server w = srv then w_parameters w else p) None (o_watchers (obs ! k))) }
      | _ \<Rightarrow> Some None)"

definition has_attr :: "u8 \<Rightarrow> lwm2m_attributes_t \<Rightarrow> bool" where
  "has_attr flag a \<longleftrightarrow> toSet a AND flag \<noteq> 0"

text \<open>An attribute is printed with its name; a period that is not set is taken from the object.\<close>

definition put_attr :: "nat \<Rightarrow> string \<Rightarrow> (bytes \<Rightarrow> bytes option c) \<Rightarrow> bytes \<Rightarrow> bytes option c" where
  "put_attr cap name val out = or_fail (put_str cap (str '';'') out) (\<lambda>out. or_fail (put_str cap (str name) out) val)"

definition put_period ::
  "nat \<Rightarrow> string \<Rightarrow> u8 \<Rightarrow> (lwm2m_attributes_t \<Rightarrow> u32) \<Rightarrow> lwm2m_attributes_t \<Rightarrow> lwm2m_attributes_t option \<Rightarrow> bytes \<Rightarrow> bytes option c" where
  "put_period cap name flag field a objA out =
     (if has_attr flag a then put_attr cap name (put_int cap (ucast (field a))) out
      else case objA of
             Some oa \<Rightarrow> if has_attr flag oa then put_attr cap name (put_int cap (ucast (field oa))) out else Some (Some out)
           | None \<Rightarrow> Some (Some out))"

definition put_threshold ::
  "data_formats \<Rightarrow> nat \<Rightarrow> string \<Rightarrow> u8 \<Rightarrow> (lwm2m_attributes_t \<Rightarrow> u64) \<Rightarrow> lwm2m_attributes_t \<Rightarrow> bytes \<Rightarrow> bytes option c" where
  "put_threshold F cap name flag field a out =
     (if has_attr flag a then put_attr cap name (put_float F cap (field a)) out else Some (Some out))"

text \<open>The attributes replace the comma at the end of a link and are followed by a new one.\<close>

definition prv_serializeAttributes ::
  "data_formats \<Rightarrow> 'a lwm2m option \<Rightarrow> lwm2m_uri_t \<Rightarrow> u16 option \<Rightarrow> lwm2m_attributes_t option \<Rightarrow> nat \<Rightarrow> bytes \<Rightarrow> bytes option c" where
  "prv_serializeAttributes F ctx uri srv objectParam cap out =
     do { found \<leftarrow> prv_findAttributes ctx uri srv;
          (case (case found of None \<Rightarrow> objectParam | Some p \<Rightarrow> Some p) of
             None \<Rightarrow> Some (Some out)
           | Some p \<Rightarrow>
               or_fail (put_period cap ''pmin='' LWM2M_ATTR_FLAG_MIN_PERIOD minPeriod p objectParam (take (length out - 1) out)) (\<lambda>out.
               or_fail (put_period cap ''pmax='' LWM2M_ATTR_FLAG_MAX_PERIOD maxPeriod p objectParam out) (\<lambda>out.
               or_fail (put_threshold F cap ''gt='' LWM2M_ATTR_FLAG_GREATER_THAN greaterThan p out) (\<lambda>out.
               or_fail (put_threshold F cap ''lt='' LWM2M_ATTR_FLAG_LESS_THAN lessThan p out) (\<lambda>out.
               or_fail (put_threshold F cap ''st='' LWM2M_ATTR_FLAG_STEP step_attr p out) (\<lambda>out.
               put_str cap (str '','') out)))))) }"

section \<open>Links\<close>

text \<open>A resource: its path, the number of its instances when it has several, its attributes.\<close>

definition put_resource_link ::
  "data_formats \<Rightarrow> 'a lwm2m option \<Rightarrow> u16 option \<Rightarrow> lwm2m_attributes_t option \<Rightarrow> lwm2m_uri_t \<Rightarrow> bytes \<Rightarrow> nat \<Rightarrow>
   u16 \<Rightarrow> nat option \<Rightarrow> bytes \<Rightarrow> bytes option c" where
  "put_resource_link F ctx srv objectParam parentUri parentUriStr cap i dim out =
     or_fail (put_str cap (str ''<'') out) (\<lambda>out.
     or_fail (put_str cap parentUriStr out) (\<lambda>out.
     or_fail (put_str cap (str ''/'') out) (\<lambda>out.
     or_fail (put_int cap (ucast i) out) (\<lambda>out.
     or_fail (case dim of
                Some n \<Rightarrow> or_fail (put_str cap (str ''>;dim='') out) (\<lambda>out.
                          or_fail (put_int cap (of_nat n) out) (put_str cap (str '','')))
              | None \<Rightarrow> put_str cap (str ''>,'') out) (\<lambda>out.
     if srv \<noteq> None then prv_serializeAttributes F ctx (parentUri\<lparr>resourceId := i\<rparr>) srv objectParam cap out
     else Some (Some out))))))"

text \<open>The path of an instance, in an array of \<open>URI_MAX_STRING_LEN\<close> bytes.\<close>

definition instance_path :: "bytes \<Rightarrow> u16 \<Rightarrow> bytes option c" where
  "instance_path parentUriStr i =
     (if URI_MAX_STRING_LEN < length parentUriStr then Some None
      else or_fail (put_str URI_MAX_STRING_LEN (str ''/'') parentUriStr) (put_int URI_MAX_STRING_LEN (ucast i)))"

text \<open>The link of an instance; for a server it is dropped when no attribute follows it.\<close>

definition put_instance_link ::
  "data_formats \<Rightarrow> 'a lwm2m option \<Rightarrow> u16 option \<Rightarrow> lwm2m_uri_t \<Rightarrow> bytes \<Rightarrow> nat \<Rightarrow> bytes \<Rightarrow> bytes option c" where
  "put_instance_link F ctx srv uri uriStr cap out0 =
     or_fail (put_str cap (str ''<'') out0) (\<lambda>out.
     or_fail (put_str cap uriStr out) (\<lambda>out.
     or_fail (put_str cap (str ''>,'') out) (\<lambda>out.
     if srv \<noteq> None
     then or_fail (prv_serializeAttributes F ctx uri srv None cap out) (\<lambda>out'.
          Some (Some (if length out' = length out then out0 else out')))
     else Some (Some out))))"

fun children_count :: "lwm2m_value \<Rightarrow> nat c" where
  "children_count (asChildren ds) = Some (length ds)"
| "children_count asZero = Some 0"
| "children_count _ = None"

fun prv_serializeLinkData ::
    "data_formats \<Rightarrow> 'a lwm2m option \<Rightarrow> u16 option \<Rightarrow> lwm2m_attributes_t option \<Rightarrow> lwm2m_uri_t \<Rightarrow> bytes \<Rightarrow> nat \<Rightarrow> lwm2m_data_t \<Rightarrow> bytes \<Rightarrow> bytes option c"
  and serialize_link_children ::
    "data_formats \<Rightarrow> 'a lwm2m option \<Rightarrow> u16 option \<Rightarrow> lwm2m_attributes_t option \<Rightarrow> lwm2m_uri_t \<Rightarrow> bytes \<Rightarrow> nat \<Rightarrow> lwm2m_value \<Rightarrow> bytes \<Rightarrow> bytes option c"
  and serialize_links ::
    "data_formats \<Rightarrow> 'a lwm2m option \<Rightarrow> u16 option \<Rightarrow> lwm2m_attributes_t option \<Rightarrow> lwm2m_uri_t \<Rightarrow> bytes \<Rightarrow> nat \<Rightarrow> lwm2m_data_t list \<Rightarrow> bytes \<Rightarrow> bytes option c"
where
  "prv_serializeLinkData F ctx srv objectParam parentUri parentUriStr cap (Data ty i v) out =
     (if ty = LWM2M_TYPE_OBJECT then Some None
      else if ty = LWM2M_TYPE_OBJECT_INSTANCE
      then or_fail (instance_path parentUriStr i) (\<lambda>uriStr.
           or_fail (put_instance_link F ctx srv (parentUri\<lparr>instanceId := i\<rparr>) uriStr cap out) (\<lambda>out.
           serialize_link_children F ctx srv objectParam (parentUri\<lparr>instanceId := i\<rparr>) uriStr cap v out))
      else if ty = LWM2M_TYPE_MULTIPLE_RESOURCE
      then do { n \<leftarrow> children_count v; put_resource_link F ctx srv objectParam parentUri parentUriStr cap i (Some n) out }
      else put_resource_link F ctx srv objectParam parentUri parentUriStr cap i None out)"
| "serialize_link_children F ctx srv objectParam uri uriStr cap (asChildren ds) out =
     serialize_links F ctx srv objectParam uri uriStr cap ds out"
| "serialize_link_children F ctx srv objectParam uri uriStr cap asZero out = Some (Some out)"
| "serialize_link_children F ctx srv objectParam uri uriStr cap _ out = None"
| "serialize_links F ctx srv objectParam uri uriStr cap [] out = Some (Some out)"
| "serialize_links F ctx srv objectParam uri uriStr cap (d # ds) out =
     or_fail (prv_serializeLinkData F ctx srv objectParam uri uriStr cap d out)
       (serialize_links F ctx srv objectParam uri uriStr cap ds)"

section \<open>Discover\<close>

text \<open>The periods of an instance take precedence over those of its object.\<close>

definition merge_attributes :: "lwm2m_attributes_t option \<Rightarrow> lwm2m_attributes_t option \<Rightarrow> lwm2m_attributes_t option" where
  "merge_attributes objP instP =
     (case (objP, instP) of
        (Some a, Some b) \<Rightarrow>
          let s = toSet a OR toSet b;
              pick = (\<lambda>flag field. if s AND flag \<noteq> 0 then if has_attr flag b then field b else field a else 0) in
          Some \<lparr>toSet = s, toClear = 0, minPeriod = pick LWM2M_ATTR_FLAG_MIN_PERIOD minPeriod,
                maxPeriod = pick LWM2M_ATTR_FLAG_MAX_PERIOD maxPeriod, greaterThan = 0, lessThan = 0, step_attr = 0\<rparr>
      | (Some a, None) \<Rightarrow> Some a
      | (None, _) \<Rightarrow> instP)"

text \<open>The link of the object or instance itself, in front of the others.\<close>

definition put_head_link ::
  "data_formats \<Rightarrow> 'a lwm2m option \<Rightarrow> u16 option \<Rightarrow> lwm2m_uri_t \<Rightarrow> bytes option c" where
  "put_head_link F ctx srv uri =
     (let cap = PRV_LINK_BUFFER_SIZE; parent = LWM2M_URI_RESET\<lparr>objectId := objectId uri\<rparr> in
      or_fail (put_str cap (str ''<'') []) (\<lambda>out.
      or_fail (put_str cap (str ''/'') out) (\<lambda>out.
      or_fail (put_int cap (ucast (objectId uri)) out) (\<lambda>out.
      if LWM2M_URI_IS_SET_INSTANCE uri
      then or_fail (put_str cap (str ''/'') out) (\<lambda>out.
           or_fail (put_int cap (ucast (instanceId uri)) out) (\<lambda>out.
           or_fail (put_str cap (str ''>,'') out) (\<lambda>out.
           if srv \<noteq> None then prv_serializeAttributes F ctx (parent\<lparr>instanceId := instanceId uri\<rparr>) srv None cap out
           else Some (Some out))))
      else or_fail (put_str cap (str ''>,'') out) (\<lambda>out.
           if srv \<noteq> None then prv_serializeAttributes F ctx parent srv None cap out else Some (Some out))))))"

text \<open>The loop over the records ends early when the buffer is full.\<close>

fun discover_loop ::
  "data_formats \<Rightarrow> 'a lwm2m option \<Rightarrow> u16 option \<Rightarrow> lwm2m_attributes_t option \<Rightarrow> lwm2m_uri_t \<Rightarrow> bytes \<Rightarrow> lwm2m_data_t list \<Rightarrow> bytes \<Rightarrow> bytes option c" where
  "discover_loop F ctx srv objectParam uri uriStr [] out = Some (Some out)"
| "discover_loop F ctx srv objectParam uri uriStr (d # ds) out =
     (if length out < PRV_LINK_BUFFER_SIZE
      then or_fail (prv_serializeLinkData F ctx srv objectParam uri uriStr PRV_LINK_BUFFER_SIZE d out)
             (discover_loop F ctx srv objectParam uri uriStr ds)
      else Some (Some out))"

definition discover_out ::
  "data_formats \<Rightarrow> 'a lwm2m option \<Rightarrow> lwm2m_uri_t \<Rightarrow> u16 option \<Rightarrow> lwm2m_data_t list \<Rightarrow> bytes option c" where
  "discover_out F ctx uri srv data =
     or_fail
       (if LWM2M_URI_IS_SET_RESOURCE uri
        then do { objP \<leftarrow> prv_findAttributes ctx (LWM2M_URI_RESET\<lparr>objectId := objectId uri\<rparr>) srv;
                  instP \<leftarrow> prv_findAttributes ctx (LWM2M_URI_RESET\<lparr>objectId := objectId uri, instanceId := instanceId uri\<rparr>) srv;
                  Some (Some (merge_attributes objP instP, uri\<lparr>resourceId := LWM2M_MAX_ID\<rparr>, [])) }
        else or_fail (put_head_link F ctx srv uri) (\<lambda>out. Some (Some (None, uri, out))))
       (\<lambda>(param, base, out).
          do { (b, n, _) \<leftarrow> lwm2m_uriToString (Some base) (replicate URI_MAX_STRING_LEN 0);
               if n < 0 then Some None
               else discover_loop F ctx srv param base (take (nat n) b) data out })"

definition discover_serialize ::
  "data_formats \<Rightarrow> (nat \<Rightarrow> bool) \<Rightarrow> 'a lwm2m option \<Rightarrow> lwm2m_uri_t \<Rightarrow> u16 option \<Rightarrow> lwm2m_data_t list \<Rightarrow> (int \<times> bytes option) c" where
  "discover_serialize F mem ctx uri srv data =
     do { r \<leftarrow> discover_out F ctx uri srv data;
          Some (case r of
                  None \<Rightarrow> (- 1, None)
                | Some out \<Rightarrow>
                    if out = [] then (0, None)
                    else let s = take (length out - 1) out in
                         if mem (length s) then (int (length s), Some s) else (0, None)) }"

section \<open>What is written\<close>

lemma or_fail_simps [simp]:
  "or_fail (Some (Some x)) f = f x" "or_fail (Some None) f = Some None" "or_fail None f = None"
  by (simp_all add: or_fail_def)

lemma put_str_eq [simp]: "length out + length t \<le> cap \<Longrightarrow> put_str cap t out = Some (Some (out @ t))"
  by (simp add: put_str_def)

lemma sint_ucast_id: "sint (ucast (i :: u16) :: u64) = int (unat i)"
proof -
  have "\<not> bit (ucast i :: u64) 63" using bit_imp_le_length [of i 63] by (auto simp: bit_simps)
  then have "0 \<le> sint (ucast i :: u64)" using sint_negative_iff [of "ucast i"] by simp
  with sint_nonneg_unat [OF this] show ?thesis by (simp add: unat_ucast_up [of i])
qed

lemma put_int_eq:
  assumes "length out + length (dec_text (unat i)) \<le> cap"
  shows "put_int cap (ucast (i :: u16)) out = Some (Some (out @ dec_text (unat i)))"
proof -
  have "int_text (sint (ucast i :: u64)) = dec_text (unat i)" by (simp add: sint_ucast_id int_text_def)
  moreover have "INT64_MIN < 0" by (simp add: INT64_MIN_def)
  then have "sint (ucast i :: u64) \<noteq> INT64_MIN" unfolding sint_ucast_id using of_nat_less_0_iff [of "unat i"] by metis
  ultimately obtain b where "utils_intToText (ucast i) (replicate (cap - length out) 0) = Some (b, length (dec_text (unat i)))"
    "length b = cap - length out" "take (length (dec_text (unat i))) b = dec_text (unat i)"
    using utils_intToText_spec [of "ucast i" "replicate (cap - length out) 0"] assms
    by (auto simp: le_diff_conv2 add.commute)
  then show ?thesis using assms by (simp add: put_int_def put_printed_def)
qed

text \<open>The link of a path.\<close>

definition link_text :: "u16 list \<Rightarrow> bytes" where
  "link_text ids = str ''<'' @ uri_text ids @ str ''>,''"

definition no_attributes :: "'a lwm2m option \<Rightarrow> u16 option \<Rightarrow> u16 \<Rightarrow> bool" where
  "no_attributes ctx srv oid \<longleftrightarrow> (\<forall>u. objectId u = oid \<longrightarrow> prv_findAttributes ctx u srv = Some None)"

lemma no_attributes_written:
  "no_attributes ctx srv oid \<Longrightarrow> objectId u = oid \<Longrightarrow> prv_serializeAttributes F ctx u srv None cap out = Some (Some out)"
  by (simp add: prv_serializeAttributes_def no_attributes_def)

definition plain_resource :: "lwm2m_data_t \<Rightarrow> bool" where
  "plain_resource d \<longleftrightarrow> data_type d \<notin> {LWM2M_TYPE_OBJECT, LWM2M_TYPE_OBJECT_INSTANCE, LWM2M_TYPE_MULTIPLE_RESOURCE}"

lemma resource_link:
  assumes "no_attributes ctx srv (objectId uri)" and "plain_resource d"
    and "length out + length (link_text (ids @ [data_id d])) \<le> cap"
  shows "prv_serializeLinkData F ctx srv None uri (uri_text ids) cap d out = Some (Some (out @ link_text (ids @ [data_id d])))"
proof (cases d)
  case (Data ty i v)
  have t: "uri_text (ids @ [i]) = uri_text ids @ chr CHR ''/'' # dec_text (unat i)" by (simp add: uri_text_def)
  then show ?thesis
    using assms Data no_attributes_written [OF assms(1)]
    by (simp add: plain_resource_def put_resource_link_def link_text_def put_int_eq str_def)
qed

lemma discover_loop_links:
  assumes "no_attributes ctx srv (objectId uri)" and "\<forall>d\<in>set ds. plain_resource d"
    and "length out + length (concat (map (\<lambda>d. link_text (ids @ [data_id d])) ds)) \<le> PRV_LINK_BUFFER_SIZE"
  shows "discover_loop F ctx srv None uri (uri_text ids) ds out =
    Some (Some (out @ concat (map (\<lambda>d. link_text (ids @ [data_id d])) ds)))"
  using assms(2,3)
proof (induction ds arbitrary: out)
  case (Cons d ds)
  have "0 < length (link_text (ids @ [data_id d]))" by (simp add: link_text_def str_def)
  then have "length out < PRV_LINK_BUFFER_SIZE" using Cons.prems(2) unfolding list.map concat.simps length_append by linarith
  then show ?case
    using Cons resource_link [OF assms(1), of d out ids PRV_LINK_BUFFER_SIZE F] by simp
qed simp

lemma discover_links:
  assumes "no_attributes ctx srv oid" and "oid \<noteq> LWM2M_MAX_ID" and "iid \<noteq> LWM2M_MAX_ID"
    and "\<forall>d\<in>set ds. plain_resource d" and "\<forall>n. mem n"
    and "links = link_text [oid, iid] @ concat (map (\<lambda>d. link_text [oid, iid, data_id d]) ds)"
    and "length links \<le> PRV_LINK_BUFFER_SIZE"
  shows "discover_serialize F mem ctx (uri_of [oid, iid]) srv ds = Some (int (length links) - 1, Some (butlast links))"
proof -
  let ?u = "uri_of [oid, iid]"
  have u: "objectId ?u = oid" "instanceId ?u = iid" "\<not> LWM2M_URI_IS_SET_RESOURCE ?u" "LWM2M_URI_IS_SET_INSTANCE ?u"
    using assms(3) by (simp_all add: uri_of_def LWM2M_URI_IS_SET_RESOURCE_def LWM2M_URI_IS_SET_INSTANCE_def)
  have l: "length (link_text [oid, iid]) \<le> PRV_LINK_BUFFER_SIZE" using assms(6,7) by simp
  then have head: "put_head_link F ctx srv ?u = Some (Some (link_text [oid, iid]))"
    using u no_attributes_written [OF assms(1)]
    by (simp add: put_head_link_def Let_def link_text_def put_int_eq str_def PRV_LINK_BUFFER_SIZE_def)
  have "uri_ids [oid, iid]" using assms(2,3) by (simp add: uri_ids_def)
  then obtain b where b: "lwm2m_uriToString (Some ?u) (replicate URI_MAX_STRING_LEN 0) =
      Some (b, int (length (uri_text [oid, iid])), Some (depth_of (length [oid, iid])))"
    "take (length (uri_text [oid, iid])) b = uri_text [oid, iid]"
    using lwm2m_uriToString_spec [of "[oid, iid]" "replicate URI_MAX_STRING_LEN 0"] by (auto simp: URI_MAX_STRING_LEN_def)
  define n where "n = int (length (uri_text [oid, iid]))"
  have n: "\<not> n < 0" "take (nat n) b = uri_text [oid, iid]" using b(2) by (simp_all only: n_def nat_int)
  have "discover_loop F ctx srv None ?u (uri_text [oid, iid]) ds (link_text [oid, iid]) = Some (Some links)"
    using discover_loop_links [of ctx srv ?u ds "link_text [oid, iid]" "[oid, iid]" F] assms u by simp
  moreover have "links \<noteq> []" using assms(6) by (simp add: link_text_def str_def)
  ultimately show ?thesis
    using u head b(1) [folded n_def] n assms(5) unfolding discover_serialize_def discover_out_def
    by (cases "length links") (simp_all add: butlast_conv_take)
qed

text \<open>C21: Discover on an object instance for which the server has set no attributes prints the link of the
  instance and the links of its resources, in the order of the application, separated by commas.\<close>

theorem discover_instance:
  assumes "no_attributes ctx srv oid" and "oid \<noteq> LWM2M_MAX_ID" and "iid \<noteq> LWM2M_MAX_ID"
    and "\<forall>d\<in>set ds. plain_resource d" and "\<forall>n. mem n"
    and "links = link_text [oid, iid] @ concat (map (\<lambda>d. link_text [oid, iid, data_id d]) ds)"
    and "length links \<le> PRV_LINK_BUFFER_SIZE"
  shows "discover_serialize F mem ctx (uri_of [oid, iid]) srv ds = Some (int (length links) - 1, Some (butlast links))"
  using assms by (rule discover_links)

theorem discover_instance_witness:
  "discover_serialize plain_formats (\<lambda>_. True) (None :: lwm2m_context_t option) (uri_of [3, 0]) None
     [Data LWM2M_TYPE_STRING 1 asZero, Data LWM2M_TYPE_INTEGER 9 asZero] = Some (24, Some (str ''</3/0>,</3/0/1>,</3/0/9>''))"
proof -
  have "link_text [3, 0] @ concat (map (\<lambda>d. link_text [3, 0, data_id d]) [Data LWM2M_TYPE_STRING 1 asZero, Data LWM2M_TYPE_INTEGER 9 asZero]) =
      str ''</3/0>,</3/0/1>,</3/0/9>,''"
    by (simp add: link_text_def dec_text.simps str_def chr_def digit_char_def)
  from discover_instance [OF _ _ _ _ _ this [symmetric], of "None :: lwm2m_context_t option" None "\<lambda>_. True" plain_formats] show ?thesis
    by (simp add: no_attributes_def prv_findAttributes_def plain_resource_def LWM2M_MAX_ID_def PRV_LINK_BUFFER_SIZE_def str_def)
qed

section \<open>The bound of the buffer\<close>

definition within :: "nat \<Rightarrow> bytes option c \<Rightarrow> bool" where
  "within cap r \<longleftrightarrow> (\<forall>out. r = Some (Some out) \<longrightarrow> length out \<le> cap)"

named_theorems within_intros \<open>writers that stay within the buffer\<close>

lemma within_or_fail [within_intros]:
  "within cap r \<Longrightarrow> (\<And>out. length out \<le> cap \<Longrightarrow> within cap (f out)) \<Longrightarrow> within cap (or_fail r f)"
  by (auto simp: within_def or_fail_def bind_eq_Some_conv split: option.splits)

lemma within_done [within_intros]: "length out \<le> cap \<Longrightarrow> within cap (Some (Some out))"
  by (simp add: within_def)

lemma within_put_str [within_intros]: "length out \<le> cap \<Longrightarrow> within cap (put_str cap t out)"
  by (auto simp: within_def put_str_def)

lemma within_put_printed:
  assumes "\<And>b b' n. print b = Some (b', n) \<Longrightarrow> length b' = length b" and "length out \<le> cap"
  shows "within cap (put_printed print cap out)"
proof (cases "print (replicate (cap - length out) 0)")
  case (Some r)
  obtain b n where r: "r = (b, n)" by (cases r)
  have "length b = cap - length out" using assms(1) [of "replicate (cap - length out) 0" b n] Some r by simp
  then show ?thesis using Some r assms(2) by (auto simp: within_def put_printed_def rd_range_def)
qed (simp add: within_def put_printed_def)

lemma within_put_int [within_intros]: "length out \<le> cap \<Longrightarrow> within cap (put_int cap v out)"
  unfolding put_int_def
proof (rule within_put_printed)
  show "utils_intToText v b = Some (b', n) \<Longrightarrow> length b' = length b" for b b' n
    using utils_intToText_spec [of v b] by auto
qed

text \<open>What is relied on in the printer of floating point numbers: it does not change the size of its buffer.\<close>

definition float_printer_ok :: "data_formats \<Rightarrow> bool" where
  "float_printer_ok F \<longleftrightarrow> (\<forall>v b e b' n. utils_floatToText F v b e = Some (b', n) \<longrightarrow> length b' = length b)"

lemma within_put_float: "float_printer_ok F \<Longrightarrow> length out \<le> cap \<Longrightarrow> within cap (put_float F cap v out)"
  unfolding put_float_def by (rule within_put_printed) (unfold float_printer_ok_def, blast+)

lemma within_put_attr [within_intros]:
  "(\<And>out. length out \<le> cap \<Longrightarrow> within cap (val out)) \<Longrightarrow> length out \<le> cap \<Longrightarrow> within cap (put_attr cap name val out)"
  unfolding put_attr_def by (intro within_intros) assumption+

lemma within_put_period [within_intros]: "length out \<le> cap \<Longrightarrow> within cap (put_period cap name flag field a objA out)"
  unfolding put_period_def by (simp add: within_intros split: option.split)

lemma within_put_threshold:
  "float_printer_ok F \<Longrightarrow> length out \<le> cap \<Longrightarrow> within cap (put_threshold F cap name flag field a out)"
  unfolding put_threshold_def by (simp add: within_intros within_put_float)

lemma within_attributes:
  assumes "float_printer_ok F" and "length out \<le> cap"
  shows "within cap (prv_serializeAttributes F ctx uri srv objectParam cap out)"
proof (cases "prv_findAttributes ctx uri srv")
  case (Some found)
  have "within cap (prv_serializeAttributes F ctx uri srv objectParam cap out)" if "(case found of None \<Rightarrow> objectParam | Some p \<Rightarrow> Some p) = Some p" for p
    using that assms Some unfolding prv_serializeAttributes_def
    by (simp, intro within_intros within_put_threshold) simp_all
  then show ?thesis
    using Some assms(2) by (cases "case found of None \<Rightarrow> objectParam | Some p \<Rightarrow> Some p")
      (simp_all add: prv_serializeAttributes_def within_intros)
qed (simp add: prv_serializeAttributes_def within_def)

lemma within_resource_link:
  "float_printer_ok F \<Longrightarrow> length out \<le> cap \<Longrightarrow>
   within cap (put_resource_link F ctx srv objectParam parentUri parentUriStr cap i dim out)"
  unfolding put_resource_link_def
  by (intro within_intros) (auto intro!: within_intros within_attributes split: option.split)

lemma within_instance_link:
  assumes "float_printer_ok F" and "length out0 \<le> cap"
  shows "within cap (put_instance_link F ctx srv uri uriStr cap out0)"
  unfolding put_instance_link_def using assms
  by (intro within_intros) (auto intro!: within_intros within_attributes)

lemma within_instance_path: "(\<And>u. within cap (f u)) \<Longrightarrow> within cap (or_fail (instance_path parentUriStr i) f)"
  by (auto simp: within_def or_fail_def bind_eq_Some_conv split: option.splits)

lemma within_link_data:
  "float_printer_ok F \<Longrightarrow> length out \<le> cap \<Longrightarrow>
    within cap (prv_serializeLinkData F ctx srv objectParam parentUri parentUriStr cap d out)"
  "float_printer_ok F \<Longrightarrow> length out \<le> cap \<Longrightarrow>
    within cap (serialize_link_children F ctx srv objectParam parentUri parentUriStr cap v out)"
  "float_printer_ok F \<Longrightarrow> length out \<le> cap \<Longrightarrow>
    within cap (serialize_links F ctx srv objectParam parentUri parentUriStr cap ds out)"
proof (induction F ctx srv objectParam parentUri parentUriStr cap d out and F ctx srv objectParam parentUri parentUriStr cap v out
    and F ctx srv objectParam parentUri parentUriStr cap ds out
    rule: prv_serializeLinkData_serialize_link_children_serialize_links.induct)
  case (1 F ctx srv objectParam parentUri parentUriStr cap ty i v out)
  have "within cap (do { n \<leftarrow> children_count v; put_resource_link F ctx srv objectParam parentUri parentUriStr cap i (Some n) out })"
    using within_resource_link [OF 1(2,3)] by (cases "children_count v") (simp_all add: within_def [of cap None])
  then show ?case
    using 1 within_resource_link [OF 1(2,3)] within_instance_link [OF 1(2,3)]
    by (auto intro!: within_instance_path within_or_fail simp: within_def [of cap "Some None"])
qed (auto intro: within_intros simp: within_def [of _ None])

lemma within_discover_loop:
  "float_printer_ok F \<Longrightarrow> length out \<le> PRV_LINK_BUFFER_SIZE \<Longrightarrow>
   within PRV_LINK_BUFFER_SIZE (discover_loop F ctx srv objectParam uri uriStr ds out)"
  by (induction ds arbitrary: out) (auto intro!: within_intros within_link_data(1))

lemma within_head_link: "float_printer_ok F \<Longrightarrow> within PRV_LINK_BUFFER_SIZE (put_head_link F ctx srv uri)"
  unfolding put_head_link_def Let_def
  by (intro within_intros) (auto intro!: within_intros within_attributes)

lemma within_discover_out:
  assumes "float_printer_ok F"
  shows "within PRV_LINK_BUFFER_SIZE (discover_out F ctx uri srv data)"
proof -
  have tail: "within PRV_LINK_BUFFER_SIZE
      (do { (b, n, _) \<leftarrow> lwm2m_uriToString (Some base) (replicate URI_MAX_STRING_LEN 0);
            if n < 0 then Some None else discover_loop F ctx srv param base (take (nat n) b) data out })"
    if "length out \<le> PRV_LINK_BUFFER_SIZE" for base param out
    using within_discover_loop [OF assms that]
    by (cases "lwm2m_uriToString (Some base) (replicate URI_MAX_STRING_LEN 0)") (auto simp: within_def [of _ None] within_def [of _ "Some None"])
  have "within PRV_LINK_BUFFER_SIZE (discover_out F ctx uri srv data)" if "LWM2M_URI_IS_SET_RESOURCE uri"
    using that tail [of "[]"] unfolding discover_out_def
    by (cases "prv_findAttributes ctx (LWM2M_URI_RESET\<lparr>objectId := objectId uri\<rparr>) srv";
        cases "prv_findAttributes ctx (LWM2M_URI_RESET\<lparr>objectId := objectId uri, instanceId := instanceId uri\<rparr>) srv")
       (simp_all add: within_def [of _ None])
  moreover have "within PRV_LINK_BUFFER_SIZE (discover_out F ctx uri srv data)" if "\<not> LWM2M_URI_IS_SET_RESOURCE uri"
  proof -
    have assoc: "or_fail (or_fail r f) g = or_fail r (\<lambda>x. or_fail (f x) g)" for r :: "bytes option c" and f g
      by (simp add: or_fail_def split: option.split) (cases r; auto simp: or_fail_def split: option.split)
    show ?thesis
      using that tail unfolding discover_out_def by (simp add: assoc within_or_fail [OF within_head_link [OF assms]])
  qed
  ultimately show ?thesis by blast
qed

text \<open>The links never leave the buffer of 1024 bytes: whatever the objects, the attributes and the records
  of the application, at most 1023 bytes are returned, and as many as are reported.\<close>

theorem discover_in_bounds:
  assumes "float_printer_ok F" and "discover_serialize F mem ctx uri srv data = Some (n, b)"
  shows "n < int PRV_LINK_BUFFER_SIZE \<and> (0 < n \<longrightarrow> (\<exists>s. b = Some s \<and> int (length s) = n))"
proof -
  obtain r where r: "discover_out F ctx uri srv data = Some r"
    and n: "(n, b) = (case r of None \<Rightarrow> (- 1, None) | Some out \<Rightarrow> if out = [] then (0, None) else let s = take (length out - 1) out in
      if mem (length s) then (int (length s), Some s) else (0, None))"
    using assms(2) by (auto simp: discover_serialize_def bind_eq_Some_conv)
  have "length out \<le> PRV_LINK_BUFFER_SIZE" if "r = Some out" for out
    using within_discover_out [OF assms(1)] r that unfolding within_def by blast
  with n show ?thesis by (fastforce simp: PRV_LINK_BUFFER_SIZE_def Let_def split: option.splits if_splits)
qed

theorem discover_in_bounds_witness:
  "\<exists>n b. discover_serialize plain_formats (\<lambda>_. True) (None :: lwm2m_context_t option) (uri_of [3, 0]) None [Data LWM2M_TYPE_STRING 1 asZero] = Some (n, b) \<and>
    n < int PRV_LINK_BUFFER_SIZE \<and> (0 < n \<longrightarrow> (\<exists>s. b = Some s \<and> int (length s) = n))"
proof -
  have "link_text [3, 0] @ concat (map (\<lambda>d. link_text [3, 0, data_id d]) [Data LWM2M_TYPE_STRING 1 asZero]) = str ''</3/0>,</3/0/1>,''"
    by (simp add: link_text_def dec_text.simps str_def chr_def digit_char_def)
  from discover_links [OF _ _ _ _ _ this [symmetric], of "None :: lwm2m_context_t option" None "\<lambda>_. True" plain_formats]
  have "\<exists>n b. discover_serialize plain_formats (\<lambda>_. True) (None :: lwm2m_context_t option) (uri_of [3, 0]) None [Data LWM2M_TYPE_STRING 1 asZero] = Some (n, b)"
    by (simp add: no_attributes_def prv_findAttributes_def plain_resource_def LWM2M_MAX_ID_def PRV_LINK_BUFFER_SIZE_def)
  moreover have "float_printer_ok plain_formats" by (simp add: float_printer_ok_def plain_formats_def)
  ultimately show ?thesis
    using discover_in_bounds [of plain_formats "\<lambda>_. True" "None :: lwm2m_context_t option" "uri_of [3, 0]" None "[Data LWM2M_TYPE_STRING 1 asZero]"]
    by metis
qed

end
