(* ===== verification/Objects.thy ===== *)
theory Objects
  imports Discover
begin

text \<open>
  The objects of a client, \<^verbatim>\<open>core/objects.c\<close>: reading, writing, executing, creating, deleting and
  discovering through the callbacks of the application, and the information about servers that
  the library reads from the Security and Server objects.

  A pointer to an object is its identifier; it is looked up again after a callback, and an object
  that the callback removed leaves a dangling pointer.  A read callback does not change the list of
  instances it is called for and fills in the records it is given in their place.  \<open>frees_nodes\<close> says
  whether a delete callback releases the list node of the instance it removes.  Results are the
  context, the status and the data.
\<close>

section \<open>Identifiers\<close>

definition LWM2M_SECURITY_OBJECT_ID :: u16 where "LWM2M_SECURITY_OBJECT_ID = 0"
definition LWM2M_SERVER_OBJECT_ID :: u16 where "LWM2M_SERVER_OBJECT_ID = 1"
definition LWM2M_OSCORE_OBJECT_ID :: u16 where "LWM2M_OSCORE_OBJECT_ID = 21"
definition LWM2M_SECURITY_BOOTSTRAP_ID :: u16 where "LWM2M_SECURITY_BOOTSTRAP_ID = 1"
definition LWM2M_SECURITY_SHORT_SERVER_ID :: u16 where "LWM2M_SECURITY_SHORT_SERVER_ID = 10"
definition LWM2M_SECURITY_HOLD_OFF_ID :: u16 where "LWM2M_SECURITY_HOLD_OFF_ID = 11"
definition LWM2M_SERVER_SHORT_ID_ID :: u16 where "LWM2M_SERVER_SHORT_ID_ID = 0"
definition LWM2M_SERVER_LIFETIME_ID :: u16 where "LWM2M_SERVER_LIFETIME_ID = 1"
definition LWM2M_SERVER_BINDING_ID :: u16 where "LWM2M_SERVER_BINDING_ID = 7"
definition COAP_501_NOT_IMPLEMENTED :: u8 where "COAP_501_NOT_IMPLEMENTED = 0xA1"

lemmas object_ids = LWM2M_SECURITY_OBJECT_ID_def LWM2M_SERVER_OBJECT_ID_def LWM2M_OSCORE_OBJECT_ID_def

definition find_object :: "'a lwm2m \<Rightarrow> u16 \<Rightarrow> lwm2m_object_t option" where
  "find_object ctx oid = LWM2M_LIST_FIND objID (objectList ctx) oid"

definition has_instance :: "lwm2m_object_t \<Rightarrow> u16 \<Rightarrow> bool" where
  "has_instance obj i \<longleftrightarrow> LWM2M_LIST_FIND id (instanceList obj) i \<noteq> None"

section \<open>Reading\<close>

text \<open>The records a read or discover callback is asked to fill in, \<open>None\<close> when they cannot be allocated.\<close>

definition requested_data :: "(nat \<Rightarrow> bool) \<Rightarrow> lwm2m_uri_t \<Rightarrow> lwm2m_data_t list option" where
  "requested_data mem uri =
     (case lwm2m_data_new mem 1 of
        None \<Rightarrow> None
      | Some ds \<Rightarrow>
          let d = Data LWM2M_TYPE_UNDEFINED (resourceId uri) asZero in
          if LWM2M_URI_IS_SET_RESOURCE_INSTANCE uri
          then (case lwm2m_data_new mem 1 of
                  None \<Rightarrow> None
                | Some _ \<Rightarrow> Some [lwm2m_data_encode_instances [Data LWM2M_TYPE_UNDEFINED (resourceInstanceId uri) asZero] d])
          else Some [d])"

text \<open>The record that \<open>valueP\<close> points to after the callback: the resource or its first instance.\<close>

definition value_read :: "lwm2m_uri_t \<Rightarrow> lwm2m_data_t list \<Rightarrow> lwm2m_data_t c" where
  "value_read uri ds =
     do { d \<leftarrow> rd ds 0;
          if LWM2M_URI_IS_SET_RESOURCE_INSTANCE uri
          then (case data_value d of asChildren (x # _) \<Rightarrow> Some x | _ \<Rightarrow> None)
          else Some d }"

definition object_checkReadable ::
  "('a lwm2m) app_objects \<Rightarrow> ('a lwm2m) platform \<Rightarrow> lwm2m_uri_t \<Rightarrow> lwm2m_attributes_t \<Rightarrow> 'a lwm2m \<Rightarrow> ('a lwm2m \<times> u8) c" where
  "object_checkReadable A P uri attr ctx =
     (case find_object ctx (objectId uri) of
        None \<Rightarrow> Some (ctx, COAP_404_NOT_FOUND)
      | Some obj \<Rightarrow>
          (case readFunc A (objectId uri) of
             None \<Rightarrow> Some (ctx, COAP_405_METHOD_NOT_ALLOWED)
           | Some read \<Rightarrow>
               if \<not> LWM2M_URI_IS_SET_INSTANCE uri then Some (ctx, COAP_205_CONTENT)
               else if \<not> has_instance obj (instanceId uri) then Some (ctx, COAP_404_NOT_FOUND)
               else if \<not> LWM2M_URI_IS_SET_RESOURCE uri then Some (ctx, COAP_205_CONTENT)
               else case requested_data (mem_ok P) uri of
                 None \<Rightarrow> Some (ctx, COAP_500_INTERNAL_SERVER_ERROR)
               | Some ds \<Rightarrow>
                   (case read ctx (instanceId uri) ds of (ctx, ds, result) \<Rightarrow>
                      if result = COAP_205_CONTENT \<and> toSet attr AND ATTR_FLAG_NUMERIC \<noteq> 0
                      then do { v \<leftarrow> value_read uri ds;
                                Some (ctx, if data_type v \<in> {LWM2M_TYPE_INTEGER, LWM2M_TYPE_UNSIGNED_INTEGER, LWM2M_TYPE_FLOAT}
                                           then result else COAP_405_METHOD_NOT_ALLOWED) }
                      else Some (ctx, result))))"

text \<open>The instances of an object, one after the other until a callback fails.\<close>

fun read_instances ::
  "('c \<Rightarrow> u16 \<Rightarrow> lwm2m_data_t list \<Rightarrow> 'c \<times> lwm2m_data_t list \<times> u8) \<Rightarrow> u16 list \<Rightarrow> 'c \<Rightarrow> lwm2m_data_t list \<Rightarrow> 'c \<times> lwm2m_data_t list \<times> u8" where
  "read_instances f [] ctx acc = (ctx, acc, COAP_205_CONTENT)"
| "read_instances f (i # is) ctx acc =
     (case f ctx i [] of (ctx, ds, result) \<Rightarrow>
        let acc = acc @ [Data LWM2M_TYPE_OBJECT_INSTANCE i (asChildren ds)] in
        if result = COAP_205_CONTENT then read_instances f is ctx acc else (ctx, acc, result))"

definition object_readData ::
  "('a lwm2m) app_objects \<Rightarrow> ('a lwm2m) platform \<Rightarrow> lwm2m_uri_t \<Rightarrow> 'a lwm2m \<Rightarrow> 'a lwm2m \<times> lwm2m_data_t list \<times> u8" where
  "object_readData A P uri ctx =
     (case find_object ctx (objectId uri) of
        None \<Rightarrow> (ctx, [], COAP_404_NOT_FOUND)
      | Some obj \<Rightarrow>
          (case readFunc A (objectId uri) of
             None \<Rightarrow> (ctx, [], COAP_405_METHOD_NOT_ALLOWED)
           | Some read \<Rightarrow>
               if LWM2M_URI_IS_SET_INSTANCE uri
               then if \<not> has_instance obj (instanceId uri) then (ctx, [], COAP_404_NOT_FOUND)
                    else (case (if LWM2M_URI_IS_SET_RESOURCE uri then requested_data (mem_ok P) uri else Some []) of
                            None \<Rightarrow> (ctx, [], COAP_500_INTERNAL_SERVER_ERROR)
                          | Some ds \<Rightarrow>
                              (case read ctx (instanceId uri) ds of (ctx, ds, result) \<Rightarrow>
                                 (ctx, if result = COAP_205_CONTENT then ds else [], result)))
               else if instanceList obj = [] then (ctx, [], COAP_205_CONTENT)
               else if lwm2m_data_new (mem_ok P) (int (length (instanceList obj))) = None
               then (ctx, [], COAP_500_INTERNAL_SERVER_ERROR)
               else (case read_instances read (instanceList obj) ctx [] of (ctx, ds, result) \<Rightarrow>
                       (ctx, if result = COAP_205_CONTENT then ds else [], result))))"

text \<open>The result: the context, the status, the payload and the format.\<close>

definition object_read ::
  "('a lwm2m) app_objects \<Rightarrow> data_formats \<Rightarrow> ('a lwm2m) platform \<Rightarrow> lwm2m_uri_t \<Rightarrow> u16 list \<Rightarrow> u16 \<Rightarrow> 'a lwm2m \<Rightarrow>
   ('a lwm2m \<times> u8 \<times> bytes option \<times> u16) c" where
  "object_read A F P uri accepted fmt ctx =
     (case object_readData A P uri ctx of (ctx, ds, result) \<Rightarrow>
        if result \<noteq> COAP_205_CONTENT then Some (ctx, result, None, fmt)
        else (case (if accepted \<noteq> []
                    then case utils_getResponseFormat accepted (map data_type ds) (LWM2M_URI_IS_SET_RESOURCE uri) of
                           (st, f) \<Rightarrow> (st, if st = COAP_205_CONTENT then f else fmt)
                    else (result, fmt)) of
                (result, fmt) \<Rightarrow>
                  if result \<noteq> COAP_205_CONTENT then Some (ctx, result, None, fmt)
                  else do { (n, b, fmt) \<leftarrow> lwm2m_data_serialize F (mem_ok P) (Some uri) ds fmt;
                            Some (if n < 0 then (ctx, COAP_500_INTERNAL_SERVER_ERROR, None, fmt)
                                  else (ctx, result, b, fmt)) }))"

section \<open>Information about servers\<close>

text \<open>One resource of an instance, read by the library itself.\<close>

definition read_resource ::
  "('a lwm2m) app_objects \<Rightarrow> ('a lwm2m) platform \<Rightarrow> u16 \<Rightarrow> u16 \<Rightarrow> u16 list \<Rightarrow> 'a lwm2m \<Rightarrow> ('a lwm2m \<times> lwm2m_data_t list \<times> u8) option c" where
  "read_resource A P oid i rids ctx =
     (case lwm2m_data_new (mem_ok P) (int (length rids)) of
        None \<Rightarrow> Some None
      | Some _ \<Rightarrow>
          do { read \<leftarrow> readFunc A oid;
               Some (Some (read ctx i (map (\<lambda>r. Data LWM2M_TYPE_UNDEFINED r asZero) rids))) })"

text \<open>Lifetime and binding of a server; the flag is the result 0.  The lifetime is stored even when the
  binding is not valid.\<close>

definition prv_getMandatoryInfo ::
  "('a lwm2m) app_objects \<Rightarrow> ('a lwm2m) platform \<Rightarrow> u16 \<Rightarrow> u16 \<Rightarrow> lwm2m_server_t \<Rightarrow> 'a lwm2m \<Rightarrow> ('a lwm2m \<times> lwm2m_server_t \<times> bool) c" where
  "prv_getMandatoryInfo A P oid i srv ctx =
     do { r \<leftarrow> read_resource A P oid i [LWM2M_SERVER_LIFETIME_ID, LWM2M_SERVER_BINDING_ID] ctx;
          (case r of
             None \<Rightarrow> Some (ctx, srv, False)
           | Some (ctx, ds, st) \<Rightarrow>
               if st \<noteq> COAP_205_CONTENT then Some (ctx, srv, False)
               else do {
                 d0 \<leftarrow> rd ds 0;
                 lt \<leftarrow> lwm2m_data_decode_int d0;
                 (case lt of
                    None \<Rightarrow> Some (ctx, srv, False)
                  | Some v \<Rightarrow>
                      if sint v < 0 \<or> sint v > 0xFFFFFFFF then Some (ctx, srv, False)
                      else do {
                        d1 \<leftarrow> rd ds 1;
                        b \<leftarrow> (if data_type d1 = LWM2M_TYPE_STRING
                              then do { s \<leftarrow> value_buffer (data_value d1); Some (utils_stringToBinding s) }
                              else Some BINDING_UNKNOWN);
                        Some (ctx, srv\<lparr>lifetime := sint v, binding := b\<rparr>, b \<noteq> BINDING_UNKNOWN) }) }) }"

text \<open>The short identifier of a server, 0 on failure.\<close>

definition prv_getServerShortId ::
  "('a lwm2m) app_objects \<Rightarrow> ('a lwm2m) platform \<Rightarrow> u16 \<Rightarrow> u16 \<Rightarrow> 'a lwm2m \<Rightarrow> ('a lwm2m \<times> u16) c" where
  "prv_getServerShortId A P oid i ctx =
     do { r \<leftarrow> read_resource A P oid i [LWM2M_SERVER_SHORT_ID_ID] ctx;
          (case r of
             None \<Rightarrow> Some (ctx, 0)
           | Some (ctx, ds, st) \<Rightarrow>
               if st \<noteq> COAP_205_CONTENT then Some (ctx, 0)
               else do { d \<leftarrow> rd ds 0;
                         v \<leftarrow> lwm2m_data_decode_int d;
                         Some (ctx, case v of None \<Rightarrow> 0
                                    | Some v \<Rightarrow> if sint v < 0 \<or> sint v > 65535 then 0 else ucast v) }) }"

text \<open>After a write to the Server object the entry of the server with that short identifier is refreshed.\<close>

definition prv_updateServerInfo ::
  "('a lwm2m) app_objects \<Rightarrow> ('a lwm2m) platform \<Rightarrow> u16 \<Rightarrow> u16 \<Rightarrow> 'a lwm2m \<Rightarrow> ('a lwm2m) c" where
  "prv_updateServerInfo A P oid i ctx =
     do { (ctx, serverId) \<leftarrow> prv_getServerShortId A P oid i ctx;
          if serverId = 0 then Some ctx
          else (case find (\<lambda>s. shortID s = serverId) (serverList ctx) of
                  None \<Rightarrow> Some ctx
                | Some srv \<Rightarrow>
                    do { (ctx, srv', _) \<leftarrow> prv_getMandatoryInfo A P oid i srv ctx;
                         Some (ctx\<lparr>serverList := update_first (\<lambda>s. shortID s = serverId) (\<lambda>_. srv') (serverList ctx)\<rparr>) }) }"

section \<open>Writing, executing, creating\<close>

definition object_write ::
  "('a lwm2m) app_objects \<Rightarrow> data_formats \<Rightarrow> ('a lwm2m) platform \<Rightarrow> lwm2m_uri_t \<Rightarrow> u16 \<Rightarrow> bytes \<Rightarrow> bool \<Rightarrow> 'a lwm2m \<Rightarrow> ('a lwm2m \<times> u8) c" where
  "object_write A F P uri fmt pl partial ctx =
     (if \<not> LWM2M_URI_IS_SET_OBJECT uri \<or> \<not> LWM2M_URI_IS_SET_INSTANCE uri then Some (ctx, COAP_400_BAD_REQUEST)
      else case find_object ctx (objectId uri) of
        None \<Rightarrow> Some (ctx, COAP_404_NOT_FOUND)
      | Some obj \<Rightarrow>
          (case writeFunc A (objectId uri) of
             None \<Rightarrow> Some (ctx, COAP_405_METHOD_NOT_ALLOWED)
           | Some put \<Rightarrow>
               do { (n, ds) \<leftarrow> lwm2m_data_parse F (mem_ok P) uri pl fmt;
                    if n \<le> 0 then Some (ctx, COAP_406_NOT_ACCEPTABLE)
                    else if LWM2M_URI_IS_SET_RESOURCE_INSTANCE uri \<and> lwm2m_data_new (mem_ok P) 1 = None
                    then Some (ctx, COAP_500_INTERNAL_SERVER_ERROR)
                    else
                      let inst = LWM2M_URI_IS_SET_RESOURCE_INSTANCE uri;
                          ds = (if inst then [lwm2m_data_encode_instances ds (Data LWM2M_TYPE_UNDEFINED (resourceId uri) asZero)] else ds);
                          writeType = (if partial \<or> inst then LWM2M_WRITE_PARTIAL_UPDATE
                                       else if LWM2M_URI_IS_SET_RESOURCE uri then LWM2M_WRITE_REPLACE_RESOURCES
                                       else LWM2M_WRITE_REPLACE_INSTANCE) in
                      (case put ctx (instanceId uri) ds writeType of (ctx, result) \<Rightarrow>
                         if result = COAP_204_CHANGED \<and> objectId uri = LWM2M_SERVER_OBJECT_ID
                         then do { ctx \<leftarrow> prv_updateServerInfo A P (objectId uri) (instanceId uri) ctx; Some (ctx, result) }
                         else Some (ctx, result)) }))"

definition object_execute ::
  "('a lwm2m) app_objects \<Rightarrow> lwm2m_uri_t \<Rightarrow> bytes option \<Rightarrow> 'a lwm2m \<Rightarrow> 'a lwm2m \<times> u8" where
  "object_execute A uri pl ctx =
     (case find_object ctx (objectId uri) of
        None \<Rightarrow> (ctx, COAP_404_NOT_FOUND)
      | Some obj \<Rightarrow>
          (case executeFunc A (objectId uri) of
             None \<Rightarrow> (ctx, COAP_405_METHOD_NOT_ALLOWED)
           | Some exec \<Rightarrow>
               if \<not> has_instance obj (instanceId uri) then (ctx, COAP_404_NOT_FOUND)
               else exec ctx (instanceId uri) (resourceId uri) pl))"

text \<open>The path is given back with the identifier of the new instance.\<close>

fun children_of :: "lwm2m_value \<Rightarrow> lwm2m_data_t list c" where
  "children_of (asChildren ds) = Some ds"
| "children_of asZero = Some []"
| "children_of _ = None"

definition object_create ::
  "('a lwm2m) app_objects \<Rightarrow> data_formats \<Rightarrow> ('a lwm2m) platform \<Rightarrow> lwm2m_uri_t \<Rightarrow> u16 \<Rightarrow> bytes option \<Rightarrow> 'a lwm2m \<Rightarrow>
   ('a lwm2m \<times> u8 \<times> lwm2m_uri_t) c" where
  "object_create A F P uri fmt pl ctx =
     (case pl of
        None \<Rightarrow> Some (ctx, COAP_400_BAD_REQUEST, uri)
      | Some pl \<Rightarrow>
          if pl = [] then Some (ctx, COAP_400_BAD_REQUEST, uri)
          else case find_object ctx (objectId uri) of
            None \<Rightarrow> Some (ctx, COAP_404_NOT_FOUND, uri)
          | Some obj \<Rightarrow>
              (case createFunc A (objectId uri) of
                 None \<Rightarrow> Some (ctx, COAP_405_METHOD_NOT_ALLOWED, uri)
               | Some new \<Rightarrow>
                   do { (n, ds) \<leftarrow> lwm2m_data_parse F (mem_ok P) uri pl fmt;
                        if n \<le> 0 then Some (ctx, COAP_400_BAD_REQUEST, uri)
                        else do {
                          d \<leftarrow> rd ds 0;
                          if data_type d = LWM2M_TYPE_OBJECT then Some (ctx, COAP_400_BAD_REQUEST, uri)
                          else if data_type d = LWM2M_TYPE_OBJECT_INSTANCE
                          then if length ds \<noteq> 1 then Some (ctx, COAP_400_BAD_REQUEST, uri)
                               else if has_instance obj (data_id d) then Some (ctx, COAP_406_NOT_ACCEPTABLE, uri)
                               else do { cs \<leftarrow> children_of (data_value d);
                                         case new ctx (data_id d) cs of (ctx, result) \<Rightarrow>
                                           Some (ctx, result, uri\<lparr>instanceId := data_id d\<rparr>) }
                          else let uri = (if LWM2M_URI_IS_SET_INSTANCE uri then uri
                                          else uri\<lparr>instanceId := LWM2M_LIST_NEW_ID id (instanceList obj)\<rparr>) in
                               case new ctx (instanceId uri) ds of (ctx, result) \<Rightarrow> Some (ctx, result, uri) } }))"

section \<open>Deleting\<close>

text \<open>All instances: the first one is deleted until the list is empty or a callback fails.  The identifier
  of the instance is read from its node after the callback.  \<open>None\<close> also stands for a loop that does
  not end, because a callback reports success and keeps the instance.\<close>

partial_function (option) delete_instances ::
  "('a lwm2m) app_objects \<Rightarrow> bool \<Rightarrow> ('a lwm2m \<Rightarrow> u16 \<Rightarrow> 'a lwm2m \<times> u8) \<Rightarrow> lwm2m_uri_t \<Rightarrow> 'a lwm2m \<Rightarrow> ('a lwm2m \<times> u8) c" where
  "delete_instances A frees_nodes del uri ctx =
     do { obj \<leftarrow> find_object ctx (objectId uri);
          (case instanceList obj of
             [] \<Rightarrow> Some (ctx, COAP_202_DELETED)
           | i # _ \<Rightarrow>
               (case del ctx i of (ctx', result) \<Rightarrow>
                  if result = COAP_202_DELETED
                  then do { obj' \<leftarrow> find_object ctx' (objectId uri);
                            if frees_nodes \<and> \<not> has_instance obj' i then None
                            else do { ctx'' \<leftarrow> observe_clear (uri\<lparr>instanceId := i\<rparr>) ctx';
                                      delete_instances A frees_nodes del uri ctx'' } }
                  else Some (ctx', result))) }"

definition object_delete ::
  "('a lwm2m) app_objects \<Rightarrow> bool \<Rightarrow> lwm2m_uri_t \<Rightarrow> 'a lwm2m \<Rightarrow> ('a lwm2m \<times> u8) c" where
  "object_delete A frees_nodes uri ctx =
     (case find_object ctx (objectId uri) of
        None \<Rightarrow> Some (ctx, COAP_404_NOT_FOUND)
      | Some obj \<Rightarrow>
          (case deleteFunc A (objectId uri) of
             None \<Rightarrow> Some (ctx, COAP_405_METHOD_NOT_ALLOWED)
           | Some del \<Rightarrow>
               if LWM2M_URI_IS_SET_INSTANCE uri
               then (case del ctx (instanceId uri) of (ctx, result) \<Rightarrow>
                       if result = COAP_202_DELETED
                       then do { ctx \<leftarrow> observe_clear uri ctx; Some (ctx, result) } else Some (ctx, result))
               else delete_instances A frees_nodes del uri ctx))"

section \<open>Discovering\<close>

definition object_discover ::
  "('a lwm2m) app_objects \<Rightarrow> data_formats \<Rightarrow> ('a lwm2m) platform \<Rightarrow> lwm2m_uri_t \<Rightarrow> u16 \<Rightarrow> 'a lwm2m \<Rightarrow> ('a lwm2m \<times> u8 \<times> bytes option) c" where
  "object_discover A F P uri srv ctx =
     (case find_object ctx (objectId uri) of
        None \<Rightarrow> Some (ctx, COAP_404_NOT_FOUND, None)
      | Some obj \<Rightarrow>
          (case discoverFunc A (objectId uri) of
             None \<Rightarrow> Some (ctx, COAP_501_NOT_IMPLEMENTED, None)
           | Some disc \<Rightarrow>
               if LWM2M_URI_IS_SET_INSTANCE uri \<and> \<not> has_instance obj (instanceId uri) then Some (ctx, COAP_404_NOT_FOUND, None)
               else if LWM2M_URI_IS_SET_INSTANCE uri \<and> LWM2M_URI_IS_SET_RESOURCE uri \<and> lwm2m_data_new (mem_ok P) 1 = None
               then Some (ctx, COAP_500_INTERNAL_SERVER_ERROR, None)
               else if \<not> LWM2M_URI_IS_SET_INSTANCE uri \<and> instanceList obj \<noteq> [] \<and>
                       lwm2m_data_new (mem_ok P) (int (length (instanceList obj))) = None
               then Some (ctx, COAP_500_INTERNAL_SERVER_ERROR, None)
               else case (if LWM2M_URI_IS_SET_INSTANCE uri
                          then disc ctx (instanceId uri)
                                 (if LWM2M_URI_IS_SET_RESOURCE uri then [Data LWM2M_TYPE_UNDEFINED (resourceId uri) asZero] else [])
                          else read_instances disc (instanceList obj) ctx []) of
                      (ctx, ds, result) \<Rightarrow>
                        if result \<noteq> COAP_205_CONTENT then Some (ctx, result, None)
                        else do { (n, b) \<leftarrow> discover_serialize F (mem_ok P) (Some ctx) uri (Some srv) ds;
                                  Some (if n \<le> 0 then (ctx, COAP_500_INTERNAL_SERVER_ERROR, None) else (ctx, result, b)) }))"

definition object_isInstanceNew :: "u16 \<Rightarrow> u16 \<Rightarrow> 'a lwm2m \<Rightarrow> bool" where
  "object_isInstanceNew oid i ctx =
     (case find_object ctx oid of None \<Rightarrow> True | Some obj \<Rightarrow> \<not> has_instance obj i)"

definition object_createInstance ::
  "('a lwm2m) app_objects \<Rightarrow> lwm2m_uri_t \<Rightarrow> lwm2m_data_t \<Rightarrow> 'a lwm2m \<Rightarrow> ('a lwm2m \<times> u8) c" where
  "object_createInstance A uri d ctx =
     (case find_object ctx (objectId uri) of
        None \<Rightarrow> Some (ctx, COAP_404_NOT_FOUND)
      | Some obj \<Rightarrow>
          (case createFunc A (objectId uri) of
             None \<Rightarrow> Some (ctx, COAP_405_METHOD_NOT_ALLOWED)
           | Some new \<Rightarrow> do { cs \<leftarrow> children_of (data_value d);
                              Some (new ctx (LWM2M_LIST_NEW_ID id (instanceList obj)) cs) }))"

definition object_writeInstance ::
  "('a lwm2m) app_objects \<Rightarrow> lwm2m_uri_t \<Rightarrow> lwm2m_data_t \<Rightarrow> 'a lwm2m \<Rightarrow> ('a lwm2m \<times> u8) c" where
  "object_writeInstance A uri d ctx =
     (case find_object ctx (objectId uri) of
        None \<Rightarrow> Some (ctx, COAP_404_NOT_FOUND)
      | Some obj \<Rightarrow>
          (case writeFunc A (objectId uri) of
             None \<Rightarrow> Some (ctx, COAP_405_METHOD_NOT_ALLOWED)
           | Some put \<Rightarrow> do { cs \<leftarrow> children_of (data_value d);
                              Some (put ctx (data_id d) cs LWM2M_WRITE_REPLACE_INSTANCE) }))"

section \<open>Properties\<close>

lemma has_instance_iff: "sorted_ids id (instanceList obj) \<Longrightarrow> has_instance obj i \<longleftrightarrow> i \<in> set (instanceList obj)"
  by (auto simp: has_instance_def LWM2M_LIST_FIND_eq find_None_iff)

text \<open>The objects of a context: ascending identifiers, of the objects and of the instances of each.\<close>

definition objects_ok :: "'a lwm2m \<Rightarrow> bool" where
  "objects_ok ctx \<longleftrightarrow> sorted_ids objID (objectList ctx) \<and>
     (\<forall>obj\<in>set (objectList ctx). sorted_ids id (instanceList obj) \<and> length (instanceList obj) < 2 ^ 16)"

lemma find_object_ok:
  "objects_ok ctx \<Longrightarrow> find_object ctx oid = Some obj \<Longrightarrow>
   objID obj = oid \<and> sorted_ids id (instanceList obj) \<and> length (instanceList obj) < 2 ^ 16"
  using LWM2M_LIST_FIND_Some [of objID "objectList ctx" oid obj] by (auto simp: find_object_def objects_ok_def)

lemma new_id_unused:
  "objects_ok ctx \<Longrightarrow> find_object ctx oid = Some obj \<Longrightarrow> \<not> has_instance obj (LWM2M_LIST_NEW_ID id (instanceList obj))"
  using find_object_ok [of ctx oid obj] idl.new_id_free [of id "instanceList obj"]
  by (simp add: has_instance_def LWM2M_LIST_COUNT_def)

text \<open>A create request for an object never reaches the application with the identifier of an instance
  that exists: if the callback is replaced on the identifiers in use, nothing changes.\<close>

theorem create_uses_new_instance:
  assumes "objects_ok ctx" and "\<not> LWM2M_URI_IS_SET_INSTANCE uri" and "createFunc A (objectId uri) = Some new"
    and "\<forall>obj i c ds. find_object ctx (objectId uri) = Some obj \<and> \<not> has_instance obj i \<longrightarrow> new' c i ds = new c i ds"
  shows "object_create (A\<lparr>createFunc := (createFunc A)(objectId uri := Some new')\<rparr>) F P uri fmt payl ctx = object_create A F P uri fmt payl ctx"
proof (cases "find_object ctx (objectId uri)")
  case None
  then show ?thesis by (simp add: object_create_def split: option.split)
next
  case (Some obj)
  note unused = new_id_unused [OF assms(1) Some]
  have same: "\<not> has_instance obj i \<Longrightarrow> new' c i ds = new c i ds" for i c ds using assms(4) Some by blast
  show ?thesis
    using Some assms(2,3) same unused
    by (auto simp: object_create_def Let_def split: option.split prod.split intro!: Option.bind_cong [OF refl])
qed

text \<open>After an instance has been deleted for a server, no observation of the instance or of anything below
  it is left, and the other observations are as the application left them.\<close>

theorem delete_clears_observations:
  assumes "find_object ctx (objectId uri) = Some obj" and "deleteFunc A (objectId uri) = Some del" and "LWM2M_URI_IS_SET_INSTANCE uri"
    and "del ctx (instanceId uri) = (cx, COAP_202_DELETED)" and "observedList cx = Some obs"
  shows "\<exists>ctx2. object_delete A frees uri ctx = Some (ctx2, COAP_202_DELETED) \<and>
    observedList ctx2 = Some (filter (\<lambda>t. objectId (o_uri t) \<noteq> objectId uri \<or> instanceId (o_uri t) \<noteq> instanceId uri) obs)"
proof -
  have "(\<lambda>t. \<not> clear_matches uri t) = (\<lambda>t. objectId (o_uri t) \<noteq> objectId uri \<or> instanceId (o_uri t) \<noteq> instanceId uri)"
    using assms(3) by (auto simp: clear_matches_def fun_eq_iff)
  with observe_clear_filter [OF assms(5), of uri] assms(1-4) show ?thesis by (simp add: object_delete_def)
qed

text \<open>A delete callback that does what the library expects: it takes the instance out of the list of its object
  and leaves the observations alone.\<close>

definition removes_instance :: "u16 \<Rightarrow> ('a lwm2m \<Rightarrow> u16 \<Rightarrow> 'a lwm2m \<times> u8) \<Rightarrow> bool" where
  "removes_instance oid del \<longleftrightarrow>
     (\<forall>c obj i is. find_object c oid = Some obj \<and> instanceList obj = i # is \<longrightarrow>
        (\<exists>c' obj'. del c i = (c', COAP_202_DELETED) \<and> find_object c' oid = Some obj' \<and> instanceList obj' = is \<and>
           observedList c' = observedList c))"

lemma find_object_observed [simp]: "find_object (c\<lparr>observedList := z\<rparr>) oid = find_object c oid"
  by (simp add: find_object_def)

lemma delete_instances_ends:
  assumes "removes_instance (objectId uri) del"
  shows "find_object ctx (objectId uri) = Some obj \<Longrightarrow> observedList ctx = Some obs \<Longrightarrow>
    \<exists>ctx' obj'. delete_instances A False del uri ctx = Some (ctx', COAP_202_DELETED) \<and>
      find_object ctx' (objectId uri) = Some obj' \<and> instanceList obj' = [] \<and>
      observedList ctx' = Some (filter (\<lambda>t. \<forall>i\<in>set (instanceList obj). \<not> clear_matches (uri\<lparr>instanceId := i\<rparr>) t) obs)"
proof (induction "instanceList obj" arbitrary: ctx obj obs)
  case Nil
  then show ?case by (subst delete_instances.simps) simp
next
  case (Cons i "is")
  from Cons.hyps(2) [symmetric] Cons.prems(1) assms obtain c' obj' where
    c': "del ctx i = (c', COAP_202_DELETED)" "find_object c' (objectId uri) = Some obj'" "instanceList obj' = is"
    "observedList c' = observedList ctx"
    unfolding removes_instance_def by blast
  define c2 where "c2 = c'\<lparr>observedList := Some (filter (\<lambda>t. \<not> clear_matches (uri\<lparr>instanceId := i\<rparr>) t) obs)\<rparr>"
  have "observe_clear (uri\<lparr>instanceId := i\<rparr>) c' = Some c2"
    unfolding c2_def using c'(4) Cons.prems(2) by (intro observe_clear_filter) simp
  then have step: "delete_instances A False del uri ctx = delete_instances A False del uri c2"
    using Cons.prems(1) Cons.hyps(2) [symmetric] c' by (subst delete_instances.simps) simp
  have "find_object c2 (objectId uri) = Some obj'" "observedList c2 = Some (filter (\<lambda>t. \<not> clear_matches (uri\<lparr>instanceId := i\<rparr>) t) obs)"
    using c'(2) by (simp_all add: c2_def)
  from Cons.hyps(1) [OF c'(3) [symmetric] this] show ?case
    unfolding step using Cons.hyps(2) [symmetric] c'(3) by (simp add: conj_commute)
qed


text \<open>When a delete callback releases the instance it removes, as the objects of the example client do, the
  deletion of all instances of an object reads the released list node.\<close>

theorem delete_all_reads_freed_node:
  assumes "find_object ctx (objectId uri) = Some obj" and "deleteFunc A (objectId uri) = Some del"
    and "\<not> LWM2M_URI_IS_SET_INSTANCE uri" and "removes_instance (objectId uri) del" and "objects_ok ctx" and "instanceList obj \<noteq> []"
  shows "object_delete A True uri ctx = None"
proof -
  obtain i "is" where i: "instanceList obj = i # is" using assms(6) by (cases "instanceList obj") auto
  then obtain c' obj' where c': "del ctx i = (c', COAP_202_DELETED)" "find_object c' (objectId uri) = Some obj'" "instanceList obj' = is"
    using assms(1,4) unfolding removes_instance_def by blast
  have "sorted_ids id (i # is)" using find_object_ok [OF assms(5,1)] i by simp
  then have "\<not> has_instance obj' i" using c'(3) by (subst has_instance_iff) auto
  then show ?thesis using assms(1-3) i c' by (subst object_delete_def, simp) (subst delete_instances.simps, simp)
qed

section \<open>An example application\<close>

text \<open>A client with the object 3, its instances 0 and 1, and an observation of /3/1/9.\<close>

definition change_instances :: "u16 \<Rightarrow> (u16 list \<Rightarrow> u16 list) \<Rightarrow> 'a lwm2m \<Rightarrow> 'a lwm2m" where
  "change_instances oid f c =
     c\<lparr>objectList := map (\<lambda>b. if objID b = oid then b\<lparr>instanceList := f (instanceList b)\<rparr> else b) (objectList c)\<rparr>"

definition example_app :: "('a lwm2m) app_objects" where
  "example_app = \<lparr>
     readFunc = (\<lambda>oid. Some (\<lambda>c i ds. (c, if ds = [] then [Data LWM2M_TYPE_INTEGER 9 (asInteger 80)]
        else map (\<lambda>d. if data_type d = LWM2M_TYPE_UNDEFINED then Data LWM2M_TYPE_INTEGER (data_id d) (asInteger 80) else d) ds, COAP_205_CONTENT))),
     writeFunc = (\<lambda>oid. Some (\<lambda>c i ds t. (c, COAP_204_CHANGED))),
     executeFunc = (\<lambda>oid. Some (\<lambda>c i r b. (c, COAP_204_CHANGED))),
     createFunc = (\<lambda>oid. Some (\<lambda>c i ds. (change_instances oid (\<lambda>is. LWM2M_LIST_ADD id is i) c, COAP_201_CREATED))),
     deleteFunc = (\<lambda>oid. Some (\<lambda>c i. (change_instances oid (remove1 i) c, COAP_202_DELETED))),
     discoverFunc = (\<lambda>oid. Some (\<lambda>c i ds. (c, if ds = [] then [Data LWM2M_TYPE_INTEGER 9 asZero] else ds, COAP_205_CONTENT)))\<rparr>"

definition example_lwm2m :: lwm2m_context_t where
  "example_lwm2m = \<lparr>transactionList = [], nextMID = 8, sent = [], altPath = None, serverList = [example_server],
     bootstrapServerList = [], coap_block_size = 1024, coap_error_message = [], client_state = STATE_READY, endpointName = str ''dev'' @ [0],
     msisdn = None, objectList = [\<lparr>objID = 3, versionMajor = 0, versionMinor = 0, instanceList = [0, 1]\<rparr>],
     observedList = Some [\<lparr>o_uri = uri_of [3, 1, 9], o_watchers = [new_watcher 1]\<rparr>]\<rparr>"

definition lwm2m_platform :: "lwm2m_context_t platform" where
  "lwm2m_platform = \<lparr>mem_ok = (\<lambda>_. True), gettime = 100, session_is_equal = (=), buffer_send = (\<lambda>_ _. 0),
     callback_fn = (\<lambda>_ ctx _ _. ctx)\<rparr>"

lemma LIST_FIND_map:
  "(\<And>x. idf (f x) = idf x) \<Longrightarrow> LWM2M_LIST_FIND idf (map f xs) i = map_option f (LWM2M_LIST_FIND idf xs i)"
  by (induction xs) auto

lemma find_change_instances:
  "find_object c oid = Some obj \<Longrightarrow> find_object (change_instances oid f c) oid = Some (obj\<lparr>instanceList := f (instanceList obj)\<rparr>)"
  using LWM2M_LIST_FIND_Some [of objID "objectList c" oid obj]
  by (simp add: find_object_def change_instances_def LIST_FIND_map)

lemma example_removes: "removes_instance oid (\<lambda>c i. (change_instances oid (remove1 i) c, COAP_202_DELETED))"
  by (auto simp: removes_instance_def find_change_instances) (simp add: change_instances_def)

lemma example_objects:
  "find_object example_lwm2m 3 = Some \<lparr>objID = 3, versionMajor = 0, versionMinor = 0, instanceList = [0, 1]\<rparr>" "objects_ok example_lwm2m"
  by (simp_all add: find_object_def objects_ok_def example_lwm2m_def)

lemma uri_of_simps [simp]:
  "objectId (uri_of (a # ids)) = a" "instanceId (uri_of [a]) = LWM2M_MAX_ID" "instanceId (uri_of (a # b # ids)) = b"
  "resourceId (uri_of [a]) = LWM2M_MAX_ID" "resourceId (uri_of [a, b]) = LWM2M_MAX_ID" "resourceId (uri_of (a # b # c # ids)) = c"
  "resourceInstanceId (uri_of [a]) = LWM2M_MAX_ID" "resourceInstanceId (uri_of [a, b]) = LWM2M_MAX_ID"
  "resourceInstanceId (uri_of [a, b, c]) = LWM2M_MAX_ID" "resourceInstanceId (uri_of (a # b # c # d # ids)) = d"
  by (simp_all add: uri_of_def)

definition example_create :: "u16 \<Rightarrow> 'a lwm2m \<Rightarrow> u16 \<Rightarrow> lwm2m_data_t list \<Rightarrow> 'a lwm2m \<times> u8" where
  "example_create oid c i ds = (change_instances oid (\<lambda>is. LWM2M_LIST_ADD id is i) c, COAP_201_CREATED)"

lemma example_app_simps [simp]:
  "createFunc example_app oid = Some (example_create oid)"
  "deleteFunc example_app oid = Some (\<lambda>c i. (change_instances oid (remove1 i) c, COAP_202_DELETED))"
  by (simp_all add: example_app_def example_create_def fun_eq_iff)

theorem create_uses_new_instance_witness:
  "object_create (example_app\<lparr>createFunc := (createFunc example_app)(3 := Some (\<lambda>c i ds. if i < 2 then (c, COAP_500_INTERNAL_SERVER_ERROR)
        else example_create 3 c i ds))\<rparr>) plain_formats lwm2m_platform (uri_of [3]) LWM2M_CONTENT_TLV (Some [0xC1, 9, 80]) example_lwm2m =
   object_create example_app plain_formats lwm2m_platform (uri_of [3]) LWM2M_CONTENT_TLV (Some [0xC1, 9, 80]) example_lwm2m"
proof -
  have "i < 2 \<Longrightarrow> i \<in> set [0, 1]" for i :: u16 by (auto simp: word_less_nat_alt word_unat_eq_iff less_2_cases_iff)
  then have "i < 2 \<Longrightarrow> has_instance \<lparr>objID = 3, versionMajor = 0, versionMinor = 0, instanceList = [0, 1]\<rparr> i" for i
    by (subst has_instance_iff) auto
  then have "\<forall>obj i c ds. find_object example_lwm2m (objectId (uri_of [3])) = Some obj \<and> \<not> has_instance obj i \<longrightarrow>
      (if i < 2 then (c, COAP_500_INTERNAL_SERVER_ERROR) else example_create 3 c i ds) = example_create 3 c i ds"
    using example_objects(1) by auto
  from create_uses_new_instance [OF example_objects(2) _ _ this, of example_app plain_formats lwm2m_platform LWM2M_CONTENT_TLV "Some [0xC1, 9, 80]"]
  show ?thesis by (simp add: LWM2M_URI_IS_SET_INSTANCE_def)
qed

theorem delete_clears_observations_witness:
  "\<exists>ctx2. object_delete example_app False (uri_of [3, 1]) example_lwm2m = Some (ctx2, COAP_202_DELETED) \<and> observedList ctx2 = Some []"
proof -
  let ?t = "\<lparr>o_uri = uri_of [3, 1, 9], o_watchers = [new_watcher 1]\<rparr>"
  have "\<exists>ctx2. object_delete example_app False (uri_of [3, 1]) example_lwm2m = Some (ctx2, COAP_202_DELETED) \<and>
      observedList ctx2 = Some (filter (\<lambda>t. objectId (o_uri t) \<noteq> objectId (uri_of [3, 1]) \<or> instanceId (o_uri t) \<noteq> instanceId (uri_of [3, 1])) [?t])"
    by (rule delete_clears_observations [where cx = "change_instances 3 (remove1 1) example_lwm2m"])
       (simp_all add: example_objects(1) LWM2M_URI_IS_SET_INSTANCE_def LWM2M_MAX_ID_def, simp add: change_instances_def example_lwm2m_def)
  then show ?thesis by simp
qed


theorem delete_all_reads_freed_node_witness:
  "object_delete example_app True (uri_of [3]) example_lwm2m = None"
  by (rule delete_all_reads_freed_node)
     (use example_objects example_removes [of 3] in \<open>auto simp: LWM2M_URI_IS_SET_INSTANCE_def\<close>)

end
