(* ===== verification/Register_Payload.thy ===== *)
theory Register_Payload
  imports Objects
begin

text \<open>
  The payload of a registration, \<open>object_getRegisterPayloadBufferLength\<close> and
  \<open>object_getRegisterPayload\<close> of \<^verbatim>\<open>core/objects.c\<close>: the size of the buffer is computed first, then the
  objects and their instances are printed in link format.

  The buffer is the list of the bytes in front of \<open>index\<close>, as in the theory of Discover; an inner
  \<open>None\<close> is the result 0.  \<open>utils_stringCopy\<close> truncates silently.  Strings of the context carry
  their terminating zero.
\<close>

definition REG_OBJECT_MIN_LEN :: nat where "REG_OBJECT_MIN_LEN = 5"
definition REG_LWM2M_RESOURCE_TYPE :: bytes where
  "REG_LWM2M_RESOURCE_TYPE = str ''>;rt='' @ [34] @ str ''oma.lwm2m'' @ [34] @ str '';ct=112,''"

section \<open>Printing\<close>

definition copy_str :: "nat \<Rightarrow> bytes \<Rightarrow> bytes \<Rightarrow> bytes c" where
  "copy_str cap s out =
     do { (b, n) \<leftarrow> utils_stringCopy (replicate (cap - length out) 0) s;
          b \<leftarrow> b; t \<leftarrow> rd_range b 0 n; Some (out @ t) }"

definition put_uint :: "nat \<Rightarrow> u8 \<Rightarrow> bytes \<Rightarrow> bytes c" where
  "put_uint cap v out =
     do { (b, n) \<leftarrow> utils_uintToText (ucast v) (replicate (cap - length out) 0);
          t \<leftarrow> rd_range b 0 n; Some (out @ t) }"

definition put_char :: "nat \<Rightarrow> u8 \<Rightarrow> bytes \<Rightarrow> bytes option c" where
  "put_char cap x out = Some (if length out \<ge> cap then None else Some (out @ [x]))"

text \<open>The start of the links of an object, \<^verbatim>\<open></id/\<close>, in the given number of bytes.\<close>

definition prv_getObjectTemplate :: "nat \<Rightarrow> u16 \<Rightarrow> bytes option c" where
  "prv_getObjectTemplate len i =
     (if len < REG_OBJECT_MIN_LEN then Some None
      else do { (b, res) \<leftarrow> utils_intToText (ucast i) (replicate (len - 2) 0);
                if res = 0 then Some None
                else if len - (2 + res) < REG_OBJECT_MIN_LEN - 3 then Some None
                else do { t \<leftarrow> rd_range b 0 res; Some (Some (str ''</'' @ t @ str ''/'')) } })"

definition has_version :: "lwm2m_object_t \<Rightarrow> bool" where
  "has_version obj \<longleftrightarrow> versionMajor obj \<noteq> 0 \<or> versionMinor obj \<noteq> 0"

section \<open>The length of the buffer\<close>

definition text_len :: "(bytes \<times> nat) c \<Rightarrow> nat c" where
  "text_len r = do { (_, n) \<leftarrow> r; Some n }"

fun length_instances :: "nat \<Rightarrow> nat \<Rightarrow> u16 list \<Rightarrow> nat \<Rightarrow> nat option c" where
  "length_instances start len [] index = Some (Some index)"
| "length_instances start len (i # is) index =
     do { let index = (if index \<noteq> start + len then index + len else index);
          n \<leftarrow> text_len (utils_intToText (ucast i) (replicate (REG_OBJECT_MIN_LEN + 5) 0));
          if n = 0 then Some None else length_instances start len is (index + n + 2) }"

definition length_object :: "lwm2m_object_t \<Rightarrow> nat \<Rightarrow> nat option c" where
  "length_object obj index =
     (if objID obj = LWM2M_SECURITY_OBJECT_ID \<or> objID obj = LWM2M_OSCORE_OBJECT_ID then Some (Some index)
      else or_fail (prv_getObjectTemplate (REG_OBJECT_MIN_LEN + 5) (objID obj)) (\<lambda>t.
        let len = length t in
        if has_version obj
        then do { major \<leftarrow> text_len (utils_uintToText (ucast (versionMajor obj)) (replicate (REG_OBJECT_MIN_LEN + 5) 0));
                  minor \<leftarrow> text_len (utils_uintToText (ucast (versionMinor obj)) (replicate (REG_OBJECT_MIN_LEN + 5) 0));
                  let index' = index + len - 1 + 6 + major + 1 + minor + 1;
                  if instanceList obj \<noteq> [] then length_instances index' len (instanceList obj) (index' + len)
                  else Some (Some index') }
        else if instanceList obj = [] then Some (Some (index + len - 1 + 2))
        else length_instances index len (instanceList obj) (index + len)))"

fun length_objects :: "lwm2m_object_t list \<Rightarrow> nat \<Rightarrow> nat option c" where
  "length_objects [] index = Some (Some index)"
| "length_objects (obj # objs) index = or_fail (length_object obj index) (length_objects objs)"

text \<open>The path of the registration: the alternative path when it is not empty.\<close>

definition reg_path :: "'a lwm2m \<Rightarrow> bytes c" where
  "reg_path ctx =
     (case altPath ctx of
        None \<Rightarrow> Some (str ''/'' @ [0])
      | Some p \<Rightarrow> do { b \<leftarrow> rd p 0; Some (if b \<noteq> 0 then p else str ''/'' @ [0]) })"

definition object_getRegisterPayloadBufferLength :: "'a lwm2m \<Rightarrow> nat c" where
  "object_getRegisterPayloadBufferLength ctx =
     do { p \<leftarrow> reg_path ctx;
          n \<leftarrow> strlen p;
          r \<leftarrow> length_objects (objectList ctx) (1 + n + length REG_LWM2M_RESOURCE_TYPE);
          Some (case r of None \<Rightarrow> 0 | Some index \<Rightarrow> index + 1) }"

section \<open>The payload\<close>

fun payload_instances :: "nat \<Rightarrow> nat \<Rightarrow> nat \<Rightarrow> u16 list \<Rightarrow> bytes \<Rightarrow> bytes option c" where
  "payload_instances cap start len [] out = Some (Some out)"
| "payload_instances cap start len (i # is) out =
     or_fail (if length out \<noteq> start + len
              then Some (if cap - length out \<le> len then None else Some (out @ take len (drop start out)))
              else Some (Some out)) (\<lambda>out.
     or_fail (put_int cap (ucast i) out) (\<lambda>out.
     do { out \<leftarrow> copy_str cap (str ''>,'' @ [0]) out; payload_instances cap start len is out }))"

definition payload_object :: "nat \<Rightarrow> lwm2m_object_t \<Rightarrow> bytes \<Rightarrow> bytes option c" where
  "payload_object cap obj out =
     (if objID obj = LWM2M_SECURITY_OBJECT_ID then Some (Some out)
      else or_fail (prv_getObjectTemplate (cap - length out) (objID obj)) (\<lambda>t.
        if has_version obj
        then do { v \<leftarrow> copy_str cap (str ''>;ver='' @ [0]) (out @ butlast t);
                  v \<leftarrow> put_uint cap (versionMajor obj) v;
                  or_fail (put_char cap (chr CHR ''.'') v) (\<lambda>v.
                  do { v \<leftarrow> put_uint cap (versionMinor obj) v;
                       or_fail (put_char cap (chr CHR '','') v) (\<lambda>v.
                         if instanceList obj \<noteq> []
                         then or_fail (prv_getObjectTemplate (cap - length v) (objID obj)) (\<lambda>t.
                                payload_instances cap (length v) (length t) (instanceList obj) (v @ t))
                         else Some (Some v)) }) }
        else if instanceList obj = []
        then do { v \<leftarrow> copy_str cap (str ''>,'' @ [0]) (out @ butlast t); Some (Some v) }
        else payload_instances cap (length out) (length t) (instanceList obj) (out @ t)))"

fun payload_objects :: "nat \<Rightarrow> lwm2m_object_t list \<Rightarrow> bytes \<Rightarrow> bytes option c" where
  "payload_objects cap [] out = Some (Some out)"
| "payload_objects cap (obj # objs) out = or_fail (payload_object cap obj out) (payload_objects cap objs)"

text \<open>The payload; its length is the returned number, 0 when it does not fit.\<close>

definition object_getRegisterPayload :: "nat \<Rightarrow> 'a lwm2m \<Rightarrow> bytes c" where
  "object_getRegisterPayload cap ctx =
     do { out \<leftarrow> copy_str cap (str ''<'' @ [0]) [];
          p \<leftarrow> reg_path ctx;
          out \<leftarrow> copy_str cap p out;
          out \<leftarrow> copy_str cap (REG_LWM2M_RESOURCE_TYPE @ [0]) out;
          r \<leftarrow> payload_objects cap (objectList ctx) out;
          (case r of
             None \<Rightarrow> Some []
           | Some out \<Rightarrow>
               let index = (if length out > 0 then length out - 1 else 0) in
               if index < cap then Some (take index out) else None) }"

section \<open>What is printed\<close>

definition object_template :: "u16 \<Rightarrow> bytes" where
  "object_template i = str ''</'' @ dec_text (unat i) @ str ''/''"

definition version_link :: "lwm2m_object_t \<Rightarrow> bytes" where
  "version_link obj = str ''</'' @ dec_text (unat (objID obj)) @ str ''>;ver='' @ dec_text (unat (versionMajor obj)) @ str ''.'' @
     dec_text (unat (versionMinor obj)) @ str '',''"

definition object_text :: "lwm2m_object_t \<Rightarrow> bytes" where
  "object_text obj =
     (if has_version obj then version_link obj else if instanceList obj = [] then link_text [objID obj] else []) @
     concat (map (\<lambda>i. link_text [objID obj, i]) (instanceList obj))"

lemma str_append: "str (a @ b) = str a @ str b" by (simp add: str_def)

lemma link_text_template:
  "link_text [i, j] = object_template i @ dec_text (unat j) @ str ''>,''" "link_text [i] = butlast (object_template i) @ str ''>,''"
  by (simp_all add: link_text_def object_template_def str_def)

lemma copy_str_eq:
  assumes "0 \<notin> set t" and "length out + length t < cap"
  shows "copy_str cap (t @ [0]) out = Some (out @ t)"
proof -
  have tw: "takeWhile (\<lambda>x. x \<noteq> 0) (t @ [0]) = t" using assms(1) by (induction t) auto
  have "c_readable (t @ [0]) (length t)" by (simp add: c_readable_def)
  moreover have "replicate (cap - length out) (0 :: u8) \<noteq> []" using assms(2) by simp
  moreover have "t = takeWhile (\<lambda>x. x \<noteq> 0) (take (length t) (t @ [0]))" using assms(1) by simp (induction t; auto)
  ultimately obtain d where d: "utils_strncpy (Some (replicate (cap - length out) 0)) (Some (t @ [0])) (length t) =
      Some (Some d, min (length t) (cap - length out - 1))" "length d = cap - length out"
    "take (min (length t) (cap - length out - 1)) d = take (cap - length out - 1) t"
    using strncpy_content [of "t @ [0]" "length t" "replicate (cap - length out) 0" t] by auto
  have m: "min (length t) (cap - length out - 1) = length t" "take (cap - length out - 1) t = t" using assms(2) by auto
  have "strlen (t @ [0]) = Some (length t)" using tw by (simp add: strlen_def)
  then show ?thesis using d m assms(2) by (simp add: copy_str_def utils_stringCopy_def)
qed

lemma template_eq:
  assumes "length (object_template i) < len"
  shows "prv_getObjectTemplate len i = Some (Some (object_template i))"
proof -
  have l: "length (dec_text (unat i)) + 4 \<le> len" using assms by (simp add: object_template_def)
  have "dec_text (unat i) \<noteq> []" by simp
  then have l5: "5 \<le> len" using l by (cases "dec_text (unat i)") auto
  have "put_int (len - 2) (ucast i) [] = Some (Some (dec_text (unat i)))" using put_int_eq [of "[]" i "len - 2"] l by simp
  then obtain b n where n: "utils_intToText (ucast i) (replicate (len - 2) 0) = Some (b, n)" "n \<le> length b" "take n b = dec_text (unat i)"
    by (auto simp: put_int_def put_printed_def bind_eq_Some_conv rd_range_def split: if_splits)
  then have "n = length (dec_text (unat i))" by (metis length_take min.absorb2)
  then have b: "utils_intToText (ucast i) (replicate (len - 2) 0) = Some (b, length (dec_text (unat i)))"
    "rd_range b 0 (length (dec_text (unat i))) = Some (dec_text (unat i))"
    using n by (simp_all add: rd_range_def)
  show ?thesis using b l l5 by (simp add: prv_getObjectTemplate_def REG_OBJECT_MIN_LEN_def object_template_def)
qed

lemma put_uint_eq:
  assumes "length out + length (dec_text (unat v)) \<le> cap"
  shows "put_uint cap v out = Some (out @ dec_text (unat v))"
proof -
  have "unat (ucast v :: u64) = unat v" by (simp add: unat_ucast_up)
  then show ?thesis
    using utils_uintToText_fits [of "ucast v" "replicate (cap - length out) 0"] assms
    by (auto simp: put_uint_def le_diff_conv2 add.commute)
qed

lemma str_nonzero: "0 \<notin> set (str ''>,'')" "0 \<notin> set (str ''>;ver='')" "0 \<notin> set REG_LWM2M_RESOURCE_TYPE" "0 \<notin> set (str ''<'')"
  by (simp_all add: str_def chr_def REG_LWM2M_RESOURCE_TYPE_def)

lemma payload_instance_end:
  fixes i :: u16
  assumes "length out + length (dec_text (unat i)) + 2 < cap"
  shows "or_fail (put_int cap (ucast i) out) (\<lambda>out. do { out \<leftarrow> copy_str cap (str ''>,'' @ [0]) out; f out }) =
    f (out @ dec_text (unat i) @ str ''>,'')"
  using assms put_int_eq [of out i cap] copy_str_eq [OF str_nonzero(1), of "out @ dec_text (unat i)" cap] by simp

lemma payload_instances_rest:
  assumes "take (length (object_template oid)) (drop start out) = object_template oid" and "start + length (object_template oid) < length out"
    and "length out + length (concat (map (\<lambda>i. link_text [oid, i]) is)) < cap"
  shows "payload_instances cap start (length (object_template oid)) is out = Some (Some (out @ concat (map (\<lambda>i. link_text [oid, i]) is)))"
  using assms
proof (induction "is" arbitrary: out)
  case (Cons i "is")
  let ?t = "object_template oid"
  have "length out + (length ?t + (length (dec_text (unat i)) + 2)) + length (concat (map (\<lambda>i. link_text [oid, i]) is)) < cap"
    using Cons.prems(3) by (simp add: link_text_template)
  then have c: "length out + length ?t < cap" "length (out @ ?t) + length (dec_text (unat i)) + 2 < cap"
    "length (out @ link_text [oid, i]) + length (concat (map (\<lambda>i. link_text [oid, i]) is)) < cap"
    by (simp_all add: link_text_template)
  have "payload_instances cap start (length ?t) is (out @ link_text [oid, i]) =
      Some (Some ((out @ link_text [oid, i]) @ concat (map (\<lambda>i. link_text [oid, i]) is)))"
    using Cons.prems(1,2) c(3) by (intro Cons.IH) simp_all
  then show ?case
    using Cons.prems(1,2) c(1) payload_instance_end [OF c(2), of "payload_instances cap start (length ?t) is"]
    by (simp add: link_text_template)
qed simp

lemma payload_instances_all:
  assumes "is \<noteq> []" and "length out + length (concat (map (\<lambda>i. link_text [oid, i]) is)) < cap"
  shows "payload_instances cap (length out) (length (object_template oid)) is (out @ object_template oid) =
    Some (Some (out @ concat (map (\<lambda>i. link_text [oid, i]) is)))"
proof -
  let ?t = "object_template oid"
  obtain i js where i: "is = i # js" using assms(1) by (cases "is") auto
  then have c: "length (out @ ?t) + length (dec_text (unat i)) + 2 < cap"
    "length (out @ link_text [oid, i]) + length (concat (map (\<lambda>i. link_text [oid, i]) js)) < cap"
    using assms(2) by (simp_all add: link_text_template)
  have "payload_instances cap (length out) (length ?t) js (out @ link_text [oid, i]) =
      Some (Some ((out @ link_text [oid, i]) @ concat (map (\<lambda>i. link_text [oid, i]) js)))"
    using c(2) by (intro payload_instances_rest) (simp_all add: link_text_template)
  then show ?thesis
    using i payload_instance_end [OF c(1), of "payload_instances cap (length out) (length ?t) js"] by (simp add: link_text_template)
qed


lemma version_link_template:
  "version_link obj = butlast (object_template (objID obj)) @ str ''>;ver='' @ dec_text (unat (versionMajor obj)) @ [chr CHR ''.''] @
     dec_text (unat (versionMinor obj)) @ [chr CHR '','']"
  by (simp add: version_link_def object_template_def str_def)

lemma payload_version:
  assumes "length out + length (version_link obj) < cap"
  shows "do { v \<leftarrow> copy_str cap (str ''>;ver='' @ [0]) (out @ butlast (object_template (objID obj)));
              v \<leftarrow> put_uint cap (versionMajor obj) v;
              or_fail (put_char cap (chr CHR ''.'') v) (\<lambda>v.
                do { v \<leftarrow> put_uint cap (versionMinor obj) v; or_fail (put_char cap (chr CHR '','') v) f }) } =
    f (out @ version_link obj)"
proof -
  have l: "length out + (length (butlast (object_template (objID obj))) + (length (str ''>;ver='') + (length (dec_text (unat (versionMajor obj))) +
      (length (dec_text (unat (versionMinor obj))) + 2)))) < cap"
    using assms by (simp add: version_link_template)
  then show ?thesis by (simp add: copy_str_eq str_nonzero put_uint_eq put_char_def version_link_template)
qed

lemma payload_object_eq:
  assumes "objID obj \<noteq> LWM2M_SECURITY_OBJECT_ID" and "length out + length (object_text obj) < cap"
  shows "payload_object cap obj out = Some (Some (out @ object_text obj))"
proof -
  let ?is = "concat (map (\<lambda>i. link_text [objID obj, i]) (instanceList obj))"
  have t: "length (butlast (object_template (objID obj))) = length (object_template (objID obj)) - 1"
    "0 < length (object_template (objID obj))"
    by (simp_all add: object_template_def)
  have "length (object_template (objID obj)) < length (link_text [objID obj])" using t by (simp add: link_text_template str_def)
  moreover have "length (object_template (objID obj)) < length (version_link obj)" using t by (simp add: version_link_template str_def)
  moreover have "length (object_template (objID obj)) < length ?is" if "instanceList obj \<noteq> []"
    using that by (cases "instanceList obj") (simp_all add: link_text_template str_def)
  ultimately consider (version) "has_version obj" "length (object_template (objID obj)) < cap - length out"
      "length (out @ version_link obj) + length ?is < cap"
      "instanceList obj \<noteq> [] \<Longrightarrow> length (object_template (objID obj)) < cap - length (out @ version_link obj)"
    | (empty) "\<not> has_version obj" "instanceList obj = []" "length (object_template (objID obj)) < cap - length out"
      "length (out @ butlast (object_template (objID obj))) + length (str ''>,'') < cap"
    | (instances) "\<not> has_version obj" "instanceList obj \<noteq> []" "length (object_template (objID obj)) < cap - length out"
      "length out + length ?is < cap"
    using assms(2) by (fastforce simp: object_text_def link_text_template split: if_splits)
  then show ?thesis
  proof cases
    case version
    then show ?thesis
      using assms(1) payload_instances_all [of "instanceList obj" "out @ version_link obj" "objID obj" cap]
      by (simp add: payload_object_def template_eq payload_version object_text_def)
  next
    case empty
    then show ?thesis
      using assms(1) by (simp add: payload_object_def template_eq copy_str_eq str_nonzero object_text_def link_text_template)
  next
    case instances
    then show ?thesis
      using assms(1) payload_instances_all [of "instanceList obj" out "objID obj" cap]
      by (simp add: payload_object_def template_eq object_text_def)
  qed
qed

definition listed_objects :: "'a lwm2m \<Rightarrow> bytes" where
  "listed_objects ctx = concat (map object_text (filter (\<lambda>obj. objID obj \<noteq> LWM2M_SECURITY_OBJECT_ID) (objectList ctx)))"

lemma payload_objects_eq:
  "length out + length (concat (map object_text (filter (\<lambda>obj. objID obj \<noteq> LWM2M_SECURITY_OBJECT_ID) objs))) < cap \<Longrightarrow>
   payload_objects cap objs out =
     Some (Some (out @ concat (map object_text (filter (\<lambda>obj. objID obj \<noteq> LWM2M_SECURITY_OBJECT_ID) objs))))"
proof (induction objs arbitrary: out)
  case (Cons obj objs)
  then show ?case
    by (cases "objID obj = LWM2M_SECURITY_OBJECT_ID") (simp_all add: payload_object_eq, simp add: payload_object_def)
qed simp

section \<open>What is counted\<close>

lemma text_len_int: "text_len (utils_intToText (ucast (i :: u16)) (replicate (REG_OBJECT_MIN_LEN + 5) 0)) = Some (length (dec_text (unat i)))"
  using utils_intToText_id [of i "replicate (REG_OBJECT_MIN_LEN + 5) 0"] dec_text_u16_length [of i]
  by (auto simp: text_len_def REG_OBJECT_MIN_LEN_def)

lemma text_len_uint: "text_len (utils_uintToText (ucast (v :: u8)) (replicate (REG_OBJECT_MIN_LEN + 5) 0)) = Some (length (dec_text (unat v)))"
proof -
  have "unat v < 10 ^ 3" using unsigned_less [of v, where ?'a = nat] by simp
  then have "length (dec_text (unat v)) \<le> 3" by (rule dec_text_length_less) simp
  moreover have "unat (ucast v :: u64) = unat v" by (simp add: unat_ucast_up)
  ultimately show ?thesis
    using utils_uintToText_fits [of "ucast v" "replicate (REG_OBJECT_MIN_LEN + 5) 0"] by (auto simp: text_len_def REG_OBJECT_MIN_LEN_def)
qed

lemma length_instances_eq:
  assumes "start + length (object_template oid) < index"
  shows "length_instances start (length (object_template oid)) is index =
    Some (Some (index + length (concat (map (\<lambda>i. link_text [oid, i]) is))))"
  using assms
  by (induction "is" arbitrary: index) (simp_all add: text_len_int link_text_template str_def)

lemma length_instances_all:
  assumes "is \<noteq> []" and "len = length (object_template oid)" and "index' = index + len"
    and "r = index + length (concat (map (\<lambda>i. link_text [oid, i]) is))"
  shows "length_instances index len is index' = Some (Some r)"
  using assms by (cases "is") (simp_all add: text_len_int length_instances_eq link_text_template str_def)

lemma length_object_eq:
  assumes "objID obj \<noteq> LWM2M_SECURITY_OBJECT_ID" and "objID obj \<noteq> LWM2M_OSCORE_OBJECT_ID"
  shows "length_object obj index = Some (Some (index + length (object_text obj)))"
proof -
  have t: "prv_getObjectTemplate (REG_OBJECT_MIN_LEN + 5) (objID obj) = Some (Some (object_template (objID obj)))"
    using dec_text_u16_length [of "objID obj"] by (intro template_eq) (simp add: object_template_def REG_OBJECT_MIN_LEN_def str_def)
  have l: "length (object_template (objID obj)) = length (dec_text (unat (objID obj))) + 3" by (simp add: object_template_def str_def)
  have v: "length (version_link obj) = length (dec_text (unat (objID obj))) + 10 + length (dec_text (unat (versionMajor obj))) +
      length (dec_text (unat (versionMinor obj)))"
    by (simp add: version_link_def str_def)
  show ?thesis
  proof (cases "instanceList obj = []")
    case True
    then show ?thesis
      using assms t by (simp add: length_object_def text_len_uint object_text_def l v link_text_def str_def)
  next
    case False
    then show ?thesis
      using assms t by (auto simp: length_object_def text_len_uint object_text_def l v Let_def intro!: length_instances_all)
  qed
qed


lemma length_objects_eq:
  "LWM2M_OSCORE_OBJECT_ID \<notin> objID ` set objs \<Longrightarrow>
   length_objects objs index =
     Some (Some (index + length (concat (map object_text (filter (\<lambda>obj. objID obj \<noteq> LWM2M_SECURITY_OBJECT_ID) objs)))))"
proof (induction objs arbitrary: index)
  case (Cons obj objs)
  then have "objID obj \<noteq> LWM2M_OSCORE_OBJECT_ID" by auto
  with Cons show ?case
    by (cases "objID obj = LWM2M_SECURITY_OBJECT_ID") (simp_all add: length_object_eq, simp add: length_object_def)
qed simp

definition register_text :: "bytes \<Rightarrow> 'a lwm2m \<Rightarrow> bytes" where
  "register_text path ctx = str ''<'' @ path @ REG_LWM2M_RESOURCE_TYPE @ listed_objects ctx"

lemma register_length_eq:
  assumes "reg_path ctx = Some (path @ [0])" and "0 \<notin> set path" and "LWM2M_OSCORE_OBJECT_ID \<notin> objID ` set (objectList ctx)"
  shows "object_getRegisterPayloadBufferLength ctx = Some (length (register_text path ctx) + 1)"
proof -
  have "takeWhile (\<lambda>x. x \<noteq> 0) (path @ [0]) = path" using assms(2) by (induction path) auto
  then have "strlen (path @ [0]) = Some (length path)" by (simp add: strlen_def)
  then show ?thesis
    using assms by (simp add: object_getRegisterPayloadBufferLength_def length_objects_eq register_text_def listed_objects_def str_def)
qed

lemma register_payload_eq:
  assumes "reg_path ctx = Some (path @ [0])" and "0 \<notin> set path" and "length (register_text path ctx) < cap"
  shows "object_getRegisterPayload cap ctx = Some (butlast (register_text path ctx))"
proof -
  have c: "length ([] :: bytes) + length (str ''<'') < cap" "length (str ''<'') + length path < cap"
    "length (str ''<'' @ path) + length REG_LWM2M_RESOURCE_TYPE < cap"
    "length (str ''<'' @ path @ REG_LWM2M_RESOURCE_TYPE) + length (listed_objects ctx) < cap"
    using assms(3) by (simp_all add: register_text_def)
  have p: "payload_objects cap (objectList ctx) (str ''<'' @ path @ REG_LWM2M_RESOURCE_TYPE) = Some (Some (register_text path ctx))"
    using payload_objects_eq [OF c(4) [unfolded listed_objects_def]] by (simp add: register_text_def listed_objects_def)
  have "object_getRegisterPayload cap ctx = do { r \<leftarrow> Some (Some (register_text path ctx));
      (case r of None \<Rightarrow> Some [] | Some out \<Rightarrow>
         let index = (if length out > 0 then length out - 1 else 0) in if index < cap then Some (take index out) else None) }"
    using assms(1) copy_str_eq [OF str_nonzero(4) c(1)] copy_str_eq [OF assms(2) c(2)] copy_str_eq [OF str_nonzero(3) c(3)] p
    by (simp add: object_getRegisterPayload_def)
  then show ?thesis using assms(3) by (simp add: butlast_conv_take less_imp_diff_less)
qed



definition payload_client :: lwm2m_context_t where
  "payload_client = example_lwm2m\<lparr>objectList := [\<lparr>objID = 1, versionMajor = 1, versionMinor = 1, instanceList = [0]\<rparr>,
     \<lparr>objID = 3, versionMajor = 0, versionMinor = 0, instanceList = [0, 1]\<rparr>]\<rparr>"

lemma payload_client_path: "reg_path payload_client = Some (str ''/'' @ [0])" "0 \<notin> set (str ''/'')"
  by (simp_all add: reg_path_def payload_client_def example_lwm2m_def str_def chr_def)



text \<open>the OSCORE object (21) is left out when the size of the buffer is computed and printed when the
payload is: with a single instance of it, the payload does not fit and is empty.\<close>

theorem register_oscore_too_small:
  "object_getRegisterPayloadBufferLength (payload_client\<lparr>objectList := [\<lparr>objID = 21, versionMajor = 0, versionMinor = 0, instanceList = [0]\<rparr>]\<rparr>) =
     Some 27 \<and>
   object_getRegisterPayload 27 (payload_client\<lparr>objectList := [\<lparr>objID = 21, versionMajor = 0, versionMinor = 0, instanceList = [0]\<rparr>]\<rparr>) =
     Some []"
proof -
  have "takeWhile (\<lambda>x. x \<noteq> 0) (str ''/'' @ [0]) = str ''/''" by (simp add: str_def chr_def)
  then have p: "strlen (str ''/'' @ [0]) = Some 1" by (simp add: strlen_def str_def)
  have c: "copy_str 27 (str ''<'' @ [0]) [] = Some (str ''<'')" "copy_str 27 (str ''/'' @ [0]) (str ''<'') = Some (str ''</'')"
    "copy_str 27 (REG_LWM2M_RESOURCE_TYPE @ [0]) (str ''</'') = Some (str ''</'' @ REG_LWM2M_RESOURCE_TYPE)"
    using copy_str_eq [OF str_nonzero(4), of "[]" 27] copy_str_eq [OF payload_client_path(2), of "str ''<''" 27]
      copy_str_eq [OF str_nonzero(3), of "str ''</''" 27]
    by (simp_all add: str_def REG_LWM2M_RESOURCE_TYPE_def)
  have "prv_getObjectTemplate (27 - length (str ''</'' @ REG_LWM2M_RESOURCE_TYPE)) 21 = Some None"
    by (simp add: prv_getObjectTemplate_def REG_OBJECT_MIN_LEN_def REG_LWM2M_RESOURCE_TYPE_def str_def)
  then show ?thesis
    using p c by (simp add: object_getRegisterPayload_def object_getRegisterPayloadBufferLength_def reg_path_def payload_client_def example_lwm2m_def
      length_object_def payload_object_def LWM2M_SECURITY_OBJECT_ID_def LWM2M_OSCORE_OBJECT_ID_def REG_LWM2M_RESOURCE_TYPE_def str_def)
qed

end
