(* ===== verification/Observe.thy ===== *)
theory Observe
  imports Register_Payload
begin

text \<open>
  Observing: requests to observe or to stop observing, the parameters of an observation, and the
  periodic step that decides which watchers are notified, \<open>observe_handleRequest\<close>,
  \<open>observe_setParameters\<close> and \<open>observe_step\<close> of \<^verbatim>\<open>core/observe.c\<close>.

  Comparisons with the thresholds are those of IEEE numbers on bit patterns.  The traversal of
  \<open>observe_step\<close> holds pointers into the list while the application's callbacks run; the model follows
  it as long as these leave the structure of the list alone and is \<open>None\<close> otherwise.
\<close>

section \<open>Requests\<close>

definition COAP_TOKEN_SIZE :: nat where "COAP_TOKEN_SIZE = 8"

text \<open>The record whose value is watched: of a resource instance, the only child.\<close>

definition watched_value :: "lwm2m_uri_t \<Rightarrow> lwm2m_data_t list \<Rightarrow> lwm2m_data_t c" where
  "watched_value uri data =
     do { d \<leftarrow> rd data 0;
          Some (if LWM2M_URI_IS_SET_RESOURCE_INSTANCE uri \<and> data_type d = LWM2M_TYPE_MULTIPLE_RESOURCE
                then case data_value d of asChildren [x] \<Rightarrow> x | _ \<Rightarrow> d
                else d) }"

text \<open>The number a watcher keeps, when the value has one; the inner \<open>None\<close> is a failed conversion.\<close>

definition numeric_value :: "(nat \<Rightarrow> bool) \<Rightarrow> lwm2m_data_t \<Rightarrow> u64 option option c" where
  "numeric_value mem d =
     (case data_type d of
        LWM2M_TYPE_INTEGER \<Rightarrow> do { v \<leftarrow> lwm2m_data_decode_int d; Some (map_option Some v) }
      | LWM2M_TYPE_UNSIGNED_INTEGER \<Rightarrow> do { v \<leftarrow> lwm2m_data_decode_uint d; Some (map_option Some v) }
      | LWM2M_TYPE_FLOAT \<Rightarrow> do { v \<leftarrow> lwm2m_data_decode_float mem d; Some (map_option Some v) }
      | _ \<Rightarrow> Some (Some None))"

definition store_value :: "u64 option \<Rightarrow> lwm2m_watcher_t \<Rightarrow> lwm2m_watcher_t" where
  "store_value v w = (case v of None \<Rightarrow> w | Some x \<Rightarrow> w\<lparr>w_lastValue := x\<rparr>)"

text \<open>What is stored in the watcher of an observe request, and the answer to it.\<close>

definition start_watching ::
  "('a lwm2m) platform \<Rightarrow> lwm2m_uri_t \<Rightarrow> lwm2m_data_t list \<Rightarrow> coap_packet_t \<Rightarrow> coap_packet_t \<Rightarrow> nat \<times> nat \<Rightarrow> 'a lwm2m \<Rightarrow>
   ('a lwm2m \<times> coap_packet_t \<times> u8) c" where
  "start_watching P uri data msg response p ctx =
     (if length (token msg) > COAP_TOKEN_SIZE then None
      else do { w \<leftarrow> get_watcher ctx p;
                let w = w\<lparr>w_token := token msg, w_active := True, w_lastTime := gettime P,
                          w_lastMid := mid response, w_format := ucast (content_type response)\<rparr>;
                r \<leftarrow> (if LWM2M_URI_IS_SET_RESOURCE uri
                     then do { d \<leftarrow> watched_value uri data; numeric_value (mem_ok P) d }
                     else Some (Some None));
                (case r of
                   None \<Rightarrow> do { ctx \<leftarrow> put_watcher p w ctx; Some (ctx, response, COAP_500_INTERNAL_SERVER_ERROR) }
                 | Some v \<Rightarrow>
                     do { ctx \<leftarrow> put_watcher p (store_value v (w\<lparr>w_counter := w_counter w + 1\<rparr>)) ctx;
                          Some (ctx, fst (coap_set_header_observe response (w_counter w)), COAP_205_CONTENT) }) })"

definition stop_watching :: "('a lwm2m) platform \<Rightarrow> lwm2m_uri_t \<Rightarrow> u16 \<Rightarrow> 'a lwm2m \<Rightarrow> ('a lwm2m) c" where
  "stop_watching P uri srv ctx =
     do { obs \<leftarrow> observedList ctx;
          (case prv_findObserved obs uri of
             None \<Rightarrow> Some ctx
           | Some k \<Rightarrow>
               (case prv_findWatcher (obs ! k) srv of
                  None \<Rightarrow> Some ctx
                | Some j \<Rightarrow>
                    do { s \<leftarrow> server_session ctx srv;
                         client_observe_cancel P ctx (w_lastMid (o_watchers (obs ! k) ! j)) s })) }"

definition observe_handleRequest ::
  "('a lwm2m) platform \<Rightarrow> lwm2m_uri_t \<Rightarrow> u16 \<Rightarrow> lwm2m_data_t list \<Rightarrow> coap_packet_t \<Rightarrow> coap_packet_t \<Rightarrow> 'a lwm2m \<Rightarrow>
   ('a lwm2m \<times> coap_packet_t \<times> u8) c" where
  "observe_handleRequest P uri srv data msg response ctx =
     do { count \<leftarrow> coap_get_header_observe msg;
          if count = 0
          then if \<not> LWM2M_URI_IS_SET_INSTANCE uri \<and> LWM2M_URI_IS_SET_RESOURCE uri
               then Some (ctx, response, COAP_400_BAD_REQUEST)
               else if token msg = [] then Some (ctx, response, COAP_400_BAD_REQUEST)
               else do { (ctx, p) \<leftarrow> prv_getWatcher P uri srv ctx;
                         (case p of
                            None \<Rightarrow> Some (ctx, response, COAP_500_INTERNAL_SERVER_ERROR)
                          | Some p \<Rightarrow> start_watching P uri data msg response p ctx) }
          else if count = 1
          then do { ctx \<leftarrow> stop_watching P uri srv ctx; Some (ctx, response, COAP_205_CONTENT) }
          else Some (ctx, response, COAP_400_BAD_REQUEST) }"

section \<open>Parameters\<close>

text \<open>The conversion of a double to a float.\<close>

fun float_of_fp :: "fp_value \<Rightarrow> u32" where
  "float_of_fp (FP_fin neg w) = of_nat ((if neg then 2 ^ 31 else 0) + fp_bits 23 255 925 w)"
| "float_of_fp v = float_round v"

definition float_of_double :: "u64 \<Rightarrow> u32" where
  "float_of_double d = float_of_fp (double_val d)"

text \<open>The rule \<open>lt + 2 * stp < gt\<close> in single precision (twice a float is the float added to itself); a
  missing parameter is taken from the old ones.\<close>

definition thresholds_conflict :: "lwm2m_attributes_t \<Rightarrow> lwm2m_attributes_t option \<Rightarrow> bool c" where
  "thresholds_conflict attr old =
     (let old_set = (case old of None \<Rightarrow> 0 | Some p \<Rightarrow> toSet p);
          pick = (\<lambda>flag field. if has_attr flag attr then Some (float_of_double (field attr))
                               else map_option (\<lambda>p. float_of_double (field p)) old) in
      if ((toSet attr OR old_set) AND NOT (toClear attr)) AND ATTR_FLAG_NUMERIC = ATTR_FLAG_NUMERIC
      then do { gt \<leftarrow> pick LWM2M_ATTR_FLAG_GREATER_THAN greaterThan;
                lt \<leftarrow> pick LWM2M_ATTR_FLAG_LESS_THAN lessThan;
                stp \<leftarrow> pick LWM2M_ATTR_FLAG_STEP step_attr;
                Some (float_le gt (float_add lt (float_add stp stp))) }
      else Some False)"

definition update_parameters :: "lwm2m_attributes_t \<Rightarrow> lwm2m_attributes_t \<Rightarrow> lwm2m_attributes_t" where
  "update_parameters attr p =
     \<lparr>toSet = toSet p AND NOT (toClear attr), toClear = toClear p,
      minPeriod = (if has_attr LWM2M_ATTR_FLAG_MIN_PERIOD attr then minPeriod attr else minPeriod p),
      maxPeriod = (if has_attr LWM2M_ATTR_FLAG_MAX_PERIOD attr then maxPeriod attr else maxPeriod p),
      greaterThan = (if has_attr LWM2M_ATTR_FLAG_GREATER_THAN attr then greaterThan attr else greaterThan p),
      lessThan = (if has_attr LWM2M_ATTR_FLAG_LESS_THAN attr then lessThan attr else lessThan p),
      step_attr = (if has_attr LWM2M_ATTR_FLAG_STEP attr then step_attr attr else step_attr p)\<rparr>"

definition set_watcher_parameters ::
  "('a lwm2m) platform \<Rightarrow> lwm2m_attributes_t \<Rightarrow> nat \<times> nat \<Rightarrow> 'a lwm2m \<Rightarrow> ('a lwm2m \<times> u8) c" where
  "set_watcher_parameters P attr p ctx =
     do { w \<leftarrow> get_watcher ctx p;
          conflict \<leftarrow> thresholds_conflict attr (w_parameters w);
          if conflict then Some (ctx, COAP_400_BAD_REQUEST)
          else (case w_parameters w of
                  None \<Rightarrow>
                    if toSet attr = 0 then Some (ctx, COAP_204_CHANGED)
                    else if \<not> mem_ok P sizeof_attributes then Some (ctx, COAP_500_INTERNAL_SERVER_ERROR)
                    else do { ctx \<leftarrow> put_watcher p (w\<lparr>w_parameters := Some attr\<rparr>) ctx; Some (ctx, COAP_204_CHANGED) }
                | Some old \<Rightarrow>
                    do { ctx \<leftarrow> put_watcher p (w\<lparr>w_parameters := Some (update_parameters attr old)\<rparr>) ctx;
                         Some (ctx, COAP_204_CHANGED) }) }"

definition observe_setParameters ::
  "('a lwm2m) app_objects \<Rightarrow> ('a lwm2m) platform \<Rightarrow> lwm2m_uri_t \<Rightarrow> u16 \<Rightarrow> lwm2m_attributes_t \<Rightarrow> 'a lwm2m \<Rightarrow> ('a lwm2m \<times> u8) c" where
  "observe_setParameters A P uri srv attr ctx =
     (if \<not> LWM2M_URI_IS_SET_INSTANCE uri \<and> LWM2M_URI_IS_SET_RESOURCE uri then Some (ctx, COAP_400_BAD_REQUEST)
      else do { (ctx, result) \<leftarrow> object_checkReadable A P uri attr ctx;
                if result \<noteq> COAP_205_CONTENT then Some (ctx, result)
                else do { (ctx, p) \<leftarrow> prv_getWatcher P uri srv ctx;
                          (case p of
                             None \<Rightarrow> Some (ctx, COAP_500_INTERNAL_SERVER_ERROR)
                           | Some p \<Rightarrow> set_watcher_parameters P attr p ctx) } })"

section \<open>Notifications\<close>

text \<open>The value as a double; the thresholds are crossed in either direction.\<close>

fun as_double :: "lwm2m_data_type_t \<Rightarrow> u64 \<Rightarrow> u64 option" where
  "as_double LWM2M_TYPE_INTEGER v = Some (double_of_int (sint v))"
| "as_double LWM2M_TYPE_UNSIGNED_INTEGER v = Some (double_of_int (uint v))"
| "as_double LWM2M_TYPE_FLOAT v = Some v"
| "as_double _ v = None"

definition crossed :: "lwm2m_data_type_t \<Rightarrow> u64 \<Rightarrow> u64 \<Rightarrow> u64 \<Rightarrow> bool" where
  "crossed ty v old threshold =
     (case (as_double ty v, as_double ty old) of
        (Some x, Some y) \<Rightarrow> (double_lt x threshold \<and> double_lt threshold y) \<or> (double_lt threshold x \<and> double_lt y threshold)
      | _ \<Rightarrow> False)"

text \<open>The difference of two \<open>int64_t\<close> may overflow.\<close>

definition int64_range :: "int \<Rightarrow> bool" where
  "int64_range i \<longleftrightarrow> - (2 ^ 63) \<le> i \<and> i < 2 ^ 63"

fun step_reached :: "lwm2m_data_type_t \<Rightarrow> u64 \<Rightarrow> u64 \<Rightarrow> u64 \<Rightarrow> bool c" where
  "step_reached LWM2M_TYPE_INTEGER v old st =
     (let diff = sint v - sint old in
      if \<not> int64_range diff then None
      else if diff < 0
      then if int64_range (- diff) then Some (double_le st (double_of_int (- diff))) else None
      else Some (double_le st (double_of_int diff)))"
| "step_reached LWM2M_TYPE_UNSIGNED_INTEGER v old st =
     Some (double_le st (double_of_int (uint (if v \<ge> old then v - old else old - v))))"
| "step_reached LWM2M_TYPE_FLOAT v old st =
     (let diff = double_sub v old in
      Some ((double_lt diff 0 \<and> double_le st (double_sub 0 diff)) \<or> (double_le 0 diff \<and> double_le st diff)))"
| "step_reached _ v old st = Some False"

definition numeric_notify :: "lwm2m_attributes_t \<Rightarrow> lwm2m_data_type_t \<Rightarrow> u64 \<Rightarrow> u64 \<Rightarrow> bool c" where
  "numeric_notify p ty v old =
     do { st \<leftarrow> (if has_attr LWM2M_ATTR_FLAG_STEP p then step_reached ty v old (step_attr p) else Some False);
          Some ((has_attr LWM2M_ATTR_FLAG_LESS_THAN p \<and> crossed ty v old (lessThan p))
                \<or> (has_attr LWM2M_ATTR_FLAG_GREATER_THAN p \<and> crossed ty v old (greaterThan p)) \<or> st) }"

text \<open>Whether an active watcher is notified now, and the time until the next step; \<open>v\<close> is 0 when the value
  is no number.\<close>

definition notify_needed :: "lwm2m_watcher_t \<Rightarrow> lwm2m_data_type_t \<Rightarrow> u64 \<Rightarrow> int \<Rightarrow> int \<Rightarrow> (bool \<times> int) c" where
  "notify_needed w ty v now timeout =
     (case w_parameters w of
        None \<Rightarrow> Some (w_update w, timeout)
      | Some p \<Rightarrow>
          do { (notify, timeout) \<leftarrow>
                 (if \<not> w_update w then Some (False, timeout)
                  else do { notify \<leftarrow> (if toSet p = 0 then Some True
                                       else if toSet p AND ATTR_FLAG_NUMERIC \<noteq> 0 then numeric_notify p ty v (w_lastValue w)
                                       else Some False);
                            Some (if has_attr LWM2M_ATTR_FLAG_MIN_PERIOD p
                                  then if w_lastTime w + uint (minPeriod p) > now
                                       then (False, min timeout (w_lastTime w + uint (minPeriod p) - now))
                                       else (True, timeout)
                                  else (notify, timeout)) });
               Some (notify \<or> (has_attr LWM2M_ATTR_FLAG_MAX_PERIOD p \<and> w_lastTime w + uint (maxPeriod p) \<le> now), timeout) })"

text \<open>The payload for the watchers of an observation: made for the first one that is notified, from the
  value read before or by reading the object, and reused for the others.  The result has the context,
  the format of the watcher and the buffer, \<open>None\<close> when there is none.\<close>

definition notify_payload ::
  "('a lwm2m) app_objects \<Rightarrow> data_formats \<Rightarrow> ('a lwm2m) platform \<Rightarrow> lwm2m_uri_t \<Rightarrow> lwm2m_data_t list option \<Rightarrow> u16 \<Rightarrow> 'a lwm2m \<Rightarrow>
   ('a lwm2m \<times> u16 \<times> bytes option option) c" where
  "notify_payload A F P uri data fmt ctx =
     (case data of
        Some ds \<Rightarrow> do { (n, b, fmt) \<leftarrow> lwm2m_data_serialize F (mem_ok P) (Some uri) ds fmt;
                        Some (ctx, fmt, if n < 0 then None else Some b) }
      | None \<Rightarrow> do { (ctx, result, b, fmt) \<leftarrow> object_read A F P uri [] fmt ctx;
                     Some (ctx, fmt, if result \<noteq> COAP_205_CONTENT then None else Some b) })"

definition notify_message :: "u16 \<Rightarrow> bytes option \<Rightarrow> coap_packet_t" where
  "notify_message fmt b =
     fst (coap_set_payload (fst (coap_set_header_content_type (coap_init_message COAP_TYPE_NON COAP_205_CONTENT 0) (ucast fmt))) b)"

definition send_notification ::
  "('a lwm2m) platform \<Rightarrow> nat \<times> nat \<Rightarrow> u64 option \<Rightarrow> int \<Rightarrow> coap_packet_t \<Rightarrow> 'a lwm2m \<Rightarrow> ('a lwm2m \<times> coap_packet_t) c" where
  "send_notification P p v now msg ctx =
     do { w \<leftarrow> get_watcher ctx p;
          let m = nextMID ctx;
          let msg = fst (coap_set_header_token (msg\<lparr>mid := m\<rparr>) (w_token w));
          let msg = fst (coap_set_header_observe msg (w_counter w));
          s \<leftarrow> server_session ctx (w_server w);
          ctx \<leftarrow> put_watcher p (store_value v (w\<lparr>w_lastTime := now, w_lastMid := m, w_counter := w_counter w + 1, w_update := False\<rparr>))
                  (ctx\<lparr>nextMID := m + 1\<rparr>);
          (ctx, msg, _) \<leftarrow> message_send P msg s ctx;
          Some (ctx, msg) }"

text \<open>The callbacks of the application must keep the observations and watchers that the loops point to.\<close>

definition obs_shape :: "lwm2m_observed_t list \<Rightarrow> (lwm2m_uri_t \<times> u16 list) list" where
  "obs_shape obs = map (\<lambda>t. (o_uri t, map w_server (o_watchers t))) obs"

definition same_shape :: "'a lwm2m \<Rightarrow> 'a lwm2m \<Rightarrow> bool" where
  "same_shape ctx ctx' \<longleftrightarrow> map_option obs_shape (observedList ctx) = map_option obs_shape (observedList ctx')"

definition max_timer :: "lwm2m_watcher_t \<Rightarrow> int \<Rightarrow> int \<Rightarrow> int" where
  "max_timer w now timeout =
     (case w_parameters w of
        None \<Rightarrow> timeout
      | Some p \<Rightarrow> if has_attr LWM2M_ATTR_FLAG_MAX_PERIOD p then min timeout (w_lastTime w + uint (maxPeriod p) - now) else timeout)"

text \<open>The notification of one watcher, with the buffer and message of the observation before and after; the
  inner \<open>None\<close> ends the loop over the watchers.\<close>

definition notify_watcher ::
  "('a lwm2m) app_objects \<Rightarrow> data_formats \<Rightarrow> ('a lwm2m) platform \<Rightarrow> lwm2m_uri_t \<Rightarrow> lwm2m_data_t list option \<Rightarrow> u64 option \<Rightarrow> int \<Rightarrow>
   nat \<times> nat \<Rightarrow> bytes option \<Rightarrow> coap_packet_t \<Rightarrow> 'a lwm2m \<Rightarrow> ('a lwm2m \<times> (bytes option \<times> coap_packet_t) option) c" where
  "notify_watcher A F P uri data v now p buf msg ctx =
     (case buf of
        Some _ \<Rightarrow> do { (ctx, msg) \<leftarrow> send_notification P p v now msg ctx; Some (ctx, Some (buf, msg)) }
      | None \<Rightarrow>
          do { w \<leftarrow> get_watcher ctx p;
               (ctx', fmt, r) \<leftarrow> notify_payload A F P uri data (w_format w) ctx;
               if \<not> same_shape ctx ctx' then None
               else do { w \<leftarrow> get_watcher ctx' p;
                         ctx \<leftarrow> put_watcher p (w\<lparr>w_format := fmt\<rparr>) ctx';
                         (case r of
                            None \<Rightarrow> Some (ctx, None)
                          | Some b \<Rightarrow>
                              do { (ctx, msg) \<leftarrow> send_notification P p v now (notify_message fmt b) ctx;
                                   Some (ctx, Some (b, msg)) }) } })"

fun step_watchers ::
  "('a lwm2m) app_objects \<Rightarrow> data_formats \<Rightarrow> ('a lwm2m) platform \<Rightarrow> lwm2m_uri_t \<Rightarrow> lwm2m_data_t list option \<Rightarrow> lwm2m_data_type_t \<Rightarrow> u64 option \<Rightarrow>
   int \<Rightarrow> nat \<Rightarrow> nat \<Rightarrow> nat \<Rightarrow> bytes option \<Rightarrow> coap_packet_t \<Rightarrow> int \<Rightarrow> 'a lwm2m \<Rightarrow> ('a lwm2m \<times> int) c" where
  "step_watchers A F P uri data ty v now k j 0 buf msg timeout ctx = Some (ctx, timeout)"
| "step_watchers A F P uri data ty v now k j (Suc n) buf msg timeout ctx =
     do { w \<leftarrow> get_watcher ctx (k, j);
          if \<not> w_active w then step_watchers A F P uri data ty v now k (Suc j) n buf msg timeout ctx
          else do { (notify, timeout) \<leftarrow> notify_needed w ty (case v of None \<Rightarrow> 0 | Some x \<Rightarrow> x) now timeout;
                    (ctx, r) \<leftarrow> (if notify then notify_watcher A F P uri data v now (k, j) buf msg ctx
                                 else Some (ctx, Some (buf, msg)));
                    (case r of
                       None \<Rightarrow> Some (ctx, timeout)
                     | Some (buf, msg) \<Rightarrow>
                         do { w \<leftarrow> get_watcher ctx (k, j);
                              step_watchers A F P uri data ty v now k (Suc j) n buf msg (max_timer w now timeout) ctx }) } }"

definition step_observed ::
  "('a lwm2m) app_objects \<Rightarrow> data_formats \<Rightarrow> ('a lwm2m) platform \<Rightarrow> int \<Rightarrow> nat \<Rightarrow> int \<Rightarrow> 'a lwm2m \<Rightarrow> ('a lwm2m \<times> int) c" where
  "step_observed A F P now k timeout ctx =
     do { obs \<leftarrow> observedList ctx;
          t \<leftarrow> rd obs k;
          let uri = o_uri t;
          if LWM2M_URI_IS_SET_RESOURCE uri
          then (case object_readData A P uri ctx of (ctx', ds, result) \<Rightarrow>
                  if \<not> same_shape ctx ctx' then None
                  else if result \<noteq> COAP_205_CONTENT then Some (ctx', timeout)
                  else do { d \<leftarrow> watched_value uri ds;
                            r \<leftarrow> numeric_value (mem_ok P) d;
                            (case r of
                               None \<Rightarrow> Some (ctx', timeout)
                             | Some v \<Rightarrow> step_watchers A F P uri (Some ds) (data_type d) v now k 0 (length (o_watchers t)) None zero_packet timeout ctx') })
          else step_watchers A F P uri None LWM2M_TYPE_UNDEFINED None now k 0 (length (o_watchers t)) None zero_packet timeout ctx }"

fun observe_loop ::
  "('a lwm2m) app_objects \<Rightarrow> data_formats \<Rightarrow> ('a lwm2m) platform \<Rightarrow> int \<Rightarrow> nat \<Rightarrow> nat \<Rightarrow> int \<Rightarrow> 'a lwm2m \<Rightarrow> ('a lwm2m \<times> int) c" where
  "observe_loop A F P now k 0 timeout ctx = Some (ctx, timeout)"
| "observe_loop A F P now k (Suc n) timeout ctx =
     do { (ctx, timeout) \<leftarrow> step_observed A F P now k timeout ctx; observe_loop A F P now (Suc k) n timeout ctx }"

definition observe_step ::
  "('a lwm2m) app_objects \<Rightarrow> data_formats \<Rightarrow> ('a lwm2m) platform \<Rightarrow> int \<Rightarrow> int \<Rightarrow> 'a lwm2m \<Rightarrow> ('a lwm2m \<times> int) c" where
  "observe_step A F P now timeout ctx =
     do { obs \<leftarrow> observedList ctx; observe_loop A F P now 0 (length obs) timeout ctx }"


section \<open>The invariant of the observations\<close>

text \<open>The invariant depends on the shape of the list alone.\<close>

definition shape_ok :: "lwm2m_server_t list \<Rightarrow> (lwm2m_uri_t \<times> u16 list) list \<Rightarrow> bool" where
  "shape_ok srvs sh \<longleftrightarrow> distinct (map fst sh) \<and>
     (\<forall>(u, ws)\<in>set sh. ws \<noteq> [] \<and> distinct ws \<and> set ws \<subseteq> secObjInstID ` set srvs)"

lemma obs_ok_shape: "obs_ok srvs obs \<longleftrightarrow> shape_ok srvs (obs_shape obs)"
  by (simp add: obs_ok_def shape_ok_def obs_shape_def observed_ok_def o_def)

definition obs_keeps :: "'a lwm2m \<Rightarrow> 'a lwm2m \<Rightarrow> bool" where
  "obs_keeps ctx ctx' \<longleftrightarrow> serverList ctx' = serverList ctx \<and> same_shape ctx ctx'"

lemma keeps_refl [simp]: "obs_keeps ctx ctx" by (simp add: obs_keeps_def same_shape_def)

lemma keeps_trans: "obs_keeps a b \<Longrightarrow> obs_keeps b c \<Longrightarrow> obs_keeps a c" by (simp add: obs_keeps_def same_shape_def)

lemma keeps_inv: "obs_keeps ctx ctx' \<Longrightarrow> observe_inv ctx \<Longrightarrow> observe_inv ctx'"
proof -
  assume k: "obs_keeps ctx ctx'" and "observe_inv ctx"
  then obtain obs where "observedList ctx = Some obs" "shape_ok (serverList ctx) (obs_shape obs)"
    by (auto simp: observe_inv_def obs_ok_shape)
  with k show ?thesis by (cases "observedList ctx'") (auto simp: obs_keeps_def same_shape_def observe_inv_def obs_ok_shape)
qed

lemma obs_keeps_put:
  assumes "put_watcher p w' ctx = Some ctx'" and "get_watcher ctx p = Some w" and "w_server w' = w_server w"
  shows "obs_keeps ctx ctx'"
proof -
  obtain obs where obs: "observedList ctx = Some obs" using assms(2) by (auto simp: get_watcher_def bind_eq_Some_conv)
  let ?t = "obs ! fst p"
  have p: "fst p < length obs" "snd p < length (o_watchers ?t)" "w = o_watchers ?t ! snd p"
    using assms(2) obs by (auto simp: get_watcher_def rd_def split: if_splits)
  have c: "ctx' = ctx\<lparr>observedList := Some (obs[fst p := ?t\<lparr>o_watchers := (o_watchers ?t)[snd p := w']\<rparr>])\<rparr>"
    using assms(1) obs p by (simp add: put_watcher_def)
  have "map w_server ((o_watchers ?t)[snd p := w']) = map w_server (o_watchers ?t)"
    using p assms(3) by (simp add: map_update list_update_same_conv)
  then have "obs_shape (obs[fst p := ?t\<lparr>o_watchers := (o_watchers ?t)[snd p := w']\<rparr>]) = obs_shape obs"
    using p(1) by (simp add: obs_shape_def map_update list_update_same_conv)
  then show ?thesis using obs by (simp add: obs_keeps_def same_shape_def c)
qed

lemma keeps_message_send: "message_send P m s ctx = Some (ctx', m', r) \<Longrightarrow> obs_keeps ctx ctx'"
  by (auto simp: message_send_def Let_def lwm2m_buffer_send_def obs_keeps_def same_shape_def split: if_splits bind_splits)

lemma keeps_nextMID [simp]: "obs_keeps (ctx\<lparr>nextMID := m\<rparr>) ctx' = obs_keeps ctx ctx'" "obs_keeps ctx (ctx'\<lparr>nextMID := m\<rparr>) = obs_keeps ctx ctx'"
  "get_watcher (ctx\<lparr>nextMID := m\<rparr>) p = get_watcher ctx p"
  by (simp_all add: obs_keeps_def same_shape_def get_watcher_def)

lemma store_value_server [simp]: "w_server (store_value v w) = w_server w"
  by (simp add: store_value_def split: option.splits)

lemma keeps_send_notification:
  assumes "send_notification P p v now msg ctx = Some (ctx', msg')"
  shows "obs_keeps ctx ctx'"
proof -
  obtain w c' m'' r where w: "get_watcher ctx p = Some w"
    and put: "put_watcher p (store_value v (w\<lparr>w_lastTime := now, w_lastMid := nextMID ctx, w_counter := w_counter w + 1, w_update := False\<rparr>))
        (ctx\<lparr>nextMID := nextMID ctx + 1\<rparr>) = Some c'"
    and send: "\<exists>m s. message_send P m s c' = Some (ctx', m'', r)"
    using assms by (simp add: send_notification_def Let_def bind_eq_Some_conv split_beta) (metis prod.collapse)
  from obs_keeps_put [OF put, of w] w have "obs_keeps ctx c'" by simp
  with send show ?thesis using keeps_message_send keeps_trans by blast
qed

text \<open>What the callbacks must respect: reading an object keeps the servers and the observations.\<close>

definition reads_keep :: "('a lwm2m) app_objects \<Rightarrow> bool" where
  "reads_keep A \<longleftrightarrow> (\<forall>oid f c i ds. readFunc A oid = Some f \<longrightarrow> obs_keeps c (fst (f c i ds)))"

lemma keeps_read_instances:
  assumes "\<And>c i ds. obs_keeps c (fst (f c i ds))"
  shows "obs_keeps c (fst (read_instances f is c acc))"
proof (induction "is" arbitrary: c acc)
  case (Cons i "is")
  obtain c' ds r where f: "f c i [] = (c', ds, r)" by (cases "f c i []")
  with assms [of c i "[]"] have "obs_keeps c c'" by simp
  then show ?case using f Cons keeps_trans by (fastforce simp: Let_def)
qed simp

lemma keeps_readData: "reads_keep A \<Longrightarrow> obs_keeps ctx (fst (object_readData A P uri ctx))"
  using keeps_read_instances [where c = ctx]
  by (auto simp: object_readData_def reads_keep_def split: option.splits prod.splits if_splits) (metis fst_conv)+

lemma keeps_object_read: "reads_keep A \<Longrightarrow> object_read A F P uri acc fmt ctx = Some (ctx', r) \<Longrightarrow> obs_keeps ctx ctx'"
  using keeps_readData [of A ctx P uri]
  by (auto simp: object_read_def split: prod.splits if_splits bind_splits)

lemma keeps_checkReadable: "reads_keep A \<Longrightarrow> object_checkReadable A P uri attr ctx = Some (ctx', r) \<Longrightarrow> obs_keeps ctx ctx'"
  by (auto simp: object_checkReadable_def reads_keep_def split: option.splits prod.splits if_splits bind_splits) (metis fst_conv)+


lemma keeps_payload:
  "reads_keep A \<Longrightarrow> notify_payload A F P uri data fmt ctx = Some (ctx', r) \<Longrightarrow> obs_keeps ctx ctx'"
  by (auto simp: notify_payload_def bind_eq_Some_conv split: option.splits dest: keeps_object_read)

lemma keeps_notify:
  assumes "reads_keep A" and "notify_watcher A F P uri data v now p buf msg ctx = Some (ctx', r)"
  shows "obs_keeps ctx ctx'"
proof (cases buf)
  case None
  then obtain ctx1 fmt r1 w ctx2 where n: "notify_payload A F P uri data (w_format w) ctx = Some (ctx1, fmt, r1) \<or> True"
    and k1: "obs_keeps ctx ctx1" and w: "get_watcher ctx1 p = Some w" and put: "put_watcher p (w\<lparr>w_format := fmt\<rparr>) ctx1 = Some ctx2"
    and rest: "ctx' = ctx2 \<or> (\<exists>m m'. send_notification P p v now m ctx2 = Some (ctx', m'))"
    using assms by (fastforce simp: notify_watcher_def bind_eq_Some_conv split: option.splits if_splits dest: keeps_payload)
  from obs_keeps_put [OF put w] have "obs_keeps ctx1 ctx2" by simp
  with k1 rest show ?thesis using keeps_trans keeps_send_notification by blast
next
  case (Some b)
  then show ?thesis using assms(2) by (auto simp: notify_watcher_def bind_eq_Some_conv dest: keeps_send_notification)
qed

lemma keeps_step_watchers:
  assumes "reads_keep A"
  shows "step_watchers A F P uri data ty v now k j n buf msg timeout ctx = Some (ctx', timeout') \<Longrightarrow> obs_keeps ctx ctx'"
proof (induction n arbitrary: j buf msg timeout ctx)
  case (Suc n)
  obtain w where w: "get_watcher ctx (k, j) = Some w" using Suc.prems by (auto simp: bind_eq_Some_conv)
  show ?case
  proof (cases "w_active w")
    case False
    with Suc w show ?thesis by simp
  next
    case True
    obtain notify timeout1 where n: "notify_needed w ty (case v of None \<Rightarrow> 0 | Some x \<Rightarrow> x) now timeout = Some (notify, timeout1)"
      using Suc.prems w True by (auto simp: bind_eq_Some_conv)
    obtain ctx1 r where r: "(if notify then notify_watcher A F P uri data v now (k, j) buf msg ctx else Some (ctx, Some (buf, msg))) = Some (ctx1, r)"
      using Suc.prems w True n by (simp add: bind_eq_Some_conv split_beta) (metis prod.collapse)
    have rest: "r = None \<and> ctx' = ctx1 \<or>
        (\<exists>buf1 msg1 timeout2. step_watchers A F P uri data ty v now k (Suc j) n buf1 msg1 timeout2 ctx1 = Some (ctx', timeout'))"
      using Suc.prems w True n r by (cases r) (auto simp: bind_eq_Some_conv, blast)
    have "obs_keeps ctx ctx1" using r keeps_notify [OF assms] by (auto split: if_splits)
    then show ?thesis using rest Suc.IH keeps_trans by blast
  qed
qed simp

lemma keeps_step_observed:
  assumes "reads_keep A" and "step_observed A F P now k timeout ctx = Some (ctx', timeout')"
  shows "obs_keeps ctx ctx'"
proof -
  obtain obs t where t: "observedList ctx = Some obs" "rd obs k = Some t"
    using assms(2) by (auto simp: step_observed_def bind_eq_Some_conv)
  obtain ctx1 ds r where d: "object_readData A P (o_uri t) ctx = (ctx1, ds, r)" by (cases "object_readData A P (o_uri t) ctx")
  with keeps_readData [OF assms(1), of ctx P "o_uri t"] have k: "obs_keeps ctx ctx1" by simp
  show ?thesis
  proof (cases "LWM2M_URI_IS_SET_RESOURCE (o_uri t)")
    case True
    then have "ctx' = ctx1 \<or> (\<exists>uri data ty v n buf msg. step_watchers A F P uri data ty v now k 0 n buf msg timeout ctx1 = Some (ctx', timeout'))"
      using assms(2) t d by (auto simp: step_observed_def bind_eq_Some_conv Let_def split: if_splits option.splits)
    then show ?thesis using k keeps_step_watchers [OF assms(1)] keeps_trans by blast
  next
    case False
    then show ?thesis using assms(2) t by (auto simp: step_observed_def Let_def intro: keeps_step_watchers [OF assms(1)])
  qed
qed

lemma keeps_observe_loop:
  "reads_keep A \<Longrightarrow> observe_loop A F P now k n timeout ctx = Some (ctx', timeout') \<Longrightarrow> obs_keeps ctx ctx'"
proof (induction n arbitrary: k timeout ctx)
  case (Suc n)
  then show ?case by (auto simp: bind_eq_Some_conv) (metis keeps_step_observed keeps_trans)
qed simp

lemma keeps_observe_step:
  "reads_keep A \<Longrightarrow> observe_step A F P now timeout ctx = Some (ctx', timeout') \<Longrightarrow> obs_keeps ctx ctx'"
  by (auto simp: observe_step_def bind_eq_Some_conv intro: keeps_observe_loop)


text \<open>The watcher of a server of the list can always be had when memory suffices.\<close>

lemma getWatcher_keeps_inv:
  assumes "observe_inv ctx" and "srv \<in> secObjInstID ` set (serverList ctx)" and "\<forall>n. mem_ok P n"
    and "prv_getWatcher P uri srv ctx = Some (ctx', r)"
  shows "observe_inv ctx' \<and> serverList ctx' = serverList ctx \<and> (\<exists>p w. r = Some p \<and> get_watcher ctx' p = Some w \<and> w_server w = srv)"
proof -
  obtain obs0 where o0: "observedList ctx = Some obs0" "obs_ok (serverList ctx) obs0" using assms(1) by (auto simp: observe_inv_def)
  obtain obs p where "prv_getWatcher P uri srv ctx = Some (ctx\<lparr>observedList := Some obs\<rparr>, Some p)"
    "obs_ok (serverList ctx) obs" "watcher_at obs p uri srv"
    using getWatcher_ok [OF o0 assms(2,3)] by blast
  then show ?thesis using assms(4) by (auto simp: observe_inv_def watcher_at_def get_watcher_def rd_def)
qed

lemma keeps_start_watching: "start_watching P uri data msg response p ctx = Some (ctx', r) \<Longrightarrow> obs_keeps ctx ctx'"
  by (auto simp: start_watching_def bind_eq_Some_conv Let_def split: if_splits option.splits elim!: obs_keeps_put)

lemma keeps_set_parameters: "set_watcher_parameters P attr p ctx = Some (ctx', r) \<Longrightarrow> obs_keeps ctx ctx'"
  by (auto simp: set_watcher_parameters_def bind_eq_Some_conv split: if_splits option.splits elim!: obs_keeps_put)

lemma cancel_keeps_inv: "observe_inv ctx \<Longrightarrow> client_observe_cancel P ctx m s = Some ctx' \<Longrightarrow> observe_inv ctx'"
  using observe_cancel_inv [of ctx P m s] by (auto simp: observe_inv_def)

lemma stop_watching_inv:
  assumes "observe_inv ctx" and "stop_watching P uri srv ctx = Some ctx'"
  shows "observe_inv ctx'"
proof -
  have "ctx' = ctx \<or> (\<exists>m s. client_observe_cancel P ctx m s = Some ctx')"
    using assms(2) by (auto simp: stop_watching_def bind_eq_Some_conv split: option.split_asm)
  then show ?thesis using assms(1) cancel_keeps_inv by blast
qed

lemma observe_request_inv:
  assumes "observe_inv ctx" and "srv \<in> secObjInstID ` set (serverList ctx)" and "\<forall>n. mem_ok P n"
    and "observe_handleRequest P uri srv data msg response ctx = Some (ctx', response', r)"
  shows "observe_inv ctx'"
proof -
  consider "ctx' = ctx" | "stop_watching P uri srv ctx = Some ctx'" | "prv_getWatcher P uri srv ctx = Some (ctx', None)"
    | ctx1 p where "prv_getWatcher P uri srv ctx = Some (ctx1, Some p)"
      "start_watching P uri data msg response p ctx1 = Some (ctx', response', r)"
    using assms(4)
    apply (auto simp: observe_handleRequest_def bind_eq_Some_conv split: if_split_asm option.split_asm)
    subgoal for b by (cases b) auto
    subgoal for b by (cases b) auto
    done
  then show ?thesis
  proof cases
    case 4
    then show ?thesis using getWatcher_keeps_inv [OF assms(1-3) 4(1)] keeps_inv [OF keeps_start_watching [OF 4(2)]] by blast
  qed (use assms(1) stop_watching_inv getWatcher_keeps_inv [OF assms(1-3)] in blast)+
qed

lemma observe_parameters_inv:
  assumes "observe_inv ctx" and "srv \<in> secObjInstID ` set (serverList ctx)" and "\<forall>n. mem_ok P n" and "reads_keep A"
    and "observe_setParameters A P uri srv attr ctx = Some (ctx', r)"
  shows "observe_inv ctx'"
proof (cases "\<not> LWM2M_URI_IS_SET_INSTANCE uri \<and> LWM2M_URI_IS_SET_RESOURCE uri")
  case True
  then show ?thesis using assms(1,5) by (simp add: observe_setParameters_def)
next
  case False
  then obtain ctx0 r0 where c: "object_checkReadable A P uri attr ctx = Some (ctx0, r0)"
    using assms(5) by (auto simp: observe_setParameters_def bind_eq_Some_conv)
  note k = keeps_checkReadable [OF assms(4) c]
  have 0: "observe_inv ctx0" "srv \<in> secObjInstID ` set (serverList ctx0)" using k keeps_inv assms(1,2) by (auto simp: obs_keeps_def)
  consider "ctx' = ctx0" | "prv_getWatcher P uri srv ctx0 = Some (ctx', None)"
    | ctx1 p where "prv_getWatcher P uri srv ctx0 = Some (ctx1, Some p)" "set_watcher_parameters P attr p ctx1 = Some (ctx', r)"
    using assms(5) False c
    apply (auto simp: observe_setParameters_def bind_eq_Some_conv split: if_split_asm option.split_asm)
    subgoal for b by (cases b) auto
    subgoal for b by (cases b) auto
    done
  then show ?thesis
  proof cases
    case 3
    then show ?thesis using getWatcher_keeps_inv [OF 0 assms(3) 3(1)] keeps_inv [OF keeps_set_parameters [OF 3(2)]] by blast
  qed (use 0 getWatcher_keeps_inv [OF 0 assms(3)] in blast)+
qed

lemma resource_changed_inv:
  assumes "observe_inv ctx" and "lwm2m_resource_value_changed uri ctx = Some ctx'"
  shows "observe_inv ctx'"
proof -
  obtain obs where obs: "observedList ctx = Some obs" "obs_ok (serverList ctx) obs" using assms(1) by (auto simp: observe_inv_def)
  have "obs_ok (serverList ctx) (map (\<lambda>t. if change_concerns uri (o_uri t)
      then t\<lparr>o_watchers := map (\<lambda>w. if w_active w then w\<lparr>w_update := True\<rparr> else w) (o_watchers t)\<rparr> else t) obs)"
    by (rule obs_ok_map [OF obs(2)]) (auto simp: o_def)
  then show ?thesis using assms(2) obs by (auto simp: lwm2m_resource_value_changed_def observe_inv_def)
qed

text \<open>The operations on observations, with the servers of the list as their clients.\<close>

inductive observe_op :: "('a lwm2m) app_objects \<Rightarrow> data_formats \<Rightarrow> ('a lwm2m) platform \<Rightarrow> 'a lwm2m \<Rightarrow> 'a lwm2m \<Rightarrow> bool"
  for A F P where
  request: "srv \<in> secObjInstID ` set (serverList ctx) \<Longrightarrow>
    observe_handleRequest P uri srv data msg response ctx = Some (ctx', response', r) \<Longrightarrow> observe_op A F P ctx ctx'"
| parameters: "srv \<in> secObjInstID ` set (serverList ctx) \<Longrightarrow>
    observe_setParameters A P uri srv attr ctx = Some (ctx', r) \<Longrightarrow> observe_op A F P ctx ctx'"
| cancel: "client_observe_cancel P ctx m s = Some ctx' \<Longrightarrow> observe_op A F P ctx ctx'"
| clear: "observe_clear uri ctx = Some ctx' \<Longrightarrow> observe_op A F P ctx ctx'"
| changed: "lwm2m_resource_value_changed uri ctx = Some ctx' \<Longrightarrow> observe_op A F P ctx ctx'"
| step: "observe_step A F P now timeout ctx = Some (ctx', timeout') \<Longrightarrow> observe_op A F P ctx ctx'"

lemma observe_op_inv:
  assumes "observe_op A F P ctx ctx'" and "\<forall>n. mem_ok P n" and "reads_keep A" and "observe_inv ctx"
  shows "observe_inv ctx'"
  using assms
proof cases
  case request
  then show ?thesis using observe_request_inv [OF assms(4) _ assms(2)] by blast
next
  case parameters
  then show ?thesis using observe_parameters_inv [OF assms(4) _ assms(2,3)] by blast
next
  case cancel
  then show ?thesis using cancel_keeps_inv [OF assms(4)] by blast
next
  case (clear uri)
  obtain obs where obs: "observedList ctx = Some obs" "obs_ok (serverList ctx) obs" using assms(4) by (auto simp: observe_inv_def)
  with clear observe_clear_filter [OF obs(1), of uri] obs_ok_filter show ?thesis by (auto simp: observe_inv_def)
next
  case changed
  then show ?thesis using resource_changed_inv [OF assms(4)] by blast
next
  case step
  then show ?thesis using keeps_observe_step [OF assms(3)] keeps_inv assms(4) by blast
qed

lemma observe_reachable_inv:
  assumes "(observe_op A F P)\<^sup>*\<^sup>* ctx ctx'" and "\<forall>n. mem_ok P n" and "reads_keep A" and "observe_inv ctx"
  shows "observe_inv ctx'"
  using assms(1,4) by induction (use observe_op_inv assms(2,3) in blast)+


section \<open>Properties\<close>

text \<open>C24: as long as memory suffices and reading an object leaves the servers and observations alone, every
sequence of observe and cancel requests, attribute writes, resets, deletions, value changes and
periodic steps keeps the list of observations consistent: every path is observed once, every
observation has a watcher, at most one for each server, and every watcher's server is known; so
cancelling never follows a dangling pointer.\<close>

theorem observations_consistent:
  assumes "(observe_op A F P)\<^sup>*\<^sup>* ctx ctx'" and "observedList ctx = Some []" and "\<forall>n. mem_ok P n" and "reads_keep A"
  shows "observe_inv ctx' \<and> (\<exists>ctx2. client_observe_cancel P ctx' m s = Some ctx2)"
proof -
  have "observe_inv ctx" using assms(2) by (simp add: observe_inv_def obs_ok_def)
  from observe_reachable_inv [OF assms(1,3,4) this] show ?thesis using observe_cancel_inv by blast
qed

text \<open>The notification a server expects.\<close>

definition notification :: "u16 \<Rightarrow> bytes \<Rightarrow> u32 \<Rightarrow> u16 \<Rightarrow> bytes \<Rightarrow> coap_packet_t" where
  "notification m tok cnt fmt b =
     (coap_init_message COAP_TYPE_NON COAP_205_CONTENT m)\<lparr>options := {6, 12, 19}, content_type := ucast fmt, observe := cnt,
        token := tok, payload := Some b\<rparr>"

lemma notification_eq:
  assumes "length tok \<le> 8" and "cnt < 2 ^ 24" and "length b < 65536"
  shows "fst (coap_set_header_observe (fst (coap_set_header_token ((notify_message fmt (Some b))\<lparr>mid := m\<rparr>) tok)) cnt) =
    notification m tok cnt fmt b"
proof -
  have "(0x00FFFFFF AND cnt) = cnt" using observe_small [OF assms(2)] .
  moreover have "unat (of_nat (length b) :: u16) = length b" using assms(3) by (simp add: unsigned_of_nat take_bit_nat_eq_self)
  ultimately show ?thesis
    using assms(1)
    by (simp add: notification_def notify_message_def coap_set_header_observe_def coap_set_header_token_def coap_set_payload_def
      coap_set_header_content_type_def coap_init_message_def zero_packet_def SET_OPTION_def option_numbers COAP_TOKEN_LEN_def Let_def insert_commute)
qed

lemma ucast_u16_less: "ucast (f :: u16) < (65536 :: u32)"
  using unat_u16_less [of f] by (simp add: word_less_nat_alt unat_ucast_up)

lemma notification_ok:
  assumes "tok \<noteq> []" and "length tok \<le> 8" and "cnt < 2 ^ 24" and "b \<noteq> []" and "length b < 65536"
  shows "coap_wf (notification m tok cnt fmt b)" "size_ok (notification m tok cnt fmt b)" "multi_ok (notification m tok cnt fmt b)"
  using assms ucast_u16_less [of fmt]
  by (simp_all add: coap_wf_def multi_ok_def unset_zero_def limits_ok_def known_options_def IS_OPTION_def option_numbers block_sizes_def
      COAP_EMPTY_MESSAGE_CODE_def notification_def coap_init_message_def zero_packet_def size_ok_def coap_sizes COAP_205_CONTENT_def payload_len_def)


text \<open>The watcher after an observe request, a change and a notification.\<close>

definition watching :: "'c platform \<Rightarrow> u16 \<Rightarrow> coap_packet_t \<Rightarrow> coap_packet_t \<Rightarrow> u64 option \<Rightarrow> lwm2m_watcher_t" where
  "watching P srv msg response v = store_value v ((new_watcher srv)\<lparr>w_token := token msg, w_active := True, w_lastTime := gettime P,
     w_lastMid := mid response, w_format := ucast (content_type response), w_counter := 1\<rparr>)"

definition watched_by :: "lwm2m_uri_t \<Rightarrow> lwm2m_watcher_t \<Rightarrow> 'a lwm2m \<Rightarrow> 'a lwm2m" where
  "watched_by uri w ctx = ctx\<lparr>observedList := Some [\<lparr>o_uri = uri, o_watchers = [w]\<rparr>]\<rparr>"

lemma watched_by_simps [simp]:
  "get_watcher (watched_by uri w ctx) (0, 0) = Some w"
  "put_watcher (0, 0) w' (watched_by uri w ctx) = Some (watched_by uri w' ctx)"
  "observedList (watched_by uri w ctx) = Some [\<lparr>o_uri = uri, o_watchers = [w]\<rparr>]"
  "server_session (watched_by uri w ctx) srv = server_session ctx srv"
  "find_object (watched_by uri w ctx) i = find_object ctx i"
  "nextMID (watched_by uri w ctx) = nextMID ctx" "sent (watched_by uri w ctx) = sent ctx"
  "(watched_by uri w ctx)\<lparr>nextMID := m\<rparr> = watched_by uri w (ctx\<lparr>nextMID := m\<rparr>)"
  "(watched_by uri w ctx)\<lparr>sent := l\<rparr> = watched_by uri w (ctx\<lparr>sent := l\<rparr>)"
  by (simp_all add: watched_by_def get_watcher_def put_watcher_def server_session_def find_object_def)

lemma server_session_nextMID [simp]: "server_session (ctx\<lparr>nextMID := m\<rparr>) srv = server_session ctx srv"
  "find_object (ctx\<lparr>nextMID := m\<rparr>) i = find_object ctx i" "find_object (ctx\<lparr>sent := l\<rparr>) i = find_object ctx i"
  by (simp_all add: server_session_def find_object_def)

lemma observe_first:
  assumes "observedList ctx = Some []" and "\<forall>n. mem_ok P n" and "coap_get_header_observe msg = Some 0" and "token msg \<noteq> []"
    and "length (token msg) \<le> 8" and "LWM2M_URI_IS_SET_INSTANCE uri" and "LWM2M_URI_IS_SET_RESOURCE uri"
    and "\<not> LWM2M_URI_IS_SET_RESOURCE_INSTANCE uri" and "numeric_value (mem_ok P) d = Some (Some v)"
  shows "observe_handleRequest P uri srv [d] msg response ctx =
    Some (watched_by uri (watching P srv msg response v) ctx, fst (coap_set_header_observe response 0), COAP_205_CONTENT)"
proof -
  have "prv_getWatcher P uri srv ctx = Some (watched_by uri (new_watcher srv) ctx, Some (0, 0))"
    using assms(1,2) by (simp add: prv_getWatcher_def prv_findObserved_def watched_by_def)
  moreover have "watched_value uri [d] = Some d" using assms(8) by (simp add: watched_value_def)
  ultimately show ?thesis
    using assms(3-9) by (simp add: observe_handleRequest_def start_watching_def COAP_TOKEN_SIZE_def watching_def new_watcher_def Let_def)
qed

lemma changed_watched: "w_active w \<Longrightarrow> lwm2m_resource_value_changed uri (watched_by uri w ctx) = Some (watched_by uri (w\<lparr>w_update := True\<rparr>) ctx)"
  by (simp add: lwm2m_resource_value_changed_def watched_by_def change_concerns_def)

lemma send_notification_eq:
  assumes "server_session ctx (w_server w) = Some s" and "\<forall>n. mem_ok P n" and "w_token w \<noteq> []" and "length (w_token w) \<le> 8"
    and "w_counter w < 2 ^ 24" and "b \<noteq> []" and "length b < 65536"
  shows "\<exists>m'. send_notification P (0, 0) v now (notify_message fmt (Some b)) (watched_by uri w ctx) =
    Some (watched_by uri (store_value v (w\<lparr>w_lastTime := now, w_lastMid := nextMID ctx, w_counter := w_counter w + 1, w_update := False\<rparr>))
      (ctx\<lparr>nextMID := nextMID ctx + 1, sent := sent ctx @ [(s, msg_bytes (notification (nextMID ctx) (w_token w) (w_counter w) fmt b))]\<rparr>), m')"
proof -
  let ?n = "notification (nextMID ctx) (w_token w) (w_counter w) fmt b"
  note ok = notification_ok [OF assms(3,4,5,6,7), of "nextMID ctx" fmt]
  have "message_send P ?n s c = Some (c\<lparr>sent := sent c @ [(s, msg_bytes ?n)]\<rparr>, coap_free_header (?n\<lparr>version := 1\<rparr>), buffer_send P s (msg_bytes ?n))" for c
    using message_send_bytes [OF ok(2,3)] assms(2) by blast
  then show ?thesis
    using assms(1) notification_eq [OF assms(4,5,7), where fmt = fmt and m = "nextMID ctx"] by (simp add: send_notification_def Let_def)
qed


text \<open>A notified watcher is not notified again until the value changes.\<close>

lemma step_quiet:
  assumes "w_parameters w = None" and "\<not> w_update w"
  shows "step_watchers A F P uri data ty v now 0 0 1 None msg timeout (watched_by uri w ctx) = Some (watched_by uri w ctx, timeout)"
  using assms by (cases "w_active w") (simp_all add: notify_needed_def max_timer_def)

lemma step_notifies:
  assumes "w_parameters w = None" and "w_update w" and "w_active w" and "\<forall>n. mem_ok P n"
    and "server_session ctx (w_server w) = Some s" and "w_token w \<noteq> []" and "length (w_token w) \<le> 8" and "w_counter w < 2 ^ 24"
    and "lwm2m_data_serialize F (mem_ok P) (Some uri) ds (w_format w) = Some (n, Some b, fmt)" and "0 \<le> n"
    and "b \<noteq> []" and "length b < 65536"
  shows "step_watchers A F P uri (Some ds) ty v now 0 0 1 None msg timeout (watched_by uri w ctx) =
    Some (watched_by uri (store_value v (w\<lparr>w_format := fmt, w_lastTime := now, w_lastMid := nextMID ctx, w_counter := w_counter w + 1, w_update := False\<rparr>))
      (ctx\<lparr>nextMID := nextMID ctx + 1, sent := sent ctx @ [(s, msg_bytes (notification (nextMID ctx) (w_token w) (w_counter w) fmt b))]\<rparr>), timeout)"
proof -
  let ?w = "w\<lparr>w_format := fmt\<rparr>"
  have p: "notify_payload A F P uri (Some ds) (w_format w) c = Some (c, fmt, Some (Some b))" for c
    using assms(9,10) by (simp add: notify_payload_def)
  obtain m' where "send_notification P (0, 0) v now (notify_message fmt (Some b)) (watched_by uri ?w ctx) =
      Some (watched_by uri (store_value v (?w\<lparr>w_lastTime := now, w_lastMid := nextMID ctx, w_counter := w_counter w + 1, w_update := False\<rparr>))
        (ctx\<lparr>nextMID := nextMID ctx + 1, sent := sent ctx @ [(s, msg_bytes (notification (nextMID ctx) (w_token w) (w_counter w) fmt b))]\<rparr>), m')"
    using send_notification_eq [of ctx ?w s P b v now fmt uri] assms(4-8,11,12) by auto
  moreover have "w_parameters (store_value v x) = w_parameters x" for x by (simp add: store_value_def split: option.split)
  ultimately show ?thesis
    using assms(1-3) p by (simp add: notify_needed_def notify_watcher_def same_shape_def max_timer_def)
qed

lemma observe_step_watched:
  assumes "LWM2M_URI_IS_SET_INSTANCE uri" and "LWM2M_URI_IS_SET_RESOURCE uri" and "\<not> LWM2M_URI_IS_SET_RESOURCE_INSTANCE uri"
    and "\<forall>n. mem_ok P n" and "find_object ctx (objectId uri) = Some obj" and "has_instance obj (instanceId uri)"
    and "readFunc A (objectId uri) = Some f" and "\<forall>c ds. f c (instanceId uri) ds = (c, [d], COAP_205_CONTENT)"
    and "numeric_value (mem_ok P) d = Some (Some v)"
  shows "observe_step A F P now timeout (watched_by uri w ctx) =
    step_watchers A F P uri (Some [d]) (data_type d) v now 0 0 1 None zero_packet timeout (watched_by uri w ctx)"
proof -
  have "requested_data (mem_ok P) uri \<noteq> None" using assms(3,4) by (simp add: requested_data_def lwm2m_data_new_def)
  then have r: "object_readData A P uri (watched_by uri w ctx) = (watched_by uri w ctx, [d], COAP_205_CONTENT)"
    using assms(1,2,5-8) by (auto simp: object_readData_def)
  have "watched_value uri [d] = Some d" using assms(3) by (simp add: watched_value_def)
  then have "step_observed A F P now 0 timeout (watched_by uri w ctx) =
      step_watchers A F P uri (Some [d]) (data_type d) v now 0 0 (Suc 0) None zero_packet timeout (watched_by uri w ctx)"
    using r assms(2,9) by (simp add: step_observed_def same_shape_def Let_def)
  then show ?thesis by (simp add: observe_step_def)
qed


lemma watching_simps [simp]:
  "w_parameters (watching P srv msg response v) = None" "w_active (watching P srv msg response v)" "w_server (watching P srv msg response v) = srv"
  "w_token (watching P srv msg response v) = token msg" "w_counter (watching P srv msg response v) = 1"
  "w_format (watching P srv msg response v) = ucast (content_type response)"
  by (simp_all add: watching_def store_value_def new_watcher_def split: option.split)

lemma store_value_simps [simp]:
  "w_parameters (store_value v w) = w_parameters w" "w_update (store_value v w) = w_update w" "w_active (store_value v w) = w_active w"
  by (simp_all add: store_value_def split: option.split)

text \<open>C25: a server that observes a resource is answered with the sequence number 0; after a change of the
value the next periodic step sends it exactly one datagram, which is parsed as a non-confirmable
2.05 notification with the token of the request, the sequence number 1, the format and the
serialized value; the step after that sends nothing.\<close>

theorem change_is_notified:
  assumes "observedList ctx = Some []" and "\<forall>n. mem_ok P n" and "server_session ctx srv = Some s"
    and "coap_get_header_observe msg = Some 0" and "token msg \<noteq> []" and "length (token msg) \<le> 8"
    and "LWM2M_URI_IS_SET_INSTANCE uri" and "LWM2M_URI_IS_SET_RESOURCE uri" and "\<not> LWM2M_URI_IS_SET_RESOURCE_INSTANCE uri"
    and "find_object ctx (objectId uri) = Some obj" and "has_instance obj (instanceId uri)"
    and "readFunc A (objectId uri) = Some f" and "\<forall>c ds. f c (instanceId uri) ds = (c, [d], COAP_205_CONTENT)"
    and "numeric_value (mem_ok P) d = Some (Some v)"
    and "lwm2m_data_serialize F (mem_ok P) (Some uri) [d] (ucast (content_type response)) = Some (n, Some b, fmt)" and "0 \<le> n"
    and "b \<noteq> []" and "length b < 65536"
  shows "\<exists>ctx1 response' ctx2 ctx3 datagram.
    observe_handleRequest P uri srv [d] msg response ctx = Some (ctx1, response', COAP_205_CONTENT) \<and>
    coap_get_header_observe response' = Some 0 \<and>
    lwm2m_resource_value_changed uri ctx1 = Some ctx2 \<and>
    observe_step A F P now timeout ctx2 = Some (ctx3, timeout) \<and>
    sent ctx3 = sent ctx @ [(s, datagram)] \<and>
    coap_parse_message (\<lambda>_. True) datagram = (COAP_NO_ERROR, received (notification (nextMID ctx) (token msg) 1 fmt b)) \<and>
    observe_step A F P now2 timeout ctx3 = Some (ctx3, timeout)"
proof -
  let ?w = "watching P srv msg response v"
  let ?w2 = "?w\<lparr>w_update := True\<rparr>"
  let ?bs = "msg_bytes (notification (nextMID ctx) (token msg) 1 fmt b)"
  let ?w3 = "store_value v (?w2\<lparr>w_format := fmt, w_lastTime := now, w_lastMid := nextMID ctx, w_counter := 1 + 1, w_update := False\<rparr>)"
  let ?c3 = "ctx\<lparr>nextMID := nextMID ctx + 1, sent := sent ctx @ [(s, ?bs)]\<rparr>"
  note start = observe_first [OF assms(1,2,4-9,14), where srv = srv and response = response]
  have changed: "lwm2m_resource_value_changed uri (watched_by uri ?w ctx) = Some (watched_by uri ?w2 ctx)" by (rule changed_watched) simp
  note st = observe_step_watched [OF assms(7-9,2) _ assms(11-14), where F = F and timeout = timeout]
  have step: "observe_step A F P now timeout (watched_by uri ?w2 ctx) = Some (watched_by uri ?w3 ?c3, timeout)"
    using st [where ctx = ctx and w = ?w2 and now = now] assms(10) step_notifies [of ?w2 P ctx s F uri "[d]" n b fmt A "data_type d" v now zero_packet timeout]
      assms(2,3,5,6,15-18) by simp
  have quiet: "observe_step A F P now2 timeout (watched_by uri ?w3 ?c3) = Some (watched_by uri ?w3 ?c3, timeout)"
    using st [where ctx = ?c3 and w = ?w3 and now = now2] assms(10) step_quiet [of ?w3 A F P uri "Some [d]" "data_type d" v now2 zero_packet timeout ?c3] by simp
  have parse: "coap_parse_message (\<lambda>_. True) ?bs = (COAP_NO_ERROR, received (notification (nextMID ctx) (token msg) 1 fmt b))"
    by (rule parse_msg_bytes) (rule notification_ok, use assms(5,6,17,18) in simp_all)
  have obs0: "coap_get_header_observe (fst (coap_set_header_observe response 0)) = Some 0"
    by (simp add: coap_get_header_observe_def coap_set_header_observe_def IS_OPTION_def SET_OPTION_def option_numbers)
  show ?thesis
    by (intro exI conjI, rule start, rule obs0, rule changed, rule step) (use parse quiet in simp_all)
qed


subsection \<open>Conditions of integer resources\<close>

text \<open>A value is on the other side of a threshold than before.\<close>

definition crosses :: "int \<Rightarrow> int \<Rightarrow> int \<Rightarrow> bool" where
  "crosses v old threshold \<longleftrightarrow> (v < threshold \<and> threshold < old) \<or> (old < threshold \<and> threshold < v)"

lemma crossed_int:
  assumes "abs (sint v) < 2 ^ 53" and "abs (sint old) < 2 ^ 53" and "abs t < 2 ^ 53"
  shows "crossed LWM2M_TYPE_INTEGER v old (double_of_int t) \<longleftrightarrow> crosses (sint v) (sint old) t"
  using assms by (auto simp: crossed_def crosses_def double_compare_int)

lemma step_reached_int:
  assumes "abs (sint v) < 2 ^ 52" and "abs (sint old) < 2 ^ 52" and "abs t < 2 ^ 53"
  shows "step_reached LWM2M_TYPE_INTEGER v old (double_of_int t) = Some (t \<le> abs (sint v - sint old))"
proof -
  have d: "abs (sint v - sint old) < 2 ^ 53" using assms(1,2) by (simp add: abs_if split: if_splits)
  then have r: "int64_range (sint v - sint old)" "int64_range (- (sint v - sint old))" by (simp_all add: int64_range_def abs_if split: if_splits)
  have "abs (- (sint v - sint old)) < 2 ^ 53" using d by (simp add: abs_minus_commute)
  then show ?thesis
    using r double_compare_int(2) [OF assms(3) d] double_compare_int(2) [OF assms(3), of "- (sint v - sint old)"] by (simp add: Let_def abs_if)
qed

text \<open>C26: for an integer resource and integer thresholds of at most 52 bits, the conditions of an active
watcher without periods are exact, although they are computed in floating point: after a change it
is notified if and only if the value crossed the lower or the upper threshold since the last
notification, or moved by at least the step; the timeout does not change.\<close>

theorem integer_conditions_exact:
  assumes "w_parameters w = Some p" and "toSet p AND ATTR_FLAG_NUMERIC \<noteq> 0" and "\<not> has_attr LWM2M_ATTR_FLAG_MIN_PERIOD p"
    and "\<not> has_attr LWM2M_ATTR_FLAG_MAX_PERIOD p" and "lessThan p = double_of_int lt" and "greaterThan p = double_of_int gt"
    and "step_attr p = double_of_int stp" and "abs lt < 2 ^ 52" and "abs gt < 2 ^ 52" and "abs stp < 2 ^ 52"
    and "abs (sint v) < 2 ^ 52" and "abs (sint (w_lastValue w)) < 2 ^ 52"
  shows "notify_needed w LWM2M_TYPE_INTEGER v now timeout = Some (w_update w \<and>
    (has_attr LWM2M_ATTR_FLAG_LESS_THAN p \<and> crosses (sint v) (sint (w_lastValue w)) lt \<or>
     has_attr LWM2M_ATTR_FLAG_GREATER_THAN p \<and> crosses (sint v) (sint (w_lastValue w)) gt \<or>
     has_attr LWM2M_ATTR_FLAG_STEP p \<and> stp \<le> abs (sint v - sint (w_lastValue w))), timeout)"
proof -
  have "toSet p \<noteq> 0" using assms(2) by auto
  moreover have "numeric_notify p LWM2M_TYPE_INTEGER v (w_lastValue w) = Some (
      has_attr LWM2M_ATTR_FLAG_LESS_THAN p \<and> crosses (sint v) (sint (w_lastValue w)) lt \<or>
      has_attr LWM2M_ATTR_FLAG_GREATER_THAN p \<and> crosses (sint v) (sint (w_lastValue w)) gt \<or>
      has_attr LWM2M_ATTR_FLAG_STEP p \<and> stp \<le> abs (sint v - sint (w_lastValue w)))"
    using assms(8-12) step_reached_int [OF assms(11,12), of stp] crossed_int [of v "w_lastValue w" lt] crossed_int [of v "w_lastValue w" gt]
    by (auto simp: numeric_notify_def assms(5-7))
  ultimately show ?thesis using assms(1-4) by (simp add: notify_needed_def)
qed

theorem integer_conditions_exact_witness:
  "notify_needed ((new_watcher 1)\<lparr>w_active := True, w_update := True, w_lastValue := 10, w_parameters := Some
       \<lparr>toSet = LWM2M_ATTR_FLAG_GREATER_THAN, toClear = 0, minPeriod = 0, maxPeriod = 0, greaterThan = double_of_int 20,
        lessThan = double_of_int 0, step_attr = double_of_int 0\<rparr>\<rparr>) LWM2M_TYPE_INTEGER 25 0 60 = Some (True, 60)"
  using integer_conditions_exact [of "(new_watcher 1)\<lparr>w_active := True, w_update := True, w_lastValue := 10, w_parameters := Some
       \<lparr>toSet = LWM2M_ATTR_FLAG_GREATER_THAN, toClear = 0, minPeriod = 0, maxPeriod = 0, greaterThan = double_of_int 20,
        lessThan = double_of_int 0, step_attr = double_of_int 0\<rparr>\<rparr>" _ 0 20 0 25 0 60]
  by (simp add: has_attr_def attr_flags crosses_def)

subsection \<open>Edge cases\<close>

text \<open>a write of attributes never adds a condition to those a watcher already has, although it is
answered with success: the stored flags are the old ones without the cleared ones.\<close>

theorem attributes_not_added:
  assumes "get_watcher ctx p = Some w" and "w_parameters w = Some old" and "set_watcher_parameters P attr p ctx = Some (ctx', COAP_204_CHANGED)"
  shows "\<exists>w'. get_watcher ctx' p = Some w' \<and> map_option toSet (w_parameters w') = Some (toSet old AND NOT (toClear attr))"
proof -
  have "put_watcher p (w\<lparr>w_parameters := Some (update_parameters attr old)\<rparr>) ctx = Some ctx'"
    using assms by (auto simp: set_watcher_parameters_def bind_eq_Some_conv coap_codes split: if_splits)
  then have "get_watcher ctx' p = Some (w\<lparr>w_parameters := Some (update_parameters attr old)\<rparr>)"
    by (auto simp: put_watcher_def get_watcher_def bind_eq_Some_conv rd_def wr_def split: if_splits)
  then show ?thesis by (simp add: update_parameters_def)
qed

theorem attributes_not_added_witness:
  "\<exists>ctx' w'. set_watcher_parameters lwm2m_platform \<lparr>toSet = LWM2M_ATTR_FLAG_MAX_PERIOD, toClear = 0, minPeriod = 0, maxPeriod = 60,
       greaterThan = 0, lessThan = 0, step_attr = 0\<rparr> (0, 0)
       (watched_by (uri_of [3, 0, 9]) ((new_watcher 1)\<lparr>w_parameters := Some \<lparr>toSet = LWM2M_ATTR_FLAG_MIN_PERIOD, toClear = 0, minPeriod = 5,
          maxPeriod = 0, greaterThan = 0, lessThan = 0, step_attr = 0\<rparr>\<rparr>) example_lwm2m) = Some (ctx', COAP_204_CHANGED) \<and>
     get_watcher ctx' (0, 0) = Some w' \<and> map_option toSet (w_parameters w') = Some LWM2M_ATTR_FLAG_MIN_PERIOD"
proof -
  let ?a = "\<lparr>toSet = LWM2M_ATTR_FLAG_MAX_PERIOD, toClear = 0, minPeriod = 0, maxPeriod = 60, greaterThan = 0, lessThan = 0, step_attr = 0\<rparr>"
  let ?o = "\<lparr>toSet = LWM2M_ATTR_FLAG_MIN_PERIOD, toClear = 0, minPeriod = 5, maxPeriod = 0, greaterThan = 0, lessThan = 0, step_attr = 0\<rparr>"
  let ?w = "(new_watcher 1)\<lparr>w_parameters := Some ?o\<rparr>"
  let ?c = "watched_by (uri_of [3, 0, 9]) ?w example_lwm2m"
  have "thresholds_conflict ?a (w_parameters ?w) = Some False" by (simp add: thresholds_conflict_def attr_flags Let_def)
  then have "set_watcher_parameters lwm2m_platform ?a (0, 0) ?c = Some (watched_by (uri_of [3, 0, 9]) (?w\<lparr>w_parameters := Some (update_parameters ?a ?o)\<rparr>) example_lwm2m, COAP_204_CHANGED)"
    by (simp add: set_watcher_parameters_def)
  moreover from attributes_not_added [OF _ _ this, of ?w ?o] obtain w' where
    "get_watcher (watched_by (uri_of [3, 0, 9]) (?w\<lparr>w_parameters := Some (update_parameters ?a ?o)\<rparr>) example_lwm2m) (0, 0) = Some w'"
    "map_option toSet (w_parameters w') = Some LWM2M_ATTR_FLAG_MIN_PERIOD" by auto
  ultimately show ?thesis by blast
qed


text \<open>when the memory for a watcher cannot be had, the new observation is freed but stays at the head of
the list, and the next traversal reads it; an observation of an object is attached to that of one of
its resources; after the minimum period every change is notified, whatever the thresholds; the
difference of two integers may overflow.\<close>

theorem observe_edge_cases:
  "prv_getWatcher (lwm2m_platform\<lparr>mem_ok := (\<lambda>n. n \<noteq> sizeof_watcher)\<rparr>) (uri_of [3, 0, 9]) 1 (example_lwm2m\<lparr>observedList := Some []\<rparr>) =
     Some (example_lwm2m\<lparr>observedList := None\<rparr>, None) \<and>
   client_observe_cancel lwm2m_platform (example_lwm2m\<lparr>observedList := None\<rparr>) 8 3 = None \<and>
   prv_findObserved [\<lparr>o_uri = uri_of [3, 0, 9], o_watchers = [new_watcher 1]\<rparr>] (uri_of [3]) = Some 0 \<and>
   notify_needed ((new_watcher 1)\<lparr>w_update := True, w_parameters := Some \<lparr>toSet = LWM2M_ATTR_FLAG_MIN_PERIOD OR LWM2M_ATTR_FLAG_GREATER_THAN,
      toClear = 0, minPeriod = 5, maxPeriod = 0, greaterThan = double_of_int 100, lessThan = 0, step_attr = 0\<rparr>\<rparr>) LWM2M_TYPE_INTEGER 1 10 60 =
     Some (True, 60) \<and>
   step_reached LWM2M_TYPE_INTEGER 0x7FFFFFFFFFFFFFFF 0xFFFFFFFFFFFFFFFF 0 = None"
proof (intro conjI)
  show "prv_getWatcher (lwm2m_platform\<lparr>mem_ok := (\<lambda>n. n \<noteq> sizeof_watcher)\<rparr>) (uri_of [3, 0, 9]) 1 (example_lwm2m\<lparr>observedList := Some []\<rparr>) =
     Some (example_lwm2m\<lparr>observedList := None\<rparr>, None)"
    by (simp add: prv_getWatcher_def prv_findObserved_def sizeof_watcher_def sizeof_observed_def lwm2m_platform_def)
  show "client_observe_cancel lwm2m_platform (example_lwm2m\<lparr>observedList := None\<rparr>) 8 3 = None"
    by (simp add: client_observe_cancel_def)
  show "prv_findObserved [\<lparr>o_uri = uri_of [3, 0, 9], o_watchers = [new_watcher 1]\<rparr>] (uri_of [3]) = Some 0"
    by (simp add: prv_findObserved_def observed_matches_def LWM2M_URI_IS_SET_INSTANCE_def LWM2M_URI_IS_SET_RESOURCE_def
      LWM2M_URI_IS_SET_RESOURCE_INSTANCE_def)
  show "notify_needed ((new_watcher 1)\<lparr>w_update := True, w_parameters := Some \<lparr>toSet = LWM2M_ATTR_FLAG_MIN_PERIOD OR LWM2M_ATTR_FLAG_GREATER_THAN,
      toClear = 0, minPeriod = 5, maxPeriod = 0, greaterThan = double_of_int 100, lessThan = 0, step_attr = 0\<rparr>\<rparr>) LWM2M_TYPE_INTEGER 1 10 60 =
     Some (True, 60)"
    by (simp add: notify_needed_def attr_flags has_attr_def new_watcher_def numeric_notify_def)
  show "step_reached LWM2M_TYPE_INTEGER 0x7FFFFFFFFFFFFFFF 0xFFFFFFFFFFFFFFFF 0 = None"
    by (simp add: int64_range_def)
qed

subsection \<open>Instances\<close>

definition temperature :: lwm2m_data_t where
  "temperature = Data LWM2M_TYPE_STRING 9 (asBuffer (str ''80''))"

definition temperature_app :: "('a lwm2m) app_objects" where
  "temperature_app = example_app\<lparr>readFunc := (\<lambda>_. Some (\<lambda>c i ds. (c, [temperature], COAP_205_CONTENT)))\<rparr>"

definition observe_request :: coap_packet_t where
  "observe_request = (coap_init_message COAP_TYPE_CON 1 77)\<lparr>token := [5, 6], options := {6, 11, 19}, observe := 0\<rparr>"

lemma uri_309:
  "LWM2M_URI_IS_SET_INSTANCE (uri_of [3, 0, 9])" "LWM2M_URI_IS_SET_RESOURCE (uri_of [3, 0, 9])"
  "\<not> LWM2M_URI_IS_SET_RESOURCE_INSTANCE (uri_of [3, 0, 9])"
  by (simp_all add: LWM2M_URI_IS_SET_INSTANCE_def LWM2M_URI_IS_SET_RESOURCE_def LWM2M_URI_IS_SET_RESOURCE_INSTANCE_def LWM2M_MAX_ID_def)

lemma observe_request_simps:
  "coap_get_header_observe observe_request = Some 0" "token observe_request = [5, 6]"
  by (simp_all add: observe_request_def coap_get_header_observe_def IS_OPTION_def option_numbers)

lemma temperature_text:
  "lwm2m_data_serialize plain_formats (mem_ok lwm2m_platform) (Some (uri_of [3, 0, 9])) [temperature] 0 = Some (2, Some (str ''80''), 0)"
  by (simp add: lwm2m_data_serialize_def temperature_def serialize_format_def prv_textSerialize_def text_copy_def uri_set_opt_def uri_309 media_defs
    lwm2m_platform_def str_def)

theorem change_is_notified_witness:
  "\<exists>ctx1 response' ctx2 ctx3 datagram.
    observe_handleRequest lwm2m_platform (uri_of [3, 0, 9]) 1 [temperature] observe_request (coap_init_message COAP_TYPE_ACK COAP_205_CONTENT 77)
      (example_lwm2m\<lparr>observedList := Some []\<rparr>) = Some (ctx1, response', COAP_205_CONTENT) \<and>
    coap_get_header_observe response' = Some 0 \<and>
    lwm2m_resource_value_changed (uri_of [3, 0, 9]) ctx1 = Some ctx2 \<and>
    observe_step temperature_app plain_formats lwm2m_platform 100 60 ctx2 = Some (ctx3, 60) \<and>
    sent ctx3 = [(3, datagram)] \<and>
    coap_parse_message (\<lambda>_. True) datagram = (COAP_NO_ERROR, received (notification 8 [5, 6] 1 0 (str ''80''))) \<and>
    observe_step temperature_app plain_formats lwm2m_platform 101 60 ctx3 = Some (ctx3, 60)"
proof -
  let ?c = "example_lwm2m\<lparr>observedList := Some []\<rparr>"
  let ?obj = "\<lparr>objID = 3, versionMajor = 0, versionMinor = 0, instanceList = [0, 1]\<rparr>"
  have s: "server_session ?c 1 = Some 3" by (simp add: server_session_def example_lwm2m_def example_server_def)
  have o: "find_object ?c (objectId (uri_of [3, 0, 9])) = Some ?obj" "has_instance ?obj (instanceId (uri_of [3, 0, 9]))"
    by (simp_all add: find_object_def example_lwm2m_def has_instance_def)
  have r: "readFunc temperature_app (objectId (uri_of [3, 0, 9])) = Some (\<lambda>c i ds. (c, [temperature], COAP_205_CONTENT))"
    by (simp add: temperature_app_def)
  have v: "numeric_value (mem_ok lwm2m_platform) temperature = Some (Some None)" by (simp add: numeric_value_def temperature_def)
  have ct: "ucast (content_type (coap_init_message COAP_TYPE_ACK COAP_205_CONTENT 77)) = (0 :: u16)" by (simp add: coap_init_message_def zero_packet_def)
  have c: "nextMID ?c = 8" "sent ?c = []" by (simp_all add: example_lwm2m_def)
  show ?thesis
    using change_is_notified [OF _ _ s observe_request_simps(1) _ _ uri_309 o r _ v, of plain_formats "coap_init_message COAP_TYPE_ACK COAP_205_CONTENT 77"
        2 "str ''80''" 0 100 60 101] temperature_text
    by (simp add: observe_request_simps lwm2m_platform_def ct c) (simp add: str_def)
qed

theorem observations_consistent_witness:
  "observe_inv (watched_by (uri_of [3, 0, 9]) (watching lwm2m_platform 1 observe_request zero_packet None) example_lwm2m)"
proof -
  let ?c = "example_lwm2m\<lparr>observedList := Some []\<rparr>"
  let ?d = "watched_by (uri_of [3, 0, 9]) (watching lwm2m_platform 1 observe_request zero_packet None) ?c"
  have m: "\<forall>n. mem_ok lwm2m_platform n" by (simp add: lwm2m_platform_def)
  have v: "numeric_value (mem_ok lwm2m_platform) temperature = Some (Some None)" by (simp add: numeric_value_def temperature_def)
  have "observe_handleRequest lwm2m_platform (uri_of [3, 0, 9]) 1 [temperature] observe_request zero_packet ?c =
      Some (?d, fst (coap_set_header_observe zero_packet 0), COAP_205_CONTENT)"
    by (rule observe_first) (simp_all add: m observe_request_simps uri_309 v)
  then have "observe_op temperature_app plain_formats lwm2m_platform ?c ?d"
    by (intro observe_op.request) (simp_all add: example_lwm2m_def example_server_def)
  moreover have "reads_keep temperature_app" by (simp add: reads_keep_def temperature_app_def)
  ultimately have "observe_inv ?d" using observations_consistent [of temperature_app plain_formats lwm2m_platform ?c ?d] m by auto
  then show ?thesis by (simp add: watched_by_def)
qed

end
