(* ===== verification/Servers.thy ===== *)
theory Servers
  imports Observe
begin

text \<open>
  The servers of a client: \<open>prv_findServerInstance\<close> and \<open>object_getServers\<close> of \<^verbatim>\<open>core/objects.c\<close>, which
  read the Security and Server objects, and \<open>lwm2m_update_registration\<close> and \<open>registration_getStatus\<close> of
  \<^verbatim>\<open>core/registration.c\<close>.

  The instances of the Security object are those in the list when \<open>object_getServers\<close> starts.
\<close>

section \<open>The servers of the Security object\<close>

definition sizeof_server :: nat where "sizeof_server = 88"

text \<open>The entry after \<open>memset\<close> to zero.\<close>

definition new_server :: "u16 \<Rightarrow> lwm2m_server_t" where
  "new_server i = \<lparr>secObjInstID = i, shortID = 0, lifetime = 0, registration = 0, binding = 0, sessionH = 0,
     server_status = STATE_DEREGISTERED, location = None, dirty = False, blockData = [], servObjInstID = 0, attempt = 0,
     sequence_num = 0\<rparr>"

fun find_instance_loop ::
  "('a lwm2m) app_objects \<Rightarrow> ('a lwm2m) platform \<Rightarrow> u16 \<Rightarrow> u16 list \<Rightarrow> 'a lwm2m \<Rightarrow> ('a lwm2m \<times> u16 option) c" where
  "find_instance_loop A P sid [] ctx = Some (ctx, None)"
| "find_instance_loop A P sid (i # is) ctx =
     do { r \<leftarrow> read_resource A P LWM2M_SERVER_OBJECT_ID i [LWM2M_SERVER_SHORT_ID_ID] ctx;
          (case r of
             None \<Rightarrow> Some (ctx, None)
           | Some (ctx, ds, st) \<Rightarrow>
               if st \<noteq> COAP_205_CONTENT then Some (ctx, None)
               else do { d \<leftarrow> rd ds 0;
                         v \<leftarrow> lwm2m_data_decode_int d;
                         if map_option sint v = Some (uint sid) then Some (ctx, Some i)
                         else find_instance_loop A P sid is ctx }) }"

definition prv_findServerInstance ::
  "('a lwm2m) app_objects \<Rightarrow> ('a lwm2m) platform \<Rightarrow> lwm2m_object_t \<Rightarrow> u16 \<Rightarrow> 'a lwm2m \<Rightarrow> ('a lwm2m \<times> u16 option) c" where
  "prv_findServerInstance A P obj sid ctx = find_instance_loop A P sid (instanceList obj) ctx"

text \<open>An integer resource of a Security instance between two bounds; the inner \<open>None\<close> is a failure.\<close>

definition read_bounded ::
  "('a lwm2m) app_objects \<Rightarrow> ('a lwm2m) platform \<Rightarrow> u16 \<Rightarrow> u16 \<Rightarrow> int \<Rightarrow> int \<Rightarrow> 'a lwm2m \<Rightarrow> ('a lwm2m \<times> int option) c" where
  "read_bounded A P i rid lo hi ctx =
     do { r \<leftarrow> read_resource A P LWM2M_SECURITY_OBJECT_ID i [rid] ctx;
          (case r of
             None \<Rightarrow> Some (ctx, None)
           | Some (ctx, ds, st) \<Rightarrow>
               if st \<noteq> COAP_205_CONTENT then Some (ctx, None)
               else do { d \<leftarrow> rd ds 0;
                         v \<leftarrow> lwm2m_data_decode_int d;
                         Some (ctx, case v of None \<Rightarrow> None | Some x \<Rightarrow> if sint x < lo \<or> sint x > hi then None else Some (sint x)) }) }"

text \<open>A bootstrap server; the flag says whether the loop goes on.\<close>

definition add_bootstrap_server ::
  "('a lwm2m) app_objects \<Rightarrow> ('a lwm2m) platform \<Rightarrow> bool \<Rightarrow> u16 \<Rightarrow> 'a lwm2m \<Rightarrow> ('a lwm2m \<times> bool) c" where
  "add_bootstrap_server A P checkOnly i ctx =
     do { (ctx, v) \<leftarrow> read_bounded A P i LWM2M_SECURITY_HOLD_OFF_ID 0 0xFFFFFFFF ctx;
          Some (case v of
                  None \<Rightarrow> (ctx, False)
                | Some t \<Rightarrow>
                    (if checkOnly then ctx
                     else ctx\<lparr>bootstrapServerList := LWM2M_LIST_ADD secObjInstID (bootstrapServerList ctx)
                            ((new_server i)\<lparr>servObjInstID := LWM2M_MAX_ID, lifetime := t\<rparr>)\<rparr>, True)) }"

text \<open>A server; without a Server object its pointer is null.\<close>

definition add_server ::
  "('a lwm2m) app_objects \<Rightarrow> ('a lwm2m) platform \<Rightarrow> bool \<Rightarrow> lwm2m_object_t option \<Rightarrow> u16 \<Rightarrow> 'a lwm2m \<Rightarrow> ('a lwm2m \<times> bool) c" where
  "add_server A P checkOnly serverObj i ctx =
     do { (ctx, v) \<leftarrow> read_bounded A P i LWM2M_SECURITY_SHORT_SERVER_ID 1 0xFFFF ctx;
          (case v of
             None \<Rightarrow> Some (ctx, False)
           | Some sid \<Rightarrow>
               do { obj \<leftarrow> serverObj;
                    (ctx, inst) \<leftarrow> prv_findServerInstance A P obj (of_int sid) ctx;
                    (case inst of
                       None \<Rightarrow> Some (ctx, True)
                     | Some j \<Rightarrow>
                         do { (ctx, s, ok) \<leftarrow> prv_getMandatoryInfo A P LWM2M_SERVER_OBJECT_ID j
                                ((new_server i)\<lparr>shortID := of_int sid, servObjInstID := j\<rparr>) ctx;
                              Some (if \<not> ok then (ctx, False)
                                    else if checkOnly then (ctx, True)
                                    else (ctx\<lparr>serverList := LWM2M_LIST_ADD secObjInstID (serverList ctx)
                                            (s\<lparr>server_status := STATE_DEREGISTERED\<rparr>)\<rparr>, True)) }) }) }"

fun get_servers_loop ::
  "('a lwm2m) app_objects \<Rightarrow> ('a lwm2m) platform \<Rightarrow> bool \<Rightarrow> lwm2m_object_t option \<Rightarrow> u16 list \<Rightarrow> 'a lwm2m \<Rightarrow> ('a lwm2m \<times> int) c" where
  "get_servers_loop A P checkOnly serverObj [] ctx = Some (ctx, 0)"
| "get_servers_loop A P checkOnly serverObj (i # is) ctx =
     (if LWM2M_LIST_FIND secObjInstID (bootstrapServerList ctx) i \<noteq> None \<or> LWM2M_LIST_FIND secObjInstID (serverList ctx) i \<noteq> None
      then get_servers_loop A P checkOnly serverObj is ctx
      else do { r \<leftarrow> read_resource A P LWM2M_SECURITY_OBJECT_ID i [LWM2M_SECURITY_BOOTSTRAP_ID] ctx;
                (case r of
                   None \<Rightarrow> Some (ctx, - 1)
                 | Some (ctx, ds, st) \<Rightarrow>
                     if st \<noteq> COAP_205_CONTENT then Some (ctx, - 1)
                     else if \<not> mem_ok P sizeof_server then Some (ctx, - 1)
                     else do { d \<leftarrow> rd ds 0;
                               b \<leftarrow> lwm2m_data_decode_bool d;
                               (case b of
                                  None \<Rightarrow> Some (ctx, - 1)
                                | Some isBootstrap \<Rightarrow>
                                    do { (ctx, ok) \<leftarrow> (if isBootstrap then add_bootstrap_server A P checkOnly i ctx
                                                      else add_server A P checkOnly serverObj i ctx);
                                         if ok then get_servers_loop A P checkOnly serverObj is ctx else Some (ctx, - 1) }) }) })"

definition object_getServers ::
  "('a lwm2m) app_objects \<Rightarrow> ('a lwm2m) platform \<Rightarrow> bool \<Rightarrow> 'a lwm2m \<Rightarrow> ('a lwm2m \<times> int) c" where
  "object_getServers A P checkOnly ctx =
     (case find (\<lambda>x. objID x = LWM2M_SECURITY_OBJECT_ID) (rev (objectList ctx)) of
        None \<Rightarrow> Some (ctx, - 1)
      | Some sec \<Rightarrow>
          get_servers_loop A P checkOnly (find (\<lambda>x. objID x = LWM2M_SERVER_OBJECT_ID) (rev (objectList ctx))) (instanceList sec) ctx)"

section \<open>Updates of the registration\<close>

definition update_status :: "bool \<Rightarrow> lwm2m_server_t \<Rightarrow> lwm2m_server_t" where
  "update_status withObjects s = s\<lparr>server_status := (if withObjects then STATE_REG_FULL_UPDATE_NEEDED else STATE_REG_UPDATE_NEEDED)\<rparr>"

text \<open>The result is \<open>None\<close> when the loop reaches the end of the list.\<close>

fun update_loop :: "u16 \<Rightarrow> bool \<Rightarrow> lwm2m_server_t list \<Rightarrow> lwm2m_server_t list \<times> u8 option" where
  "update_loop sid withObjects [] = ([], None)"
| "update_loop sid withObjects (s # ss) =
     (let updatable = server_status s \<in> {STATE_REGISTERED, STATE_REG_UPDATE_PENDING};
          (ss', r) = update_loop sid withObjects ss in
      if sid \<noteq> 0
      then if shortID s = sid
           then if updatable then (update_status withObjects s # ss, Some COAP_NO_ERROR)
                else if server_status s \<in> {STATE_REG_FULL_UPDATE_NEEDED, STATE_REG_UPDATE_NEEDED}
                then ((if withObjects then s\<lparr>server_status := STATE_REG_FULL_UPDATE_NEEDED\<rparr> else s) # ss, Some COAP_NO_ERROR)
                else (s # ss, Some COAP_400_BAD_REQUEST)
           else (s # ss', r)
      else ((if updatable then update_status withObjects s else s) # ss', r))"

definition lwm2m_update_registration ::
  "('a lwm2m) app_objects \<Rightarrow> ('a lwm2m) platform \<Rightarrow> u16 \<Rightarrow> bool \<Rightarrow> 'a lwm2m \<Rightarrow> ('a lwm2m \<times> u8) c" where
  "lwm2m_update_registration A P sid withObjects ctx =
     (case serverList ctx of
        [] \<Rightarrow> do { (ctx, r) \<leftarrow> object_getServers A P False ctx;
                   Some (ctx, if r = - 1 \<or> sid \<noteq> 0 then COAP_404_NOT_FOUND else COAP_NO_ERROR) }
      | ss \<Rightarrow> (case update_loop sid withObjects ss of (ss', r) \<Rightarrow>
                 Some (ctx\<lparr>serverList := ss'\<rparr>,
                       case r of Some c \<Rightarrow> c | None \<Rightarrow> if sid \<noteq> 0 then COAP_404_NOT_FOUND else COAP_NO_ERROR)))"

text \<open>The state of all registrations together.\<close>

fun status_loop :: "lwm2m_server_t list \<Rightarrow> lwm2m_status_t \<Rightarrow> lwm2m_status_t" where
  "status_loop [] st = st"
| "status_loop (s # ss) st =
     status_loop ss
       (if server_status s \<in> {STATE_REGISTERED, STATE_REG_UPDATE_NEEDED, STATE_REG_FULL_UPDATE_NEEDED, STATE_REG_UPDATE_PENDING, STATE_DEREG_PENDING}
        then if st = STATE_REG_FAILED then STATE_REGISTERED else st
        else if server_status s \<in> {STATE_REG_HOLD_OFF, STATE_REG_PENDING} then STATE_REG_PENDING else st)"

definition registration_getStatus :: "'a lwm2m \<Rightarrow> lwm2m_status_t" where
  "registration_getStatus ctx = status_loop (serverList ctx) STATE_REG_FAILED"


section \<open>The lists of servers\<close>

text \<open>Both lists are ascending and no Security instance is in both.\<close>

definition servers_ok :: "'a lwm2m \<Rightarrow> bool" where
  "servers_ok ctx \<longleftrightarrow> sorted_ids secObjInstID (serverList ctx) \<and> sorted_ids secObjInstID (bootstrapServerList ctx) \<and>
     secObjInstID ` set (serverList ctx) \<inter> secObjInstID ` set (bootstrapServerList ctx) = {}"

definition same_servers :: "'a lwm2m \<Rightarrow> 'a lwm2m \<Rightarrow> bool" where
  "same_servers ctx ctx' \<longleftrightarrow> serverList ctx' = serverList ctx \<and> bootstrapServerList ctx' = bootstrapServerList ctx"

text \<open>The read callbacks leave the lists alone.\<close>

definition reads_keep_servers :: "('a lwm2m) app_objects \<Rightarrow> bool" where
  "reads_keep_servers A \<longleftrightarrow> (\<forall>oid f c i ds. readFunc A oid = Some f \<longrightarrow> same_servers c (fst (f c i ds)))"

lemma same_servers_refl [simp]: "same_servers c c" by (simp add: same_servers_def)

lemma same_servers_trans: "same_servers a b \<Longrightarrow> same_servers b c \<Longrightarrow> same_servers a c" by (simp add: same_servers_def)

lemma same_read_resource:
  assumes "reads_keep_servers A" and "read_resource A P oid i rids ctx = Some (Some (ctx', r))"
  shows "same_servers ctx ctx'"
proof -
  obtain f ds where "readFunc A oid = Some f" "f ctx i ds = (ctx', r)"
    using assms(2) by (auto simp: read_resource_def bind_eq_Some_conv split: option.splits)
  then show ?thesis using assms(1) unfolding reads_keep_servers_def by (metis fst_conv)
qed

lemma same_find_instance:
  assumes "reads_keep_servers A"
  shows "find_instance_loop A P sid is ctx = Some (ctx', r) \<Longrightarrow> same_servers ctx ctx'"
proof (induction "is" arbitrary: ctx)
  case (Cons i "is")
  then show ?case
    using same_read_resource [OF assms] same_servers_trans
    by (fastforce simp: bind_eq_Some_conv split: option.split_asm if_split_asm)
qed simp

lemma same_read_bounded:
  assumes "reads_keep_servers A" and "read_bounded A P i rid lo hi ctx = Some (ctx', v)"
  shows "same_servers ctx ctx' \<and> (\<forall>x. v = Some x \<longrightarrow> lo \<le> x \<and> x \<le> hi)"
  using assms(2) same_read_resource [OF assms(1)]
  by (fastforce simp: read_bounded_def bind_eq_Some_conv split: option.split_asm if_split_asm)

lemma same_mandatory:
  assumes "reads_keep_servers A" and "prv_getMandatoryInfo A P oid j s ctx = Some (ctx', s', ok)"
  shows "same_servers ctx ctx' \<and> secObjInstID s' = secObjInstID s \<and> shortID s' = shortID s"
proof -
  obtain r where r: "read_resource A P oid j [LWM2M_SERVER_LIFETIME_ID, LWM2M_SERVER_BINDING_ID] ctx = Some r"
    using assms(2) by (auto simp: prv_getMandatoryInfo_def bind_eq_Some_conv)
  show ?thesis
  proof (cases r)
    case None
    then show ?thesis using assms(2) r by (simp add: prv_getMandatoryInfo_def)
  next
    case (Some x)
    obtain ctx1 ds st where x: "x = (ctx1, ds, st)" by (cases x)
    have "same_servers ctx ctx1" using same_read_resource [OF assms(1)] r Some x by blast
    moreover have "ctx' = ctx1 \<and> secObjInstID s' = secObjInstID s \<and> shortID s' = shortID s"
      using assms(2) r Some x by (auto simp: prv_getMandatoryInfo_def bind_eq_Some_conv split: option.split_asm if_split_asm)
    ultimately show ?thesis by simp
  qed
qed

text \<open>What a step of the loop may do to the lists: insert one new entry with the identifier.\<close>

definition adds_server :: "bool \<Rightarrow> u16 \<Rightarrow> 'a lwm2m \<Rightarrow> 'a lwm2m \<Rightarrow> bool" where
  "adds_server checkOnly i ctx ctx' \<longleftrightarrow> same_servers ctx ctx' \<or> \<not> checkOnly \<and>
     (\<exists>s. secObjInstID s = i \<and>
        (serverList ctx' = serverList ctx \<and> bootstrapServerList ctx' = LWM2M_LIST_ADD secObjInstID (bootstrapServerList ctx) s \<or>
         bootstrapServerList ctx' = bootstrapServerList ctx \<and> serverList ctx' = LWM2M_LIST_ADD secObjInstID (serverList ctx) s \<and>
         server_status s = STATE_DEREGISTERED \<and> shortID s \<noteq> 0))"

lemma adds_serverI:
  "same_servers ctx ctx' \<Longrightarrow> adds_server checkOnly i ctx ctx'"
  "same_servers ctx ctx1 \<Longrightarrow> \<not> checkOnly \<Longrightarrow> secObjInstID s = i \<Longrightarrow>
   adds_server checkOnly i ctx (ctx1\<lparr>bootstrapServerList := LWM2M_LIST_ADD secObjInstID (bootstrapServerList ctx1) s\<rparr>)"
  "same_servers ctx ctx1 \<Longrightarrow> \<not> checkOnly \<Longrightarrow> secObjInstID s = i \<Longrightarrow> server_status s = STATE_DEREGISTERED \<Longrightarrow> shortID s \<noteq> 0 \<Longrightarrow>
   adds_server checkOnly i ctx (ctx1\<lparr>serverList := LWM2M_LIST_ADD secObjInstID (serverList ctx1) s\<rparr>)"
  by (auto simp: adds_server_def same_servers_def)

lemma adds_bootstrap:
  assumes "reads_keep_servers A" and "add_bootstrap_server A P checkOnly i ctx = Some (ctx', ok)"
  shows "adds_server checkOnly i ctx ctx'"
proof -
  obtain ctx1 v where v: "read_bounded A P i LWM2M_SECURITY_HOLD_OFF_ID 0 0xFFFFFFFF ctx = Some (ctx1, v)"
    using assms(2) by (auto simp: add_bootstrap_server_def bind_eq_Some_conv)
  from same_read_bounded [OF assms(1) v] have "same_servers ctx ctx1" by simp
  then show ?thesis
    using assms(2) v by (cases v) (auto simp: add_bootstrap_server_def new_server_def adds_serverI)
qed

lemma adds_add_server:
  assumes "reads_keep_servers A" and "add_server A P checkOnly serverObj i ctx = Some (ctx', ok)"
  shows "adds_server checkOnly i ctx ctx'"
proof -
  obtain ctx1 v where v: "read_bounded A P i LWM2M_SECURITY_SHORT_SERVER_ID 1 0xFFFF ctx = Some (ctx1, v)"
    using assms(2) by (auto simp: add_server_def bind_eq_Some_conv)
  note b = same_read_bounded [OF assms(1) v]
  show ?thesis
  proof (cases v)
    case None
    then show ?thesis using assms(2) v b by (simp add: add_server_def adds_server_def)
  next
    case (Some sid)
    then obtain obj ctx2 inst where f: "find_instance_loop A P (of_int sid) (instanceList obj) ctx1 = Some (ctx2, inst)" "serverObj = Some obj"
      using assms(2) v by (auto simp: add_server_def bind_eq_Some_conv prv_findServerInstance_def)
    note s2 = same_servers_trans [OF conjunct1 [OF b] same_find_instance [OF assms(1) f(1)]]
    have sid: "(of_int sid :: u16) \<noteq> 0" using b Some by (auto simp: word_of_int_eq_0_iff dvd_eq_mod_eq_0)
    show ?thesis
    proof (cases inst)
      case None
      then show ?thesis using assms(2) v Some f s2 by (simp add: add_server_def prv_findServerInstance_def adds_serverI)
    next
      case (Some j)
      then obtain ctx3 s ok3 where m: "prv_getMandatoryInfo A P LWM2M_SERVER_OBJECT_ID j ((new_server i)\<lparr>shortID := of_int sid, servObjInstID := j\<rparr>) ctx2 =
          Some (ctx3, s, ok3)"
        using assms(2) v \<open>v = Some sid\<close> f by (auto simp: add_server_def prv_findServerInstance_def bind_eq_Some_conv)
      note s3 = same_mandatory [OF assms(1) m]
      have "same_servers ctx ctx3" "secObjInstID s = i" "shortID s \<noteq> 0"
        using s3 same_servers_trans [OF s2] sid by (simp_all add: new_server_def)
      then show ?thesis
        using assms(2) v \<open>v = Some sid\<close> Some f m
        by (auto simp: add_server_def prv_findServerInstance_def adds_serverI split: if_split_asm)
    qed
  qed
qed

lemma adds_server_ok:
  assumes "adds_server checkOnly i ctx ctx'" and "servers_ok ctx" and "i \<notin> secObjInstID ` set (serverList ctx)"
    and "i \<notin> secObjInstID ` set (bootstrapServerList ctx)"
  shows "servers_ok ctx'"
proof -
  consider "same_servers ctx ctx'" | s where "secObjInstID s = i" "serverList ctx' = serverList ctx"
      "bootstrapServerList ctx' = LWM2M_LIST_ADD secObjInstID (bootstrapServerList ctx) s"
    | s where "secObjInstID s = i" "bootstrapServerList ctx' = bootstrapServerList ctx"
      "serverList ctx' = LWM2M_LIST_ADD secObjInstID (serverList ctx) s"
    using assms(1) by (auto simp: adds_server_def)
  then show ?thesis using assms(2-4) by cases (simp_all add: same_servers_def servers_ok_def sorted_LWM2M_LIST_ADD)
qed

text \<open>What the whole loop does: entries are only added, none when it only checks.\<close>

definition servers_grown :: "bool \<Rightarrow> 'a lwm2m \<Rightarrow> 'a lwm2m \<Rightarrow> bool" where
  "servers_grown checkOnly ctx ctx' \<longleftrightarrow>
     set (serverList ctx) \<subseteq> set (serverList ctx') \<and> set (bootstrapServerList ctx) \<subseteq> set (bootstrapServerList ctx') \<and>
     (\<forall>s\<in>set (serverList ctx'). s \<in> set (serverList ctx) \<or> server_status s = STATE_DEREGISTERED \<and> shortID s \<noteq> 0) \<and>
     (checkOnly \<longrightarrow> same_servers ctx ctx')"

lemma servers_grown_trans: "servers_grown b x y \<Longrightarrow> servers_grown b y z \<Longrightarrow> servers_grown b x z"
  by (auto simp: servers_grown_def same_servers_def)

lemma adds_grown: "adds_server checkOnly i ctx ctx' \<Longrightarrow> servers_grown checkOnly ctx ctx'"
  by (auto simp: adds_server_def servers_grown_def same_servers_def)

lemma get_servers_step:
  assumes "get_servers_loop A P checkOnly serverObj (i # is) ctx = Some (ctx', r)"
    and "\<not> (LWM2M_LIST_FIND secObjInstID (bootstrapServerList ctx) i \<noteq> None \<or> LWM2M_LIST_FIND secObjInstID (serverList ctx) i \<noteq> None)"
    and "read_resource A P LWM2M_SECURITY_OBJECT_ID i [LWM2M_SECURITY_BOOTSTRAP_ID] ctx = Some (Some (ctx1, ds, st))"
  shows "ctx' = ctx1 \<or> (\<exists>isb c ok.
    (if isb then add_bootstrap_server A P checkOnly i ctx1 else add_server A P checkOnly serverObj i ctx1) = Some (c, ok) \<and>
    (if ok then get_servers_loop A P checkOnly serverObj is c else Some (c, - 1)) = Some (ctx', r))"
proof -
  let ?rest = "\<lambda>b. (case b of None \<Rightarrow> Some (ctx1, - 1)
     | Some isBootstrap \<Rightarrow>
        do { (ctx, ok) \<leftarrow> (if isBootstrap then add_bootstrap_server A P checkOnly i ctx1 else add_server A P checkOnly serverObj i ctx1);
             if ok then get_servers_loop A P checkOnly serverObj is ctx else Some (ctx, - 1) })"
  have "(if st \<noteq> COAP_205_CONTENT then Some (ctx1, - 1) else if \<not> mem_ok P sizeof_server then Some (ctx1, - 1)
      else do { d \<leftarrow> rd ds 0; b \<leftarrow> lwm2m_data_decode_bool d; ?rest b }) = Some (ctx', r)"
    using assms(1) unfolding get_servers_loop.simps(2) if_not_P [OF assms(2)] assms(3) bind.bind_lunit option.case prod.case .
  then have "ctx' = ctx1 \<or> (\<exists>b. ?rest b = Some (ctx', r))"
    by (auto simp: bind_eq_Some_conv split: if_split_asm)
  moreover {
    fix b assume r: "?rest b = Some (ctx', r)"
    have "ctx' = ctx1 \<or> (\<exists>isb c ok.
      (if isb then add_bootstrap_server A P checkOnly i ctx1 else add_server A P checkOnly serverObj i ctx1) = Some (c, ok) \<and>
      (if ok then get_servers_loop A P checkOnly serverObj is c else Some (c, - 1)) = Some (ctx', r))"
    proof (cases b)
      case None
      then show ?thesis using r by simp
    next
      case (Some isb)
      then show ?thesis using r unfolding Some option.case bind_eq_Some_conv by fastforce
    qed
  }
  ultimately show ?thesis by blast
qed

lemma get_servers_loop_ok:
  assumes "reads_keep_servers A"
  shows "get_servers_loop A P checkOnly serverObj is ctx = Some (ctx', r) \<Longrightarrow> servers_ok ctx \<Longrightarrow>
    servers_ok ctx' \<and> servers_grown checkOnly ctx ctx'"
proof (induction "is" arbitrary: ctx)
  case Nil
  then show ?case by (simp add: servers_grown_def)
next
  case (Cons i "is")
  show ?case
  proof (cases "LWM2M_LIST_FIND secObjInstID (bootstrapServerList ctx) i \<noteq> None \<or> LWM2M_LIST_FIND secObjInstID (serverList ctx) i \<noteq> None")
    case True
    then show ?thesis using Cons by auto
  next
    case False
    then have new: "i \<notin> secObjInstID ` set (serverList ctx)" "i \<notin> secObjInstID ` set (bootstrapServerList ctx)"
      using Cons.prems(2) by (simp_all add: servers_ok_def LWM2M_LIST_FIND_None)
    have "\<exists>ctx2. adds_server checkOnly i ctx ctx2 \<and> (ctx' = ctx2 \<or> get_servers_loop A P checkOnly serverObj is ctx2 = Some (ctx', r))"
    proof -
      obtain x where x: "read_resource A P LWM2M_SECURITY_OBJECT_ID i [LWM2M_SECURITY_BOOTSTRAP_ID] ctx = Some x"
        using Cons.prems(1) False by (auto simp: bind_eq_Some_conv)
      show ?thesis
      proof (cases x)
        case None
        then have "ctx' = ctx" using Cons.prems(1) False x by auto
        then show ?thesis using adds_serverI(1) [OF same_servers_refl] by blast
      next
        case (Some y)
        obtain ctx1 ds st where y: "y = (ctx1, ds, st)" by (cases y)
        have s1: "same_servers ctx ctx1" using same_read_resource [OF assms] x Some y by blast
        then have k: "adds_server checkOnly i ctx1 c \<Longrightarrow> adds_server checkOnly i ctx c" for c
          by (simp add: adds_server_def same_servers_def)
        consider "ctx' = ctx1" | isb c ok where
            "(if isb then add_bootstrap_server A P checkOnly i ctx1 else add_server A P checkOnly serverObj i ctx1) = Some (c, ok)"
            "(if ok then get_servers_loop A P checkOnly serverObj is c else Some (c, - 1)) = Some (ctx', r)"
          using get_servers_step [OF Cons.prems(1) False x [unfolded Some y]] by blast
        then show ?thesis
        proof cases
          case 1
          then show ?thesis using adds_serverI(1) [OF s1] by blast
        next
          case (2 isb c ok)
          have "adds_server checkOnly i ctx1 c"
            using 2(1) adds_bootstrap [OF assms] adds_add_server [OF assms] by (cases isb) simp_all
          then show ?thesis using k 2(2) by (cases ok) auto
        qed
      qed
    qed
    then obtain ctx2 where a: "adds_server checkOnly i ctx ctx2" and
      rest: "ctx' = ctx2 \<or> get_servers_loop A P checkOnly serverObj is ctx2 = Some (ctx', r)" by blast
    from adds_server_ok [OF a Cons.prems(2) new] adds_grown [OF a] rest Cons.IH [of ctx2] servers_grown_trans show ?thesis by blast
  qed
qed


section \<open>Properties\<close>

text \<open>C27: as long as reading an object leaves the lists of servers alone, \<open>object_getServers\<close> keeps them
ascending and disjoint: no Security instance is entered twice.  Entries are only added, the new
servers are deregistered and have a short identifier, and a mere check changes nothing.\<close>

theorem getServers_keeps_lists:
  assumes "reads_keep_servers A" and "servers_ok ctx" and "object_getServers A P checkOnly ctx = Some (ctx', r)"
  shows "servers_ok ctx' \<and> servers_grown checkOnly ctx ctx'"
proof (cases "find (\<lambda>x. objID x = LWM2M_SECURITY_OBJECT_ID) (rev (objectList ctx))")
  case None
  then show ?thesis using assms(2,3) by (simp add: object_getServers_def servers_grown_def)
next
  case (Some sec)
  then show ?thesis using assms(2,3) get_servers_loop_ok [OF assms(1)] by (simp add: object_getServers_def)
qed

text \<open>A client with a Security object for one server, which it does not know yet.\<close>

definition security_app :: "('a lwm2m) app_objects" where
  "security_app = example_app\<lparr>readFunc := (\<lambda>oid. Some (\<lambda>c i ds.
     (c, map (\<lambda>d. if oid = 0 \<and> data_id d = LWM2M_SECURITY_BOOTSTRAP_ID then Data LWM2M_TYPE_BOOLEAN (data_id d) (asBoolean False)
               else if data_id d = LWM2M_SERVER_BINDING_ID then Data LWM2M_TYPE_STRING (data_id d) (asBuffer (str ''U''))
               else Data LWM2M_TYPE_INTEGER (data_id d) (asInteger 123)) ds, COAP_205_CONTENT)))\<rparr>"

definition new_client :: lwm2m_context_t where
  "new_client = example_lwm2m\<lparr>serverList := [], objectList := [\<lparr>objID = 0, versionMajor = 0, versionMinor = 0, instanceList = [4]\<rparr>,
     \<lparr>objID = 1, versionMajor = 0, versionMinor = 0, instanceList = [7]\<rparr>]\<rparr>"

lemma security_app_reads: "reads_keep_servers (security_app :: ('a lwm2m) app_objects)"
  by (auto simp: reads_keep_servers_def security_app_def)

lemma new_client_servers:
  "object_getServers security_app lwm2m_platform False new_client =
     Some (new_client\<lparr>serverList := [(new_server 4)\<lparr>shortID := 123, servObjInstID := 7, lifetime := 123, binding := BINDING_UNKNOWN OR BINDING_U\<rparr>]\<rparr>, 0)"
  by (simp add: object_getServers_def new_client_def example_lwm2m_def security_app_def read_resource_def LWM2M_SECURITY_OBJECT_ID_def
    LWM2M_SERVER_OBJECT_ID_def LWM2M_SECURITY_BOOTSTRAP_ID_def LWM2M_SECURITY_SHORT_SERVER_ID_def LWM2M_SERVER_SHORT_ID_ID_def
    LWM2M_SERVER_LIFETIME_ID_def LWM2M_SERVER_BINDING_ID_def lwm2m_data_new_def lwm2m_platform_def rd_def lwm2m_data_decode_bool_def
    add_server_def read_bounded_def prv_findServerInstance_def prv_getMandatoryInfo_def lwm2m_data_decode_int_def new_server_def
    utils_stringToBinding_def binding_flag_def str_def chr_def BINDING_UNKNOWN_def BINDING_U_def)

theorem getServers_keeps_lists_witness:
  "\<exists>s. object_getServers security_app lwm2m_platform False new_client = Some (new_client\<lparr>serverList := [s]\<rparr>, 0) \<and>
     servers_ok (new_client\<lparr>serverList := [s]\<rparr>) \<and> servers_grown False new_client (new_client\<lparr>serverList := [s]\<rparr>)"
proof -
  have "servers_ok new_client" by (simp add: servers_ok_def new_client_def example_lwm2m_def)
  from new_client_servers getServers_keeps_lists [OF security_app_reads this new_client_servers] show ?thesis by blast
qed

text \<open>The state of the registrations as the header of the function describes it.\<close>

definition pending :: "lwm2m_server_t \<Rightarrow> bool" where
  "pending s \<longleftrightarrow> server_status s \<in> {STATE_REG_HOLD_OFF, STATE_REG_PENDING}"

definition registered :: "lwm2m_server_t \<Rightarrow> bool" where
  "registered s \<longleftrightarrow> server_status s \<in> {STATE_REGISTERED, STATE_REG_UPDATE_NEEDED, STATE_REG_FULL_UPDATE_NEEDED, STATE_REG_UPDATE_PENDING, STATE_DEREG_PENDING}"

lemma status_loop_step:
  "status_loop (s # ss) st = status_loop ss (if registered s then if st = STATE_REG_FAILED then STATE_REGISTERED else st
     else if pending s then STATE_REG_PENDING else st)"
  by (simp only: status_loop.simps registered_def pending_def)

lemma status_loop_eq:
  "st \<in> {STATE_REG_FAILED, STATE_REGISTERED, STATE_REG_PENDING} \<Longrightarrow>
   status_loop ss st = (if st = STATE_REG_PENDING \<or> (\<exists>s\<in>set ss. pending s) then STATE_REG_PENDING
     else if st = STATE_REGISTERED \<or> (\<exists>s\<in>set ss. registered s) then STATE_REGISTERED else STATE_REG_FAILED)"
proof (induction ss arbitrary: st)
  case (Cons s ss)
  consider "pending s" "\<not> registered s" | "registered s" "\<not> pending s" | "\<not> pending s" "\<not> registered s"
    by (cases "server_status s") (simp_all add: pending_def registered_def)
  then show ?case
  proof cases
    case 1
    then show ?thesis using Cons.IH [of STATE_REG_PENDING] by (simp add: status_loop_step del: status_loop.simps)
  next
    case 2
    then show ?thesis using Cons.prems Cons.IH [of "if st = STATE_REG_FAILED then STATE_REGISTERED else st"]
      by (cases "st = STATE_REG_FAILED") (auto simp: status_loop_step simp del: status_loop.simps)
  next
    case 3
    then show ?thesis using Cons.prems Cons.IH [of st] by (simp add: status_loop_step del: status_loop.simps)
  qed
qed auto

text \<open>\<open>registration_getStatus\<close> is pending if a registration is pending or held off, else registered if the
client is registered with a server, else failed.\<close>

theorem registration_status_correct:
  "registration_getStatus ctx = (if Ex (\<lambda>s. s \<in> set (serverList ctx) \<and> pending s) then STATE_REG_PENDING
     else if Ex (\<lambda>s. s \<in> set (serverList ctx) \<and> registered s) then STATE_REGISTERED else STATE_REG_FAILED)"
  by (simp add: registration_getStatus_def status_loop_eq Bex_def)

lemma update_all: "update_loop 0 withObjects ss = (map (\<lambda>s. if server_status s \<in> {STATE_REGISTERED, STATE_REG_UPDATE_PENDING}
    then update_status withObjects s else s) ss, None)"
  by (induction ss) auto

end
