(* ===== verification/Management.thy ===== *)
theory Management
  imports Servers
begin

text \<open>
  Device management on the client (\<^verbatim>\<open>core/management.c\<close>): the attributes of a Write-Attributes request and
  the handler of the requests of a server, which closes the dispatcher's parameter of that name.

  A query option lies in the received datagram.  \<open>lwm2m_strncmp\<close> does not know its length, so an option
  is given with the bytes behind it in memory; to read further than those is \<open>None\<close>.  The inner \<open>None\<close>
  of a result is the returned -1.
\<close>

section \<open>Attributes\<close>

definition ATTR_MIN_PERIOD_STR :: bytes where "ATTR_MIN_PERIOD_STR = str ''pmin=''"
definition ATTR_MAX_PERIOD_STR :: bytes where "ATTR_MAX_PERIOD_STR = str ''pmax=''"
definition ATTR_GREATER_THAN_STR :: bytes where "ATTR_GREATER_THAN_STR = str ''gt=''"
definition ATTR_LESS_THAN_STR :: bytes where "ATTR_LESS_THAN_STR = str ''lt=''"
definition ATTR_STEP_STR :: bytes where "ATTR_STEP_STR = str ''st=''"

lemmas ATTR_STRS = ATTR_MIN_PERIOD_STR_def ATTR_MAX_PERIOD_STR_def ATTR_GREATER_THAN_STR_def ATTR_LESS_THAN_STR_def ATTR_STEP_STR_def

text \<open>\<open>strncmp\<close> with a text without zero characters of the given length: equality.\<close>

fun strncmp_eq :: "bytes \<Rightarrow> bytes \<Rightarrow> bool c" where
  "strncmp_eq s [] = Some True"
| "strncmp_eq [] (c # cs) = None"
| "strncmp_eq (b # s) (c # cs) = (if b = c then strncmp_eq s cs else Some False)"

text \<open>The number behind the first \<open>n\<close> characters.  If the option is shorter, the length is negative:
  \<open>utils_textToInt\<close> reads one character and returns the number 0; \<open>utils_textToFloat\<close> allocates the
  length plus one, converted to \<open>size_t\<close>, and copies a negative length.\<close>

definition attr_int :: "bytes \<Rightarrow> bytes \<Rightarrow> nat \<Rightarrow> u64 option c" where
  "attr_int data behind n =
     (if length data = n then Some None
      else if length data > n then Some (utils_textToInt (drop n data))
      else do { _ \<leftarrow> rd (data @ behind) n; Some (Some 0) })"

definition attr_float :: "(nat \<Rightarrow> bool) \<Rightarrow> bytes \<Rightarrow> nat \<Rightarrow> u64 option c" where
  "attr_float mem data n =
     (if length data = n then Some None
      else if length data > n then Some (utils_textToFloat mem (drop n data) False)
      else if mem (nat ((int (length data) - int n + 1) mod 2 ^ 64)) then None
      else Some None)"

text \<open>An attribute with its two forms: \<open>key=value\<close> and the bare key, which clears it.\<close>

definition try_attribute ::
  "bytes \<Rightarrow> u8 \<Rightarrow> u64 option c \<Rightarrow> (u64 \<Rightarrow> bool) \<Rightarrow> (u64 \<Rightarrow> lwm2m_attributes_t \<Rightarrow> lwm2m_attributes_t) \<Rightarrow> bytes \<Rightarrow> bytes \<Rightarrow>
   lwm2m_attributes_t \<Rightarrow> lwm2m_attributes_t option c \<Rightarrow> lwm2m_attributes_t option c" where
  "try_attribute key flag num negative upd data behind attr other =
     do { sets \<leftarrow> strncmp_eq (data @ behind) key;
          if sets
          then if (toSet attr OR toClear attr) AND flag \<noteq> 0 then Some None
               else do { v \<leftarrow> num;
                         Some (case v of
                                 None \<Rightarrow> None
                               | Some v \<Rightarrow> if negative v then None else Some (upd v (attr\<lparr>toSet := toSet attr OR flag\<rparr>))) }
          else do { clears \<leftarrow> strncmp_eq (data @ behind) (butlast key);
                    if clears
                    then if (toSet attr OR toClear attr) AND flag \<noteq> 0 then Some None
                         else if length data \<noteq> length key - 1 then Some None
                         else Some (Some (attr\<lparr>toClear := toClear attr OR flag\<rparr>))
                    else other } }"

definition read_attribute :: "(nat \<Rightarrow> bool) \<Rightarrow> bytes \<Rightarrow> bytes \<Rightarrow> lwm2m_attributes_t \<Rightarrow> lwm2m_attributes_t option c" where
  "read_attribute mem data behind attr =
     try_attribute ATTR_MIN_PERIOD_STR LWM2M_ATTR_FLAG_MIN_PERIOD (attr_int data behind 5) (\<lambda>v. sint v < 0)
       (\<lambda>v a. a\<lparr>minPeriod := ucast v\<rparr>) data behind attr
    (try_attribute ATTR_MAX_PERIOD_STR LWM2M_ATTR_FLAG_MAX_PERIOD (attr_int data behind 5) (\<lambda>v. sint v < 0)
       (\<lambda>v a. a\<lparr>maxPeriod := ucast v\<rparr>) data behind attr
    (try_attribute ATTR_GREATER_THAN_STR LWM2M_ATTR_FLAG_GREATER_THAN (attr_float mem data 3) (\<lambda>v. False)
       (\<lambda>v a. a\<lparr>greaterThan := v\<rparr>) data behind attr
    (try_attribute ATTR_LESS_THAN_STR LWM2M_ATTR_FLAG_LESS_THAN (attr_float mem data 3) (\<lambda>v. False)
       (\<lambda>v a. a\<lparr>lessThan := v\<rparr>) data behind attr
    (try_attribute ATTR_STEP_STR LWM2M_ATTR_FLAG_STEP (attr_float mem data 3) (\<lambda>v. double_lt v 0)
       (\<lambda>v a. a\<lparr>step_attr := v\<rparr>) data behind attr
    (Some None)))))"

fun read_attributes_loop :: "(nat \<Rightarrow> bool) \<Rightarrow> (bytes \<times> bytes) list \<Rightarrow> lwm2m_attributes_t \<Rightarrow> lwm2m_attributes_t option c" where
  "read_attributes_loop mem [] attr = Some (Some attr)"
| "read_attributes_loop mem ((data, behind) # qs) attr =
     do { r \<leftarrow> read_attribute mem data behind attr;
          case r of None \<Rightarrow> Some None | Some attr \<Rightarrow> read_attributes_loop mem qs attr }"

definition no_attributes :: lwm2m_attributes_t where
  "no_attributes = \<lparr>toSet = 0, toClear = 0, minPeriod = 0, maxPeriod = 0, greaterThan = 0, lessThan = 0, step_attr = 0\<rparr>"

text \<open>\<open>behind i\<close> are the bytes behind the \<open>i\<close>-th option.\<close>

definition prv_readAttributes :: "(nat \<Rightarrow> bool) \<Rightarrow> (nat \<Rightarrow> bytes) \<Rightarrow> bytes list \<Rightarrow> lwm2m_attributes_t option c" where
  "prv_readAttributes mem behind query = read_attributes_loop mem (zip query (map behind [0..<length query])) no_attributes"

section \<open>Requests\<close>

definition COAP_PUT :: u8 where "COAP_PUT = 3"

text \<open>The answer with a payload.\<close>

definition dm_content :: "coap_packet_t \<Rightarrow> u16 \<Rightarrow> bytes option \<Rightarrow> coap_packet_t" where
  "dm_content response fmt b = fst (coap_set_payload (fst (coap_set_header_content_type response (ucast fmt))) b)"

definition dm_observe ::
  "('a lwm2m) app_objects \<Rightarrow> data_formats \<Rightarrow> ('a lwm2m) platform \<Rightarrow> lwm2m_uri_t \<Rightarrow> lwm2m_server_t \<Rightarrow> coap_packet_t \<Rightarrow> coap_packet_t \<Rightarrow>
   'a lwm2m \<Rightarrow> ('a lwm2m \<times> coap_packet_t \<times> u8) c" where
  "dm_observe A F P uri srv m response ctx =
     (case object_readData A P uri ctx of (ctx, ds, result) \<Rightarrow>
        if result \<noteq> COAP_205_CONTENT then Some (ctx, response, result)
        else case utils_getResponseFormat (accept m) (map data_type ds) (LWM2M_URI_IS_SET_RESOURCE uri) of (result, fmt) \<Rightarrow>
          if result \<noteq> COAP_205_CONTENT then Some (ctx, response, result)
          else do { (ctx, response, result) \<leftarrow> observe_handleRequest P uri (secObjInstID srv) ds m
                      (fst (coap_set_header_content_type response (ucast fmt))) ctx;
                    if result \<noteq> COAP_205_CONTENT then Some (ctx, response, result)
                    else do { (n, b, fmt) \<leftarrow> lwm2m_data_serialize F (mem_ok P) (Some uri) ds fmt;
                              Some (if n < 0 then (ctx, response, COAP_500_INTERNAL_SERVER_ERROR)
                                    else (ctx, dm_content response fmt b, COAP_205_CONTENT)) } })"

definition dm_get ::
  "('a lwm2m) app_objects \<Rightarrow> data_formats \<Rightarrow> ('a lwm2m) platform \<Rightarrow> lwm2m_uri_t \<Rightarrow> lwm2m_server_t \<Rightarrow> u16 \<Rightarrow> coap_packet_t \<Rightarrow> coap_packet_t \<Rightarrow>
   'a lwm2m \<Rightarrow> ('a lwm2m \<times> coap_packet_t \<times> u8) c" where
  "dm_get A F P uri srv fmt m response ctx =
     (if IS_OPTION m COAP_OPTION_OBSERVE then dm_observe A F P uri srv m response ctx
      else do { (ctx, result, b, fmt) \<leftarrow>
                  (if IS_OPTION m COAP_OPTION_ACCEPT \<and> accept m = [APPLICATION_LINK_FORMAT]
                   then do { (ctx, result, b) \<leftarrow> object_discover A F P uri (secObjInstID srv) ctx;
                             Some (ctx, result, b, LWM2M_CONTENT_LINK) }
                   else object_read A F P uri (accept m) fmt ctx);
                Some (if result = COAP_205_CONTENT then (ctx, dm_content response fmt b, result) else (ctx, response, result)) })"

definition location_text :: "lwm2m_uri_t \<Rightarrow> bytes" where
  "location_text uri = chr CHR ''/'' # dec_text (unat (objectId uri)) @ chr CHR ''/'' # dec_text (unat (instanceId uri))"

definition dm_create ::
  "('a lwm2m) app_objects \<Rightarrow> data_formats \<Rightarrow> ('a lwm2m) platform \<Rightarrow> lwm2m_uri_t \<Rightarrow> u16 \<Rightarrow> coap_packet_t \<Rightarrow> coap_packet_t \<Rightarrow>
   'a lwm2m \<Rightarrow> ('a lwm2m \<times> coap_packet_t \<times> u8) c" where
  "dm_create A F P uri fmt m response ctx =
     do { (ctx, result, uri) \<leftarrow> object_create A F P uri fmt (payload m) ctx;
          if result \<noteq> COAP_201_CREATED then Some (ctx, response, result)
          else if \<not> LWM2M_URI_IS_SET_INSTANCE uri then Some (ctx, response, COAP_500_INTERNAL_SERVER_ERROR)
          else do { (ctx, _) \<leftarrow> lwm2m_update_registration A P 0 True ctx;
                    Some (ctx, fst (coap_set_header_location_path (mem_ok P) response (location_text uri)), result) } }"

definition dm_post ::
  "('a lwm2m) app_objects \<Rightarrow> data_formats \<Rightarrow> ('a lwm2m) platform \<Rightarrow> lwm2m_uri_t \<Rightarrow> u16 \<Rightarrow> coap_packet_t \<Rightarrow> coap_packet_t \<Rightarrow>
   'a lwm2m \<Rightarrow> ('a lwm2m \<times> coap_packet_t \<times> u8) c" where
  "dm_post A F P uri fmt m response ctx =
     (if \<not> LWM2M_URI_IS_SET_INSTANCE uri then dm_create A F P uri fmt m response ctx
      else if \<not> IS_OPTION m COAP_OPTION_CONTENT_TYPE \<or> fmt = LWM2M_CONTENT_TEXT
      then if \<not> LWM2M_URI_IS_SET_RESOURCE uri \<or> LWM2M_URI_IS_SET_RESOURCE_INSTANCE uri
           then Some (ctx, response, COAP_400_BAD_REQUEST)
           else case object_execute A uri (payload m) ctx of (ctx, result) \<Rightarrow> Some (ctx, response, result)
      else do { (ctx, result) \<leftarrow> object_write A F P uri fmt (payload_bytes m) True ctx; Some (ctx, response, result) })"

definition dm_put ::
  "('a lwm2m) app_objects \<Rightarrow> data_formats \<Rightarrow> ('a lwm2m) platform \<Rightarrow> (nat \<Rightarrow> bytes) \<Rightarrow> lwm2m_uri_t \<Rightarrow> lwm2m_server_t \<Rightarrow> u16 \<Rightarrow> coap_packet_t \<Rightarrow>
   coap_packet_t \<Rightarrow> 'a lwm2m \<Rightarrow> ('a lwm2m \<times> coap_packet_t \<times> u8) c" where
  "dm_put A F P behind uri srv fmt m response ctx =
     (if IS_OPTION m COAP_OPTION_URI_QUERY
      then do { r \<leftarrow> prv_readAttributes (mem_ok P) behind (uri_query m);
                case r of
                  None \<Rightarrow> Some (ctx, response, COAP_400_BAD_REQUEST)
                | Some attr \<Rightarrow> do { (ctx, result) \<leftarrow> observe_setParameters A P uri (secObjInstID srv) attr ctx;
                                   Some (ctx, response, result) } }
      else if LWM2M_URI_IS_SET_INSTANCE uri
      then do { (ctx, result) \<leftarrow> object_write A F P uri fmt (payload_bytes m) False ctx; Some (ctx, response, result) }
      else Some (ctx, response, COAP_400_BAD_REQUEST))"

definition dm_delete ::
  "('a lwm2m) app_objects \<Rightarrow> bool \<Rightarrow> ('a lwm2m) platform \<Rightarrow> lwm2m_uri_t \<Rightarrow> coap_packet_t \<Rightarrow> 'a lwm2m \<Rightarrow> ('a lwm2m \<times> coap_packet_t \<times> u8) c" where
  "dm_delete A frees_nodes P uri response ctx =
     (if \<not> LWM2M_URI_IS_SET_INSTANCE uri \<or> LWM2M_URI_IS_SET_RESOURCE uri then Some (ctx, response, COAP_400_BAD_REQUEST)
      else do { (ctx, result) \<leftarrow> object_delete A frees_nodes uri ctx;
                if result = COAP_202_DELETED
                then do { (ctx, _) \<leftarrow> lwm2m_update_registration A P 0 True ctx; Some (ctx, response, result) }
                else Some (ctx, response, result) })"

definition dm_handle ::
  "('a lwm2m) app_objects \<Rightarrow> data_formats \<Rightarrow> bool \<Rightarrow> ('a lwm2m) platform \<Rightarrow> (nat \<Rightarrow> bytes) \<Rightarrow> 'a lwm2m \<Rightarrow> lwm2m_uri_t \<Rightarrow> lwm2m_server_t \<Rightarrow>
   coap_packet_t \<Rightarrow> coap_packet_t \<Rightarrow> ('a lwm2m \<times> coap_packet_t \<times> u8) c" where
  "dm_handle A F frees_nodes P behind ctx uri srv m response =
     (let fmt = (if IS_OPTION m COAP_OPTION_CONTENT_TYPE then utils_convertMediaType (ucast (content_type m)) else LWM2M_CONTENT_TLV) in
      if objectId uri = LWM2M_SECURITY_OBJECT_ID then Some (ctx, response, COAP_401_UNAUTHORIZED)
      else if server_status srv \<notin> {STATE_REGISTERED, STATE_REG_UPDATE_NEEDED, STATE_REG_FULL_UPDATE_NEEDED, STATE_REG_UPDATE_PENDING}
      then Some (ctx, response, COAP_IGNORE)
      else if code m = COAP_GET then dm_get A F P uri srv fmt m response ctx
      else if code m = COAP_POST then dm_post A F P uri fmt m response ctx
      else if code m = COAP_PUT then dm_put A F P behind uri srv fmt m response ctx
      else if code m = COAP_DELETE then dm_delete A frees_nodes P uri response ctx
      else Some (ctx, response, COAP_400_BAD_REQUEST))"


section \<open>The attributes of a request\<close>

text \<open>What a query of the attributes means, independent of its bytes.\<close>

datatype attribute = Pmin | Pmax | Gt | Lt | St

datatype attr_query = Set_attribute attribute bytes | Clear_attribute attribute

fun attribute_key :: "attribute \<Rightarrow> bytes" where
  "attribute_key Pmin = str ''pmin''"
| "attribute_key Pmax = str ''pmax''"
| "attribute_key Gt = str ''gt''"
| "attribute_key Lt = str ''lt''"
| "attribute_key St = str ''st''"

fun attribute_flag :: "attribute \<Rightarrow> u8" where
  "attribute_flag Pmin = LWM2M_ATTR_FLAG_MIN_PERIOD"
| "attribute_flag Pmax = LWM2M_ATTR_FLAG_MAX_PERIOD"
| "attribute_flag Gt = LWM2M_ATTR_FLAG_GREATER_THAN"
| "attribute_flag Lt = LWM2M_ATTR_FLAG_LESS_THAN"
| "attribute_flag St = LWM2M_ATTR_FLAG_STEP"

fun query_attribute :: "attr_query \<Rightarrow> attribute" where
  "query_attribute (Set_attribute a v) = a"
| "query_attribute (Clear_attribute a) = a"

fun query_text :: "attr_query \<Rightarrow> bytes" where
  "query_text (Set_attribute a v) = attribute_key a @ chr CHR ''='' # v"
| "query_text (Clear_attribute a) = attribute_key a"

text \<open>Periods are not negative and stored in 32 bits; a step is not negative.\<close>

fun set_attribute :: "(nat \<Rightarrow> bool) \<Rightarrow> attribute \<Rightarrow> bytes \<Rightarrow> lwm2m_attributes_t \<Rightarrow> lwm2m_attributes_t option" where
  "set_attribute mem Pmin v a = do { x \<leftarrow> utils_textToInt v; if sint x < 0 then None else Some (a\<lparr>minPeriod := ucast x\<rparr>) }"
| "set_attribute mem Pmax v a = do { x \<leftarrow> utils_textToInt v; if sint x < 0 then None else Some (a\<lparr>maxPeriod := ucast x\<rparr>) }"
| "set_attribute mem Gt v a = do { x \<leftarrow> utils_textToFloat mem v False; Some (a\<lparr>greaterThan := x\<rparr>) }"
| "set_attribute mem Lt v a = do { x \<leftarrow> utils_textToFloat mem v False; Some (a\<lparr>lessThan := x\<rparr>) }"
| "set_attribute mem St v a = do { x \<leftarrow> utils_textToFloat mem v False; if double_lt x 0 then None else Some (a\<lparr>step_attr := x\<rparr>) }"

fun apply_query :: "(nat \<Rightarrow> bool) \<Rightarrow> attr_query \<Rightarrow> lwm2m_attributes_t \<Rightarrow> lwm2m_attributes_t option" where
  "apply_query mem (Set_attribute a v) attr = set_attribute mem a v (attr\<lparr>toSet := toSet attr OR attribute_flag a\<rparr>)"
| "apply_query mem (Clear_attribute a) attr = Some (attr\<lparr>toClear := toClear attr OR attribute_flag a\<rparr>)"

text \<open>Every attribute may be named once.\<close>

fun apply_queries :: "(nat \<Rightarrow> bool) \<Rightarrow> attribute list \<Rightarrow> attr_query list \<Rightarrow> lwm2m_attributes_t \<Rightarrow> lwm2m_attributes_t option" where
  "apply_queries mem seen [] attr = Some attr"
| "apply_queries mem seen (q # qs) attr =
     (if query_attribute q \<in> set seen then None
      else do { attr \<leftarrow> apply_query mem q attr; apply_queries mem (query_attribute q # seen) qs attr })"

lemma set_attribute_flags:
  "set_attribute mem a v attr = Some attr' \<Longrightarrow> toSet attr' = toSet attr \<and> toClear attr' = toClear attr"
  by (cases a) (auto simp: bind_eq_Some_conv split: if_split_asm)

lemma read_attribute_query:
  assumes "\<forall>a. q = Clear_attribute a \<longrightarrow> behind \<noteq> [] \<and> hd behind \<noteq> chr CHR ''=''"
  shows "read_attribute mem (query_text q) behind attr =
    Some (if (toSet attr OR toClear attr) AND attribute_flag (query_attribute q) \<noteq> 0 then None else apply_query mem q attr)"
proof (cases q)
  case (Set_attribute a v)
  then show ?thesis
    by (cases a) (auto simp: read_attribute_def try_attribute_def ATTR_STRS str_def chr_def attr_int_def attr_float_def
      utils_textToInt_def utils_textToFloat_def split: option.split)
next
  case (Clear_attribute a)
  then obtain b bs where "behind = b # bs" "b \<noteq> chr CHR ''=''" using assms by (cases behind) auto
  then show ?thesis using Clear_attribute
    by (cases a) (auto simp: read_attribute_def try_attribute_def ATTR_STRS str_def chr_def)
qed

definition seen_attributes :: "attribute list \<Rightarrow> lwm2m_attributes_t \<Rightarrow> bool" where
  "seen_attributes seen attr \<longleftrightarrow> (\<forall>a. (toSet attr OR toClear attr) AND attribute_flag a \<noteq> 0 \<longleftrightarrow> a \<in> set seen)"

lemma attribute_flag_test:
  "(f OR attribute_flag b) AND attribute_flag a \<noteq> 0 \<longleftrightarrow> a = b \<or> f AND attribute_flag a \<noteq> 0"
  by (cases a; cases b) (simp_all add: bit.conj_disj_distrib2 or_eq_0_iff LWM2M_ATTR_FLAG_MIN_PERIOD_def LWM2M_ATTR_FLAG_MAX_PERIOD_def
    LWM2M_ATTR_FLAG_GREATER_THAN_def LWM2M_ATTR_FLAG_LESS_THAN_def LWM2M_ATTR_FLAG_STEP_def)

lemma apply_query_flags:
  "apply_query mem q attr = Some attr' \<Longrightarrow>
   toSet attr' OR toClear attr' = (toSet attr OR toClear attr) OR attribute_flag (query_attribute q)"
  by (cases q) (auto dest!: set_attribute_flags simp: or.assoc or.commute or.left_commute)

lemma seen_apply_query:
  "seen_attributes seen attr \<Longrightarrow> apply_query mem q attr = Some attr' \<Longrightarrow> seen_attributes (query_attribute q # seen) attr'"
  by (simp add: seen_attributes_def apply_query_flags attribute_flag_test)

text \<open>The byte behind an option that clears an attribute is not an equals sign.\<close>

definition behind_ok :: "attr_query \<times> bytes \<Rightarrow> bool" where
  "behind_ok = (\<lambda>(q, b). case q of Clear_attribute a \<Rightarrow> b \<noteq> [] \<and> b ! 0 \<noteq> chr CHR ''='' | _ \<Rightarrow> True)"

lemma read_attributes_loop_eq:
  "seen_attributes seen attr \<Longrightarrow> length bs = length qs \<Longrightarrow> list_all behind_ok (zip qs bs) \<Longrightarrow>
   read_attributes_loop mem (zip (map query_text qs) bs) attr = Some (apply_queries mem seen qs attr)"
proof (induction qs arbitrary: bs seen attr)
  case (Cons q qs)
  obtain b bs' where bs: "bs = b # bs'" using Cons.prems(2) by (cases bs) auto
  have ok: "behind_ok (q, b)" "list_all behind_ok (zip qs bs')" using Cons.prems(3) bs by simp_all
  from ok(1) have "\<forall>a. q = Clear_attribute a \<longrightarrow> b \<noteq> [] \<and> hd b \<noteq> chr CHR ''=''"
    by (auto simp: behind_ok_def hd_conv_nth)
  note r = read_attribute_query [OF this, of mem attr]
  have seen: "(toSet attr OR toClear attr) AND attribute_flag (query_attribute q) \<noteq> 0 \<longleftrightarrow> query_attribute q \<in> set seen"
    using Cons.prems(1) by (simp add: seen_attributes_def)
  show ?case
  proof (cases "query_attribute q \<in> set seen")
    case True
    then show ?thesis using r seen bs by simp
  next
    case False
    show ?thesis
    proof (cases "apply_query mem q attr")
      case None
      then show ?thesis using r seen bs False by simp
    next
      case (Some attr')
      then show ?thesis using r seen bs False Cons.IH [OF seen_apply_query [OF Cons.prems(1) Some] _ ok(2)] Cons.prems(2) by simp
    qed
  qed
qed simp

section \<open>Properties\<close>



text \<open>An option that clears an attribute, followed by a byte that is an equals sign: the length of the
number is -1.  A period becomes 0; for a threshold a negative length is copied.  The parser
accepts a datagram that does this: a Write-Attributes request with the query \<open>gt\<close>, whose next option,
an unknown elective one, has the header \<open>0x3D\<close>.\<close>

definition overread_head :: bytes where
  "overread_head = [0x40, 3, 0, 1, 0xB1, 51, 1, 48, 1, 57, 0x42]"

definition overread_tail :: bytes where
  "overread_tail = [0x3D, 0, 48, 48, 48, 48, 48, 48, 48, 48, 48, 48, 48, 48, 48]"

theorem attribute_overread:
  "(case coap_parse_message (\<lambda>_. True) (overread_head @ str ''gt'' @ overread_tail) of
      (r, m) \<Rightarrow> (r, code m, uri_path m, uri_query m) = (COAP_NO_ERROR, COAP_PUT, [str ''3'', str ''0'', str ''9''], [str ''gt''])) \<and>
   prv_readAttributes (\<lambda>_. True) (\<lambda>_. overread_tail) [str ''gt''] = None \<and>
   prv_readAttributes (\<lambda>_. True) (\<lambda>_. overread_tail) [str ''pmin''] = Some (Some (no_attributes\<lparr>toSet := 1\<rparr>))"
proof (intro conjI)
  show "case coap_parse_message (\<lambda>_. True) (overread_head @ str ''gt'' @ overread_tail) of
      (r, m) \<Rightarrow> (r, code m, uri_path m, uri_query m) = (COAP_NO_ERROR, COAP_PUT, [str ''3'', str ''0'', str ''9''], [str ''gt''])"
    by code_simp
qed (simp_all add: overread_tail_def prv_readAttributes_def read_attribute_def try_attribute_def ATTR_STRS str_def chr_def attr_int_def
    attr_float_def rd_def no_attributes_def LWM2M_ATTR_FLAG_MIN_PERIOD_def LWM2M_ATTR_FLAG_GREATER_THAN_def)

section \<open>The state of the client\<close>

text \<open>What an operation must respect: the observations and the lists of servers stay as they are.\<close>

definition client_keeps :: "'a lwm2m \<Rightarrow> 'a lwm2m \<Rightarrow> bool" where
  "client_keeps ctx ctx' \<longleftrightarrow> obs_keeps ctx ctx' \<and> bootstrapServerList ctx' = bootstrapServerList ctx"

definition client_inv :: "'a lwm2m \<Rightarrow> bool" where
  "client_inv ctx \<longleftrightarrow> observe_inv ctx \<and> servers_ok ctx"

definition callbacks_keep :: "('a lwm2m) app_objects \<Rightarrow> bool" where
  "callbacks_keep A \<longleftrightarrow> (\<forall>oid.
     (\<forall>f c i ds. readFunc A oid = Some f \<longrightarrow> client_keeps c (fst (f c i ds))) \<and>
     (\<forall>f c i ds. discoverFunc A oid = Some f \<longrightarrow> client_keeps c (fst (f c i ds))) \<and>
     (\<forall>f c i ds t. writeFunc A oid = Some f \<longrightarrow> client_keeps c (fst (f c i ds t))) \<and>
     (\<forall>f c i r b. executeFunc A oid = Some f \<longrightarrow> client_keeps c (fst (f c i r b))) \<and>
     (\<forall>f c i ds. createFunc A oid = Some f \<longrightarrow> client_keeps c (fst (f c i ds))) \<and>
     (\<forall>f c i. deleteFunc A oid = Some f \<longrightarrow> client_keeps c (fst (f c i))))"

lemma client_keeps_refl [simp]: "client_keeps c c" by (simp add: client_keeps_def)

lemma client_keeps_trans [trans]: "client_keeps a b \<Longrightarrow> client_keeps b c \<Longrightarrow> client_keeps a c"
  using keeps_trans by (auto simp: client_keeps_def)

lemma client_keeps_inv: "client_keeps c c' \<Longrightarrow> client_inv c \<Longrightarrow> client_inv c'"
  using keeps_inv by (auto simp: client_keeps_def client_inv_def servers_ok_def obs_keeps_def)

lemma callbacks_keepD:
  assumes "callbacks_keep A"
  shows "readFunc A oid = Some f1 \<Longrightarrow> f1 c i ds = (c', r) \<Longrightarrow> client_keeps c c'"
    and "discoverFunc A oid = Some f2 \<Longrightarrow> f2 c i ds = (c', r) \<Longrightarrow> client_keeps c c'"
    and "writeFunc A oid = Some f3 \<Longrightarrow> f3 c i ds t = (c', st) \<Longrightarrow> client_keeps c c'"
    and "executeFunc A oid = Some f4 \<Longrightarrow> f4 c i rid b = (c', st) \<Longrightarrow> client_keeps c c'"
    and "createFunc A oid = Some f5 \<Longrightarrow> f5 c i ds = (c', st) \<Longrightarrow> client_keeps c c'"
    and "deleteFunc A oid = Some f6 \<Longrightarrow> f6 c i = (c', st) \<Longrightarrow> client_keeps c c'"
  using assms unfolding callbacks_keep_def by (metis fst_conv)+

lemma callbacks_reads: "callbacks_keep A \<Longrightarrow> reads_keep A"
  by (auto simp: callbacks_keep_def reads_keep_def client_keeps_def)

lemma keep_read_instances:
  assumes "\<And>c i ds c' r. f c i ds = (c', r) \<Longrightarrow> client_keeps c c'"
  shows "read_instances f is c acc = (c', r) \<Longrightarrow> client_keeps c c'"
proof (induction "is" arbitrary: c acc)
  case (Cons i "is")
  obtain c1 ds r1 where f: "f c i [] = (c1, ds, r1)" by (cases "f c i []")
  with assms have "client_keeps c c1" by blast
  with f Cons show ?case using client_keeps_trans by (fastforce simp: Let_def split: if_split_asm)
qed simp

lemma keep_readData:
  assumes "callbacks_keep A" and "object_readData A P uri ctx = (ctx', r)"
  shows "client_keeps ctx ctx'"
  using assms(2) callbacks_keepD(1) [OF assms(1)] keep_read_instances [OF callbacks_keepD(1) [OF assms(1)]]
  by (auto simp: object_readData_def split: option.split_asm prod.split_asm if_split_asm)

lemma keep_object_read:
  assumes "callbacks_keep A" and "object_read A F P uri acc fmt ctx = Some (ctx', r)"
  shows "client_keeps ctx ctx'"
proof -
  obtain c ds st where d: "object_readData A P uri ctx = (c, ds, st)" by (cases "object_readData A P uri ctx")
  have "ctx' = c" using assms(2) d by (auto simp: object_read_def bind_eq_Some_conv split: if_split_asm prod.split_asm)
  then show ?thesis using keep_readData [OF assms(1) d] by simp
qed

lemma keep_discover:
  assumes "callbacks_keep A" and "object_discover A F P uri srv ctx = Some (ctx', r)"
  shows "client_keeps ctx ctx'"
  using assms(2) callbacks_keepD(2) [OF assms(1)] keep_read_instances [OF callbacks_keepD(2) [OF assms(1)]]
  by (auto simp: object_discover_def bind_eq_Some_conv split: option.split_asm prod.split_asm if_split_asm)

lemma keep_execute:
  assumes "callbacks_keep A" and "object_execute A uri pl ctx = (ctx', r)"
  shows "client_keeps ctx ctx'"
  using assms(2) callbacks_keepD(4) [OF assms(1)]
  by (auto simp: object_execute_def split: option.split_asm if_split_asm)

lemma keep_create:
  assumes "callbacks_keep A" and "object_create A F P uri fmt pl ctx = Some (ctx', r)"
  shows "client_keeps ctx ctx'"
  using assms(2) callbacks_keepD(5) [OF assms(1)]
  by (auto simp: object_create_def bind_eq_Some_conv Let_def split: option.split_asm prod.split_asm if_split_asm) (metis surj_pair)+

lemma keep_checkReadable:
  assumes "callbacks_keep A" and "object_checkReadable A P uri attr ctx = Some (ctx', r)"
  shows "client_keeps ctx ctx'"
  using assms(2) callbacks_keepD(1) [OF assms(1)]
  by (auto simp: object_checkReadable_def bind_eq_Some_conv split: option.split_asm prod.split_asm if_split_asm)

lemma keep_read_resource:
  assumes "callbacks_keep A" and "read_resource A P oid i rids ctx = Some (Some (ctx', r))"
  shows "client_keeps ctx ctx'"
  using assms(2) callbacks_keepD(1) [OF assms(1)] by (cases r) (auto simp: read_resource_def bind_eq_Some_conv split: option.split_asm)

lemma keep_shortId:
  assumes "callbacks_keep A" and "prv_getServerShortId A P oid i ctx = Some (ctx', v)"
  shows "client_keeps ctx ctx'"
proof -
  obtain r where r: "read_resource A P oid i [LWM2M_SERVER_SHORT_ID_ID] ctx = Some r"
    using assms(2) by (auto simp: prv_getServerShortId_def bind_eq_Some_conv)
  show ?thesis
  proof (cases r)
    case None
    then show ?thesis using assms(2) r by (simp add: prv_getServerShortId_def)
  next
    case (Some x)
    obtain c1 ds st where x: "x = (c1, ds, st)" by (cases x)
    have "ctx' = c1" using assms(2) r Some x by (auto simp: prv_getServerShortId_def bind_eq_Some_conv split: if_split_asm)
    then show ?thesis using keep_read_resource [OF assms(1)] r Some x by blast
  qed
qed

lemma keep_mandatory:
  assumes "callbacks_keep A" and "prv_getMandatoryInfo A P oid i srv ctx = Some (ctx', srv', ok)"
  shows "client_keeps ctx ctx' \<and> secObjInstID srv' = secObjInstID srv"
proof -
  have "reads_keep_servers A" using assms(1)
    by (auto simp: reads_keep_servers_def callbacks_keep_def client_keeps_def obs_keeps_def same_servers_def)
  from same_mandatory [OF this assms(2)] have "secObjInstID srv' = secObjInstID srv" by simp
  moreover obtain r where r: "read_resource A P oid i [LWM2M_SERVER_LIFETIME_ID, LWM2M_SERVER_BINDING_ID] ctx = Some r"
    using assms(2) by (auto simp: prv_getMandatoryInfo_def bind_eq_Some_conv)
  moreover have "client_keeps ctx ctx'"
  proof (cases r)
    case None
    then show ?thesis using assms(2) r by (simp add: prv_getMandatoryInfo_def)
  next
    case (Some x)
    obtain c1 ds st where x: "x = (c1, ds, st)" by (cases x)
    have "ctx' = c1" using assms(2) r Some x
      by (auto simp: prv_getMandatoryInfo_def bind_eq_Some_conv split: option.split_asm if_split_asm)
    then show ?thesis using keep_read_resource [OF assms(1)] r Some x by blast
  qed
  ultimately show ?thesis by simp
qed

text \<open>The identifiers of the servers stay as they are; their other data may change.\<close>

definition client_preserved :: "'a lwm2m \<Rightarrow> 'a lwm2m \<Rightarrow> bool" where
  "client_preserved ctx ctx' \<longleftrightarrow> client_inv ctx' \<and> map secObjInstID (serverList ctx') = map secObjInstID (serverList ctx)"

lemma preserved_keeps: "client_keeps ctx ctx' \<Longrightarrow> client_inv ctx \<Longrightarrow> client_preserved ctx ctx'"
  using client_keeps_inv by (auto simp: client_preserved_def client_keeps_def obs_keeps_def)

lemma preserved_refl: "client_inv ctx \<Longrightarrow> client_preserved ctx ctx"
  by (simp add: client_preserved_def)

lemma preserved_trans: "client_preserved a b \<Longrightarrow> client_preserved b c \<Longrightarrow> client_preserved a c"
  by (simp add: client_preserved_def)

lemma same_ids_set: "map f xs = map f ys \<Longrightarrow> f ` set xs = f ` set ys"
  by (metis list.set_map)

lemma preserved_ids:
  assumes "client_inv ctx" and "map secObjInstID ss = map secObjInstID (serverList ctx)"
  shows "client_preserved ctx (ctx\<lparr>serverList := ss\<rparr>)"
  using assms same_ids_set [OF assms(2)]
  by (simp add: client_preserved_def client_inv_def observe_inv_def obs_ok_def observed_ok_def servers_ok_def sorted_ids_def)

lemma update_first_found: "find Q xs = Some x \<Longrightarrow> g y = g x \<Longrightarrow> map g (update_first Q (\<lambda>_. y) xs) = map g xs"
  by (induction xs) (auto split: if_split_asm)

lemma preserved_updateServerInfo:
  assumes "callbacks_keep A" and "client_inv ctx" and "prv_updateServerInfo A P oid i ctx = Some ctx'"
  shows "client_preserved ctx ctx'"
proof -
  obtain c1 v where v: "prv_getServerShortId A P oid i ctx = Some (c1, v)"
    using assms(3) by (auto simp: prv_updateServerInfo_def bind_eq_Some_conv)
  note k1 = preserved_keeps [OF keep_shortId [OF assms(1) v] assms(2)]
  show ?thesis
  proof (cases "v = 0 \<or> find (\<lambda>s. shortID s = v) (serverList c1) = None")
    case True
    then have "ctx' = c1" using assms(3) v by (auto simp: prv_updateServerInfo_def split: if_split_asm)
    then show ?thesis using k1 by simp
  next
    case False
    then obtain srv where srv: "find (\<lambda>s. shortID s = v) (serverList c1) = Some srv" by auto
    then obtain c2 srv' ok where m: "prv_getMandatoryInfo A P oid i srv c1 = Some (c2, srv', ok)"
      and c: "ctx' = c2\<lparr>serverList := update_first (\<lambda>s. shortID s = v) (\<lambda>_. srv') (serverList c2)\<rparr>"
      using assms(3) v False by (auto simp: prv_updateServerInfo_def bind_eq_Some_conv)
    note k2 = keep_mandatory [OF assms(1) m]
    have i1: "client_inv c1" using k1 by (simp add: client_preserved_def)
    have "serverList c2 = serverList c1" using k2 by (simp add: client_keeps_def obs_keeps_def)
    then have "map secObjInstID (update_first (\<lambda>s. shortID s = v) (\<lambda>_. srv') (serverList c2)) = map secObjInstID (serverList c2)"
      using srv k2 by (simp add: update_first_found)
    from preserved_ids [OF client_keeps_inv [OF conjunct1 [OF k2] i1] this]
    show ?thesis using k1 preserved_keeps [OF conjunct1 [OF k2] i1] preserved_trans c by blast
  qed
qed

lemma preserved_write:
  assumes "callbacks_keep A" and "client_inv ctx" and "object_write A F P uri fmt pl partial ctx = Some (ctx', r)"
  shows "client_preserved ctx ctx'"
proof -
  consider "ctx' = ctx" | "client_keeps ctx ctx'" | c1 where "client_keeps ctx c1"
      "prv_updateServerInfo A P (objectId uri) (instanceId uri) c1 = Some ctx'"
    using assms(3) callbacks_keepD(3) [OF assms(1)]
    by (auto simp: object_write_def bind_eq_Some_conv Let_def split: option.split_asm prod.split_asm if_split_asm) blast+
  then show ?thesis
  proof cases
    case (3 c1)
    from preserved_updateServerInfo [OF assms(1) client_keeps_inv [OF 3(1) assms(2)] 3(2)] preserved_keeps [OF 3(1) assms(2)]
    show ?thesis using preserved_trans by blast
  qed (use assms(2) preserved_keeps preserved_refl in blast)+
qed

lemma update_loop_ids: "map secObjInstID (fst (update_loop sid w ss)) = map secObjInstID ss"
  by (induction ss) (auto simp: update_status_def Let_def split: prod.split)

lemma preserved_update:
  assumes "client_inv ctx" and "serverList ctx \<noteq> []" and "lwm2m_update_registration A P sid w ctx = Some (ctx', r)"
  shows "client_preserved ctx ctx'"
proof -
  obtain s ss where s: "serverList ctx = s # ss" using assms(2) by (cases "serverList ctx") auto
  then have "ctx' = ctx\<lparr>serverList := fst (update_loop sid w (s # ss))\<rparr>"
    using assms(3) by (auto simp: lwm2m_update_registration_def simp del: update_loop.simps split: prod.split_asm)
  then show ?thesis using preserved_ids [OF assms(1)] update_loop_ids [of sid w "s # ss"] s by metis
qed

lemma preserved_clear:
  assumes "client_inv ctx" and "observe_clear uri ctx = Some ctx'"
  shows "client_preserved ctx ctx'"
proof -
  obtain obs where obs: "observedList ctx = Some obs" "obs_ok (serverList ctx) obs"
    using assms(1) by (auto simp: client_inv_def observe_inv_def)
  have "ctx' = ctx\<lparr>observedList := Some (filter (\<lambda>t. \<not> clear_matches uri t) obs)\<rparr>"
    using assms(2) observe_clear_filter [OF obs(1), of uri] by simp
  then show ?thesis using obs_ok_filter [OF obs(2)] assms(1)
    by (simp add: client_preserved_def client_inv_def observe_inv_def servers_ok_def)
qed

text \<open>The operations on observations leave the servers alone.\<close>

lemma servers_getWatcher:
  assumes "prv_getWatcher P uri srv ctx = Some (ctx', r)"
  shows "same_servers ctx ctx'"
proof -
  obtain obs where obs: "observedList ctx = Some obs" using assms by (auto simp: prv_getWatcher_def bind_eq_Some_conv)
  have "\<exists>x. ctx' = ctx \<or> ctx' = ctx\<lparr>observedList := x\<rparr>"
  proof (cases "prv_findObserved obs uri")
    case None
    then show ?thesis using assms obs by (auto simp: prv_getWatcher_def split: if_split_asm)
  next
    case (Some k)
    then show ?thesis using assms obs
      by (cases "prv_findWatcher (obs ! k) srv") (auto simp: prv_getWatcher_def split: if_split_asm)
  qed
  then show ?thesis by (auto simp: same_servers_def)
qed

lemma servers_put: "put_watcher p w ctx = Some ctx' \<Longrightarrow> same_servers ctx ctx'"
  by (auto simp: put_watcher_def bind_eq_Some_conv same_servers_def)

lemma servers_start: "start_watching P uri data msg response p ctx = Some (ctx', r) \<Longrightarrow> same_servers ctx ctx'"
  by (auto simp: start_watching_def bind_eq_Some_conv Let_def dest!: servers_put split: if_split_asm option.split_asm)

lemma servers_stop: "stop_watching P uri srv ctx = Some ctx' \<Longrightarrow> same_servers ctx ctx'"
proof -
  assume "stop_watching P uri srv ctx = Some ctx'"
  then have "ctx' = ctx \<or> (\<exists>m s. client_observe_cancel P ctx m s = Some ctx')"
    by (auto simp: stop_watching_def bind_eq_Some_conv split: option.split_asm)
  then show ?thesis by (auto simp: client_observe_cancel_def bind_eq_Some_conv same_servers_def)
qed

lemma servers_set_parameters: "set_watcher_parameters P attr p ctx = Some (ctx', r) \<Longrightarrow> same_servers ctx ctx'"
  by (auto simp: set_watcher_parameters_def bind_eq_Some_conv dest!: servers_put split: if_split_asm option.split_asm)

lemma servers_observe_request:
  assumes "observe_handleRequest P uri srv data msg response ctx = Some (ctx', r)"
  shows "same_servers ctx ctx'"
proof -
  consider "ctx' = ctx" | "stop_watching P uri srv ctx = Some ctx'" | "prv_getWatcher P uri srv ctx = Some (ctx', None)"
    | ctx1 p where "prv_getWatcher P uri srv ctx = Some (ctx1, Some p)" "start_watching P uri data msg response p ctx1 = Some (ctx', r)"
    using assms
    apply (auto simp: observe_handleRequest_def bind_eq_Some_conv split: if_split_asm option.split_asm)
    subgoal for b by (cases b) auto
    subgoal for b by (cases b) auto
    done
  then show ?thesis
  proof cases
    case 4
    show ?thesis by (rule same_servers_trans [OF servers_getWatcher [OF 4(1)] servers_start [OF 4(2)]])
  qed (simp_all add: servers_stop servers_getWatcher)
qed

definition known_server :: "'a lwm2m \<Rightarrow> lwm2m_server_t \<Rightarrow> bool" where
  "known_server ctx srv \<longleftrightarrow> secObjInstID srv \<in> secObjInstID ` set (serverList ctx)"

lemma known_preserved: "client_preserved ctx ctx' \<Longrightarrow> known_server ctx' srv \<longleftrightarrow> known_server ctx srv"
  unfolding client_preserved_def known_server_def using same_ids_set [of secObjInstID "serverList ctx'" "serverList ctx"] by simp

lemma preserved_same_servers: "observe_inv ctx' \<Longrightarrow> same_servers ctx ctx' \<Longrightarrow> client_inv ctx \<Longrightarrow> client_preserved ctx ctx'"
  by (simp add: client_preserved_def client_inv_def same_servers_def servers_ok_def)

lemma preserved_observe:
  assumes "client_inv ctx" and "known_server ctx srv" and "\<forall>n. mem_ok P n"
    and "observe_handleRequest P uri (secObjInstID srv) data msg response ctx = Some (ctx', response', r)"
  shows "client_preserved ctx ctx'"
  using observe_request_inv [OF _ _ assms(3,4)] servers_observe_request [OF assms(4)] assms(1,2)
  by (intro preserved_same_servers) (auto simp: client_inv_def known_server_def)

lemma preserved_parameters:
  assumes "callbacks_keep A" and "client_inv ctx" and "known_server ctx srv" and "\<forall>n. mem_ok P n"
    and "observe_setParameters A P uri (secObjInstID srv) attr ctx = Some (ctx', r)"
  shows "client_preserved ctx ctx'"
proof (cases "\<not> LWM2M_URI_IS_SET_INSTANCE uri \<and> LWM2M_URI_IS_SET_RESOURCE uri")
  case True
  then show ?thesis using assms(2,5) by (simp add: observe_setParameters_def client_preserved_def)
next
  case False
  then obtain c0 r0 where c: "object_checkReadable A P uri attr ctx = Some (c0, r0)"
    using assms(5) by (auto simp: observe_setParameters_def bind_eq_Some_conv)
  note k = keep_checkReadable [OF assms(1) c]
  consider "ctx' = c0" | "prv_getWatcher P uri (secObjInstID srv) c0 = Some (ctx', None)"
    | c1 p where "prv_getWatcher P uri (secObjInstID srv) c0 = Some (c1, Some p)" "set_watcher_parameters P attr p c1 = Some (ctx', r)"
    using assms(5) False c
    apply (auto simp: observe_setParameters_def bind_eq_Some_conv split: if_split_asm option.split_asm)
    subgoal for b by (cases b) auto
    subgoal for b by (cases b) auto
    done
  then have "same_servers c0 ctx'"
  proof cases
    case 3
    show ?thesis by (rule same_servers_trans [OF servers_getWatcher [OF 3(1)] servers_set_parameters [OF 3(2)]])
  qed (simp_all add: servers_getWatcher)
  with k have "same_servers ctx ctx'" by (simp add: same_servers_def client_keeps_def obs_keeps_def)
  moreover have "observe_inv ctx'"
    using observe_parameters_inv [OF _ _ assms(4) callbacks_reads [OF assms(1)] assms(5)] assms(2,3)
    by (simp add: client_inv_def known_server_def)
  ultimately show ?thesis using assms(2) by (intro preserved_same_servers) simp_all
qed

lemma preserved_delete:
  assumes "callbacks_keep A" and "client_inv ctx" and "LWM2M_URI_IS_SET_INSTANCE uri" and "object_delete A fr uri ctx = Some (ctx', r)"
  shows "client_preserved ctx ctx'"
proof -
  consider "ctx' = ctx" | "client_keeps ctx ctx'" | c1 where "client_keeps ctx c1" "observe_clear uri c1 = Some ctx'"
    using assms(3,4) callbacks_keepD(6) [OF assms(1)]
    by (auto simp: object_delete_def bind_eq_Some_conv split: option.split_asm prod.split_asm if_split_asm) blast+
  then show ?thesis
  proof cases
    case (3 c1)
    from preserved_clear [OF client_keeps_inv [OF 3(1) assms(2)] 3(2)] preserved_keeps [OF 3(1) assms(2)]
    show ?thesis using preserved_trans by blast
  qed (use assms(2) preserved_keeps preserved_refl in blast)+
qed

lemma preserved_dm_observe:
  assumes "callbacks_keep A" and "client_inv ctx" and "known_server ctx srv" and "\<forall>n. mem_ok P n"
    and "dm_observe A F P uri srv m response ctx = Some (ctx', r)"
  shows "client_preserved ctx ctx'"
proof -
  obtain c ds st where d: "object_readData A P uri ctx = (c, ds, st)" by (cases "object_readData A P uri ctx")
  note k = preserved_keeps [OF keep_readData [OF assms(1) d] assms(2)]
  have c: "client_inv c" "known_server c srv" using k assms(3) known_preserved [OF k] by (simp_all add: client_preserved_def)
  consider "ctx' = c" | rsp rsp' r' where "observe_handleRequest P uri (secObjInstID srv) ds m rsp c = Some (ctx', rsp', r')"
    using assms(5) d by (auto simp: dm_observe_def bind_eq_Some_conv split: if_split_asm prod.split_asm)
  then show ?thesis using k preserved_observe [OF c assms(4)] preserved_trans by cases blast+
qed

lemma preserved_dm_get:
  assumes "callbacks_keep A" and "client_inv ctx" and "known_server ctx srv" and "\<forall>n. mem_ok P n"
    and "dm_get A F P uri srv fmt m response ctx = Some (ctx', r)"
  shows "client_preserved ctx ctx'"
proof -
  consider "dm_observe A F P uri srv m response ctx = Some (ctx', r)" | x where "object_discover A F P uri (secObjInstID srv) ctx = Some (ctx', x)"
    | x where "object_read A F P uri (accept m) fmt ctx = Some (ctx', x)"
    using assms(5) by (auto simp: dm_get_def bind_eq_Some_conv split: if_split_asm)
  then show ?thesis
    by cases (blast intro: preserved_dm_observe [OF assms(1-4)] preserved_keeps [OF keep_discover [OF assms(1)] assms(2)]
      preserved_keeps [OF keep_object_read [OF assms(1)] assms(2)])+
qed

lemma preserved_with_update:
  assumes "client_preserved ctx c1" and "known_server ctx srv" and "lwm2m_update_registration A P sid w c1 = Some (ctx', r)"
  shows "client_preserved ctx ctx'"
proof -
  have "serverList c1 \<noteq> []" using assms(1,2) by (auto simp: client_preserved_def known_server_def)
  then show ?thesis using preserved_update [OF _ _ assms(3)] assms(1) preserved_trans by (auto simp: client_preserved_def)
qed

lemma preserved_dm_create:
  assumes "callbacks_keep A" and "client_inv ctx" and "known_server ctx srv" and "dm_create A F P uri fmt m response ctx = Some (ctx', r)"
  shows "client_preserved ctx ctx'"
proof -
  obtain c1 st u where c: "object_create A F P uri fmt (payload m) ctx = Some (c1, st, u)"
    using assms(4) by (auto simp: dm_create_def bind_eq_Some_conv)
  note k = preserved_keeps [OF keep_create [OF assms(1) c] assms(2)]
  have "ctx' = c1 \<or> (\<exists>x. lwm2m_update_registration A P 0 True c1 = Some (ctx', x))"
    using assms(4) c by (auto simp: dm_create_def bind_eq_Some_conv split: if_split_asm)
  then show ?thesis using k preserved_with_update [OF k assms(3)] by blast
qed

lemma preserved_dm_post:
  assumes "callbacks_keep A" and "client_inv ctx" and "known_server ctx srv" and "dm_post A F P uri fmt m response ctx = Some (ctx', r)"
  shows "client_preserved ctx ctx'"
proof -
  consider "ctx' = ctx" | "dm_create A F P uri fmt m response ctx = Some (ctx', r)" | x where "object_execute A uri (payload m) ctx = (ctx', x)"
    | x where "object_write A F P uri fmt (payload_bytes m) True ctx = Some (ctx', x)"
    using assms(4) by (auto simp: dm_post_def bind_eq_Some_conv split: if_split_asm prod.split_asm)
  then show ?thesis
    by cases (blast intro: preserved_dm_create [OF assms(1-3)] preserved_keeps [OF keep_execute [OF assms(1)] assms(2)]
      preserved_write [OF assms(1,2)] preserved_refl [OF assms(2)])+
qed

lemma preserved_dm_put:
  assumes "callbacks_keep A" and "client_inv ctx" and "known_server ctx srv" and "\<forall>n. mem_ok P n"
    and "dm_put A F P behind uri srv fmt m response ctx = Some (ctx', r)"
  shows "client_preserved ctx ctx'"
proof -
  consider "ctx' = ctx" | attr x where "observe_setParameters A P uri (secObjInstID srv) attr ctx = Some (ctx', x)"
    | x where "object_write A F P uri fmt (payload_bytes m) False ctx = Some (ctx', x)"
    using assms(5) by (auto simp: dm_put_def bind_eq_Some_conv split: if_split_asm option.split_asm)
  then show ?thesis
    by cases (blast intro: preserved_parameters [OF assms(1-4)] preserved_write [OF assms(1,2)] preserved_refl [OF assms(2)])+
qed

lemma preserved_dm_delete:
  assumes "callbacks_keep A" and "client_inv ctx" and "known_server ctx srv" and "dm_delete A fr P uri response ctx = Some (ctx', r)"
  shows "client_preserved ctx ctx'"
proof (cases "\<not> LWM2M_URI_IS_SET_INSTANCE uri \<or> LWM2M_URI_IS_SET_RESOURCE uri")
  case True
  then show ?thesis using assms(2,4) by (simp add: dm_delete_def client_preserved_def)
next
  case False
  then obtain c1 st where c: "object_delete A fr uri ctx = Some (c1, st)"
    using assms(4) by (auto simp: dm_delete_def bind_eq_Some_conv)
  note k = preserved_delete [OF assms(1,2) _ c]
  have "ctx' = c1 \<or> (\<exists>x. lwm2m_update_registration A P 0 True c1 = Some (ctx', x))"
    using assms(4) c False by (auto simp: dm_delete_def bind_eq_Some_conv split: if_split_asm)
  then show ?thesis using False k preserved_with_update [OF k assms(3)] by blast
qed

text \<open>C29: no request of a server upsets the state of the client: as long as memory suffices and the
callbacks of the application keep to their objects, every request that \<open>dm_handleRequest\<close> handles for a
server of the list leaves the observations consistent, the lists of servers ascending and disjoint,
and the servers in the list.\<close>

theorem management_keeps_state:
  assumes "callbacks_keep A" and "client_inv ctx" and "known_server ctx srv" and "\<forall>n. mem_ok P n"
    and "dm_handle A F frees_nodes P behind ctx uri srv m response = Some (ctx', response', result)"
  shows "client_inv ctx' \<and> map secObjInstID (serverList ctx') = map secObjInstID (serverList ctx)"
proof -
  consider "ctx' = ctx" | fmt where "dm_get A F P uri srv fmt m response ctx = Some (ctx', response', result)"
    | fmt where "dm_post A F P uri fmt m response ctx = Some (ctx', response', result)"
    | fmt where "dm_put A F P behind uri srv fmt m response ctx = Some (ctx', response', result)"
    | "dm_delete A frees_nodes P uri response ctx = Some (ctx', response', result)"
    using assms(5) by (auto simp: dm_handle_def Let_def split: if_split_asm)
  then have "client_preserved ctx ctx'"
    by cases (blast intro: preserved_dm_get [OF assms(1-4)] preserved_dm_post [OF assms(1-3)] preserved_dm_put [OF assms(1-4)]
      preserved_dm_delete [OF assms(1-3)] preserved_refl [OF assms(2)])+
  then show ?thesis by (simp add: client_preserved_def)
qed

lemma example_app_keeps: "callbacks_keep example_app"
  by (auto simp: callbacks_keep_def example_app_def client_keeps_def obs_keeps_def same_shape_def change_instances_def)

lemma example_client_inv: "client_inv example_lwm2m"
  by (simp add: client_inv_def observe_inv_def obs_ok_def observed_ok_def servers_ok_def example_lwm2m_def example_server_def new_watcher_def)

definition delete_request :: coap_packet_t where
  "delete_request = coap_init_message COAP_TYPE_CON COAP_DELETE 9"

definition deleted_lwm2m :: lwm2m_context_t where
  "deleted_lwm2m = (change_instances 3 (remove1 1) example_lwm2m)\<lparr>observedList := Some [],
     serverList := [example_server\<lparr>server_status := STATE_REG_FULL_UPDATE_NEEDED\<rparr>]\<rparr>"

lemma example_delete:
  "dm_handle example_app plain_formats False lwm2m_platform (\<lambda>_. []) example_lwm2m (uri_of [3, 1]) example_server delete_request zero_packet =
     Some (deleted_lwm2m, zero_packet, COAP_202_DELETED)"
proof -
  have u: "LWM2M_URI_IS_SET_INSTANCE (uri_of [3, 1])" "\<not> LWM2M_URI_IS_SET_RESOURCE (uri_of [3, 1])"
    by (simp_all add: LWM2M_URI_IS_SET_INSTANCE_def LWM2M_URI_IS_SET_RESOURCE_def LWM2M_MAX_ID_def)
  have "observedList (change_instances 3 (remove1 1) example_lwm2m) = Some [\<lparr>o_uri = uri_of [3, 1, 9], o_watchers = [new_watcher 1]\<rparr>]"
    by (simp add: change_instances_def example_lwm2m_def)
  from observe_clear_filter [OF this, of "uri_of [3, 1]"] u
  have c: "observe_clear (uri_of [3, 1]) (change_instances 3 (remove1 1) example_lwm2m) =
      Some ((change_instances 3 (remove1 1) example_lwm2m)\<lparr>observedList := Some []\<rparr>)"
    by (simp add: clear_matches_def)
  have "object_delete example_app False (uri_of [3, 1]) example_lwm2m =
      Some ((change_instances 3 (remove1 1) example_lwm2m)\<lparr>observedList := Some []\<rparr>, COAP_202_DELETED)"
    using u c example_objects by (simp add: object_delete_def)
  then have "dm_delete example_app False lwm2m_platform (uri_of [3, 1]) zero_packet example_lwm2m = Some (deleted_lwm2m, zero_packet, COAP_202_DELETED)"
    using u by (simp add: dm_delete_def deleted_lwm2m_def lwm2m_update_registration_def change_instances_def example_lwm2m_def
      example_server_def update_status_def)
  moreover have "code delete_request = COAP_DELETE" by (simp add: delete_request_def coap_init_message_def)
  ultimately show ?thesis
    by (simp add: dm_handle_def LWM2M_SECURITY_OBJECT_ID_def example_server_def COAP_GET_def COAP_POST_def COAP_PUT_def COAP_DELETE_def)
qed

theorem management_keeps_state_witness:
  "dm_handle example_app plain_formats False lwm2m_platform (\<lambda>_. []) example_lwm2m (uri_of [3, 1]) example_server delete_request zero_packet =
     Some (deleted_lwm2m, zero_packet, COAP_202_DELETED) \<and> client_inv deleted_lwm2m"
proof -
  have "known_server example_lwm2m example_server" by (simp add: known_server_def example_lwm2m_def)
  from management_keeps_state [OF example_app_keeps example_client_inv this _ example_delete] example_delete show ?thesis
    by (simp add: lwm2m_platform_def)
qed

section \<open>Answers\<close>

definition manages :: "lwm2m_server_t \<Rightarrow> bool" where
  "manages srv \<longleftrightarrow> server_status srv \<in> {STATE_REGISTERED, STATE_REG_UPDATE_NEEDED, STATE_REG_FULL_UPDATE_NEEDED, STATE_REG_UPDATE_PENDING}"

lemma dec_text_plain: "chr CHR ''/'' \<notin> set (dec_text n)"
  using dec_text_digits [of "chr CHR ''/''" n] by (auto simp: is_digit_def chr_def)

lemma location_set:
  assumes "\<forall>n. mem_ok P n"
  shows "fst (coap_set_header_location_path (mem_ok P) response (location_text uri)) =
    SET_OPTION COAP_OPTION_LOCATION_PATH (response\<lparr>location_path := [dec_text (unat (objectId uri)), dec_text (unat (instanceId uri))]\<rparr>)"
proof -
  let ?c = "chr CHR ''/''" and ?segs = "[dec_text (unat (objectId uri)), dec_text (unat (instanceId uri))]"
  have t: "skip_first ?c (location_text uri) = tl (multi_string ?c ?c ?segs)"
    by (simp add: location_text_def skip_first_def)
  have "length (dec_text (unat i)) \<le> 255" for i :: u16
    using dec_text_length_less [of "unat i" 5] unat_u16_less [of i] by simp
  then have "segs_plain ?c ?segs" using dec_text_plain by (simp add: segs_plain_def)
  from split_multi_string [OF _ this, of "mem_ok P" "[]" 0] assms
  have "fst (split_option_loop (mem_ok P) ?c (skip_first ?c (location_text uri)) [] 0) = ?segs" unfolding t by simp
  then show ?thesis by (simp add: coap_set_header_location_path_def split_beta)
qed

lemma create_keeps_object: "object_create A F P uri fmt pl ctx = Some (c1, st, u) \<Longrightarrow> objectId u = objectId uri"
  apply (auto simp: object_create_def bind_eq_Some_conv Let_def split: option.split_asm prod.split_asm if_split_asm)
  subgoal for x2 x2a x2b a b x1 x2c ya by (cases "x2b ctx (data_id (b ! 0)) ya") auto
  subgoal for x2 x2a x2b a b x1 x2c ya by (cases "x2b ctx (data_id (b ! 0)) ya") auto
  done


definition create_request :: coap_packet_t where
  "create_request = (coap_init_message COAP_TYPE_CON COAP_POST 9)\<lparr>payload := Some [0xC1, 9, 80]\<rparr>"

lemma example_created:
  "object_create example_app plain_formats lwm2m_platform (uri_of [3]) LWM2M_CONTENT_TLV (Some [0xC1, 9, 80]) example_lwm2m =
     Some (change_instances 3 (\<lambda>is. LWM2M_LIST_ADD id is 2) example_lwm2m, COAP_201_CREATED, (uri_of [3])\<lparr>instanceId := 2\<rparr>)"
  by code_simp


text \<open>The answer to a read request.\<close>

definition content_answer :: "coap_packet_t \<Rightarrow> u16 \<Rightarrow> bytes \<Rightarrow> coap_packet_t" where
  "content_answer q fmt b = (ack_of q)\<lparr>options := insert COAP_OPTION_CONTENT_TYPE (options (ack_of q)), content_type := ucast fmt,
     payload := Some b, code := COAP_205_CONTENT\<rparr>"

lemma dm_content_answer: "length b < 2 ^ 16 \<Longrightarrow> (dm_content (ack_of q) fmt (Some b))\<lparr>code := COAP_205_CONTENT\<rparr> = content_answer q fmt b"
  by (simp add: dm_content_def coap_set_payload_def coap_set_header_content_type_def SET_OPTION_def content_answer_def option_numbers unat_of_nat Let_def)

text \<open>C31: A confirmable Read request for a path of the client's objects, from a server the client is
registered with, is answered with one piggybacked 2.05 response that carries the token of the
request, the content format and the serialized data of the path.\<close>

theorem read_answered:
  fixes P :: "('a lwm2m) platform"
  assumes "is_request q" and "code q = COAP_GET" and "options q \<inter> {27, 23, COAP_OPTION_OBSERVE, COAP_OPTION_CONTENT_TYPE} = {}" and "accept q = []"
    and "length (msg_bytes q) \<le> LWM2M_COAP_MAX_MESSAGE_SIZE" and "\<forall>n. mem_ok P n"
    and "uri_ids ids" and "ids \<noteq> []" and "hd ids \<noteq> LWM2M_SECURITY_OBJECT_ID" and "uri_path q = map (\<lambda>i. dec_text (unat i)) ids"
    and "altPath ctx = None" and "utils_findServer P ctx s = Some srv" and "manages srv"
    and "object_readData A P (uri_of ids) ctx = (ctx1, ds, COAP_205_CONTENT)"
    and "lwm2m_data_serialize F (mem_ok P) (Some (uri_of ids)) ds LWM2M_CONTENT_TLV = Some (int (length b), Some b, fmt)"
    and "length b \<le> unat (coap_block_size ctx1)" and "buffer_send P s (msg_bytes (content_answer q fmt b)) = COAP_NO_ERROR"
  shows "lwm2m_handle_packet (H\<lparr>dm_handleRequest := dm_handle A F frees_nodes P behind\<rparr>) P addr32 (msg_bytes q) s ctx =
    Some (ctx1\<lparr>sent := sent ctx1 @ [(s, msg_bytes (content_answer q fmt b))]\<rparr>)"
proof -
  let ?r = "dm_content (ack_of q) fmt (Some b)"
  have b: "length b < 2 ^ 16" using assms(16) unat_u16_less [of "coap_block_size ctx1"] by simp
  note a = dm_content_answer [OF b, of q fmt]
  have oid: "objectId (uri_of ids) \<noteq> LWM2M_SECURITY_OBJECT_ID" using assms(8,9) by (cases ids) simp_all
  have "dm_get A F P (uri_of ids) srv LWM2M_CONTENT_TLV (received q) (ack_of q) ctx = Some (ctx1, ?r, COAP_205_CONTENT)"
    using assms(3,4,14,15) by (simp add: dm_get_def received_def IS_OPTION_def object_read_def APPLICATION_LINK_FORMAT_def)
  then have "dm_handle A F frees_nodes P behind ctx (uri_of ids) srv (received q) (ack_of q) = Some (ctx1, ?r, COAP_205_CONTENT)"
    using assms(2,3,13) oid by (simp add: dm_handle_def manages_def received_def IS_OPTION_def)
  moreover have "size_ok ?r" "multi_ok ?r" "payload_len ?r \<le> unat (coap_block_size ctx1)"
    using assms(16) b by (simp_all add: dm_content_def coap_set_payload_def coap_set_header_content_type_def SET_OPTION_def size_ok_def multi_ok_def
      IS_OPTION_def option_numbers ack_of_def coap_init_message_def zero_packet_def payload_len_def unat_of_nat Let_def split: if_split)
  ultimately show ?thesis
    unfolding a [symmetric]
    by (intro handle_dm_request [where ids = ids and srv = srv])
       (use assms a in \<open>simp_all add: coap_codes option_numbers\<close>)
qed

text \<open>A Read of /3/0/9 over the wire.\<close>

definition read_request :: coap_packet_t where
  "read_request = request_packet COAP_GET 5 [3, 0, 9] [7]"

lemma read_request_ok:
  "is_request read_request" "length (msg_bytes read_request) \<le> LWM2M_COAP_MAX_MESSAGE_SIZE"
proof -
  have ids: "uri_ids [3, 0, 9]" by (simp add: uri_ids_def LWM2M_MAX_ID_def)
  have wf: "coap_wf read_request" "size_ok read_request"
    using request_packet_wf [OF ids, of COAP_GET 5 "[7]"] by (simp_all add: read_request_def COAP_GET_def)
  then show "is_request read_request"
    by (simp add: is_request_def)
       (simp add: read_request_def request_packet_def coap_init_message_def zero_packet_def COAP_GET_def COAP_DELETE_def)
  have "length (dec_text 3) \<le> 5" "length (dec_text 0) \<le> 5" "length (dec_text 9) \<le> 5" by (rule dec_text_length_less; simp)+
  then have "coap_serialize_get_size read_request \<le> 2048"
    by (simp add: read_request_def coap_serialize_get_size_def request_packet_def IS_OPTION_def option_numbers
        coap_init_message_def zero_packet_def payload_len_def coap_sizes Let_def)
  then show "length (msg_bytes read_request) \<le> LWM2M_COAP_MAX_MESSAGE_SIZE"
    using msg_bytes_size [of read_request] wf by (simp add: coap_wf_def LWM2M_COAP_MAX_MESSAGE_SIZE_def)
qed

theorem read_answered_witness:
  "\<forall>H. lwm2m_handle_packet (H\<lparr>dm_handleRequest := dm_handle example_app plain_formats False lwm2m_platform (\<lambda>_. [])\<rparr>) lwm2m_platform (\<lambda>_. 0)
     (msg_bytes read_request) 3 example_lwm2m =
   Some (example_lwm2m\<lparr>sent := [(3, msg_bytes (content_answer read_request LWM2M_CONTENT_TLV [0xC1, 9, 80]))]\<rparr>)"
proof -
  have ids: "uri_ids [3, 0, 9]" "[3, 0, 9 :: u16] \<noteq> []" "hd [3, 0, 9] \<noteq> LWM2M_SECURITY_OBJECT_ID"
    by (simp_all add: uri_ids_def LWM2M_MAX_ID_def LWM2M_SECURITY_OBJECT_ID_def)
  have q: "uri_path read_request = map (\<lambda>i. dec_text (unat i)) [3, 0, 9 :: u16]" "accept read_request = []" "code read_request = COAP_GET"
    "options read_request \<inter> {27, 23, COAP_OPTION_OBSERVE, COAP_OPTION_CONTENT_TYPE} = {}"
    by (simp_all add: read_request_def request_packet_def coap_init_message_def zero_packet_def option_numbers)
  have c: "\<forall>n. mem_ok lwm2m_platform n" "altPath example_lwm2m = None" "utils_findServer lwm2m_platform example_lwm2m 3 = Some example_server"
    "manages example_server" "length [0xC1, 9, 80 :: u8] \<le> unat (coap_block_size example_lwm2m)"
    "buffer_send lwm2m_platform 3 (msg_bytes (content_answer read_request LWM2M_CONTENT_TLV [0xC1, 9, 80])) = COAP_NO_ERROR"
    by (simp_all add: manages_def utils_findServer_def lwm2m_platform_def example_lwm2m_def example_server_def coap_codes)
  have rd: "object_readData example_app lwm2m_platform (uri_of [3, 0, 9]) example_lwm2m =
      (example_lwm2m, [Data LWM2M_TYPE_INTEGER 9 (asInteger 80)], COAP_205_CONTENT)"
    by code_simp
  let ?ds = "[Data LWM2M_TYPE_INTEGER 9 (asInteger 80)]"
  have t: "tlv_ok ?ds" "tlv_bytes False ?ds = [0xC1, 9, 80]"
    by (simp_all add: header_bytes_def hdr_type_def tlv_type_defs prv_encodeInt_def Let_def prv_getHeaderType_def)
  have m: "mem_ok lwm2m_platform n" for n by (simp add: lwm2m_platform_def)
  have l: "length (tlv_bytes False ?ds) \<le> 0xFFFFFF" unfolding t(2) by simp
  have "tlv_serialize (mem_ok lwm2m_platform) False ?ds = Some (3, Some [0xC1, 9, 80])"
    using tlv_serialize_from_loop(1) [OF tlv_serialize_loop_bytes [of "mem_ok lwm2m_platform", OF m t(1) l] m t(1) _ l, unfolded t(2)] by simp
  then have ser: "lwm2m_data_serialize plain_formats (mem_ok lwm2m_platform) (Some (uri_of [3, 0, 9])) ?ds
      LWM2M_CONTENT_TLV = Some (int (length [0xC1, 9, 80 :: u8]), Some [0xC1, 9, 80], LWM2M_CONTENT_TLV)"
    by (simp add: lwm2m_data_serialize_def serialize_format_def media_defs serialize_tlv_def uri_set_opt_def uri_309)
  have "sent example_lwm2m = []" by (simp add: example_lwm2m_def)
  then show ?thesis
    using read_answered [OF read_request_ok(1) q(3,4,2) read_request_ok(2) c(1) ids q(1) c(2-4) rd ser c(5,6)] by simp
qed

end
