(* ===== verification/Registration_Query.thy ===== *)
theory Registration_Query
  imports Management
begin

text \<open>
  The query of a registration (\<^verbatim>\<open>core/registration.c\<close>): \<open>prv_getRegistrationQueryLength\<close> computes the size of
  its buffer and \<open>prv_getRegistrationQuery\<close> prints it, with the conventions of the registration payload.
\<close>

definition QUERY_HEAD :: bytes where "QUERY_HEAD = str ''?lwm2m=1.1&ep=''"
definition QUERY_SMS_PART :: bytes where "QUERY_SMS_PART = str ''&sms=''"
definition QUERY_BINDING_PART :: bytes where "QUERY_BINDING_PART = str ''&b=''"
definition QUERY_QUEUE_PART :: bytes where "QUERY_QUEUE_PART = str ''&Q''"
definition QUERY_LIFETIME_PART :: bytes where "QUERY_LIFETIME_PART = str ''&lt=''"

lemmas query_parts = QUERY_HEAD_def QUERY_SMS_PART_def QUERY_BINDING_PART_def QUERY_QUEUE_PART_def QUERY_LIFETIME_PART_def

definition has_binding :: "u8 \<Rightarrow> lwm2m_server_t \<Rightarrow> bool" where
  "has_binding flag s \<longleftrightarrow> binding s AND flag \<noteq> 0"

definition transport_flags :: u8 where
  "transport_flags = NOT (BINDING_UNKNOWN OR BINDING_Q)"

definition binding_length :: "lwm2m_server_t \<Rightarrow> nat" where
  "binding_length s =
     (if has_binding transport_flags s
      then length QUERY_BINDING_PART + (if has_binding BINDING_U s then 1 else 0) + (if has_binding BINDING_T s then 1 else 0)
           + (if has_binding BINDING_S s then 1 else 0) + (if has_binding BINDING_N s then 1 else 0)
      else 0) + (if has_binding BINDING_Q s then length QUERY_QUEUE_PART else 0)"

definition prv_getRegistrationQueryLength :: "'a lwm2m \<Rightarrow> lwm2m_server_t \<Rightarrow> nat c" where
  "prv_getRegistrationQueryLength ctx s =
     do { e \<leftarrow> strlen (endpointName ctx);
          m \<leftarrow> (case msisdn ctx of None \<Rightarrow> Some 0 | Some p \<Rightarrow> do { n \<leftarrow> strlen p; Some (length QUERY_SMS_PART + n) });
          let index = length QUERY_HEAD + e + m + binding_length s;
          if lifetime s \<noteq> 0
          then do { n \<leftarrow> text_len (utils_intToText (word_of_int (lifetime s)) (replicate 21 0));
                    Some (if n = 0 then 0 else index + length QUERY_LIFETIME_PART + n + 1) }
          else Some (index + 1) }"

text \<open>The letter of a transport, when the server has it.\<close>

definition put_binding :: "nat \<Rightarrow> u8 \<Rightarrow> char \<Rightarrow> lwm2m_server_t \<Rightarrow> bytes \<Rightarrow> bytes option c" where
  "put_binding cap flag x s out = (if has_binding flag s then put_char cap (chr x) out else Some (Some out))"

definition put_transports :: "nat \<Rightarrow> lwm2m_server_t \<Rightarrow> bytes \<Rightarrow> bytes option c" where
  "put_transports cap s out =
     (if has_binding transport_flags s
      then do { out \<leftarrow> copy_str cap (QUERY_BINDING_PART @ [0]) out;
                or_fail (or_fail (or_fail (put_binding cap BINDING_U CHR ''U'' s out)
                  (put_binding cap BINDING_T CHR ''T'' s)) (put_binding cap BINDING_S CHR ''S'' s)) (put_binding cap BINDING_N CHR ''N'' s) }
      else Some (Some out))"

definition put_lifetime :: "nat \<Rightarrow> lwm2m_server_t \<Rightarrow> bytes \<Rightarrow> bytes option c" where
  "put_lifetime cap s out =
     (if lifetime s \<noteq> 0
      then do { out \<leftarrow> copy_str cap (QUERY_LIFETIME_PART @ [0]) out;
                (b, res) \<leftarrow> utils_intToText (word_of_int (lifetime s)) (replicate (cap - length out) 0);
                if res = 0 then Some None
                else do { t \<leftarrow> rd_range b 0 res; Some (Some (out @ t)) } }
      else Some (Some out))"

text \<open>The query without its terminator; the inner \<open>None\<close> is the result 0.\<close>

definition prv_getRegistrationQuery :: "'a lwm2m \<Rightarrow> lwm2m_server_t \<Rightarrow> nat \<Rightarrow> bytes option c" where
  "prv_getRegistrationQuery ctx s cap =
     do { out \<leftarrow> copy_str cap (QUERY_HEAD @ [0]) [];
          out \<leftarrow> copy_str cap (endpointName ctx) out;
          out \<leftarrow> (case msisdn ctx of None \<Rightarrow> Some out
                  | Some p \<Rightarrow> do { out \<leftarrow> copy_str cap (QUERY_SMS_PART @ [0]) out; copy_str cap p out });
          or_fail (or_fail (put_transports cap s out) (\<lambda>out.
            if has_binding BINDING_Q s then do { out \<leftarrow> copy_str cap (QUERY_QUEUE_PART @ [0]) out; Some (Some out) } else Some (Some out)))
           (\<lambda>out. or_fail (put_lifetime cap s out) (\<lambda>out. Some (if length out < cap then Some out else None))) }"

section \<open>The text of the query\<close>

definition letter :: "u8 \<Rightarrow> char \<Rightarrow> lwm2m_server_t \<Rightarrow> bytes" where
  "letter flag x s = (if has_binding flag s then [chr x] else [])"

definition transport_text :: "lwm2m_server_t \<Rightarrow> bytes" where
  "transport_text s =
     (if has_binding transport_flags s
      then QUERY_BINDING_PART @ letter BINDING_U CHR ''U'' s @ letter BINDING_T CHR ''T'' s @ letter BINDING_S CHR ''S'' s @ letter BINDING_N CHR ''N'' s
      else [])"

definition registration_query :: "bytes \<Rightarrow> bytes option \<Rightarrow> lwm2m_server_t \<Rightarrow> bytes" where
  "registration_query name phone s =
     QUERY_HEAD @ name @ (case phone of None \<Rightarrow> [] | Some p \<Rightarrow> QUERY_SMS_PART @ p) @ transport_text s
     @ (if has_binding BINDING_Q s then QUERY_QUEUE_PART else [])
     @ (if lifetime s \<noteq> 0 then QUERY_LIFETIME_PART @ int_text (lifetime s) else [])"

lemma part_plain: "0 \<notin> set QUERY_HEAD" "0 \<notin> set QUERY_SMS_PART" "0 \<notin> set QUERY_BINDING_PART" "0 \<notin> set QUERY_QUEUE_PART"
  "0 \<notin> set QUERY_LIFETIME_PART"
  by (simp_all add: query_parts str_def chr_def)

lemma binding_length_eq: "binding_length s = length (transport_text s) + length (if has_binding BINDING_Q s then QUERY_QUEUE_PART else [])"
  by (simp add: binding_length_def transport_text_def letter_def)

lemma strlen_text: "0 \<notin> set t \<Longrightarrow> strlen (t @ [0]) = Some (length t)"
proof -
  assume "0 \<notin> set t"
  then have "takeWhile (\<lambda>x. x \<noteq> 0) (t @ [0]) = t" by (induction t) auto
  then show ?thesis by (simp add: strlen_def)
qed

lemma put_binding_eq: "length out + length (letter flag x s) \<le> cap \<Longrightarrow> put_binding cap flag x s out = Some (Some (out @ letter flag x s))"
  by (cases "has_binding flag s") (simp_all add: put_binding_def put_char_def letter_def)

lemma put_transports_eq: "length out + length (transport_text s) < cap \<Longrightarrow> put_transports cap s out = Some (Some (out @ transport_text s))"
  by (cases "has_binding transport_flags s")
     (simp_all add: put_transports_def transport_text_def copy_str_eq part_plain put_binding_eq or_fail_simps)

text \<open>Lifetimes have 32 bits.\<close>

definition lifetime_ok :: "lwm2m_server_t \<Rightarrow> bool" where
  "lifetime_ok s \<longleftrightarrow> 0 \<le> lifetime s \<and> lifetime s < 2 ^ 32"

lemma lifetime_word: "lifetime_ok s \<Longrightarrow> sint (word_of_int (lifetime s) :: u64) = lifetime s"
  by (simp add: lifetime_ok_def sint_uint signed_take_bit_int_eq_self unsigned_of_int take_bit_int_eq_self)

lemma lifetime_text:
  assumes "lifetime_ok s" and "length (int_text (lifetime s)) \<le> cap"
  shows "\<exists>b. utils_intToText (word_of_int (lifetime s)) (replicate cap 0) = Some (b, length (int_text (lifetime s))) \<and> length b = cap \<and>
    take (length (int_text (lifetime s))) b = int_text (lifetime s)"
proof -
  have "lifetime s \<noteq> INT64_MIN" using assms(1) by (simp add: lifetime_ok_def INT64_MIN_def)
  then show ?thesis using utils_intToText_spec [of "word_of_int (lifetime s)" "replicate cap 0"] assms lifetime_word [OF assms(1)] by auto
qed

lemma int_text_nonempty [simp]: "int_text i \<noteq> []"
  by (simp add: int_text_def)

lemma put_lifetime_eq:
  assumes "lifetime_ok s" and "lifetime s \<noteq> 0" and "length out + length QUERY_LIFETIME_PART + length (int_text (lifetime s)) < cap"
  shows "put_lifetime cap s out = Some (Some (out @ QUERY_LIFETIME_PART @ int_text (lifetime s)))"
proof -
  have c: "copy_str cap (QUERY_LIFETIME_PART @ [0]) out = Some (out @ QUERY_LIFETIME_PART)"
    using assms(3) by (intro copy_str_eq part_plain) simp
  have "length (int_text (lifetime s)) \<le> cap - length (out @ QUERY_LIFETIME_PART)" using assms(3) by simp
  from lifetime_text [OF assms(1) this] obtain b where
    b: "utils_intToText (word_of_int (lifetime s)) (replicate (cap - length (out @ QUERY_LIFETIME_PART)) 0) =
      Some (b, length (int_text (lifetime s)))" "length b = cap - length (out @ QUERY_LIFETIME_PART)"
      "take (length (int_text (lifetime s))) b = int_text (lifetime s)" by blast
  have "rd_range b 0 (length (int_text (lifetime s))) = Some (int_text (lifetime s))"
    using b(2,3) assms(3) by (simp add: rd_range_def)
  then show ?thesis using assms(2) c b(1) by (simp add: put_lifetime_def)
qed

section \<open>Properties\<close>

lemma registration_query_eqs:
  assumes "endpointName ctx = name @ [0]" and "0 \<notin> set name" and "msisdn ctx = map_option (\<lambda>p. p @ [0]) phone"
    and "0 \<notin> set (case phone of None \<Rightarrow> [] | Some p \<Rightarrow> p)" and "lifetime_ok s"
  shows "prv_getRegistrationQueryLength ctx s = Some (length (registration_query name phone s) + 1)"
    "prv_getRegistrationQuery ctx s (length (registration_query name phone s) + 1) = Some (Some (registration_query name phone s))"
proof -
  let ?q = "registration_query name phone s"
  have phone: "(case msisdn ctx of None \<Rightarrow> Some 0 | Some p \<Rightarrow> do { n \<leftarrow> strlen p; Some (length QUERY_SMS_PART + n) }) =
      Some (length (case phone of None \<Rightarrow> [] | Some p \<Rightarrow> QUERY_SMS_PART @ p))"
    using assms(3,4) by (cases phone) (simp_all add: strlen_text)
  have "length (int_text (lifetime s)) \<le> 21" using int_text_length [of "word_of_int (lifetime s)"] lifetime_word [OF assms(5)] by simp
  then have "text_len (utils_intToText (word_of_int (lifetime s)) (replicate 21 0)) = Some (length (int_text (lifetime s)))"
    using lifetime_text [OF assms(5), of 21] by (auto simp: text_len_def)
  then show "prv_getRegistrationQueryLength ctx s = Some (length ?q + 1)"
    using assms(1,2) phone by (simp add: prv_getRegistrationQueryLength_def strlen_text registration_query_def binding_length_eq Let_def)
  let ?cap = "length ?q + 1"
  let ?p = "case phone of None \<Rightarrow> [] | Some p \<Rightarrow> QUERY_SMS_PART @ p" and ?Q = "if has_binding BINDING_Q s then QUERY_QUEUE_PART else []"
  have cap: "?cap = length QUERY_HEAD + length name + length ?p + length (transport_text s) + length ?Q +
      (if lifetime s \<noteq> 0 then length QUERY_LIFETIME_PART + length (int_text (lifetime s)) else 0) + 1"
    by (simp add: registration_query_def)
  have 1: "copy_str ?cap (QUERY_HEAD @ [0]) [] = Some QUERY_HEAD" using copy_str_eq [OF part_plain(1), of "[]" ?cap] cap by simp
  have 2: "copy_str ?cap (endpointName ctx) QUERY_HEAD = Some (QUERY_HEAD @ name)"
    unfolding assms(1) using cap by (intro copy_str_eq assms(2)) simp
  have 3: "(case msisdn ctx of None \<Rightarrow> Some (QUERY_HEAD @ name)
      | Some p \<Rightarrow> do { out \<leftarrow> copy_str ?cap (QUERY_SMS_PART @ [0]) (QUERY_HEAD @ name); copy_str ?cap p out }) = Some (QUERY_HEAD @ name @ ?p)"
    using assms(3,4) cap by (cases phone) (simp_all add: copy_str_eq part_plain)
  have 4: "put_transports ?cap s (QUERY_HEAD @ name @ ?p) = Some (Some (QUERY_HEAD @ name @ ?p @ transport_text s))"
    using put_transports_eq [of "QUERY_HEAD @ name @ ?p" s ?cap] cap by simp
  let ?o = "QUERY_HEAD @ name @ ?p @ transport_text s"
  have 5: "(if has_binding BINDING_Q s then do { out \<leftarrow> copy_str ?cap (QUERY_QUEUE_PART @ [0]) ?o; Some (Some out) } else Some (Some ?o)) = Some (Some (?o @ ?Q))"
  proof (cases "has_binding BINDING_Q s")
    case True
    then have "length ?o + length QUERY_QUEUE_PART < ?cap" using cap by simp
    then show ?thesis using True copy_str_eq [OF part_plain(4), of ?o ?cap] by simp
  qed simp
  have 6: "put_lifetime ?cap s (?o @ ?Q) = Some (Some ?q)"
  proof (cases "lifetime s = 0")
    case True
    then show ?thesis by (simp add: put_lifetime_def registration_query_def)
  next
    case False
    then show ?thesis using put_lifetime_eq [OF assms(5) False, of "?o @ ?Q" ?cap] cap by (simp add: registration_query_def)
  qed
  show "prv_getRegistrationQuery ctx s ?cap = Some (Some ?q)"
    unfolding prv_getRegistrationQuery_def 1 bind.bind_lunit 2 3 4 or_fail_simps 5 6 by simp
qed

text \<open>C32: the buffer of the registration query is exactly as large as it must be: for a client and a server
whose lifetime has 32 bits, \<open>prv_getRegistrationQueryLength\<close> is the length of the complete query (version,
endpoint name, telephone number, transports in the order UTSN, queue mode and lifetime) and its
terminator, and \<open>prv_getRegistrationQuery\<close> fills a buffer of that size with it.\<close>

theorem registration_query_exact:
  assumes "endpointName ctx = name @ [0]" and "0 \<notin> set name" and "msisdn ctx = map_option (\<lambda>p. p @ [0]) phone"
    and "0 \<notin> set (case phone of None \<Rightarrow> [] | Some p \<Rightarrow> p)" and "lifetime_ok s"
  shows "prv_getRegistrationQueryLength ctx s = Some (length (registration_query name phone s) + 1) \<and>
    prv_getRegistrationQuery ctx s (length (registration_query name phone s) + 1) = Some (Some (registration_query name phone s))"
  using registration_query_eqs [OF assms] by simp

theorem registration_query_exact_witness:
  "prv_getRegistrationQueryLength example_lwm2m example_server = Some 29 \<and>
   prv_getRegistrationQuery example_lwm2m example_server 29 = Some (Some (str ''?lwm2m=1.1&ep=dev&b=U&lt=300''))"
proof -
  have h: "endpointName example_lwm2m = str ''dev'' @ [0]" "0 \<notin> set (str ''dev'')" "msisdn example_lwm2m = map_option (\<lambda>p. p @ [0]) None"
    "0 \<notin> set (case (None :: bytes option) of None \<Rightarrow> [] | Some p \<Rightarrow> p)" "lifetime_ok example_server"
    by (simp_all add: example_lwm2m_def str_def chr_def lifetime_ok_def example_server_def)
  have q: "registration_query (str ''dev'') None example_server = str ''?lwm2m=1.1&ep=dev&b=U&lt=300''"
    by (simp add: registration_query_def transport_text_def has_binding_def letter_def transport_flags_def BINDING_UNKNOWN_def BINDING_Q_def BINDING_U_def
      BINDING_T_def BINDING_S_def BINDING_N_def example_server_def query_parts str_def chr_def int_text_def dec_text.simps digit_char_def)
  have n: "length (registration_query (str ''dev'') None example_server) + 1 = 29" unfolding q by (simp add: str_def)
  show ?thesis using registration_query_exact [OF h, unfolded n, unfolded q] .
qed

end
