(* ===== verification/Registration.thy ===== *)
theory Registration
  imports Registration_Query
begin

text \<open>
  The registration of a client (\<^verbatim>\<open>core/registration.c\<close>, version 1.1): the order of the registrations, the
  register, update and deregister messages with their replies, the retries, and the periodic step.

  A server of the list is named by its Security instance, as elsewhere; a pointer to a server that is no
  longer in the list is undefined.  The loops run over the servers in the list when they start.  The
  user data of a transaction is an address: of a server (1 plus its instance) for a deregistration, of
  a \<open>registration_data_t\<close> in the field \<open>regData\<close> of the context (above \<open>2^16\<close>) for the others.  Its
  \<open>query\<close> and \<open>payload\<close> are only freed, so only its \<open>server\<close> is kept.  The callbacks are numbered.
  \<open>lwm2m_connect_server\<close> of the platform is a parameter; closing a connection has no effect here.
\<close>

section \<open>Servers and their resources\<close>

record registration_context = lwm2m_context_t +
  regData :: "(nat \<times> u16) list"

type_synonym 'a reg = "'a registration_context_scheme"

definition srv_at :: "u16 \<Rightarrow> 'a lwm2m \<Rightarrow> lwm2m_server_t c" where
  "srv_at i ctx = find (\<lambda>s. secObjInstID s = i) (serverList ctx)"

definition set_srv :: "u16 \<Rightarrow> (lwm2m_server_t \<Rightarrow> lwm2m_server_t) \<Rightarrow> 'a lwm2m \<Rightarrow> 'a lwm2m" where
  "set_srv i f ctx = ctx\<lparr>serverList := update_first (\<lambda>s. secObjInstID s = i) f (serverList ctx)\<rparr>"

definition set_status :: "u16 \<Rightarrow> lwm2m_status_t \<Rightarrow> 'a lwm2m \<Rightarrow> 'a lwm2m" where
  "set_status i st = set_srv i (\<lambda>s. s\<lparr>server_status := st\<rparr>)"

definition server_ids :: "'a lwm2m \<Rightarrow> u16 list" where
  "server_ids ctx = map secObjInstID (serverList ctx)"

definition LWM2M_SERVER_REG_ORDER_ID :: u16 where "LWM2M_SERVER_REG_ORDER_ID = 13"
definition LWM2M_SERVER_INITIAL_REG_DELAY_ID :: u16 where "LWM2M_SERVER_INITIAL_REG_DELAY_ID = 14"
definition LWM2M_SERVER_REG_FAIL_BLOCK_ID :: u16 where "LWM2M_SERVER_REG_FAIL_BLOCK_ID = 15"
definition LWM2M_SERVER_REG_FAIL_BOOTSTRAP_ID :: u16 where "LWM2M_SERVER_REG_FAIL_BOOTSTRAP_ID = 16"
definition LWM2M_SERVER_COMM_RETRY_COUNT_ID :: u16 where "LWM2M_SERVER_COMM_RETRY_COUNT_ID = 17"
definition LWM2M_SERVER_COMM_RETRY_TIMER_ID :: u16 where "LWM2M_SERVER_COMM_RETRY_TIMER_ID = 18"
definition LWM2M_SERVER_SEQ_DELAY_TIMER_ID :: u16 where "LWM2M_SERVER_SEQ_DELAY_TIMER_ID = 19"
definition LWM2M_SERVER_SEQ_RETRY_COUNT_ID :: u16 where "LWM2M_SERVER_SEQ_RETRY_COUNT_ID = 20"

lemmas server_resources = LWM2M_SERVER_REG_ORDER_ID_def LWM2M_SERVER_INITIAL_REG_DELAY_ID_def LWM2M_SERVER_REG_FAIL_BLOCK_ID_def
  LWM2M_SERVER_REG_FAIL_BOOTSTRAP_ID_def LWM2M_SERVER_COMM_RETRY_COUNT_ID_def LWM2M_SERVER_COMM_RETRY_TIMER_ID_def
  LWM2M_SERVER_SEQ_DELAY_TIMER_ID_def LWM2M_SERVER_SEQ_RETRY_COUNT_ID_def

text \<open>The result and the value; without a value the variable of the caller is not written.\<close>

definition read_server ::
  "('a lwm2m) app_objects \<Rightarrow> ('a lwm2m) platform \<Rightarrow> (lwm2m_data_t \<Rightarrow> 'v option c) \<Rightarrow> u16 \<Rightarrow> u16 \<Rightarrow> 'a lwm2m \<Rightarrow>
   ('a lwm2m \<times> u8 \<times> 'v option) c" where
  "read_server A P decode inst rid ctx =
     do { r \<leftarrow> read_resource A P LWM2M_SERVER_OBJECT_ID inst [rid] ctx;
          (case r of
             None \<Rightarrow> Some (ctx, COAP_500_INTERNAL_SERVER_ERROR, None)
           | Some (ctx, ds, st) \<Rightarrow>
               if st = COAP_205_CONTENT
               then do { d \<leftarrow> rd ds 0; v \<leftarrow> decode d;
                         Some (ctx, if v = None then COAP_400_BAD_REQUEST else COAP_NO_ERROR, v) }
               else Some (ctx, st, None)) }"

definition prv_readUint ::
  "('a lwm2m) app_objects \<Rightarrow> ('a lwm2m) platform \<Rightarrow> u16 \<Rightarrow> u16 \<Rightarrow> 'a lwm2m \<Rightarrow> ('a lwm2m \<times> u8 \<times> u64 option) c" where
  "prv_readUint A P = read_server A P lwm2m_data_decode_uint"

definition prv_readBoolean ::
  "('a lwm2m) app_objects \<Rightarrow> ('a lwm2m) platform \<Rightarrow> u16 \<Rightarrow> u16 \<Rightarrow> 'a lwm2m \<Rightarrow> ('a lwm2m \<times> u8 \<times> bool option) c" where
  "prv_readBoolean A P = read_server A P lwm2m_data_decode_bool"

text \<open>A resource that may be missing.\<close>

definition with_default :: "'v \<Rightarrow> ('a \<times> u8 \<times> 'v option) c \<Rightarrow> ('a \<times> u8 \<times> 'v option) c" where
  "with_default v r = do { (ctx, st, x) \<leftarrow> r; Some (if st = COAP_404_NOT_FOUND then (ctx, COAP_NO_ERROR, Some v) else (ctx, st, x)) }"

definition read_uint_of where
  "read_uint_of A P i rid ctx = do { s \<leftarrow> srv_at i ctx; prv_readUint A P (servObjInstID s) rid ctx }"

definition read_bool_of where
  "read_bool_of A P i rid ctx = do { s \<leftarrow> srv_at i ctx; prv_readBoolean A P (servObjInstID s) rid ctx }"

text \<open>The flag and the order, each \<open>None\<close> when it is not written.\<close>

definition prv_getRegistrationOrder ::
  "('a lwm2m) app_objects \<Rightarrow> ('a lwm2m) platform \<Rightarrow> u16 \<Rightarrow> 'a lwm2m \<Rightarrow> ('a lwm2m \<times> u8 \<times> bool option \<times> u64 option) c" where
  "prv_getRegistrationOrder A P i ctx =
     do { (ctx, st, v) \<leftarrow> read_uint_of A P i LWM2M_SERVER_REG_ORDER_ID ctx;
          Some (if st = COAP_NO_ERROR then (ctx, st, Some True, v)
                else if st = COAP_404_NOT_FOUND then (ctx, COAP_NO_ERROR, Some False, None)
                else (ctx, st, None, None)) }"

definition prv_getRegistrationFailureBlocking ::
  "('a lwm2m) app_objects \<Rightarrow> ('a lwm2m) platform \<Rightarrow> u16 \<Rightarrow> 'a lwm2m \<Rightarrow> ('a lwm2m \<times> u8 \<times> bool option) c" where
  "prv_getRegistrationFailureBlocking A P i ctx = with_default False (read_bool_of A P i LWM2M_SERVER_REG_FAIL_BLOCK_ID ctx)"

definition prv_getBootstrapOnRegistrationFailure ::
  "('a lwm2m) app_objects \<Rightarrow> ('a lwm2m) platform \<Rightarrow> u16 \<Rightarrow> 'a lwm2m \<Rightarrow> ('a lwm2m \<times> u8 \<times> bool option) c" where
  "prv_getBootstrapOnRegistrationFailure A P i ctx = with_default True (read_bool_of A P i LWM2M_SERVER_REG_FAIL_BOOTSTRAP_ID ctx)"

text \<open>A number of retries, at most 254, and the delay between them.\<close>

definition read_limit ::
  "('a lwm2m) app_objects \<Rightarrow> ('a lwm2m) platform \<Rightarrow> u16 \<Rightarrow> u64 \<Rightarrow> u16 \<Rightarrow> u64 \<Rightarrow> u16 \<Rightarrow> 'a lwm2m \<Rightarrow> ('a lwm2m \<times> u8 \<times> (u8 \<times> u64) option) c" where
  "read_limit A P count_id count0 delay_id delay0 i ctx =
     do { (ctx, st, n) \<leftarrow> with_default count0 (read_uint_of A P i count_id ctx);
          if st \<noteq> COAP_NO_ERROR then Some (ctx, st, None)
          else do { (ctx, st, d) \<leftarrow> with_default delay0 (read_uint_of A P i delay_id ctx);
                    if st \<noteq> COAP_NO_ERROR then Some (ctx, st, None)
                    else do { n \<leftarrow> n; d \<leftarrow> d; Some (ctx, st, Some (ucast (if n > 254 then 254 else n), d)) } } }"

definition prv_getRegistrationAttemptLimit ::
  "('a lwm2m) app_objects \<Rightarrow> ('a lwm2m) platform \<Rightarrow> u16 \<Rightarrow> 'a lwm2m \<Rightarrow> ('a lwm2m \<times> u8 \<times> (u8 \<times> u64) option) c" where
  "prv_getRegistrationAttemptLimit A P = read_limit A P LWM2M_SERVER_COMM_RETRY_COUNT_ID 5 LWM2M_SERVER_COMM_RETRY_TIMER_ID 60"

definition prv_getRegistrationSequenceLimit ::
  "('a lwm2m) app_objects \<Rightarrow> ('a lwm2m) platform \<Rightarrow> u16 \<Rightarrow> 'a lwm2m \<Rightarrow> ('a lwm2m \<times> u8 \<times> (u8 \<times> u64) option) c" where
  "prv_getRegistrationSequenceLimit A P = read_limit A P LWM2M_SERVER_SEQ_RETRY_COUNT_ID 1 LWM2M_SERVER_SEQ_DELAY_TIMER_ID 86400"

section \<open>Starting\<close>

text \<open>A time plus an unsigned delay.\<close>

definition later :: "int \<Rightarrow> u64 \<Rightarrow> int" where
  "later t d = sint (word_of_int t + d)"

definition prv_startRegistration :: "('a lwm2m) app_objects \<Rightarrow> ('a lwm2m) platform \<Rightarrow> u16 \<Rightarrow> 'a lwm2m \<Rightarrow> ('a lwm2m \<times> u8) c" where
  "prv_startRegistration A P i ctx =
     do { (ctx, st, d) \<leftarrow> with_default 0 (read_uint_of A P i LWM2M_SERVER_INITIAL_REG_DELAY_ID ctx);
          if st \<noteq> COAP_NO_ERROR then Some (ctx, st)
          else do { d \<leftarrow> d;
                    Some (set_srv i (\<lambda>s. s\<lparr>registration := later (gettime P) d, server_status := STATE_REG_HOLD_OFF\<rparr>) ctx, st) } }"

definition startable :: "bool \<Rightarrow> lwm2m_server_t \<Rightarrow> bool" where
  "startable restartFailed s \<longleftrightarrow> server_status s = STATE_DEREGISTERED \<or> restartFailed \<and> server_status s = STATE_REG_FAILED"

text \<open>The result, and the ordered registration with the least order so far.\<close>

fun start_loop ::
  "('a lwm2m) app_objects \<Rightarrow> ('a lwm2m) platform \<Rightarrow> bool \<Rightarrow> u16 list \<Rightarrow> (u16 \<times> u64) option \<Rightarrow> 'a lwm2m \<Rightarrow>
   ('a lwm2m \<times> u8 \<times> (u16 \<times> u64) option) c" where
  "start_loop A P restartFailed [] first ctx = Some (ctx, COAP_NO_ERROR, first)"
| "start_loop A P restartFailed (i # is) first ctx =
     do { s \<leftarrow> srv_at i ctx;
          if startable restartFailed s
          then do { (ctx, st, ordered, order) \<leftarrow> prv_getRegistrationOrder A P i (set_srv i (\<lambda>s. s\<lparr>attempt := 0, sequence_num := 0\<rparr>) ctx);
                    if st \<noteq> COAP_NO_ERROR then Some (ctx, st, first)
                    else if ordered = Some True
                    then do { n \<leftarrow> order;
                              start_loop A P restartFailed is
                                (case first of None \<Rightarrow> Some (i, n) | Some (j, m) \<Rightarrow> if n < m then Some (i, n) else first) ctx }
                    else do { (ctx, st) \<leftarrow> prv_startRegistration A P i ctx;
                              if st \<noteq> COAP_NO_ERROR then Some (ctx, st, first) else start_loop A P restartFailed is first ctx } }
          else start_loop A P restartFailed is first ctx }"

definition registration_start :: "('a lwm2m) app_objects \<Rightarrow> ('a lwm2m) platform \<Rightarrow> bool \<Rightarrow> 'a lwm2m \<Rightarrow> ('a lwm2m \<times> u8) c" where
  "registration_start A P restartFailed ctx =
     (if find_object ctx LWM2M_SERVER_OBJECT_ID = None then Some (ctx, COAP_500_INTERNAL_SERVER_ERROR)
      else do { (ctx, st, first) \<leftarrow> start_loop A P restartFailed (server_ids ctx) None ctx;
                (case first of Some (i, _) \<Rightarrow> prv_startRegistration A P i ctx | None \<Rightarrow> Some (ctx, st)) })"

section \<open>Failures\<close>

fun fail_ordered :: "('a lwm2m) app_objects \<Rightarrow> ('a lwm2m) platform \<Rightarrow> u16 list \<Rightarrow> 'a lwm2m \<Rightarrow> ('a lwm2m) c" where
  "fail_ordered A P [] ctx = Some ctx"
| "fail_ordered A P (i # is) ctx =
     do { s \<leftarrow> srv_at i ctx;
          if server_status s = STATE_DEREGISTERED
          then do { (ctx, st, ordered, _) \<leftarrow> prv_getRegistrationOrder A P i ctx;
                    fail_ordered A P is (if st = COAP_NO_ERROR \<and> ordered = Some True then set_status i STATE_REG_FAILED ctx else ctx) }
          else fail_ordered A P is ctx }"

text \<open>The flags \<open>ordered\<close> and \<open>blocking\<close>; the next registration is started when this one does not block it.\<close>

definition start_next ::
  "('a lwm2m) app_objects \<Rightarrow> ('a lwm2m) platform \<Rightarrow> u16 \<Rightarrow> 'a lwm2m \<Rightarrow> ('a lwm2m \<times> bool \<times> bool) c" where
  "start_next A P i ctx =
     do { (ctx, st, ordered, _) \<leftarrow> prv_getRegistrationOrder A P i ctx;
          if st = COAP_NO_ERROR \<and> ordered = Some True
          then do { (ctx, st, b) \<leftarrow> prv_getRegistrationFailureBlocking A P i ctx;
                    if st = COAP_NO_ERROR
                    then do { b \<leftarrow> b; s \<leftarrow> srv_at i ctx;
                              if \<not> b \<and> sequence_num s = 1
                              then do { (ctx, _) \<leftarrow> registration_start A P False ctx; Some (ctx, True, b) }
                              else Some (ctx, True, b) }
                    else Some (ctx, True, False) }
          else Some (ctx, ordered = Some True, False) }"

definition prv_handleRegistrationSequenceFailure ::
  "('a lwm2m) app_objects \<Rightarrow> ('a lwm2m) platform \<Rightarrow> u16 \<Rightarrow> 'a lwm2m \<Rightarrow> ('a lwm2m) c" where
  "prv_handleRegistrationSequenceFailure A P i ctx =
     do { (ctx, ordered, blocking) \<leftarrow> start_next A P i ctx;
          (ctx, st, limit) \<leftarrow> prv_getRegistrationSequenceLimit A P i ctx;
          if st \<noteq> COAP_NO_ERROR then Some (set_status i STATE_REG_FAILED ctx)
          else do { (n, d) \<leftarrow> limit; s \<leftarrow> srv_at i ctx;
                    if sequence_num s \<ge> n
                    then do { (ctx, st, b) \<leftarrow> prv_getBootstrapOnRegistrationFailure A P i (set_status i STATE_REG_FAILED ctx);
                              if st \<noteq> COAP_NO_ERROR then Some (ctx\<lparr>client_state := STATE_BOOTSTRAP_REQUIRED\<rparr>)
                              else do { b \<leftarrow> b;
                                        if b then Some (ctx\<lparr>client_state := STATE_BOOTSTRAP_REQUIRED\<rparr>)
                                        else if ordered \<and> blocking then fail_ordered A P (server_ids ctx) ctx
                                        else Some ctx } }
                    else Some (set_srv i (\<lambda>s. s\<lparr>registration := later (gettime P) d, server_status := STATE_REG_HOLD_OFF, attempt := 0\<rparr>) ctx) } }"

text \<open>\<open>1 << (attempt - 1)\<close> is undefined when the result does not fit an \<open>int\<close>.\<close>

definition retry_factor :: "u8 \<Rightarrow> u64 c" where
  "retry_factor n = (if 1 \<le> n \<and> n \<le> 31 then Some (2 ^ (unat n - 1)) else None)"

definition prv_handleRegistrationAttemptFailure ::
  "('a lwm2m) app_objects \<Rightarrow> ('a lwm2m) platform \<Rightarrow> u16 \<Rightarrow> 'a lwm2m \<Rightarrow> ('a lwm2m) c" where
  "prv_handleRegistrationAttemptFailure A P i ctx =
     (if find_object ctx LWM2M_SERVER_OBJECT_ID = None then Some (set_status i STATE_REG_FAILED ctx)
      else do { (ctx, st, limit) \<leftarrow> prv_getRegistrationAttemptLimit A P i ctx;
                if st \<noteq> COAP_NO_ERROR then Some (set_status i STATE_REG_FAILED ctx)
                else do { (n, d) \<leftarrow> limit; s \<leftarrow> srv_at i ctx;
                          if attempt s \<ge> n then prv_handleRegistrationSequenceFailure A P i ctx
                          else do { k \<leftarrow> retry_factor (attempt s);
                                    Some (set_srv i (\<lambda>s. s\<lparr>registration := later (gettime P) (d * k), server_status := STATE_REG_HOLD_OFF\<rparr>) ctx) } } })"

section \<open>Messages\<close>

definition COAP_503_SERVICE_UNAVAILABLE :: u8 where "COAP_503_SERVICE_UNAVAILABLE = 0xA3"

definition sizeof_registration_data :: nat where "sizeof_registration_data = 24"

definition REGISTRATION_REPLY :: nat where "REGISTRATION_REPLY = 1"
definition UPDATE_REPLY :: nat where "UPDATE_REPLY = 2"
definition DEREGISTRATION_REPLY :: nat where "DEREGISTRATION_REPLY = 3"

definition server_address :: "u16 \<Rightarrow> nat" where "server_address i = 1 + unat i"

text \<open>A free address for a new \<open>registration_data_t\<close>.\<close>

definition new_address :: "'a reg \<Rightarrow> nat" where
  "new_address ctx = Suc (fold max (map fst (regData ctx)) (2 ^ 16))"

text \<open>The transaction is entered with its callback and data and sent; the flag says whether it was sent.\<close>

definition send_request ::
  "('a reg) platform \<Rightarrow> lwm2m_transaction_t \<Rightarrow> nat \<Rightarrow> nat \<Rightarrow> 'a reg \<Rightarrow> ('a reg \<times> bool) c" where
  "send_request P t reply adr ctx =
     do { let t = t\<lparr>callback := Some reply, userData := adr\<rparr>;
          (ctx, r) \<leftarrow> transaction_send P t (ctx\<lparr>transactionList := LWM2M_LIST_ADD mID (transactionList ctx) t\<rparr>);
          Some (ctx, r = 0) }"

text \<open>The request of a registration: path, query, content format and payload.  The flag is the result of
  \<open>transaction_set_payload\<close>.\<close>

definition registration_request ::
  "('a reg) platform \<Rightarrow> bytes \<Rightarrow> bytes \<Rightarrow> 'a reg \<Rightarrow> lwm2m_transaction_t \<Rightarrow> lwm2m_transaction_t \<times> bool" where
  "registration_request P query pl ctx t =
     (let m = message t;
          m = fst (coap_set_header_uri_path (mem_ok P) m (str ''/rd''));
          m = fst (coap_set_header_uri_query (mem_ok P) m query);
          m = fst (coap_set_header_content_type m (ucast LWM2M_CONTENT_LINK)) in
      transaction_set_payload (mem_ok P) (coap_block_size ctx) (t\<lparr>message := m\<rparr>) pl)"

text \<open>The payload of a registration; \<open>None\<close> is a failure.\<close>

definition registration_payload :: "('a reg) platform \<Rightarrow> 'a reg \<Rightarrow> bytes option c" where
  "registration_payload P ctx =
     do { n \<leftarrow> object_getRegisterPayloadBufferLength ctx;
          if n = 0 \<or> \<not> mem_ok P n then Some None
          else do { pl \<leftarrow> object_getRegisterPayload n ctx; Some (if pl = [] then None else Some pl) } }"

definition server_query :: "('a reg) platform \<Rightarrow> lwm2m_server_t \<Rightarrow> 'a reg \<Rightarrow> bytes option c" where
  "server_query P s ctx =
     do { n \<leftarrow> prv_getRegistrationQueryLength ctx s;
          if n = 0 \<or> \<not> mem_ok P n then Some None
          else do { q \<leftarrow> prv_getRegistrationQuery ctx s n;
                    Some (case q of None \<Rightarrow> None | Some q \<Rightarrow> if length q + 1 = n then Some q else None) } }"

text \<open>A sent registration is pending; its attempts are counted, and the first of them starts a sequence.\<close>

definition registration_sent :: "lwm2m_server_t \<Rightarrow> lwm2m_server_t" where
  "registration_sent s = s\<lparr>sequence_num := (if attempt s = 0 then sequence_num s + 1 else sequence_num s), attempt := attempt s + 1,
     server_status := STATE_REG_PENDING\<rparr>"

definition prv_register ::
  "('a reg) platform \<Rightarrow> (u16 \<Rightarrow> session) \<Rightarrow> bytes \<Rightarrow> u16 \<Rightarrow> 'a reg \<Rightarrow> ('a reg \<times> u8) c" where
  "prv_register P connect stack i ctx =
     do { pl \<leftarrow> registration_payload P ctx;
          case pl of None \<Rightarrow> Some (ctx, COAP_500_INTERNAL_SERVER_ERROR) | Some pl \<Rightarrow> do {
          s \<leftarrow> srv_at i ctx;
          query \<leftarrow> server_query P s ctx;
          case query of None \<Rightarrow> Some (ctx, COAP_500_INTERNAL_SERVER_ERROR) | Some query \<Rightarrow> do {
          let h = (if sessionH s = 0 then connect i else sessionH s);
          let ctx = set_srv i (\<lambda>s. s\<lparr>sessionH := h\<rparr>) ctx;
          if h = 0 then Some (ctx, COAP_503_SERVICE_UNAVAILABLE) else do {
          t \<leftarrow> transaction_new P h COAP_POST None None (nextMID ctx) 4 None stack;
          let ctx = ctx\<lparr>nextMID := nextMID ctx + 1\<rparr>;
          case t of None \<Rightarrow> Some (ctx, COAP_503_SERVICE_UNAVAILABLE) | Some t \<Rightarrow>
          (case registration_request P query pl ctx t of (t, ok) \<Rightarrow>
             if \<not> ok \<or> \<not> mem_ok P sizeof_registration_data then Some (ctx, COAP_503_SERVICE_UNAVAILABLE)
             else do {
               let a = new_address ctx;
               (ctx, ok) \<leftarrow> send_request P t REGISTRATION_REPLY a (ctx\<lparr>regData := (a, i) # regData ctx\<rparr>);
               Some (if ok then (set_srv i registration_sent ctx, COAP_NO_ERROR) else (ctx, COAP_503_SERVICE_UNAVAILABLE)) }) } } } }"

definition update_request ::
  "('a reg) platform \<Rightarrow> bool \<Rightarrow> bytes \<Rightarrow> 'a reg \<Rightarrow> lwm2m_transaction_t \<Rightarrow> lwm2m_transaction_t option c" where
  "update_request P withObjects loc ctx t =
     (let t = t\<lparr>message := fst (coap_set_header_uri_path (mem_ok P) (message t) loc)\<rparr> in
      if \<not> withObjects then Some (Some t)
      else do { pl \<leftarrow> registration_payload P ctx;
                case pl of
                  None \<Rightarrow> Some None
                | Some pl \<Rightarrow> (case transaction_set_payload (mem_ok P) (coap_block_size ctx) t pl of (t, ok) \<Rightarrow>
                               Some (if ok then Some t else None)) })"

definition prv_updateRegistration ::
  "('a reg) platform \<Rightarrow> bytes \<Rightarrow> bool \<Rightarrow> u16 \<Rightarrow> 'a reg \<Rightarrow> ('a reg \<times> u8) c" where
  "prv_updateRegistration P stack withObjects i ctx =
     do { s \<leftarrow> srv_at i ctx;
          t \<leftarrow> transaction_new P (sessionH s) COAP_POST None None (nextMID ctx) 4 None stack;
          let ctx = ctx\<lparr>nextMID := nextMID ctx + 1\<rparr>;
          case t of None \<Rightarrow> Some (ctx, COAP_500_INTERNAL_SERVER_ERROR) | Some t \<Rightarrow> do {
          loc \<leftarrow> location s;
          t \<leftarrow> update_request P withObjects loc ctx t;
          case t of None \<Rightarrow> Some (ctx, COAP_500_INTERNAL_SERVER_ERROR) | Some t \<Rightarrow>
          if \<not> mem_ok P sizeof_registration_data then Some (ctx, COAP_500_INTERNAL_SERVER_ERROR)
          else do {
            let a = new_address ctx;
            (ctx, ok) \<leftarrow> send_request P t UPDATE_REPLY a (ctx\<lparr>regData := (a, i) # regData ctx\<rparr>);
            Some (if ok then set_status i STATE_REG_UPDATE_PENDING ctx else ctx, COAP_NO_ERROR) } } }"

definition deregisterable :: "lwm2m_server_t \<Rightarrow> bool" where
  "deregisterable s \<longleftrightarrow> server_status s \<notin> {STATE_DEREGISTERED, STATE_REG_PENDING, STATE_DEREG_PENDING, STATE_REG_FAILED} \<and> location s \<noteq> None"

definition registration_deregister :: "('a reg) platform \<Rightarrow> bytes \<Rightarrow> u16 \<Rightarrow> 'a reg \<Rightarrow> ('a reg) c" where
  "registration_deregister P stack i ctx =
     do { s \<leftarrow> srv_at i ctx;
          if \<not> deregisterable s then Some ctx
          else do { t \<leftarrow> transaction_new P (sessionH s) COAP_DELETE None None (nextMID ctx) 4 None stack;
                    let ctx = ctx\<lparr>nextMID := nextMID ctx + 1\<rparr>;
                    case t of None \<Rightarrow> Some ctx | Some t \<Rightarrow> do {
                    loc \<leftarrow> location s;
                    (ctx, ok) \<leftarrow> send_request P (t\<lparr>message := fst (coap_set_header_uri_path (mem_ok P) (message t) loc)\<rparr>)
                                  DEREGISTRATION_REPLY (server_address i) ctx;
                    Some (if ok then set_status i STATE_DEREG_PENDING ctx else ctx) } } }"

section \<open>Replies\<close>

text \<open>An answer that only continues a block-wise transfer.\<close>

definition continues :: "coap_packet_t \<Rightarrow> bool" where
  "continues m \<longleftrightarrow> code m = COAP_231_CONTINUE \<or>
     code m = COAP_413_ENTITY_TOO_LARGE \<and> (\<not> IS_OPTION m COAP_OPTION_BLOCK1 \<or> block1_num m = 0)"

definition free_data :: "lwm2m_transaction_t \<Rightarrow> 'a reg \<Rightarrow> 'a reg" where
  "free_data t ctx =
     (case transaction_free_userData t ctx of (ctx, freed) \<Rightarrow>
        if freed then ctx\<lparr>regData := filter (\<lambda>(a, _). a \<noteq> userData t) (regData ctx)\<rparr> else ctx)"

definition set_time :: "('a reg) platform \<Rightarrow> u16 \<Rightarrow> 'a reg \<Rightarrow> 'a reg" where
  "set_time P i ctx = (if 0 \<le> gettime P then set_srv i (\<lambda>s. s\<lparr>registration := gettime P\<rparr>) ctx else ctx)"

text \<open>After a successful registration the next ordered one is started, unless it waits for the sequence.\<close>

definition registered_next :: "('a reg) app_objects \<Rightarrow> ('a reg) platform \<Rightarrow> u16 \<Rightarrow> 'a reg \<Rightarrow> ('a reg) c" where
  "registered_next A P i ctx =
     (if find_object ctx LWM2M_SERVER_OBJECT_ID = None then Some ctx
      else do { (ctx, st, ordered, _) \<leftarrow> prv_getRegistrationOrder A P i ctx;
                if st = COAP_NO_ERROR \<and> ordered = Some True
                then do { s \<leftarrow> srv_at i ctx;
                          if sequence_num s = 1 then do { (ctx, _) \<leftarrow> registration_start A P False ctx; Some ctx }
                          else do { (ctx, st, b) \<leftarrow> prv_getRegistrationFailureBlocking A P i ctx;
                                    if st = COAP_NO_ERROR
                                    then do { b \<leftarrow> b;
                                              if b then Some ctx else do { (ctx, _) \<leftarrow> registration_start A P False ctx; Some ctx } }
                                    else Some ctx } }
                else Some ctx })"

definition prv_handleRegistrationReply ::
  "('a reg) app_objects \<Rightarrow> ('a reg) platform \<Rightarrow> lwm2m_transaction_t \<Rightarrow> coap_packet_t option \<Rightarrow> 'a reg \<Rightarrow> ('a reg) c" where
  "prv_handleRegistrationReply A P t m ctx =
     do { i \<leftarrow> map_of (regData ctx) (userData t);
          s \<leftarrow> srv_at i ctx;
          if server_status s \<noteq> STATE_REG_PENDING then Some (free_data t ctx)
          else let ctx = set_time P i ctx in
               case m of
                 None \<Rightarrow> do { ctx \<leftarrow> prv_handleRegistrationAttemptFailure A P i ctx; Some (free_data t ctx) }
               | Some m \<Rightarrow>
                   if continues m then Some (free_data t ctx)
                   else if code m = COAP_201_CREATED
                   then do { ctx \<leftarrow> registered_next A P i (set_srv i (\<lambda>s. s\<lparr>server_status := STATE_REGISTERED,
                                 location := coap_get_multi_option_as_path_string (mem_ok P) (location_path m)\<rparr>) ctx);
                             Some (free_data t ctx) }
                   else do { ctx \<leftarrow> prv_handleRegistrationAttemptFailure A P i ctx; Some (free_data t ctx) } }"

definition prv_handleRegistrationUpdateReply ::
  "('a reg) platform \<Rightarrow> lwm2m_transaction_t \<Rightarrow> coap_packet_t option \<Rightarrow> 'a reg \<Rightarrow> ('a reg) c" where
  "prv_handleRegistrationUpdateReply P t m ctx =
     do { i \<leftarrow> map_of (regData ctx) (userData t);
          s \<leftarrow> srv_at i ctx;
          let pending = (server_status s = STATE_REG_UPDATE_PENDING);
          let ctx = (if pending then set_time P i ctx else ctx);
          case m of
            None \<Rightarrow> Some (if pending then set_status i STATE_REG_FAILED ctx else ctx)
          | Some m \<Rightarrow>
              Some (if pending \<and> continues m then free_data t ctx
                    else let ctx = (if pending
                                    then set_status i (if code m = COAP_204_CHANGED then STATE_REGISTERED else STATE_REG_FAILED) ctx
                                    else ctx) in
                         if code m \<noteq> COAP_231_CONTINUE then free_data t ctx else ctx) }"

definition prv_handleDeregistrationReply :: "lwm2m_transaction_t \<Rightarrow> 'a reg \<Rightarrow> ('a reg) c" where
  "prv_handleDeregistrationReply t ctx =
     (if userData t = 0 then Some ctx
      else let i = of_nat (userData t - 1) in
           do { s \<leftarrow> srv_at i ctx;
                Some (if server_status s = STATE_DEREG_PENDING then set_status i STATE_DEREGISTERED ctx else ctx) })"

section \<open>The periodic step\<close>

definition COAP_MAX_TRANSMIT_WAIT :: int where "COAP_MAX_TRANSMIT_WAIT = 93"

text \<open>The time after which a registration is updated: before its lifetime ends.\<close>

definition next_update :: "int \<Rightarrow> int" where
  "next_update t = (if COAP_MAX_TRANSMIT_WAIT < t then t - COAP_MAX_TRANSMIT_WAIT else t div 2)"

definition step_server ::
  "('a reg) platform \<Rightarrow> (u16 \<Rightarrow> session) \<Rightarrow> bytes \<Rightarrow> int \<Rightarrow> u16 \<Rightarrow> int \<Rightarrow> 'a reg \<Rightarrow> ('a reg \<times> int) c" where
  "step_server P connect stack now i timeout ctx =
     do { s \<leftarrow> srv_at i ctx;
          (case server_status s of
             STATE_REG_HOLD_OFF \<Rightarrow>
               let interval = registration s - now in
               if 0 \<ge> interval then do { (ctx, _) \<leftarrow> prv_register P connect stack i ctx; Some (ctx, timeout) }
               else Some (ctx, if interval \<le> timeout then interval else timeout)
           | STATE_REGISTERED \<Rightarrow>
               let interval = registration s + next_update (lifetime s) - now in
               if 0 \<ge> interval then do { (ctx, _) \<leftarrow> prv_updateRegistration P stack False i ctx; Some (ctx, timeout) }
               else Some (ctx, if interval < timeout then interval else timeout)
           | STATE_REG_UPDATE_NEEDED \<Rightarrow> do { (ctx, _) \<leftarrow> prv_updateRegistration P stack False i ctx; Some (ctx, timeout) }
           | STATE_REG_FULL_UPDATE_NEEDED \<Rightarrow> do { (ctx, _) \<leftarrow> prv_updateRegistration P stack True i ctx; Some (ctx, timeout) }
           | STATE_REG_FAILED \<Rightarrow> Some (set_srv i (\<lambda>s. s\<lparr>sessionH := 0\<rparr>) ctx, timeout)
           | _ \<Rightarrow> Some (ctx, timeout)) }"

fun step_servers ::
  "('a reg) platform \<Rightarrow> (u16 \<Rightarrow> session) \<Rightarrow> bytes \<Rightarrow> int \<Rightarrow> u16 list \<Rightarrow> int \<Rightarrow> 'a reg \<Rightarrow> ('a reg \<times> int) c" where
  "step_servers P connect stack now [] timeout ctx = Some (ctx, timeout)"
| "step_servers P connect stack now (i # is) timeout ctx =
     do { (ctx, timeout) \<leftarrow> step_server P connect stack now i timeout ctx;
          step_servers P connect stack now is timeout ctx }"

definition registration_step ::
  "('a reg) platform \<Rightarrow> (u16 \<Rightarrow> session) \<Rightarrow> bytes \<Rightarrow> int \<Rightarrow> int \<Rightarrow> 'a reg \<Rightarrow> ('a reg \<times> int) c" where
  "registration_step P connect stack now timeout ctx = step_servers P connect stack now (server_ids ctx) timeout ctx"

section \<open>A client with one server\<close>

lemma one_server:
  assumes "serverList ctx = [s]" and "secObjInstID s = i"
  shows "srv_at i ctx = Some s" and "set_srv i f ctx = ctx\<lparr>serverList := [f s]\<rparr>" and "server_ids ctx = [i]"
  using assms by (simp_all add: srv_at_def set_srv_def server_ids_def)

text \<open>A Server object without the optional resources of the registration.\<close>

definition no_retry_resources :: "('a lwm2m) app_objects \<Rightarrow> bool" where
  "no_retry_resources A \<longleftrightarrow> (\<exists>f. readFunc A LWM2M_SERVER_OBJECT_ID = Some f \<and> (\<forall>c i ds. f c i ds = (c, ds, COAP_404_NOT_FOUND)))"

lemma read_missing:
  assumes "no_retry_resources A" and "\<forall>n. mem_ok P n" and "srv_at i ctx = Some s"
  shows "read_uint_of A P i rid ctx = Some (ctx, COAP_404_NOT_FOUND, None)" and "read_bool_of A P i rid ctx = Some (ctx, COAP_404_NOT_FOUND, None)"
proof -
  obtain f where "readFunc A LWM2M_SERVER_OBJECT_ID = Some f" "\<And>c i ds. f c i ds = (c, ds, COAP_404_NOT_FOUND)"
    using assms(1) by (auto simp: no_retry_resources_def)
  then show "read_uint_of A P i rid ctx = Some (ctx, COAP_404_NOT_FOUND, None)" "read_bool_of A P i rid ctx = Some (ctx, COAP_404_NOT_FOUND, None)"
    using assms(2,3) by (simp_all add: read_uint_of_def read_bool_of_def prv_readUint_def prv_readBoolean_def read_server_def read_resource_def
      lwm2m_data_new_def coap_codes)
qed

lemma missing_defaults:
  assumes "no_retry_resources A" and "\<forall>n. mem_ok P n" and "srv_at i ctx = Some s"
  shows "prv_getRegistrationOrder A P i ctx = Some (ctx, COAP_NO_ERROR, Some False, None)"
    and "prv_getRegistrationAttemptLimit A P i ctx = Some (ctx, COAP_NO_ERROR, Some (5, 60))"
    and "prv_getRegistrationSequenceLimit A P i ctx = Some (ctx, COAP_NO_ERROR, Some (1, 86400))"
    and "prv_getBootstrapOnRegistrationFailure A P i ctx = Some (ctx, COAP_NO_ERROR, Some True)"
    and "prv_startRegistration A P i ctx = Some (set_srv i (\<lambda>s. s\<lparr>registration := later (gettime P) 0, server_status := STATE_REG_HOLD_OFF\<rparr>) ctx, COAP_NO_ERROR)"
  using read_missing [OF assms]
  by (simp_all add: prv_getRegistrationOrder_def prv_getRegistrationAttemptLimit_def prv_getRegistrationSequenceLimit_def
    prv_getBootstrapOnRegistrationFailure_def prv_startRegistration_def read_limit_def with_default_def coap_codes)

lemma later_small:
  assumes "0 \<le> t" and "t < 2 ^ 62" and "unat d < 2 ^ 62"
  shows "later t d = t + int (unat d)"
proof -
  define x where "x = t + int (unat d)"
  have "int (unat d) < int (2 ^ 62)" using assms(3) by (simp only: of_nat_less_iff)
  then have "int (unat d) < 2 ^ 62" by (simp only: of_nat_power of_nat_numeral)
  moreover have "(2 :: int) ^ 62 + 2 ^ 62 = 2 ^ 63" by simp
  ultimately have x: "0 \<le> x" "x < 2 ^ 63" using assms(1,2) unfolding x_def by linarith+
  have "word_of_int t + d = (word_of_int x :: u64)" by (simp add: x_def)
  moreover have "sint (word_of_int x :: u64) = x"
    using x by (simp add: sint_uint signed_take_bit_int_eq_self unsigned_of_int take_bit_int_eq_self)
  ultimately show ?thesis unfolding x_def later_def by simp
qed

lemma start_one_server:
  assumes "no_retry_resources A" and "\<forall>n. mem_ok P n" and "serverList ctx = [s]" and "startable r s" and "find_object ctx LWM2M_SERVER_OBJECT_ID \<noteq> None"
  shows "registration_start A P r ctx = Some (ctx\<lparr>serverList := [s\<lparr>attempt := 0, sequence_num := 0, registration := later (gettime P) 0,
     server_status := STATE_REG_HOLD_OFF\<rparr>]\<rparr>, COAP_NO_ERROR)"
proof -
  let ?i = "secObjInstID s" and ?s = "s\<lparr>attempt := 0, sequence_num := 0\<rparr>"
  note o = one_server [OF assms(3), of ?i]
  have 1: "serverList (ctx\<lparr>serverList := [?s]\<rparr>) = [?s]" "secObjInstID ?s = ?i" by simp_all
  note o1 = one_server [OF 1]
  note d = missing_defaults [OF assms(1,2) o1(1)]
  show ?thesis using assms(4,5) o o1 d by (auto simp: registration_start_def)
qed

section \<open>Unanswered registrations\<close>

text \<open>The registration is sent and gets no answer, \<open>n\<close> times.\<close>

fun unanswered :: "('a lwm2m) app_objects \<Rightarrow> ('a lwm2m) platform \<Rightarrow> u16 \<Rightarrow> nat \<Rightarrow> 'a lwm2m \<Rightarrow> ('a lwm2m) c" where
  "unanswered A P i 0 ctx = Some ctx"
| "unanswered A P i (Suc n) ctx =
     do { ctx \<leftarrow> unanswered A P i n ctx;
          prv_handleRegistrationAttemptFailure A P i (set_srv i registration_sent ctx) }"

definition hold_off :: "int \<Rightarrow> nat \<Rightarrow> lwm2m_server_t \<Rightarrow> lwm2m_server_t" where
  "hold_off now n s = s\<lparr>attempt := of_nat n, sequence_num := 1, registration := now + 60 * 2 ^ (n - 1), server_status := STATE_REG_HOLD_OFF\<rparr>"

lemma find_object_servers [simp]: "find_object (ctx\<lparr>serverList := x\<rparr>) oid = find_object ctx oid"
  by (simp add: find_object_def)

lemma attempt_failure_waits:
  assumes "no_retry_resources A" and "\<forall>n. mem_ok P n" and "0 \<le> gettime P" and "gettime P < 2 ^ 62"
    and "serverList ctx = [s]" and "secObjInstID s = i" and "find_object ctx LWM2M_SERVER_OBJECT_ID \<noteq> None"
    and "attempt s = of_nat n" and "1 \<le> n" and "n < 5"
  shows "prv_handleRegistrationAttemptFailure A P i ctx =
    Some (ctx\<lparr>serverList := [s\<lparr>registration := gettime P + 60 * 2 ^ (n - 1), server_status := STATE_REG_HOLD_OFF\<rparr>]\<rparr>)"
proof -
  note o = one_server [OF assms(5,6)]
  note d = missing_defaults [OF assms(1,2) o(1)]
  have n: "n \<in> {1, 2, 3, 4}" using assms(9,10) by auto
  then have "retry_factor (attempt s) = Some (2 ^ (n - 1))" "\<not> attempt s \<ge> 5" using assms(8) by (auto simp: retry_factor_def word_le_nat_alt)
  moreover have "later (gettime P) (60 * 2 ^ (n - 1)) = gettime P + 60 * 2 ^ (n - 1)"
    using n assms(3,4) by (subst later_small) auto
  ultimately show ?thesis using assms(7) o d by (auto simp: prv_handleRegistrationAttemptFailure_def)
qed

lemma attempt_failure_ends:
  assumes "no_retry_resources A" and "\<forall>n. mem_ok P n"
    and "serverList ctx = [s]" and "secObjInstID s = i" and "find_object ctx LWM2M_SERVER_OBJECT_ID \<noteq> None"
    and "attempt s = 5" and "sequence_num s = 1"
  shows "prv_handleRegistrationAttemptFailure A P i ctx =
    Some (ctx\<lparr>serverList := [s\<lparr>server_status := STATE_REG_FAILED\<rparr>], client_state := STATE_BOOTSTRAP_REQUIRED\<rparr>)"
proof -
  note o = one_server [OF assms(3,4)]
  note d = missing_defaults [OF assms(1,2) o(1)]
  have n: "start_next A P i ctx = Some (ctx, False, False)" by (simp add: start_next_def d)
  let ?c = "ctx\<lparr>serverList := [s\<lparr>server_status := STATE_REG_FAILED\<rparr>]\<rparr>"
  have f: "set_status i STATE_REG_FAILED ctx = ?c" by (simp add: set_status_def o)
  have "srv_at i ?c = Some (s\<lparr>server_status := STATE_REG_FAILED\<rparr>)" using assms(4) by (simp add: srv_at_def)
  note d' = missing_defaults [OF assms(1,2) this]
  show ?thesis using assms(5-7) o d d' n f by (auto simp: prv_handleRegistrationAttemptFailure_def prv_handleRegistrationSequenceFailure_def)
qed

lemma unanswered_waits:
  assumes "no_retry_resources A" and "\<forall>n. mem_ok P n" and "0 \<le> gettime P" and "gettime P < 2 ^ 62"
    and "serverList ctx = [s]" and "find_object ctx LWM2M_SERVER_OBJECT_ID \<noteq> None" and "attempt s = 0" and "sequence_num s = 0"
  shows "n < 4 \<Longrightarrow> unanswered A P (secObjInstID s) (Suc n) ctx = Some (ctx\<lparr>serverList := [hold_off (gettime P) (Suc n) s]\<rparr>)"
proof (induction n)
  case 0
  let ?s = "registration_sent s"
  have s: "?s = s\<lparr>attempt := 1, sequence_num := 1, server_status := STATE_REG_PENDING\<rparr>" using assms(7,8) by (simp add: registration_sent_def)
  show ?case
    using one_server(2) [OF assms(5), of "secObjInstID s"] assms(6)
      attempt_failure_waits [OF assms(1-4), of "ctx\<lparr>serverList := [?s]\<rparr>" ?s "secObjInstID s" 1]
    by (simp add: s hold_off_def)
next
  case (Suc n)
  let ?h = "hold_off (gettime P) (Suc n) s"
  let ?s = "registration_sent ?h"
  have "n = 0 \<or> n = 1 \<or> n = 2" using Suc.prems by auto
  then have "(of_nat (Suc n) :: u8) \<noteq> 0" by (elim disjE) simp_all
  then have s: "?s = ?h\<lparr>attempt := of_nat (Suc (Suc n)), server_status := STATE_REG_PENDING\<rparr>"
    by (simp add: registration_sent_def hold_off_def add.commute)
  have ih: "unanswered A P (secObjInstID s) (Suc n) ctx = Some (ctx\<lparr>serverList := [?h]\<rparr>)" using Suc by simp
  have i: "secObjInstID ?h = secObjInstID s" by (simp add: hold_off_def)
  have set: "set_srv (secObjInstID s) registration_sent (ctx\<lparr>serverList := [?h]\<rparr>) = ctx\<lparr>serverList := [?s]\<rparr>"
    using one_server(2) [of "ctx\<lparr>serverList := [?h]\<rparr>" ?h] i by simp
  have "prv_handleRegistrationAttemptFailure A P (secObjInstID s) (ctx\<lparr>serverList := [?s]\<rparr>) =
      Some (ctx\<lparr>serverList := [?s\<lparr>registration := gettime P + 60 * 2 ^ (Suc (Suc n) - 1), server_status := STATE_REG_HOLD_OFF\<rparr>]\<rparr>)"
    using attempt_failure_waits [OF assms(1-4), of "ctx\<lparr>serverList := [?s]\<rparr>" ?s "secObjInstID s" "Suc (Suc n)"] Suc.prems assms(6) i
    by (simp add: s)
  then show ?case unfolding unanswered.simps(2) [of A P _ "Suc n"] ih bind.bind_lunit set by (simp add: s) (simp add: hold_off_def)
qed

section \<open>Properties\<close>


text \<open>A client that knows its server and has not registered yet.\<close>

definition silent_app :: "('a lwm2m) app_objects" where
  "silent_app = example_app\<lparr>readFunc := (\<lambda>oid. Some (\<lambda>c i ds. (c, ds, COAP_404_NOT_FOUND)))\<rparr>"

definition unregistered :: lwm2m_server_t where
  "unregistered = example_server\<lparr>server_status := STATE_DEREGISTERED\<rparr>"

lemma silent_app_resources: "no_retry_resources silent_app"
  by (simp add: no_retry_resources_def silent_app_def)


section \<open>From the start to the reply\<close>

definition plain_tx :: "('a reg) platform \<Rightarrow> session \<Rightarrow> u8 \<Rightarrow> u16 \<Rightarrow> bytes \<Rightarrow> lwm2m_transaction_t" where
  "plain_tx P h meth m stack = \<lparr>mID = m, peerH = h, ack_received = False, retrans_counter = 0, retrans_time = 0,
     message = fst (coap_set_header_token (coap_init_message COAP_TYPE_CON meth m) (take 4 (generated_token m (gettime P) stack))),
     buffer_len = 0, buffer = None, tx_payload = None, callback = None, userData = 0\<rparr>"

lemma transaction_new_plain:
  "\<forall>n. mem_ok P n \<Longrightarrow> h \<noteq> 0 \<Longrightarrow> transaction_new P h meth None None m 4 None stack = Some (Some (plain_tx P h meth m stack))"
  by (simp add: transaction_new_def uri_set_ids_def rd_range_def generated_token_def plain_tx_def Let_def)

definition register_tx :: "('a reg) platform \<Rightarrow> bytes \<Rightarrow> bytes \<Rightarrow> 'a reg \<Rightarrow> session \<Rightarrow> bytes \<Rightarrow> lwm2m_transaction_t" where
  "register_tx P q pl ctx h stack = (fst (registration_request P q pl ctx (plain_tx P h COAP_POST (nextMID ctx) stack)))
     \<lparr>callback := Some REGISTRATION_REPLY, userData := new_address ctx\<rparr>"

definition register_sent :: "('a reg) platform \<Rightarrow> lwm2m_transaction_t \<Rightarrow> lwm2m_server_t \<Rightarrow> 'a reg \<Rightarrow> 'a reg" where
  "register_sent P t s ctx = put_tx (first_sent P t) (ctx\<lparr>nextMID := nextMID ctx + 1, regData := (userData t, secObjInstID s) # regData ctx,
     transactionList := LWM2M_LIST_ADD mID (transactionList ctx) t, sent := sent ctx @ [(sessionH s, msg_bytes (message t))],
     serverList := [registration_sent s]\<rparr>)"

lemma set_payload_keeps [simp]:
  "mID (fst (transaction_set_payload mem bs t pl)) = mID t" "peerH (fst (transaction_set_payload mem bs t pl)) = peerH t"
  "ack_received (fst (transaction_set_payload mem bs t pl)) = ack_received t" "buffer (fst (transaction_set_payload mem bs t pl)) = buffer t"
  "retrans_counter (fst (transaction_set_payload mem bs t pl)) = retrans_counter t"
  by (simp_all add: transaction_set_payload_def Let_def)

lemma register_tx_fields [simp]:
  "mID (register_tx P q pl ctx h stack) = nextMID ctx" "peerH (register_tx P q pl ctx h stack) = h"
  "\<not> ack_received (register_tx P q pl ctx h stack)" "buffer (register_tx P q pl ctx h stack) = None"
  "retrans_counter (register_tx P q pl ctx h stack) = 0" "userData (register_tx P q pl ctx h stack) = new_address ctx"
  "callback (register_tx P q pl ctx h stack) = Some REGISTRATION_REPLY"
  by (simp_all add: register_tx_def registration_request_def plain_tx_def Let_def)

lemma register_one_server:
  assumes "\<forall>n. mem_ok P n" and "0 \<le> gettime P" and "serverList ctx = [s]" and "sessionH s \<noteq> 0"
    and "registration_payload P ctx = Some (Some pl)" and "server_query P s ctx = Some (Some q)"
    and "sendable (message (register_tx P q pl ctx (sessionH s) stack))"
  shows "prv_register P connect stack (secObjInstID s) ctx =
    Some (register_sent P (register_tx P q pl ctx (sessionH s) stack) s ctx, COAP_NO_ERROR)"
proof -
  let ?i = "secObjInstID s" and ?t = "register_tx P q pl ctx (sessionH s) stack"
  note o = one_server [OF assms(3), of ?i]
  have c: "set_srv ?i (\<lambda>s'. s'\<lparr>sessionH := sessionH s\<rparr>) ctx = ctx" using o(2) assms(3) by simp
  obtain t where t: "registration_request P q pl (ctx\<lparr>nextMID := nextMID ctx + 1\<rparr>) (plain_tx P (sessionH s) COAP_POST (nextMID ctx) stack) = (t, True)"
    "?t = t\<lparr>callback := Some REGISTRATION_REPLY, userData := new_address ctx\<rparr>"
    using assms(1) by (simp add: registration_request_def register_tx_def transaction_set_payload_def Let_def)
  let ?c = "ctx\<lparr>nextMID := nextMID ctx + 1, regData := (new_address ctx, ?i) # regData ctx\<rparr>"
  let ?d = "put_tx (first_sent P ?t) (?c\<lparr>transactionList := LWM2M_LIST_ADD mID (transactionList ctx) ?t, sent := sent ctx @ [(sessionH s, msg_bytes (message ?t))]\<rparr>)"
  have a: "new_address (ctx\<lparr>nextMID := nextMID ctx + 1\<rparr>) = new_address ctx" by (simp add: new_address_def)
  have "send_request P t REGISTRATION_REPLY (new_address ctx) ?c = Some (?d, True)"
    using transaction_send_first [OF assms(7), of P "?c\<lparr>transactionList := LWM2M_LIST_ADD mID (transactionList ctx) ?t\<rparr>"] assms(1,2)
    by (simp add: send_request_def Let_def t(2) [symmetric])
  moreover have "set_srv ?i registration_sent ?d = register_sent P ?t s ctx"
    using assms(3) by (simp add: set_srv_def register_sent_def put_tx_def)
  ultimately show ?thesis
    using assms(1,4-6) o c t(1) a by (simp add: prv_register_def transaction_new_plain Let_def)
qed

lemma payload_servers [simp]: "registration_payload P (ctx\<lparr>serverList := x\<rparr>) = registration_payload P ctx"
proof -
  have r: "reg_path (ctx\<lparr>serverList := x\<rparr>) = reg_path ctx" by (simp add: reg_path_def)
  have l: "object_getRegisterPayloadBufferLength (ctx\<lparr>serverList := x\<rparr>) = object_getRegisterPayloadBufferLength ctx"
    unfolding object_getRegisterPayloadBufferLength_def r by simp
  have p: "object_getRegisterPayload n (ctx\<lparr>serverList := x\<rparr>) = object_getRegisterPayload n ctx" for n
    unfolding object_getRegisterPayload_def r by simp
  show ?thesis unfolding registration_payload_def l p ..
qed

lemma query_servers:
  assumes "binding s' = binding s" and "lifetime s' = lifetime s"
  shows "server_query P s' (ctx\<lparr>serverList := x\<rparr>) = server_query P s ctx"
proof -
  have h: "has_binding f s' = has_binding f s" for f by (simp add: has_binding_def assms(1))
  have "put_binding cap f c s' = put_binding cap f c s" for cap f c by (rule ext) (simp add: put_binding_def h)
  then have t: "put_transports cap s' = put_transports cap s" for cap by (intro ext) (simp add: put_transports_def h)
  have l: "put_lifetime cap s' = put_lifetime cap s" for cap by (rule ext) (simp add: put_lifetime_def assms(2))
  have b: "binding_length s' = binding_length s" by (simp add: binding_length_def h)
  have n: "prv_getRegistrationQueryLength (ctx\<lparr>serverList := x\<rparr>) s' = prv_getRegistrationQueryLength ctx s"
    unfolding prv_getRegistrationQueryLength_def b assms(2) by simp
  have q: "prv_getRegistrationQuery (ctx\<lparr>serverList := x\<rparr>) s' k = prv_getRegistrationQuery ctx s k" for k
    unfolding prv_getRegistrationQuery_def t l h by simp
  show ?thesis unfolding server_query_def n q ..
qed

lemma register_tx_servers [simp]: "register_tx P q pl (ctx\<lparr>serverList := x\<rparr>) h stack = register_tx P q pl ctx h stack"
  by (simp add: register_tx_def registration_request_def new_address_def)

lemma free_data_servers [simp]: "serverList (free_data t ctx) = serverList ctx" "client_state (free_data t ctx) = client_state ctx"
  by (simp_all add: free_data_def transaction_free_userData_def put_tx_def)

text \<open>The message of a registration.\<close>

lemma register_message:
  assumes "\<forall>n. mem_ok P n"
  shows "code (message (register_tx P q pl ctx h stack)) = COAP_POST" "uri_path (message (register_tx P q pl ctx h stack)) = [str ''rd'']"
    "content_type (message (register_tx P q pl ctx h stack)) = 40"
proof -
  have "segs_plain (chr CHR ''/'') [str ''rd'']" by (simp add: segs_plain_def str_def chr_def)
  from split_multi_string [of "mem_ok P", OF _ this, of "[]" 0] assms
  have "fst (split_option_loop (mem_ok P) (chr CHR ''/'') (skip_first (chr CHR ''/'') (str ''/rd'')) [] 0) = [str ''rd'']"
    by (simp add: skip_first_def str_def)
  then show "code (message (register_tx P q pl ctx h stack)) = COAP_POST" "uri_path (message (register_tx P q pl ctx h stack)) = [str ''rd'']"
    "content_type (message (register_tx P q pl ctx h stack)) = 40"
    using assms by (simp_all add: register_tx_def registration_request_def transaction_set_payload_def plain_tx_def Let_def setter_defs split_beta
      SET_OPTION_def media_defs coap_init_message_def)
qed

definition registered_at :: "int \<Rightarrow> bytes option \<Rightarrow> lwm2m_server_t \<Rightarrow> lwm2m_server_t" where
  "registered_at now loc s = s\<lparr>attempt := 1, sequence_num := 1, registration := now, server_status := STATE_REGISTERED, location := loc\<rparr>"

text \<open>The client after the start of the registration and after its message was sent.\<close>

definition due :: "int \<Rightarrow> lwm2m_server_t \<Rightarrow> lwm2m_server_t" where
  "due now s = s\<lparr>attempt := 0, sequence_num := 0, registration := now, server_status := STATE_REG_HOLD_OFF\<rparr>"

definition due_client :: "int \<Rightarrow> lwm2m_server_t \<Rightarrow> 'a reg \<Rightarrow> 'a reg" where
  "due_client now s ctx = ctx\<lparr>serverList := [due now s]\<rparr>"

definition pending_client :: "('a reg) platform \<Rightarrow> bytes \<Rightarrow> bytes \<Rightarrow> bytes \<Rightarrow> lwm2m_server_t \<Rightarrow> 'a reg \<Rightarrow> 'a reg" where
  "pending_client P q pl stack s ctx =
     register_sent P (register_tx P q pl ctx (sessionH s) stack) (due (gettime P) s) (due_client (gettime P) s ctx)"

lemma registration_started:
  assumes "no_retry_resources A" and "\<forall>n. mem_ok P n" and "0 \<le> gettime P" and "gettime P < 2 ^ 62"
    and "serverList ctx = [s]" and "server_status s = STATE_DEREGISTERED" and "find_object ctx LWM2M_SERVER_OBJECT_ID \<noteq> None"
  shows "registration_start A P restart ctx = Some (due_client (gettime P) s ctx, COAP_NO_ERROR)"
  using start_one_server [OF assms(1,2,5) _ assms(7), of restart] assms(6) later_small [OF assms(3,4), of 0]
  by (simp add: startable_def due_client_def due_def)

lemma registration_requested:
  assumes "\<forall>n. mem_ok P n" and "0 \<le> gettime P" and "sessionH s \<noteq> 0"
    and "registration_payload P ctx = Some (Some pl)" and "server_query P s ctx = Some (Some q)"
    and "sendable (message (register_tx P q pl ctx (sessionH s) stack))"
  shows "registration_step P connect stack (gettime P) timeout (due_client (gettime P) s ctx) = Some (pending_client P q pl stack s ctx, timeout)"
proof -
  let ?s = "due (gettime P) s" and ?c = "due_client (gettime P) s ctx"
  have q: "server_query P ?s ?c = Some (Some q)" using query_servers [where s' = ?s and s = s and P = P and ctx = ctx and x = "[?s]"] assms(5) by (simp add: due_client_def due_def)
  have "registration_payload P ?c = Some (Some pl)" using assms(4) by (simp add: due_client_def)
  moreover have t: "register_tx P q pl ?c (sessionH ?s) stack = register_tx P q pl ctx (sessionH s) stack" by (simp add: due_client_def due_def)
  ultimately have "prv_register P connect stack (secObjInstID ?s) ?c = Some (pending_client P q pl stack s ctx, COAP_NO_ERROR)"
    using register_one_server [of P ?c ?s pl q stack connect] assms(1-3,6) q by (simp add: pending_client_def due_client_def due_def)
  then show ?thesis by (simp add: registration_step_def step_server_def srv_at_def server_ids_def due_client_def) (simp add: due_def)
qed

lemma pending_client_fields:
  "serverList (pending_client P q pl stack s ctx) = [s\<lparr>attempt := 1, sequence_num := 1, registration := gettime P, server_status := STATE_REG_PENDING\<rparr>]"
  "sent (pending_client P q pl stack s ctx) = sent ctx @ [(sessionH s, msg_bytes (message (register_tx P q pl ctx (sessionH s) stack)))]"
  "map_of (regData (pending_client P q pl stack s ctx)) (userData (register_tx P q pl ctx (sessionH s) stack)) = Some (secObjInstID s)"
  "find_object (pending_client P q pl stack s ctx) oid = find_object ctx oid" "client_state (pending_client P q pl stack s ctx) = client_state ctx"
  by (simp_all add: pending_client_def register_sent_def put_tx_def due_client_def registration_sent_def find_object_def) (simp_all add: due_def)

lemma registration_answered:
  assumes "no_retry_resources A" and "\<forall>n. mem_ok P n" and "0 \<le> gettime P" and "gettime P < 2 ^ 62"
    and "find_object ctx LWM2M_SERVER_OBJECT_ID \<noteq> None"
  shows "map_option serverList (prv_handleRegistrationReply A P (register_tx P q pl ctx (sessionH s) stack) None (pending_client P q pl stack s ctx)) =
      Some [hold_off (gettime P) 1 s]"
    and "code m = COAP_201_CREATED \<Longrightarrow> \<exists>ctx'. prv_handleRegistrationReply A P (register_tx P q pl ctx (sessionH s) stack) (Some m) (pending_client P q pl stack s ctx) = Some ctx' \<and>
      serverList ctx' = [registered_at (gettime P) (coap_get_multi_option_as_path_string (mem_ok P) (location_path m)) s] \<and> client_state ctx' = client_state ctx"
proof -
  let ?i = "secObjInstID s" and ?t = "register_tx P q pl ctx (sessionH s) stack" and ?c2 = "pending_client P q pl stack s ctx"
  let ?s2 = "s\<lparr>attempt := 1, sequence_num := 1, registration := gettime P, server_status := STATE_REG_PENDING\<rparr>"
  note c2 = pending_client_fields [of P q pl stack s ctx]
  have i2: "secObjInstID ?s2 = ?i" by simp
  note o2 = one_server [OF c2(1) i2]
  have st: "set_time P ?i ?c2 = ?c2" using assms(3) o2(2) c2(1) by (simp add: set_time_def)
  show "map_option serverList (prv_handleRegistrationReply A P ?t None ?c2) = Some [hold_off (gettime P) 1 s]"
    using attempt_failure_waits [OF assms(1-4) c2(1) i2, of 1] assms(5) c2(3,4) o2(1) st
    by (auto simp: prv_handleRegistrationReply_def hold_off_def)
  assume m: "code m = COAP_201_CREATED"
  let ?s3 = "?s2\<lparr>server_status := STATE_REGISTERED, location := coap_get_multi_option_as_path_string (mem_ok P) (location_path m)\<rparr>"
  have "srv_at ?i (?c2\<lparr>serverList := [?s3]\<rparr>) = Some ?s3" using i2 by (simp add: srv_at_def)
  note d = missing_defaults(1) [OF assms(1,2) this]
  have "registered_next A P ?i (?c2\<lparr>serverList := [?s3]\<rparr>) = Some (?c2\<lparr>serverList := [?s3]\<rparr>)"
    using c2(4) d assms(5) by (simp add: registered_next_def)
  moreover have "\<not> continues m" using m by (simp add: continues_def coap_codes)
  ultimately have "prv_handleRegistrationReply A P ?t (Some m) ?c2 = Some (free_data ?t (?c2\<lparr>serverList := [?s3]\<rparr>))"
    using c2(3) o2 st m by (simp add: prv_handleRegistrationReply_def)
  then show "\<exists>ctx'. prv_handleRegistrationReply A P ?t (Some m) ?c2 = Some ctx' \<and>
      serverList ctx' = [registered_at (gettime P) (coap_get_multi_option_as_path_string (mem_ok P) (location_path m)) s] \<and> client_state ctx' = client_state ctx"
    using c2(5) by (simp add: registered_at_def)
qed


definition register_client :: "registration_context" where
  "register_client = lwm2m_context_t.extend (payload_client\<lparr>serverList := [unregistered]\<rparr>) (registration_context.fields [])"

definition register_platform :: "registration_context platform" where
  "register_platform = \<lparr>mem_ok = (\<lambda>_. True), gettime = 100, session_is_equal = (=), buffer_send = (\<lambda>_ _. 0),
     callback_fn = (\<lambda>_ ctx _ _. ctx)\<rparr>"

definition client_links :: bytes where
  "client_links = str ''</>;rt='' @ [34] @ str ''oma.lwm2m'' @ [34] @ str '';ct=112,</1>;ver=1.1,</1/0>,</3/0>,</3/1>''"

definition client_query :: bytes where
  "client_query = str ''?lwm2m=1.1&ep=dev&b=U&lt=300''"

lemma register_client_fields:
  "serverList register_client = [unregistered]" "objectList register_client = objectList payload_client"
  "reg_path register_client = Some (str ''/'' @ [0])" "sent register_client = []" "coap_block_size register_client = 1024"
  "endpointName register_client = str ''dev'' @ [0]" "msisdn register_client = None"
  by (simp_all add: register_client_def lwm2m_context_t.defs registration_context.defs payload_client_def example_lwm2m_def reg_path_def str_def chr_def)

lemma register_client_payload: "registration_payload register_platform register_client = Some (Some client_links)"
proof -
  have "LWM2M_OSCORE_OBJECT_ID \<notin> objID ` set (objectList register_client)"
    by (simp add: register_client_fields payload_client_def LWM2M_OSCORE_OBJECT_ID_def)
  note n = register_length_eq [OF register_client_fields(3) payload_client_path(2) this]
  note e = register_payload_eq [OF register_client_fields(3) payload_client_path(2)]
  have t: "register_text (str ''/'') register_client = client_links @ str '',''"
    by (simp add: register_text_def listed_objects_def register_client_fields payload_client_def LWM2M_SECURITY_OBJECT_ID_def object_text_def
      has_version_def version_link_def link_text_def REG_LWM2M_RESOURCE_TYPE_def client_links_def str_def chr_def dec_text.simps digit_char_def)
  show ?thesis using n e unfolding t by (simp add: registration_payload_def register_platform_def butlast_append) (simp add: client_links_def str_def)
qed

lemma register_client_query: "server_query register_platform unregistered register_client = Some (Some client_query)"
proof -
  have h: "endpointName register_client = str ''dev'' @ [0]" "0 \<notin> set (str ''dev'')" "msisdn register_client = map_option (\<lambda>p. p @ [0]) None"
    "0 \<notin> set (case (None :: bytes option) of None \<Rightarrow> [] | Some p \<Rightarrow> p)" "lifetime_ok unregistered"
    by (simp_all add: register_client_fields str_def chr_def lifetime_ok_def unregistered_def example_server_def)
  have q: "registration_query (str ''dev'') None unregistered = client_query"
    by (simp add: registration_query_def transport_text_def has_binding_def letter_def transport_flags_def BINDING_UNKNOWN_def BINDING_Q_def BINDING_U_def
      BINDING_T_def BINDING_S_def BINDING_N_def unregistered_def example_server_def query_parts str_def chr_def int_text_def dec_text.simps digit_char_def
      client_query_def)
  have n: "length client_query + 1 = 29" by (simp add: client_query_def str_def)
  have "prv_getRegistrationQueryLength register_client unregistered = Some 29"
    "prv_getRegistrationQuery register_client unregistered 29 = Some (Some client_query)"
    using registration_query_eqs [OF h] by (simp_all add: q n [simplified])
  then show ?thesis using n by (simp add: server_query_def register_platform_def)
qed

lemma register_client_options:
  "fst (split_option_loop (\<lambda>_. True) (chr CHR ''/'') (skip_first (chr CHR ''/'') (str ''/rd'')) [] 0) = [str ''rd'']"
  "fst (split_option_loop (\<lambda>_. True) (chr CHR ''&'') (skip_first (chr CHR ''?'') client_query) [] 0) =
     [str ''lwm2m=1.1'', str ''ep=dev'', str ''b=U'', str ''lt=300'']"
proof -
  have "segs_plain (chr CHR ''/'') [str ''rd'']" by (simp add: segs_plain_def str_def chr_def)
  from split_multi_string [of "\<lambda>_. True", OF _ this, of "[]" 0]
  show "fst (split_option_loop (\<lambda>_. True) (chr CHR ''/'') (skip_first (chr CHR ''/'') (str ''/rd'')) [] 0) = [str ''rd'']"
    by (simp add: skip_first_def str_def)
  have "segs_plain (chr CHR ''&'') [str ''lwm2m=1.1'', str ''ep=dev'', str ''b=U'', str ''lt=300'']"
    by (simp add: segs_plain_def str_def chr_def)
  from split_multi_string [of "\<lambda>_. True", OF _ this, of "[]" 0]
  show "fst (split_option_loop (\<lambda>_. True) (chr CHR ''&'') (skip_first (chr CHR ''?'') client_query) [] 0) =
     [str ''lwm2m=1.1'', str ''ep=dev'', str ''b=U'', str ''lt=300'']"
    by (simp add: skip_first_def str_def chr_def client_query_def)
qed

lemma register_client_sendable:
  "sendable (message (register_tx register_platform client_query client_links register_client 3 []))"
proof -
  have "length client_links \<le> 1024" by (simp add: client_links_def str_def)
  then show ?thesis
    by (simp add: register_tx_def registration_request_def transaction_set_payload_def plain_tx_def Let_def setter_defs split_beta
      SET_OPTION_def media_defs coap_init_message_def register_client_fields register_platform_def register_client_options
      sendable_def size_ok_def multi_ok_def IS_OPTION_def option_numbers coap_serialize_get_size_def payload_len_def coap_sizes
      zero_packet_def) (auto simp: min_def)
qed


end
