(* ===== verification/Bootstrap_Discover.thy ===== *)
theory Bootstrap_Discover
  imports Registration
begin

text \<open>
  The answer of a client to a Bootstrap-Discover request (\<^verbatim>\<open>prv_handleBootstrapDiscover\<close> in
  \<^verbatim>\<open>core/bootstrap.c\<close>): the length of the links is computed first, then they are written to a buffer of
  that length.  Both passes read the resources of the Security and Server objects from the application.
  A result pairs the context with \<open>None\<close> for a failure, answered with 5.00.
\<close>

section \<open>Reading\<close>

definition and_then :: "('s \<times> 'v option) c \<Rightarrow> ('s \<Rightarrow> 'v \<Rightarrow> ('s \<times> 'w option) c) \<Rightarrow> ('s \<times> 'w option) c" where
  "and_then r f = do { (ctx, v) \<leftarrow> r; (case v of None \<Rightarrow> Some (ctx, None) | Some v \<Rightarrow> f ctx v) }"

definition with_ctx :: "'s \<Rightarrow> 'v option c \<Rightarrow> ('s \<times> 'v option) c" where
  "with_ctx ctx r = do { v \<leftarrow> r; Some (ctx, v) }"

definition LWM2M_SECURITY_URI_ID :: u16 where "LWM2M_SECURITY_URI_ID = 0"

definition resource_uri :: "u16 \<Rightarrow> u16 \<Rightarrow> u16 \<Rightarrow> lwm2m_uri_t" where
  "resource_uri oid i rid = LWM2M_URI_RESET\<lparr>objectId := oid, instanceId := i, resourceId := rid\<rparr>"

text \<open>A resource with exactly one value.\<close>

definition read_one ::
  "('a lwm2m) app_objects \<Rightarrow> ('a lwm2m) platform \<Rightarrow> (lwm2m_data_t \<Rightarrow> 'v option c) \<Rightarrow> u16 \<Rightarrow> u16 \<Rightarrow> u16 \<Rightarrow> 'a lwm2m \<Rightarrow>
   ('a lwm2m \<times> 'v option) c" where
  "read_one A P decode oid i rid ctx =
     (case object_readData A P (resource_uri oid i rid) ctx of (ctx, ds, st) \<Rightarrow>
        if st \<noteq> COAP_205_CONTENT then Some (ctx, None)
        else case ds of [d] \<Rightarrow> with_ctx ctx (decode d) | _ \<Rightarrow> Some (ctx, None))"

definition decode_string :: "lwm2m_data_t \<Rightarrow> bytes option c" where
  "decode_string d =
     (if data_type d = LWM2M_TYPE_STRING then do { b \<leftarrow> value_buffer (data_value d); Some (Some b) } else Some None)"

section \<open>The length of the links\<close>

definition add_number :: "u64 \<Rightarrow> nat \<Rightarrow> nat option c" where
  "add_number v len =
     do { n \<leftarrow> text_len (utils_uintToText v (replicate (REG_OBJECT_MIN_LEN + 5) 0));
          Some (if n = 0 then None else Some (len + n)) }"

text \<open>An object without instances or with a version has a link of its own.\<close>

definition own_link :: "lwm2m_object_t \<Rightarrow> bool" where
  "own_link obj \<longleftrightarrow> instanceList obj = [] \<or> has_version obj"

definition object_link_length :: "lwm2m_object_t \<Rightarrow> nat \<Rightarrow> nat option c" where
  "object_link_length obj len =
     (if \<not> own_link obj then Some (Some len)
      else or_fail (add_number (ucast (objID obj)) (len + 4)) (\<lambda>len.
        if has_version obj
        then or_fail (add_number (ucast (versionMajor obj)) (len + 6)) (add_number (ucast (versionMinor obj)))
        else Some (Some len)))"

definition attribute_length ::
  "('a lwm2m) app_objects \<Rightarrow> ('a lwm2m) platform \<Rightarrow> u16 \<Rightarrow> u16 \<Rightarrow> nat \<Rightarrow> 'a lwm2m \<Rightarrow> ('a lwm2m \<times> nat option) c" where
  "attribute_length A P oid i len ctx =
     (if oid = LWM2M_SECURITY_OBJECT_ID
      then and_then (read_one A P lwm2m_data_decode_bool oid i LWM2M_SECURITY_BOOTSTRAP_ID ctx) (\<lambda>ctx bootstrap.
             if bootstrap then Some (ctx, Some len)
             else and_then (read_one A P lwm2m_data_decode_uint oid i LWM2M_SECURITY_SHORT_SERVER_ID ctx) (\<lambda>ctx v.
               and_then (with_ctx ctx (add_number v (len + 6))) (\<lambda>ctx len.
               and_then (read_one A P decode_string oid i LWM2M_SECURITY_URI_ID ctx) (\<lambda>ctx u.
                 Some (ctx, Some (len + 8 + length u))))))
      else if oid = LWM2M_SERVER_OBJECT_ID
      then and_then (read_one A P lwm2m_data_decode_uint oid i LWM2M_SERVER_SHORT_ID_ID ctx) (\<lambda>ctx v.
             with_ctx ctx (add_number v (len + 6)))
      else Some (ctx, Some len))"

fun instances_length ::
  "('a lwm2m) app_objects \<Rightarrow> ('a lwm2m) platform \<Rightarrow> u16 \<Rightarrow> u16 list \<Rightarrow> nat \<Rightarrow> 'a lwm2m \<Rightarrow> ('a lwm2m \<times> nat option) c" where
  "instances_length A P oid [] len ctx = Some (ctx, Some len)"
| "instances_length A P oid (i # is) len ctx =
     and_then (with_ctx ctx (or_fail (add_number (ucast oid) (len + 5)) (add_number (ucast i)))) (\<lambda>ctx len.
     and_then (attribute_length A P oid i len ctx) (\<lambda>ctx len. instances_length A P oid is len ctx))"

text \<open>The objects the request selects: one, or all.\<close>

definition selects :: "lwm2m_uri_t \<Rightarrow> lwm2m_object_t \<Rightarrow> bool" where
  "selects uri obj \<longleftrightarrow> \<not> (LWM2M_URI_IS_SET_OBJECT uri \<and> objectId uri \<noteq> objID obj)"

fun objects_length ::
  "('a lwm2m) app_objects \<Rightarrow> ('a lwm2m) platform \<Rightarrow> lwm2m_uri_t \<Rightarrow> lwm2m_object_t list \<Rightarrow> nat \<Rightarrow> 'a lwm2m \<Rightarrow> ('a lwm2m \<times> nat option) c" where
  "objects_length A P uri [] len ctx = Some (ctx, Some len)"
| "objects_length A P uri (obj # objs) len ctx =
     (if \<not> selects uri obj then objects_length A P uri objs len ctx
      else and_then (with_ctx ctx (object_link_length obj len)) (\<lambda>ctx len.
           and_then (instances_length A P (objID obj) (instanceList obj) len ctx) (\<lambda>ctx len.
             objects_length A P uri objs len ctx)))"

section \<open>The links\<close>

definition put_chars :: "nat \<Rightarrow> bytes \<Rightarrow> bytes \<Rightarrow> bytes option c" where
  "put_chars cap xs out = Some (if cap - length out < length xs then None else Some (out @ xs))"

definition put_number :: "nat \<Rightarrow> u64 \<Rightarrow> bytes \<Rightarrow> bytes option c" where
  "put_number cap v out =
     do { (b, n) \<leftarrow> utils_uintToText v (replicate (cap - length out) 0);
          if n = 0 then Some None else do { t \<leftarrow> rd_range b 0 n; Some (Some (out @ t)) } }"

definition put_object_link :: "nat \<Rightarrow> lwm2m_object_t \<Rightarrow> bytes \<Rightarrow> bytes option c" where
  "put_object_link cap obj out =
     (if \<not> own_link obj then Some (Some out)
      else or_fail (put_chars cap (str '',</'') out) (\<lambda>out.
           or_fail (put_number cap (ucast (objID obj)) out) (\<lambda>out.
           or_fail (put_chars cap (str ''>'') out) (\<lambda>out.
             if has_version obj
             then or_fail (put_chars cap (str '';'') out) (\<lambda>out.
                  do { out \<leftarrow> copy_str cap (str ''ver='' @ [0]) out;
                       or_fail (put_number cap (ucast (versionMajor obj)) out) (\<lambda>out.
                       or_fail (put_chars cap (str ''.'') out) (put_number cap (ucast (versionMinor obj)))) })
             else Some (Some out)))))"

definition put_link_start :: "nat \<Rightarrow> u16 \<Rightarrow> u16 \<Rightarrow> bytes \<Rightarrow> bytes option c" where
  "put_link_start cap oid i out =
     or_fail (put_chars cap (str '',</'') out) (\<lambda>out.
     or_fail (put_number cap (ucast oid) out) (\<lambda>out.
     or_fail (put_chars cap (str ''/'') out) (\<lambda>out.
     or_fail (put_number cap (ucast i) out) (put_chars cap (str ''>'')))))"

definition put_ssid :: "nat \<Rightarrow> u64 \<Rightarrow> bytes \<Rightarrow> bytes option c" where
  "put_ssid cap v out =
     or_fail (put_chars cap (str '';'') out) (\<lambda>out. do { out \<leftarrow> copy_str cap (str ''ssid='' @ [0]) out; put_number cap v out })"

definition put_uri_start :: "nat \<Rightarrow> bytes \<Rightarrow> bytes option c" where
  "put_uri_start cap out =
     or_fail (put_chars cap (str '';'') out) (\<lambda>out. do { out \<leftarrow> copy_str cap (str ''uri='' @ [34, 0]) out; Some (Some out) })"

definition put_attribute ::
  "nat \<Rightarrow> ('a lwm2m) app_objects \<Rightarrow> ('a lwm2m) platform \<Rightarrow> u16 \<Rightarrow> u16 \<Rightarrow> bytes \<Rightarrow> 'a lwm2m \<Rightarrow> ('a lwm2m \<times> bytes option) c" where
  "put_attribute cap A P oid i out ctx =
     (if oid = LWM2M_SECURITY_OBJECT_ID
      then and_then (read_one A P lwm2m_data_decode_bool oid i LWM2M_SECURITY_BOOTSTRAP_ID ctx) (\<lambda>ctx bootstrap.
             if bootstrap then Some (ctx, Some out)
             else and_then (read_one A P lwm2m_data_decode_uint oid i LWM2M_SECURITY_SHORT_SERVER_ID ctx) (\<lambda>ctx v.
               and_then (with_ctx ctx (or_fail (put_ssid cap v out) (put_uri_start cap))) (\<lambda>ctx out.
               and_then (read_one A P decode_string oid i LWM2M_SECURITY_URI_ID ctx) (\<lambda>ctx u.
                 with_ctx ctx (or_fail (put_chars cap u out) (put_chars cap [34]))))))
      else if oid = LWM2M_SERVER_OBJECT_ID
      then and_then (read_one A P lwm2m_data_decode_uint oid i LWM2M_SERVER_SHORT_ID_ID ctx) (\<lambda>ctx v.
             with_ctx ctx (put_ssid cap v out))
      else Some (ctx, Some out))"

fun put_instances ::
  "nat \<Rightarrow> ('a lwm2m) app_objects \<Rightarrow> ('a lwm2m) platform \<Rightarrow> u16 \<Rightarrow> u16 list \<Rightarrow> bytes \<Rightarrow> 'a lwm2m \<Rightarrow> ('a lwm2m \<times> bytes option) c" where
  "put_instances cap A P oid [] out ctx = Some (ctx, Some out)"
| "put_instances cap A P oid (i # is) out ctx =
     and_then (with_ctx ctx (put_link_start cap oid i out)) (\<lambda>ctx out.
     and_then (put_attribute cap A P oid i out ctx) (\<lambda>ctx out. put_instances cap A P oid is out ctx))"

fun put_objects ::
  "nat \<Rightarrow> ('a lwm2m) app_objects \<Rightarrow> ('a lwm2m) platform \<Rightarrow> lwm2m_uri_t \<Rightarrow> lwm2m_object_t list \<Rightarrow> bytes \<Rightarrow> 'a lwm2m \<Rightarrow>
   ('a lwm2m \<times> bytes option) c" where
  "put_objects cap A P uri [] out ctx = Some (ctx, Some out)"
| "put_objects cap A P uri (obj # objs) out ctx =
     (if \<not> selects uri obj then put_objects cap A P uri objs out ctx
      else and_then (with_ctx ctx (put_object_link cap obj out)) (\<lambda>ctx out.
           and_then (put_instances cap A P (objID obj) (instanceList obj) out ctx) (\<lambda>ctx out.
             put_objects cap A P uri objs out ctx)))"

definition DISCOVER_START :: bytes where "DISCOVER_START = str ''</>;''"

text \<open>The head of the answer: the links start with the version of the protocol.\<close>

definition put_head :: "nat \<Rightarrow> bytes option c" where
  "put_head cap =
     or_fail (put_chars cap DISCOVER_START []) (\<lambda>out.
       do { out \<leftarrow> copy_str cap (str ''lwm2m='' @ [0]) out; out \<leftarrow> copy_str cap (str ''1.1'' @ [0]) out; Some (Some out) })"

definition prv_handleBootstrapDiscover ::
  "('a lwm2m) app_objects \<Rightarrow> ('a lwm2m) platform \<Rightarrow> lwm2m_uri_t \<Rightarrow> 'a lwm2m \<Rightarrow> ('a lwm2m \<times> u8 \<times> bytes option) c" where
  "prv_handleBootstrapDiscover A P uri ctx =
     (if LWM2M_URI_IS_SET_OBJECT uri \<and>
         (LWM2M_URI_IS_SET_INSTANCE uri \<or> LWM2M_URI_IS_SET_RESOURCE uri \<or> LWM2M_URI_IS_SET_RESOURCE_INSTANCE uri)
      then Some (ctx, COAP_400_BAD_REQUEST, None)
      else if LWM2M_URI_IS_SET_OBJECT uri \<and> find_object ctx (objectId uri) = None then Some (ctx, COAP_404_NOT_FOUND, None)
      else do {
        (ctx, n) \<leftarrow> objects_length A P uri (objectList ctx) 13 ctx;
        case n of None \<Rightarrow> Some (ctx, COAP_500_INTERNAL_SERVER_ERROR, None)
        | Some n \<Rightarrow>
            if \<not> mem_ok P n then Some (ctx, COAP_500_INTERNAL_SERVER_ERROR, None)
            else do {
              (ctx, b) \<leftarrow> and_then (with_ctx ctx (put_head n)) (\<lambda>ctx out. put_objects n A P uri (objectList ctx) out ctx);
              Some (case b of None \<Rightarrow> (ctx, COAP_500_INTERNAL_SERVER_ERROR, None) | Some b \<Rightarrow> (ctx, COAP_205_CONTENT, Some b)) } })"

section \<open>What is printed\<close>

definition read_as ::
  "('a lwm2m) app_objects \<Rightarrow> ('a lwm2m) platform \<Rightarrow> (lwm2m_data_t \<Rightarrow> 'v option c) \<Rightarrow> u16 \<Rightarrow> u16 \<Rightarrow> u16 \<Rightarrow> 'a lwm2m \<Rightarrow> 'v option" where
  "read_as A P decode oid i rid ctx = do { (_, v) \<leftarrow> read_one A P decode oid i rid ctx; v }"

definition object_link :: "lwm2m_object_t \<Rightarrow> bytes" where
  "object_link obj =
     (if \<not> own_link obj then []
      else str '',</'' @ dec_text (unat (objID obj)) @ str ''>'' @
        (if has_version obj then str '';ver='' @ dec_text (unat (versionMajor obj)) @ str ''.'' @ dec_text (unat (versionMinor obj)) else []))"

definition ssid_text :: "u64 \<Rightarrow> bytes" where "ssid_text v = str '';ssid='' @ dec_text (unat v)"

definition attribute_text :: "('a lwm2m) app_objects \<Rightarrow> ('a lwm2m) platform \<Rightarrow> 'a lwm2m \<Rightarrow> u16 \<Rightarrow> u16 \<Rightarrow> bytes" where
  "attribute_text A P ctx oid i =
     (if oid = LWM2M_SECURITY_OBJECT_ID
      then (case (read_as A P lwm2m_data_decode_bool oid i LWM2M_SECURITY_BOOTSTRAP_ID ctx,
                  read_as A P lwm2m_data_decode_uint oid i LWM2M_SECURITY_SHORT_SERVER_ID ctx,
                  read_as A P decode_string oid i LWM2M_SECURITY_URI_ID ctx) of
              (Some False, Some v, Some u) \<Rightarrow> ssid_text v @ str '';uri='' @ [34] @ u @ [34]
            | _ \<Rightarrow> [])
      else if oid = LWM2M_SERVER_OBJECT_ID
      then (case read_as A P lwm2m_data_decode_uint oid i LWM2M_SERVER_SHORT_ID_ID ctx of Some v \<Rightarrow> ssid_text v | None \<Rightarrow> [])
      else [])"

definition instance_link :: "('a lwm2m) app_objects \<Rightarrow> ('a lwm2m) platform \<Rightarrow> 'a lwm2m \<Rightarrow> u16 \<Rightarrow> u16 \<Rightarrow> bytes" where
  "instance_link A P ctx oid i =
     str '',</'' @ dec_text (unat oid) @ str ''/'' @ dec_text (unat i) @ str ''>'' @ attribute_text A P ctx oid i"

definition discover_links :: "('a lwm2m) app_objects \<Rightarrow> ('a lwm2m) platform \<Rightarrow> 'a lwm2m \<Rightarrow> lwm2m_object_t list \<Rightarrow> bytes" where
  "discover_links A P ctx objs =
     concat (map (\<lambda>obj. object_link obj @ concat (map (instance_link A P ctx (objID obj)) (instanceList obj))) objs)"

section \<open>The two passes agree\<close>

text \<open>The application reads without changing the context.\<close>

definition reads_stable :: "('a lwm2m) app_objects \<Rightarrow> ('a lwm2m) platform \<Rightarrow> 'a lwm2m \<Rightarrow> bool" where
  "reads_stable A P ctx \<longleftrightarrow> (\<forall>uri. fst (object_readData A P uri ctx) = ctx)"

lemma and_then_simps [simp]:
  "and_then (Some (ctx, Some v)) f = f ctx v" "and_then (Some (ctx, None)) f = Some (ctx, None)" "and_then None f = None"
  by (simp_all add: and_then_def)

lemma with_ctx_simps [simp]: "with_ctx ctx (Some v) = Some (ctx, v)" "with_ctx ctx None = None"
  by (simp_all add: with_ctx_def)

lemma and_then_SomeE:
  assumes "and_then r f = Some (ctx', Some w)"
  obtains ctx v where "r = Some (ctx, Some v)" and "f ctx v = Some (ctx', Some w)"
  using assms by (auto simp: and_then_def bind_eq_Some_conv split: option.splits)

lemma with_ctx_SomeE:
  assumes "with_ctx ctx r = Some (ctx', Some w)"
  shows "ctx' = ctx" and "r = Some (Some w)"
  using assms by (auto simp: with_ctx_def bind_eq_Some_conv)

lemma or_fail_SomeE:
  assumes "or_fail r f = Some (Some w)"
  obtains v where "r = Some (Some v)" and "f v = Some (Some w)"
  using assms by (auto simp: or_fail_def bind_eq_Some_conv split: option.splits)

lemma read_one_stable:
  assumes "reads_stable A P ctx" and "read_one A P decode oid i rid ctx = Some (ctx', v)"
  shows "ctx' = ctx"
proof -
  obtain c ds st where r: "object_readData A P (resource_uri oid i rid) ctx = (c, ds, st)" by (metis prod_cases3)
  moreover have "c = ctx" using assms(1) r by (metis fst_conv reads_stable_def)
  ultimately show ?thesis using assms(2) by (auto simp: read_one_def with_ctx_def bind_eq_Some_conv split: if_splits list.splits)
qed

lemma read_asI: "read_one A P decode oid i rid ctx = Some (ctx', Some v) \<Longrightarrow> read_as A P decode oid i rid ctx = Some v"
  by (simp add: read_as_def)

lemma add_number_SomeD: "add_number v len = Some (Some len') \<Longrightarrow> len' = len + length (dec_text (unat v))"
  using utils_uintToText_spec [of v "replicate (REG_OBJECT_MIN_LEN + 5) 0"]
  by (auto simp: add_number_def text_len_def split: if_splits)

lemma link_number_fits [simp]:
  assumes "length out + length (dec_text (unat v)) \<le> cap"
  shows "put_number cap v out = Some (Some (out @ dec_text (unat v)))"
  using utils_uintToText_fits [of v "replicate (cap - length out) 0"] assms
  by (auto simp: put_number_def rd_range_def le_diff_conv2 add.commute)

lemma put_chars_eq [simp]: "length out + length xs \<le> cap \<Longrightarrow> put_chars cap xs out = Some (Some (out @ xs))"
  by (simp add: put_chars_def)

lemma link_strings: "0 \<notin> set (str ''ver='')" "0 \<notin> set (str ''ssid='')" "0 \<notin> set (str ''uri='' @ [34])"
  "0 \<notin> set (str ''lwm2m='')" "0 \<notin> set (str ''1.1'')"
  by (simp_all add: str_def chr_def)

lemma wide [simp]: "unat (ucast (i :: u16) :: u64) = unat i" "unat (ucast (v :: u8) :: u64) = unat v"
  by (simp_all add: unat_ucast_up)

lemma object_link_fits:
  assumes "object_link_length obj len = Some (Some len')"
  shows "len' = len + length (object_link obj)"
    and "length out + length (object_link obj) \<le> cap \<Longrightarrow> put_object_link cap obj out = Some (Some (out @ object_link obj))"
proof -
  show len': "len' = len + length (object_link obj)"
    using assms by (auto simp: object_link_length_def object_link_def str_def elim!: or_fail_SomeE dest!: add_number_SomeD split: if_splits)
  assume c: "length out + length (object_link obj) \<le> cap"
  have "dec_text (unat (versionMajor obj)) \<noteq> []" by simp
  then have l: "0 < length (dec_text (unat (versionMajor obj)))" by blast
  show "put_object_link cap obj out = Some (Some (out @ object_link obj))"
  proof (cases "own_link obj \<and> has_version obj")
    case True
    then show ?thesis
      using c l copy_str_eq [OF link_strings(1), of "out @ str '',</'' @ dec_text (unat (objID obj)) @ str ''>'' @ str '';''" cap]
      by (simp add: put_object_link_def object_link_def str_def)
  next
    case False
    then show ?thesis using c by (auto simp: put_object_link_def object_link_def str_def)
  qed
qed

lemma ssid_fits:
  assumes "length out + length (ssid_text v) \<le> cap"
  shows "put_ssid cap v out = Some (Some (out @ ssid_text v))"
proof -
  have "dec_text (unat v) \<noteq> []" by simp
  then have "0 < length (dec_text (unat v))" by blast
  moreover have "length (ssid_text v) = 6 + length (dec_text (unat v))" by (simp add: ssid_text_def str_def)
  ultimately have "length out + 6 < cap" using assms by linarith
  then show ?thesis
    using assms copy_str_eq [OF link_strings(2), of "out @ str '';''" cap] by (simp add: put_ssid_def ssid_text_def str_def)
qed

lemma uri_start_fits: "length out + 6 < cap \<Longrightarrow> put_uri_start cap out = Some (Some (out @ str '';uri='' @ [34]))"
  using copy_str_eq [OF link_strings(3), of "out @ str '';''" cap] by (simp add: put_uri_start_def str_def)

lemma attribute_fits:
  assumes "reads_stable A P ctx" and "attribute_length A P oid i len ctx = Some (ctx', Some len')"
  shows "ctx' = ctx" and "len + length (attribute_text A P ctx oid i) \<le> len'"
    and "length out + (len' - len) \<le> cap \<Longrightarrow> put_attribute cap A P oid i out ctx = Some (ctx, Some (out @ attribute_text A P ctx oid i))"
proof -
  note st = read_one_stable [OF assms(1)]
  have "ctx' = ctx \<and> len + length (attribute_text A P ctx oid i) \<le> len' \<and>
    (length out + (len' - len) \<le> cap \<longrightarrow> put_attribute cap A P oid i out ctx = Some (ctx, Some (out @ attribute_text A P ctx oid i)))"
  proof (cases "oid = LWM2M_SECURITY_OBJECT_ID")
    case sec: True
    with assms(2) obtain c b where b: "read_one A P lwm2m_data_decode_bool oid i LWM2M_SECURITY_BOOTSTRAP_ID ctx = Some (c, Some b)"
      and r: "(if b then Some (c, Some len)
             else and_then (read_one A P lwm2m_data_decode_uint oid i LWM2M_SECURITY_SHORT_SERVER_ID c) (\<lambda>ctx v.
               and_then (with_ctx ctx (add_number v (len + 6))) (\<lambda>ctx len.
               and_then (read_one A P decode_string oid i LWM2M_SECURITY_URI_ID ctx) (\<lambda>ctx u.
                 Some (ctx, Some (len + 8 + length u)))))) = Some (ctx', Some len')"
      unfolding attribute_length_def by (auto elim: and_then_SomeE)
    have c: "c = ctx" using st b by blast
    show ?thesis
    proof (cases b)
      case True
      then show ?thesis using r b c sec by (simp add: attribute_text_def put_attribute_def read_as_def)
    next
      case False
      with r c obtain c1 v c2 n c3 u where
        v: "read_one A P lwm2m_data_decode_uint oid i LWM2M_SECURITY_SHORT_SERVER_ID ctx = Some (c1, Some v)"
        and n: "with_ctx c1 (add_number v (len + 6)) = Some (c2, Some n)"
        and u: "read_one A P decode_string oid i LWM2M_SECURITY_URI_ID c2 = Some (c3, Some u)"
        and e: "ctx' = c3" "len' = n + 8 + length u"
        by (auto elim!: and_then_SomeE)
      have c1: "c1 = ctx" using st v by blast
      then have c2: "c2 = ctx" using with_ctx_SomeE(1) [OF n] by simp
      then have c3: "c3 = ctx" using st u by blast
      note c1 = c1 c2 c3
      have n': "n = len + length (ssid_text v)" using add_number_SomeD [OF with_ctx_SomeE(2) [OF n]] by (simp add: ssid_text_def str_def)
      have t: "attribute_text A P ctx oid i = ssid_text v @ str '';uri='' @ [34] @ u @ [34]"
        using sec b v u c c1 False by (simp add: attribute_text_def read_as_def)
      have "put_attribute cap A P oid i out ctx = Some (ctx, Some (out @ attribute_text A P ctx oid i))" if "length out + (len' - len) \<le> cap"
        using that sec b v u c c1 e n' t False
        by (simp add: put_attribute_def ssid_fits uri_start_fits str_def)
      then show ?thesis using e n' c1 t by (simp add: str_def)
    qed
  next
    case sec: False
    show ?thesis
    proof (cases "oid = LWM2M_SERVER_OBJECT_ID")
      case True
      with assms(2) sec obtain c v where v: "read_one A P lwm2m_data_decode_uint oid i LWM2M_SERVER_SHORT_ID_ID ctx = Some (c, Some v)"
        and n: "with_ctx c (add_number v (len + 6)) = Some (ctx', Some len')"
        unfolding attribute_length_def by (auto elim: and_then_SomeE)
      have c: "c = ctx" "ctx' = ctx" using st v with_ctx_SomeE(1) [OF n] by blast+
      have n': "len' = len + length (ssid_text v)" using add_number_SomeD [OF with_ctx_SomeE(2) [OF n]] by (simp add: ssid_text_def str_def)
      then show ?thesis using True sec v c by (simp add: attribute_text_def put_attribute_def read_as_def ssid_fits)
    next
      case False
      then show ?thesis using assms(2) sec by (simp add: attribute_text_def put_attribute_def attribute_length_def)
    qed
  qed
  then show "ctx' = ctx" "len + length (attribute_text A P ctx oid i) \<le> len'"
    "length out + (len' - len) \<le> cap \<Longrightarrow> put_attribute cap A P oid i out ctx = Some (ctx, Some (out @ attribute_text A P ctx oid i))" by blast+
qed

lemma instances_fit:
  assumes "reads_stable A P ctx"
  shows "instances_length A P oid is len ctx = Some (ctx', Some len') \<Longrightarrow>
    ctx' = ctx \<and> len + length (concat (map (instance_link A P ctx oid) is)) \<le> len' \<and> (is \<noteq> [] \<longrightarrow> len < len') \<and>
    (\<forall>cap out. length out + (len' - len) \<le> cap \<longrightarrow>
       put_instances cap A P oid is out ctx = Some (ctx, Some (out @ concat (map (instance_link A P ctx oid) is))))"
proof (induction "is" arbitrary: len)
  case (Cons i "is")
  from Cons.prems obtain c1 n1 c2 n2 where
    1: "with_ctx ctx (or_fail (add_number (ucast oid) (len + 5)) (add_number (ucast i))) = Some (c1, Some n1)"
    and 2: "attribute_length A P oid i n1 c1 = Some (c2, Some n2)"
    and 3: "instances_length A P oid is n2 c2 = Some (ctx', Some len')"
    by (auto elim!: and_then_SomeE)
  let ?start = "str '',</'' @ dec_text (unat oid) @ str ''/'' @ dec_text (unat i) @ str ''>''"
  have n1: "c1 = ctx" "n1 = len + length ?start"
    using with_ctx_SomeE [OF 1] by (auto elim!: or_fail_SomeE dest!: add_number_SomeD simp: str_def)
  have c2: "c2 = ctx" using attribute_fits(1) [OF assms 2 [unfolded n1(1)]] .
  note a = attribute_fits(2,3) [OF assms 2 [unfolded n1(1)]]
  note ih = Cons.IH [OF 3 [unfolded c2]]
  have l: "instance_link A P ctx oid i = ?start @ attribute_text A P ctx oid i" by (simp add: instance_link_def)
  have "put_instances cap A P oid (i # is) out ctx = Some (ctx, Some (out @ concat (map (instance_link A P ctx oid) (i # is))))"
    if cap: "length out + (len' - len) \<le> cap" for cap out
  proof -
    have le: "n1 \<le> n2" "n2 \<le> len'" using a(1) ih by simp_all
    have s: "put_link_start cap oid i out = Some (Some (out @ ?start))"
      using cap le n1(2) by (simp add: put_link_start_def str_def)
    have "put_attribute cap A P oid i (out @ ?start) ctx = Some (ctx, Some ((out @ ?start) @ attribute_text A P ctx oid i))"
      using cap le n1(2) by (intro a(2)) simp
    moreover have "length ((out @ ?start) @ attribute_text A P ctx oid i) + (len' - n2) \<le> cap" using cap le n1(2) a(1) by simp
    with ih have "put_instances cap A P oid is ((out @ ?start) @ attribute_text A P ctx oid i) ctx =
        Some (ctx, Some (((out @ ?start) @ attribute_text A P ctx oid i) @ concat (map (instance_link A P ctx oid) is)))" by blast
    ultimately show ?thesis using s l by simp
  qed
  then show ?case using ih a(1) n1 l by (auto simp: str_def)
qed simp

lemma objects_fit:
  assumes "reads_stable A P ctx"
  shows "objects_length A P uri objs len ctx = Some (ctx', Some len') \<Longrightarrow>
    ctx' = ctx \<and> len + length (discover_links A P ctx (filter (selects uri) objs)) \<le> len' \<and>
    (filter (selects uri) objs \<noteq> [] \<longrightarrow> len < len') \<and>
    (\<forall>cap out. length out + (len' - len) \<le> cap \<longrightarrow>
       put_objects cap A P uri objs out ctx = Some (ctx, Some (out @ discover_links A P ctx (filter (selects uri) objs))))"
proof (induction objs arbitrary: len)
  case (Cons obj objs)
  show ?case
  proof (cases "selects uri obj")
    case False
    then show ?thesis using Cons by simp
  next
    case True
    with Cons.prems obtain c1 n1 c2 n2 where
      1: "with_ctx ctx (object_link_length obj len) = Some (c1, Some n1)"
      and 2: "instances_length A P (objID obj) (instanceList obj) n1 c1 = Some (c2, Some n2)"
      and 3: "objects_length A P uri objs n2 c2 = Some (ctx', Some len')"
      by (auto elim!: and_then_SomeE)
    have c1: "c1 = ctx" using with_ctx_SomeE(1) [OF 1] .
    note o = object_link_fits [OF with_ctx_SomeE(2) [OF 1]]
    note i = instances_fit [OF assms 2 [unfolded c1]]
    then have c2: "c2 = ctx" by simp
    note ih = Cons.IH [OF 3 [unfolded c2]]
    let ?i = "concat (map (instance_link A P ctx (objID obj)) (instanceList obj))"
    have i2: "n1 + length ?i \<le> n2" using i by simp
    have le: "len \<le> n1" "n1 \<le> n2" "n2 \<le> len'" using o(1) i ih by simp_all
    have "instanceList obj = [] \<Longrightarrow> len < n1" using o(1) by (simp add: object_link_def own_link_def str_def)
    moreover have "instanceList obj \<noteq> [] \<Longrightarrow> n1 < n2" using i by simp
    ultimately have lt: "len < n2" using le by fastforce
    have "put_objects cap A P uri (obj # objs) out ctx = Some (ctx, Some (out @ discover_links A P ctx (filter (selects uri) (obj # objs))))"
      if cap: "length out + (len' - len) \<le> cap" for cap out
    proof -
      have "put_object_link cap obj out = Some (Some (out @ object_link obj))" using cap le o(1) by (intro o(2)) simp
      moreover have "length (out @ object_link obj) + (n2 - n1) \<le> cap" using cap le o(1) by simp
      with i have "put_instances cap A P (objID obj) (instanceList obj) (out @ object_link obj) ctx = Some (ctx, Some ((out @ object_link obj) @ ?i))" by blast
      moreover have "length ((out @ object_link obj) @ ?i) + (len' - n2) \<le> cap" using cap le o(1) i2 unfolding length_append by linarith
      with ih have "put_objects cap A P uri objs ((out @ object_link obj) @ ?i) ctx =
        Some (ctx, Some (((out @ object_link obj) @ ?i) @ discover_links A P ctx (filter (selects uri) objs)))" by blast
      ultimately show ?thesis using True by (simp add: discover_links_def)
    qed
    then show ?thesis using True o(1) i ih lt le by (auto simp: discover_links_def)
  qed
qed (simp add: discover_links_def)

section \<open>Properties\<close>

text \<open>C37: the answer to a Bootstrap-Discover request fits the buffer whose length is computed first, when the
application reads without changing the client: for one object or all of them, it is the start
\<open></>;lwm2m=1.1\<close> and a link for every object without instances or with a version and for every instance,
with the short server id of the Server and Security instances and the URI of the latter, the bootstrap
server's own instance without attributes.\<close>

theorem bootstrap_discover_fits:
  assumes "reads_stable A P ctx" and "\<exists>obj\<in>set (objectList ctx). selects uri obj"
    and "LWM2M_URI_IS_SET_OBJECT uri \<longrightarrow> find_object ctx (objectId uri) \<noteq> None"
    and "\<not> LWM2M_URI_IS_SET_INSTANCE uri" and "\<not> LWM2M_URI_IS_SET_RESOURCE uri" and "\<not> LWM2M_URI_IS_SET_RESOURCE_INSTANCE uri"
    and "objects_length A P uri (objectList ctx) 13 ctx = Some (ctx', Some n)" and "mem_ok P n"
  shows "\<exists>b. prv_handleBootstrapDiscover A P uri ctx = Some (ctx, COAP_205_CONTENT, Some b) \<and> length b \<le> n \<and>
    b = str ''</>;lwm2m=1.1'' @ discover_links A P ctx (filter (selects uri) (objectList ctx))"
proof -
  note f = objects_fit [OF assms(1,7)]
  have "filter (selects uri) (objectList ctx) \<noteq> []" using assms(2) by (auto simp: filter_empty_conv)
  then have n: "13 < n" using f by simp
  have "copy_str n (str ''lwm2m='' @ [0]) DISCOVER_START = Some (DISCOVER_START @ str ''lwm2m='')"
    "copy_str n (str ''1.1'' @ [0]) (DISCOVER_START @ str ''lwm2m='') = Some (DISCOVER_START @ str ''lwm2m=1.1'')"
    using n copy_str_eq [OF link_strings(4), of DISCOVER_START n] copy_str_eq [OF link_strings(5), of "DISCOVER_START @ str ''lwm2m=''" n]
    by (simp_all add: DISCOVER_START_def str_def)
  moreover have "length DISCOVER_START = 4" by (simp add: DISCOVER_START_def str_def)
  ultimately have h: "put_head n = Some (Some (str ''</>;lwm2m=1.1''))"
    using n by (simp add: put_head_def) (simp add: DISCOVER_START_def str_def)
  have "put_objects n A P uri (objectList ctx) (str ''</>;lwm2m=1.1'') ctx =
      Some (ctx, Some (str ''</>;lwm2m=1.1'' @ discover_links A P ctx (filter (selects uri) (objectList ctx))))"
    using f n by (simp add: str_def)
  then show ?thesis using assms(3-8) h f by (auto simp: prv_handleBootstrapDiscover_def str_def)
qed

text \<open>A client with the account of a bootstrap server (instance 0) and of a server (instance 1), the Server object
  and the Device object.\<close>

definition account_value :: "u16 \<Rightarrow> u16 \<Rightarrow> u16 \<Rightarrow> lwm2m_data_t" where
  "account_value oid i rid =
     (if oid = 1 then Data LWM2M_TYPE_UNSIGNED_INTEGER rid (asUnsigned 123)
      else if rid = LWM2M_SECURITY_URI_ID then Data LWM2M_TYPE_STRING rid (asBuffer (str ''coap://s''))
      else if rid = LWM2M_SECURITY_BOOTSTRAP_ID then Data LWM2M_TYPE_BOOLEAN rid (asBoolean (i = 0))
      else Data LWM2M_TYPE_UNSIGNED_INTEGER rid (asUnsigned 123))"

definition account_app :: "('a lwm2m) app_objects" where
  "account_app = example_app\<lparr>readFunc := (\<lambda>oid. Some (\<lambda>c i ds. (c, map (\<lambda>d. account_value oid i (data_id d)) ds, COAP_205_CONTENT)))\<rparr>"

definition account_client :: lwm2m_context_t where
  "account_client = example_lwm2m\<lparr>objectList := [\<lparr>objID = 0, versionMajor = 0, versionMinor = 0, instanceList = [0, 1]\<rparr>,
     \<lparr>objID = 1, versionMajor = 1, versionMinor = 1, instanceList = [0]\<rparr>,
     \<lparr>objID = 3, versionMajor = 0, versionMinor = 0, instanceList = []\<rparr>]\<rparr>"

lemma read_instances_stable:
  "fst (read_instances (\<lambda>c i ds. (c, f i ds, COAP_205_CONTENT)) is c ds) = c"
  by (induction "is" arbitrary: ds) (auto simp: Let_def)

lemma account_stable: "reads_stable account_app lwm2m_platform account_client"
  unfolding reads_stable_def
proof
  fix uri
  show "fst (object_readData account_app lwm2m_platform uri account_client) = account_client"
    using read_instances_stable [of "\<lambda>i ds. map (\<lambda>d. account_value (objectId uri) i (data_id d)) ds" _ account_client "[]"]
    by (auto simp: object_readData_def account_app_def split: option.splits prod.splits) (metis fst_conv)
qed

lemma account_read:
  assumes "(oid, i) \<in> {(0, 0), (0, 1), (1, 0)}" and "rid \<noteq> 0xFFFF"
  shows "read_one account_app lwm2m_platform decode oid i rid account_client = with_ctx account_client (decode (account_value oid i rid))"
  using assms
  by (auto simp: read_one_def object_readData_def resource_uri_def LWM2M_URI_RESET_def find_object_def account_client_def account_app_def
    LWM2M_URI_IS_SET_INSTANCE_def LWM2M_URI_IS_SET_RESOURCE_def LWM2M_URI_IS_SET_RESOURCE_INSTANCE_def LWM2M_MAX_ID_def has_instance_def
    requested_data_def lwm2m_data_new_def lwm2m_platform_def)

lemma add_numbers:
  "add_number 0 len = Some (Some (len + 1))" "add_number 1 len = Some (Some (len + 1))" "add_number 3 len = Some (Some (len + 1))"
  "add_number 123 len = Some (Some (len + 3))"
proof -
  have "dec_text 0 = str ''0''" "dec_text 1 = str ''1''" "dec_text 3 = str ''3''" "dec_text 123 = str ''123''"
    by (simp_all add: dec_text.simps digit_char_def str_def chr_def)
  then show "add_number 0 len = Some (Some (len + 1))" "add_number 1 len = Some (Some (len + 1))" "add_number 3 len = Some (Some (len + 1))"
    "add_number 123 len = Some (Some (len + 3))"
    using utils_uintToText_spec [of 0 "replicate (REG_OBJECT_MIN_LEN + 5) 0"] utils_uintToText_spec [of 1 "replicate (REG_OBJECT_MIN_LEN + 5) 0"]
      utils_uintToText_spec [of 3 "replicate (REG_OBJECT_MIN_LEN + 5) 0"] utils_uintToText_spec [of 123 "replicate (REG_OBJECT_MIN_LEN + 5) 0"]
    by (auto simp: add_number_def text_len_def str_def REG_OBJECT_MIN_LEN_def)
qed

lemmas account_defs = account_value_def object_ids LWM2M_SECURITY_URI_ID_def LWM2M_SECURITY_BOOTSTRAP_ID_def LWM2M_SECURITY_SHORT_SERVER_ID_def
  LWM2M_SERVER_SHORT_ID_ID_def lwm2m_data_decode_bool_def lwm2m_data_decode_uint_def decode_string_def

theorem bootstrap_discover_fits_witness:
  "prv_handleBootstrapDiscover account_app lwm2m_platform LWM2M_URI_RESET account_client =
     Some (account_client, COAP_205_CONTENT, Some (str ''</>;lwm2m=1.1,</0/0>,</0/1>;ssid=123;uri='' @ [34] @ str ''coap://s'' @ [34] @
       str '',</1>;ver=1.1,</1/0>;ssid=123,</3>''))"
proof -
  have s: "\<not> LWM2M_URI_IS_SET_OBJECT LWM2M_URI_RESET" "\<not> LWM2M_URI_IS_SET_INSTANCE LWM2M_URI_RESET" "\<not> LWM2M_URI_IS_SET_RESOURCE LWM2M_URI_RESET"
    "\<not> LWM2M_URI_IS_SET_RESOURCE_INSTANCE LWM2M_URI_RESET"
    by (simp_all add: LWM2M_URI_RESET_def LWM2M_URI_IS_SET_OBJECT_def LWM2M_URI_IS_SET_INSTANCE_def LWM2M_URI_IS_SET_RESOURCE_def
      LWM2M_URI_IS_SET_RESOURCE_INSTANCE_def LWM2M_MAX_ID_def)
  then have sel: "selects LWM2M_URI_RESET = (\<lambda>_. True)" by (auto simp: selects_def)
  have objs: "objectList account_client = [\<lparr>objID = 0, versionMajor = 0, versionMinor = 0, instanceList = [0, 1]\<rparr>,
     \<lparr>objID = 1, versionMajor = 1, versionMinor = 1, instanceList = [0]\<rparr>, \<lparr>objID = 3, versionMajor = 0, versionMinor = 0, instanceList = []\<rparr>]"
    by (simp add: account_client_def)
  have len: "objects_length account_app lwm2m_platform LWM2M_URI_RESET (objectList account_client) 13 account_client = Some (account_client, Some 86)"
    unfolding objs
    by (simp add: sel object_link_length_def own_link_def has_version_def add_numbers attribute_length_def account_read account_defs or_fail_def str_def)
  have "\<exists>obj\<in>set (objectList account_client). selects LWM2M_URI_RESET obj" by (auto simp: sel objs)
  from bootstrap_discover_fits [OF account_stable this _ s(2-4) len] s(1)
  have "prv_handleBootstrapDiscover account_app lwm2m_platform LWM2M_URI_RESET account_client = Some (account_client, COAP_205_CONTENT,
      Some (str ''</>;lwm2m=1.1'' @ discover_links account_app lwm2m_platform account_client (objectList account_client)))"
    by (simp add: sel lwm2m_platform_def)
  moreover have "discover_links account_app lwm2m_platform account_client (objectList account_client) =
      str '',</0/0>,</0/1>;ssid=123;uri='' @ [34] @ str ''coap://s'' @ [34] @ str '',</1>;ver=1.1,</1/0>;ssid=123,</3>''"
    unfolding objs
    by (simp add: discover_links_def object_link_def own_link_def has_version_def instance_link_def attribute_text_def read_as_def account_read
      account_defs ssid_text_def dec_text.simps digit_char_def str_def chr_def)
  ultimately show ?thesis by (simp add: str_def)
qed

end
