(* ===== verification/Bootstrap.thy ===== *)
theory Bootstrap
  imports Bootstrap_Discover
begin

text \<open>
  The bootstrap of a client (\<^verbatim>\<open>core/bootstrap.c\<close>, client mode): the request to the bootstrap server and its
  reply, the periodic step, the commands of the bootstrap server, the end of the bootstrap and the
  summary of the states.

  A bootstrap server is named by its Security instance, as the servers are; the user data of its
  transaction is its address.  The loops over the objects run over the identifiers of the objects when
  they start.  \<open>COAP_EXCHANGE_LIFETIME\<close> is a whole number of seconds.
\<close>

section \<open>Bootstrap servers\<close>

definition bs_at :: "u16 \<Rightarrow> 'a lwm2m \<Rightarrow> lwm2m_server_t c" where
  "bs_at i ctx = find (\<lambda>s. secObjInstID s = i) (bootstrapServerList ctx)"

definition set_bs :: "u16 \<Rightarrow> (lwm2m_server_t \<Rightarrow> lwm2m_server_t) \<Rightarrow> 'a lwm2m \<Rightarrow> 'a lwm2m" where
  "set_bs i f ctx = ctx\<lparr>bootstrapServerList := update_first (\<lambda>s. secObjInstID s = i) f (bootstrapServerList ctx)\<rparr>"

definition set_bs_status :: "u16 \<Rightarrow> lwm2m_status_t \<Rightarrow> 'a lwm2m \<Rightarrow> 'a lwm2m" where
  "set_bs_status i st = set_bs i (\<lambda>s. s\<lparr>server_status := st\<rparr>)"

definition bs_ids :: "'a lwm2m \<Rightarrow> u16 list" where
  "bs_ids ctx = map secObjInstID (bootstrapServerList ctx)"

definition COAP_EXCHANGE_LIFETIME :: int where "COAP_EXCHANGE_LIFETIME = 247"

definition PRV_QUERY_BUFFER_LENGTH :: nat where "PRV_QUERY_BUFFER_LENGTH = 200"

definition BOOTSTRAP_REPLY :: nat where "BOOTSTRAP_REPLY = 4"

section \<open>The request\<close>

definition prv_handleResponse :: "int \<Rightarrow> coap_packet_t \<Rightarrow> lwm2m_server_t \<Rightarrow> lwm2m_server_t" where
  "prv_handleResponse now m s =
     (if code m = COAP_204_CHANGED then s\<lparr>server_status := STATE_BS_PENDING, registration := now + COAP_EXCHANGE_LIFETIME\<rparr>
      else s\<lparr>server_status := STATE_BS_FAILING\<rparr>)"

definition prv_handleBootstrapReply ::
  "('a reg) platform \<Rightarrow> lwm2m_transaction_t \<Rightarrow> coap_packet_t option \<Rightarrow> 'a reg \<Rightarrow> ('a reg) c" where
  "prv_handleBootstrapReply P t m ctx =
     (if userData t = 0 then None
      else let i = of_nat (userData t - 1) in
           do { s \<leftarrow> bs_at i ctx;
                Some (if server_status s \<noteq> STATE_BS_INITIATED then ctx
                      else case m of
                             None \<Rightarrow> set_bs_status i STATE_BS_FAILING ctx
                           | Some m \<Rightarrow> if mtype m \<noteq> COAP_TYPE_RST then set_bs i (prv_handleResponse (gettime P) m) ctx
                                       else set_bs_status i STATE_BS_FAILING ctx) })"

text \<open>The endpoint name, cut off when it does not fit, and the format the client prefers: SenML CBOR.\<close>

definition bootstrap_query :: "'a lwm2m \<Rightarrow> bytes c" where
  "bootstrap_query ctx =
     do { q \<leftarrow> copy_str PRV_QUERY_BUFFER_LENGTH (str ''?ep='' @ [0]) [];
          q \<leftarrow> copy_str PRV_QUERY_BUFFER_LENGTH (endpointName ctx) q;
          q \<leftarrow> copy_str PRV_QUERY_BUFFER_LENGTH (str ''&pct='' @ [0]) q;
          copy_str PRV_QUERY_BUFFER_LENGTH (str ''112'' @ [0]) q }"

definition bootstrap_request :: "('a reg) platform \<Rightarrow> bytes \<Rightarrow> lwm2m_transaction_t \<Rightarrow> lwm2m_transaction_t" where
  "bootstrap_request P query t =
     t\<lparr>message := fst (coap_set_header_uri_query (mem_ok P) (fst (coap_set_header_uri_path (mem_ok P) (message t) (str ''/bs''))) query)\<rparr>"

definition prv_requestBootstrap ::
  "('a reg) platform \<Rightarrow> (u16 \<Rightarrow> session) \<Rightarrow> bytes \<Rightarrow> u16 \<Rightarrow> 'a reg \<Rightarrow> ('a reg) c" where
  "prv_requestBootstrap P connect stack i ctx =
     do { query \<leftarrow> bootstrap_query ctx;
          s \<leftarrow> bs_at i ctx;
          let h = (if sessionH s = 0 then connect i else sessionH s);
          let ctx = set_bs i (\<lambda>s. s\<lparr>sessionH := h\<rparr>) ctx;
          if h = 0 then Some (set_bs_status i STATE_BS_FAILED ctx)
          else do {
            t \<leftarrow> transaction_new P h COAP_POST None None (nextMID ctx) 4 None stack;
            let ctx = ctx\<lparr>nextMID := nextMID ctx + 1\<rparr>;
            case t of
              None \<Rightarrow> Some (set_bs_status i STATE_BS_FAILING ctx)
            | Some t \<Rightarrow> do {
                (ctx, ok) \<leftarrow> send_request P (bootstrap_request P query t) BOOTSTRAP_REPLY (server_address i) ctx;
                Some (if ok then set_bs_status i STATE_BS_INITIATED ctx else ctx) } } }"

section \<open>The periodic step\<close>

definition bs_close :: "u16 \<Rightarrow> lwm2m_status_t \<Rightarrow> 'a lwm2m \<Rightarrow> 'a lwm2m" where
  "bs_close i st = set_bs i (\<lambda>s. s\<lparr>sessionH := 0, server_status := st\<rparr>)"

definition bs_wait :: "int \<Rightarrow> lwm2m_server_t \<Rightarrow> int \<Rightarrow> int" where
  "bs_wait now s timeout = (if timeout > registration s - now then registration s - now else timeout)"

definition bootstrap_step_server ::
  "('a reg) platform \<Rightarrow> (u16 \<Rightarrow> session) \<Rightarrow> bytes \<Rightarrow> int \<Rightarrow> u16 \<Rightarrow> int \<Rightarrow> 'a reg \<Rightarrow> ('a reg \<times> int) c" where
  "bootstrap_step_server P connect stack now i timeout ctx =
     do { s \<leftarrow> bs_at i ctx;
          (case server_status s of
             STATE_DEREGISTERED \<Rightarrow>
               Some (set_bs i (\<lambda>s. s\<lparr>registration := now + lifetime s, server_status := STATE_BS_HOLD_OFF\<rparr>) ctx,
                     if timeout > lifetime s then lifetime s else timeout)
           | STATE_BS_HOLD_OFF \<Rightarrow>
               if registration s \<le> now then do { ctx \<leftarrow> prv_requestBootstrap P connect stack i ctx; Some (ctx, timeout) }
               else Some (ctx, bs_wait now s timeout)
           | STATE_BS_PENDING \<Rightarrow>
               if registration s \<le> now then Some (set_bs_status i STATE_BS_FAILING ctx, 0)
               else Some (ctx, bs_wait now s timeout)
           | STATE_BS_FINISHING \<Rightarrow> Some (bs_close i STATE_BS_FINISHED ctx, 0)
           | STATE_BS_FAILING \<Rightarrow> Some (bs_close i STATE_BS_FAILED ctx, 0)
           | _ \<Rightarrow> Some (ctx, timeout)) }"

fun bootstrap_step_servers ::
  "('a reg) platform \<Rightarrow> (u16 \<Rightarrow> session) \<Rightarrow> bytes \<Rightarrow> int \<Rightarrow> u16 list \<Rightarrow> int \<Rightarrow> 'a reg \<Rightarrow> ('a reg \<times> int) c" where
  "bootstrap_step_servers P connect stack now [] timeout ctx = Some (ctx, timeout)"
| "bootstrap_step_servers P connect stack now (i # is) timeout ctx =
     do { (ctx, timeout) \<leftarrow> bootstrap_step_server P connect stack now i timeout ctx;
          bootstrap_step_servers P connect stack now is timeout ctx }"

definition bootstrap_step ::
  "('a reg) platform \<Rightarrow> (u16 \<Rightarrow> session) \<Rightarrow> bytes \<Rightarrow> int \<Rightarrow> int \<Rightarrow> 'a reg \<Rightarrow> ('a reg \<times> int) c" where
  "bootstrap_step P connect stack now timeout ctx = bootstrap_step_servers P connect stack now (bs_ids ctx) timeout ctx"

section \<open>Start, end and state\<close>

definition bootstrap_start :: "(u16 \<Rightarrow> session) \<Rightarrow> 'a lwm2m \<Rightarrow> 'a lwm2m" where
  "bootstrap_start connect ctx =
     ctx\<lparr>bootstrapServerList := map (\<lambda>s. s\<lparr>server_status := STATE_DEREGISTERED,
       sessionH := (if sessionH s = 0 then connect (secObjInstID s) else sessionH s)\<rparr>) (bootstrapServerList ctx)\<rparr>"

fun bs_status_loop :: "lwm2m_server_t list \<Rightarrow> lwm2m_status_t \<Rightarrow> lwm2m_status_t" where
  "bs_status_loop [] st = st"
| "bs_status_loop (s # ss) st =
     bs_status_loop ss
       (if server_status s = STATE_BS_FINISHED then if st = STATE_BS_FAILED then STATE_BS_FINISHED else st
        else if server_status s \<in> {STATE_BS_HOLD_OFF, STATE_BS_INITIATED, STATE_BS_PENDING, STATE_BS_FINISHING, STATE_BS_FAILING}
        then STATE_BS_PENDING else st)"

definition bootstrap_getStatus :: "'a lwm2m \<Rightarrow> lwm2m_status_t" where
  "bootstrap_getStatus ctx = bs_status_loop (bootstrapServerList ctx) STATE_BS_FAILED"

definition bootstrap_handleFinish ::
  "('a lwm2m) app_objects \<Rightarrow> ('a lwm2m) platform \<Rightarrow> 'a lwm2m \<Rightarrow> session \<Rightarrow> ('a lwm2m \<times> u8) c" where
  "bootstrap_handleFinish A P ctx h =
     (case utils_findBootstrapServer P ctx h of
        None \<Rightarrow> Some (ctx, COAP_IGNORE)
      | Some s \<Rightarrow>
          if server_status s \<noteq> STATE_BS_PENDING then Some (ctx, COAP_IGNORE)
          else do { (ctx, r) \<leftarrow> object_getServers A P True ctx;
                    Some (if r = 0 then (set_bs_status (secObjInstID s) STATE_BS_FINISHING ctx, COAP_204_CHANGED)
                          else (ctx, COAP_406_NOT_ACCEPTABLE)) })"

section \<open>Commands\<close>

definition prv_checkServerStatus :: "int \<Rightarrow> u16 \<Rightarrow> 'a lwm2m \<Rightarrow> ('a lwm2m \<times> u8) c" where
  "prv_checkServerStatus now i ctx =
     do { s \<leftarrow> bs_at i ctx;
          Some (if server_status s \<in> {STATE_BS_HOLD_OFF, STATE_BS_INITIATED} then (set_bs_status i STATE_BS_PENDING ctx, COAP_NO_ERROR)
                else if server_status s \<in> {STATE_DEREGISTERED, STATE_BS_PENDING}
                then (set_bs i (\<lambda>s. s\<lparr>registration := now + COAP_EXCHANGE_LIFETIME\<rparr>) ctx, COAP_NO_ERROR)
                else (ctx, COAP_IGNORE)) }"

definition prv_tagServer :: "u16 \<Rightarrow> 'a lwm2m \<Rightarrow> 'a lwm2m" where
  "prv_tagServer i ctx =
     (if LWM2M_LIST_FIND secObjInstID (bootstrapServerList ctx) i \<noteq> None then set_bs i (\<lambda>s. s\<lparr>dirty := True\<rparr>) ctx
      else if LWM2M_LIST_FIND secObjInstID (serverList ctx) i \<noteq> None then set_srv i (\<lambda>s. s\<lparr>dirty := True\<rparr>) ctx
      else ctx)"

definition prv_tagAllServer :: "u16 option \<Rightarrow> 'a lwm2m \<Rightarrow> 'a lwm2m" where
  "prv_tagAllServer keep ctx =
     ctx\<lparr>bootstrapServerList := map (\<lambda>s. if Some (secObjInstID s) \<noteq> keep then s\<lparr>dirty := True\<rparr> else s) (bootstrapServerList ctx),
         serverList := map (\<lambda>s. s\<lparr>dirty := True\<rparr>) (serverList ctx)\<rparr>"

text \<open>The instances of a whole object are written one by one until one fails.\<close>

definition bs_write_instance ::
  "('a lwm2m) app_objects \<Rightarrow> lwm2m_uri_t \<Rightarrow> lwm2m_data_t \<Rightarrow> 'a lwm2m \<Rightarrow> ('a lwm2m \<times> u8) c" where
  "bs_write_instance A uri d ctx =
     (if object_isInstanceNew (objectId uri) (data_id d) ctx
      then do { (ctx, r) \<leftarrow> object_createInstance A uri d ctx; Some (ctx, if r = COAP_201_CREATED then COAP_204_CHANGED else r) }
      else do { (ctx, r) \<leftarrow> object_writeInstance A uri d ctx;
                Some (if objectId uri = LWM2M_SECURITY_OBJECT_ID \<and> r = COAP_204_CHANGED then prv_tagServer (data_id d) ctx else ctx, r) })"

fun bs_write_instances ::
  "('a lwm2m) app_objects \<Rightarrow> lwm2m_uri_t \<Rightarrow> lwm2m_data_t list \<Rightarrow> u8 \<Rightarrow> 'a lwm2m \<Rightarrow> ('a lwm2m \<times> u8) c" where
  "bs_write_instances A uri [] result ctx = Some (ctx, result)"
| "bs_write_instances A uri (d # ds) result ctx =
     (if data_type d = LWM2M_TYPE_OBJECT_INSTANCE
      then do { (ctx, result) \<leftarrow> bs_write_instance A uri d ctx;
                if result \<noteq> COAP_204_CHANGED then Some (ctx, result) else bs_write_instances A uri ds result ctx }
      else bs_write_instances A uri ds COAP_400_BAD_REQUEST ctx)"

definition bs_put ::
  "('a lwm2m) app_objects \<Rightarrow> data_formats \<Rightarrow> ('a lwm2m) platform \<Rightarrow> lwm2m_uri_t \<Rightarrow> u16 \<Rightarrow> coap_packet_t \<Rightarrow> u8 \<Rightarrow> 'a lwm2m \<Rightarrow> ('a lwm2m \<times> u8) c" where
  "bs_put A F P uri fmt m result ctx =
     (if LWM2M_URI_IS_SET_INSTANCE uri
      then if object_isInstanceNew (objectId uri) (instanceId uri) ctx
           then do { (ctx, r, _) \<leftarrow> object_create A F P uri fmt (payload m) ctx;
                     Some (ctx, if r = COAP_201_CREATED then COAP_204_CHANGED else r) }
           else do { (ctx, r) \<leftarrow> object_write A F P uri fmt (payload_bytes m) False ctx;
                     Some (if objectId uri = LWM2M_SECURITY_OBJECT_ID \<and> r = COAP_204_CHANGED then prv_tagServer (instanceId uri) ctx else ctx, r) }
      else if payload_bytes m = [] then Some (ctx, COAP_400_BAD_REQUEST)
      else do { (n, ds) \<leftarrow> lwm2m_data_parse F (mem_ok P) uri (payload_bytes m) fmt;
                if n = 0 then Some (ctx, COAP_500_INTERNAL_SERVER_ERROR)
                else if int (length ds) < n then None
                else bs_write_instances A uri (take (nat n) ds) result ctx })"

text \<open>All instances but the one of the bootstrap server; the list is read again from its start after every
  deletion.  \<open>None\<close> also stands for a loop that does not end.\<close>

partial_function (option) delete_others ::
  "('a lwm2m) app_objects \<Rightarrow> bool \<Rightarrow> u16 \<Rightarrow> u16 \<Rightarrow> u16 list \<Rightarrow> 'a lwm2m \<Rightarrow> ('a lwm2m \<times> u8) c" where
  "delete_others A frees_nodes keep oid is ctx =
     (case is of
        [] \<Rightarrow> Some (ctx, COAP_202_DELETED)
      | i # rest \<Rightarrow>
          if i = keep then delete_others A frees_nodes keep oid rest ctx
          else do { (ctx, r) \<leftarrow> object_delete A frees_nodes (LWM2M_URI_RESET\<lparr>objectId := oid, instanceId := i\<rparr>) ctx;
                    obj \<leftarrow> find_object ctx oid;
                    if r = COAP_202_DELETED then delete_others A frees_nodes keep oid (instanceList obj) ctx
                    else Some (ctx, r) })"

definition delete_security :: "('a lwm2m) app_objects \<Rightarrow> bool \<Rightarrow> u16 \<Rightarrow> u16 \<Rightarrow> u8 \<Rightarrow> 'a lwm2m \<Rightarrow> ('a lwm2m \<times> u8) c" where
  "delete_security A frees_nodes keep oid result ctx =
     (if result \<noteq> COAP_202_DELETED then Some (ctx, result)
      else do { obj \<leftarrow> find_object ctx oid;
                (ctx, r) \<leftarrow> delete_others A frees_nodes keep oid (instanceList obj) ctx;
                Some (if r = COAP_202_DELETED then prv_tagAllServer (Some keep) ctx else ctx, r) })"

fun delete_security_objects ::
  "('a lwm2m) app_objects \<Rightarrow> bool \<Rightarrow> u16 \<Rightarrow> u16 list \<Rightarrow> u8 \<Rightarrow> 'a lwm2m \<Rightarrow> ('a lwm2m \<times> u8) c" where
  "delete_security_objects A frees_nodes keep [] result ctx = Some (ctx, result)"
| "delete_security_objects A frees_nodes keep (oid # oids) result ctx =
     do { (ctx, result) \<leftarrow> (if oid = LWM2M_SECURITY_OBJECT_ID then delete_security A frees_nodes keep oid result ctx else Some (ctx, result));
          delete_security_objects A frees_nodes keep oids result ctx }"

definition bs_delete ::
  "('a lwm2m) app_objects \<Rightarrow> bool \<Rightarrow> lwm2m_uri_t \<Rightarrow> u16 \<Rightarrow> 'a lwm2m \<Rightarrow> ('a lwm2m \<times> u8) c" where
  "bs_delete A frees_nodes uri srv ctx =
     (if LWM2M_URI_IS_SET_RESOURCE uri then Some (ctx, COAP_400_BAD_REQUEST)
      else if objectId uri = LWM2M_SECURITY_OBJECT_ID \<and> \<not> LWM2M_URI_IS_SET_INSTANCE uri
      then delete_security_objects A frees_nodes srv (map objID (objectList ctx)) COAP_202_DELETED ctx
      else do { (ctx, r) \<leftarrow> object_delete A frees_nodes uri ctx;
                Some (if objectId uri = LWM2M_SECURITY_OBJECT_ID \<and> r = COAP_202_DELETED
                      then if LWM2M_URI_IS_SET_INSTANCE uri then prv_tagServer (instanceId uri) ctx else prv_tagAllServer None ctx
                      else ctx, r) })"

definition LWM2M_ACL_OBJECT_ID :: u16 where "LWM2M_ACL_OBJECT_ID = 2"

definition prv_handleBootstrapRead ::
  "('a lwm2m) app_objects \<Rightarrow> data_formats \<Rightarrow> ('a lwm2m) platform \<Rightarrow> lwm2m_uri_t \<Rightarrow> u16 list \<Rightarrow> u16 \<Rightarrow> 'a lwm2m \<Rightarrow>
   ('a lwm2m \<times> u8 \<times> bytes option \<times> u16) c" where
  "prv_handleBootstrapRead A F P uri accepted fmt ctx =
     (if LWM2M_URI_IS_SET_OBJECT uri \<and> objectId uri \<in> {LWM2M_SERVER_OBJECT_ID, LWM2M_ACL_OBJECT_ID}
      then object_read A F P uri accepted fmt ctx
      else Some (ctx, COAP_400_BAD_REQUEST, None, fmt))"

definition bs_get ::
  "('a lwm2m) app_objects \<Rightarrow> data_formats \<Rightarrow> ('a lwm2m) platform \<Rightarrow> lwm2m_uri_t \<Rightarrow> u16 \<Rightarrow> coap_packet_t \<Rightarrow> coap_packet_t \<Rightarrow> 'a lwm2m \<Rightarrow>
   ('a lwm2m \<times> coap_packet_t \<times> u8) c" where
  "bs_get A F P uri fmt m response ctx =
     do { (ctx, r, b, fmt) \<leftarrow>
            (if IS_OPTION m COAP_OPTION_ACCEPT \<and> accept m = [APPLICATION_LINK_FORMAT]
             then do { (ctx, r, b) \<leftarrow> prv_handleBootstrapDiscover A P uri ctx; Some (ctx, r, b, LWM2M_CONTENT_LINK) }
             else prv_handleBootstrapRead A F P uri (accept m) fmt ctx);
          Some (ctx, if r = COAP_205_CONTENT then dm_content response fmt b else response, r) }"

text \<open>A server-initiated bootstrap starts with the first successful write or deletion.\<close>

definition bs_commanded :: "u16 \<Rightarrow> u8 \<Rightarrow> 'a lwm2m \<Rightarrow> ('a lwm2m) c" where
  "bs_commanded i r ctx =
     (if r \<noteq> COAP_202_DELETED \<and> r \<noteq> COAP_204_CHANGED then Some ctx
      else do { s \<leftarrow> bs_at i ctx;
                Some (if server_status s \<noteq> STATE_BS_PENDING
                      then (set_bs_status i STATE_BS_PENDING ctx)\<lparr>client_state := STATE_BOOTSTRAPPING\<rparr> else ctx) })"

definition bs_command ::
  "('a lwm2m) app_objects \<Rightarrow> data_formats \<Rightarrow> bool \<Rightarrow> ('a lwm2m) platform \<Rightarrow> 'a lwm2m \<Rightarrow> lwm2m_uri_t \<Rightarrow> lwm2m_server_t \<Rightarrow>
   coap_packet_t \<Rightarrow> coap_packet_t \<Rightarrow> ('a lwm2m \<times> coap_packet_t \<times> u8) c" where
  "bs_command A F frees_nodes P ctx uri srv m response =
     (let fmt = utils_convertMediaType (ucast (content_type m)); i = secObjInstID srv in
      do { (ctx, r) \<leftarrow> prv_checkServerStatus (gettime P) i ctx;
           if r \<noteq> COAP_NO_ERROR then Some (ctx, response, r)
           else do {
             (ctx, response, r) \<leftarrow>
               (if code m = COAP_PUT then do { (ctx, r) \<leftarrow> bs_put A F P uri fmt m r ctx; Some (ctx, response, r) }
                else if code m = COAP_DELETE then do { (ctx, r) \<leftarrow> bs_delete A frees_nodes uri i ctx; Some (ctx, response, r) }
                else if code m = COAP_GET then bs_get A F P uri fmt m response ctx
                else Some (ctx, response, COAP_400_BAD_REQUEST));
             ctx \<leftarrow> bs_commanded i r ctx;
             Some (ctx, response, r) } })"

text \<open>The deletion of everything: the result is that of the last object.\<close>

fun delete_all_objects ::
  "('a lwm2m) app_objects \<Rightarrow> bool \<Rightarrow> u16 \<Rightarrow> u16 list \<Rightarrow> u8 \<Rightarrow> 'a lwm2m \<Rightarrow> ('a lwm2m \<times> u8) c" where
  "delete_all_objects A frees_nodes keep [] result ctx = Some (ctx, result)"
| "delete_all_objects A frees_nodes keep (oid # oids) result ctx =
     do { (ctx, result) \<leftarrow>
            (if oid = LWM2M_SECURITY_OBJECT_ID then delete_security A frees_nodes keep oid result ctx
             else do { (ctx, r) \<leftarrow> object_delete A frees_nodes (LWM2M_URI_RESET\<lparr>objectId := oid\<rparr>) ctx;
                       Some (ctx, if r = COAP_405_METHOD_NOT_ALLOWED then COAP_202_DELETED else r) });
          delete_all_objects A frees_nodes keep oids result ctx }"

definition bs_delete_all ::
  "('a lwm2m) app_objects \<Rightarrow> bool \<Rightarrow> ('a lwm2m) platform \<Rightarrow> 'a lwm2m \<Rightarrow> session \<Rightarrow> ('a lwm2m \<times> u8) c" where
  "bs_delete_all A frees_nodes P ctx h =
     (case utils_findBootstrapServer P ctx h of
        None \<Rightarrow> Some (ctx, COAP_IGNORE)
      | Some s \<Rightarrow>
          do { (ctx, r) \<leftarrow> prv_checkServerStatus (gettime P) (secObjInstID s) ctx;
               if r \<noteq> COAP_NO_ERROR then Some (ctx, r)
               else delete_all_objects A frees_nodes (secObjInstID s) (map objID (objectList ctx)) COAP_202_DELETED ctx })"

section \<open>A client with one bootstrap server\<close>

lemma one_bs:
  assumes "bootstrapServerList ctx = [s]" and "secObjInstID s = i"
  shows "bs_at i ctx = Some s" and "set_bs i f ctx = ctx\<lparr>bootstrapServerList := [f s]\<rparr>" and "bs_ids ctx = [i]"
  using assms by (simp_all add: bs_at_def set_bs_def bs_ids_def)

lemma step_one_bs:
  assumes "bootstrapServerList ctx = [s]"
  shows "bootstrap_step P connect stack now timeout ctx = bootstrap_step_server P connect stack now (secObjInstID s) timeout ctx"
proof -
  have "do { (ctx, timeout) \<leftarrow> r; Some (ctx, timeout) } = r" for r :: "('b \<times> 'c) option" by (cases r) auto
  then show ?thesis using one_bs(3) [OF assms refl] by (simp add: bootstrap_step_def)
qed

definition bootstrap_tx :: "('a reg) platform \<Rightarrow> bytes \<Rightarrow> 'a reg \<Rightarrow> session \<Rightarrow> u16 \<Rightarrow> bytes \<Rightarrow> lwm2m_transaction_t" where
  "bootstrap_tx P q ctx h i stack = (bootstrap_request P q (plain_tx P h COAP_POST (nextMID ctx) stack))
     \<lparr>callback := Some BOOTSTRAP_REPLY, userData := server_address i\<rparr>"

lemma bootstrap_tx_fields [simp]:
  "mID (bootstrap_tx P q ctx h i stack) = nextMID ctx" "peerH (bootstrap_tx P q ctx h i stack) = h"
  "\<not> ack_received (bootstrap_tx P q ctx h i stack)" "buffer (bootstrap_tx P q ctx h i stack) = None"
  "retrans_counter (bootstrap_tx P q ctx h i stack) = 0" "userData (bootstrap_tx P q ctx h i stack) = server_address i"
  by (simp_all add: bootstrap_tx_def bootstrap_request_def plain_tx_def)

lemma server_address_inverse [simp]: "of_nat (server_address i - Suc 0) = i" "0 < server_address i"
  by (simp_all add: server_address_def)

definition bootstrap_sent :: "('a reg) platform \<Rightarrow> lwm2m_transaction_t \<Rightarrow> lwm2m_server_t \<Rightarrow> 'a reg \<Rightarrow> 'a reg" where
  "bootstrap_sent P t s ctx = put_tx (first_sent P t) (ctx\<lparr>nextMID := nextMID ctx + 1,
     transactionList := LWM2M_LIST_ADD mID (transactionList ctx) t, sent := sent ctx @ [(sessionH s, msg_bytes (message t))],
     bootstrapServerList := [s\<lparr>server_status := STATE_BS_INITIATED\<rparr>]\<rparr>)"

lemma request_one_bs:
  assumes "\<forall>n. mem_ok P n" and "0 \<le> gettime P" and "bootstrapServerList ctx = [s]" and "sessionH s \<noteq> 0"
    and "bootstrap_query ctx = Some q" and "sendable (message (bootstrap_tx P q ctx (sessionH s) (secObjInstID s) stack))"
  shows "prv_requestBootstrap P connect stack (secObjInstID s) ctx =
    Some (bootstrap_sent P (bootstrap_tx P q ctx (sessionH s) (secObjInstID s) stack) s ctx)"
proof -
  let ?i = "secObjInstID s"
  let ?t = "bootstrap_tx P q ctx (sessionH s) ?i stack"
  let ?u = "bootstrap_request P q (plain_tx P (sessionH s) COAP_POST (nextMID ctx) stack)"
  note o = one_bs [OF assms(3), of ?i]
  have c: "set_bs ?i (\<lambda>s'. s'\<lparr>sessionH := sessionH s\<rparr>) ctx = ctx" using o(2) assms(3) by simp
  let ?c = "ctx\<lparr>nextMID := nextMID ctx + 1\<rparr>"
  let ?d = "put_tx (first_sent P ?t) (?c\<lparr>transactionList := LWM2M_LIST_ADD mID (transactionList ctx) ?t, sent := sent ctx @ [(sessionH s, msg_bytes (message ?t))]\<rparr>)"
  have t: "?u\<lparr>callback := Some BOOTSTRAP_REPLY, userData := server_address ?i\<rparr> = ?t" by (simp add: bootstrap_tx_def)
  have "send_request P ?u BOOTSTRAP_REPLY (server_address ?i) ?c = Some (?d, True)"
    using transaction_send_first [OF assms(6), of P "?c\<lparr>transactionList := LWM2M_LIST_ADD mID (transactionList ctx) ?t\<rparr>"] assms(1,2)
    by (simp add: send_request_def Let_def t)
  moreover have "set_bs_status ?i STATE_BS_INITIATED ?d = bootstrap_sent P ?t s ctx"
    using assms(3) by (simp add: set_bs_status_def set_bs_def bootstrap_sent_def put_tx_def)
  ultimately show ?thesis
    using assms(1,4,5) o c by (simp add: prv_requestBootstrap_def transaction_new_plain Let_def)
qed

lemma step_finishing:
  assumes "bootstrapServerList ctx = [s]" and "server_status s = STATE_BS_FINISHING"
  shows "bootstrap_step P connect stack now timeout ctx =
    Some (ctx\<lparr>bootstrapServerList := [s\<lparr>sessionH := 0, server_status := STATE_BS_FINISHED\<rparr>]\<rparr>, 0)"
  using assms one_bs [OF assms(1) refl] by (simp add: step_one_bs bootstrap_step_server_def bs_close_def)

lemma query_bs [simp]: "bootstrap_query (ctx\<lparr>bootstrapServerList := x\<rparr>) = bootstrap_query ctx"
  by (simp add: bootstrap_query_def)

lemma bootstrap_tx_bs [simp]: "bootstrap_tx P q (ctx\<lparr>bootstrapServerList := x\<rparr>) h i stack = bootstrap_tx P q ctx h i stack"
  by (simp add: bootstrap_tx_def)

lemma bootstrap_message:
  assumes "\<forall>n. mem_ok P n"
  shows "code (message (bootstrap_tx P q ctx h i stack)) = COAP_POST" "uri_path (message (bootstrap_tx P q ctx h i stack)) = [str ''bs'']"
proof -
  have "segs_plain (chr CHR ''/'') [str ''bs'']" by (simp add: segs_plain_def str_def chr_def)
  from split_multi_string [of "mem_ok P", OF _ this, of "[]" 0] assms
  have "fst (split_option_loop (mem_ok P) (chr CHR ''/'') (skip_first (chr CHR ''/'') (str ''/bs'')) [] 0) = [str ''bs'']"
    by (simp add: skip_first_def str_def)
  then show "code (message (bootstrap_tx P q ctx h i stack)) = COAP_POST" "uri_path (message (bootstrap_tx P q ctx h i stack)) = [str ''bs'']"
    by (simp_all add: bootstrap_tx_def bootstrap_request_def plain_tx_def Let_def setter_defs split_beta SET_OPTION_def media_defs coap_init_message_def)
qed

section \<open>Properties\<close>


text \<open>The states that the header of the function calls pending.\<close>

definition bs_pending :: "lwm2m_server_t \<Rightarrow> bool" where
  "bs_pending s \<longleftrightarrow> server_status s \<in> {STATE_BS_HOLD_OFF, STATE_BS_INITIATED, STATE_BS_PENDING, STATE_BS_FINISHING, STATE_BS_FAILING}"

lemma bs_status_eq:
  "st \<in> {STATE_BS_FAILED, STATE_BS_FINISHED, STATE_BS_PENDING} \<Longrightarrow>
   bs_status_loop ss st = (if st = STATE_BS_PENDING \<or> (\<exists>s\<in>set ss. bs_pending s) then STATE_BS_PENDING
     else if st = STATE_BS_FINISHED \<or> (\<exists>s\<in>set ss. server_status s = STATE_BS_FINISHED) then STATE_BS_FINISHED else STATE_BS_FAILED)"
proof (induction ss arbitrary: st)
  case (Cons s ss)
  have e: "bs_status_loop (s # ss) st = bs_status_loop ss
       (if server_status s = STATE_BS_FINISHED then if st = STATE_BS_FAILED then STATE_BS_FINISHED else st
        else if bs_pending s then STATE_BS_PENDING else st)"
    by (simp only: bs_status_loop.simps bs_pending_def)
  have "server_status s = STATE_BS_FINISHED \<Longrightarrow> \<not> bs_pending s" by (simp add: bs_pending_def)
  then show ?case unfolding e using Cons by auto
qed auto

text \<open>the state of the bootstrap is pending exactly when a bootstrap server is, finished when none is
pending and at least one has finished, and failed otherwise.\<close>

theorem bootstrap_status_correct:
  "bootstrap_getStatus ctx =
     (if \<exists>s\<in>set (bootstrapServerList ctx). bs_pending s then STATE_BS_PENDING
      else if \<exists>s\<in>set (bootstrapServerList ctx). server_status s = STATE_BS_FINISHED then STATE_BS_FINISHED
      else STATE_BS_FAILED)"
  by (simp add: bootstrap_getStatus_def bs_status_eq)

definition bootstrap_server :: lwm2m_server_t where
  "bootstrap_server = example_server\<lparr>secObjInstID := 9, lifetime := 20, server_status := STATE_DEREGISTERED\<rparr>"

definition bootstrap_client :: registration_context where
  "bootstrap_client = register_client\<lparr>bootstrapServerList := [bootstrap_server]\<rparr>"

lemma bootstrap_client_query: "bootstrap_query bootstrap_client = Some (str ''?ep=dev&pct=112'')"
proof -
  have n: "0 \<notin> set (str ''?ep='')" "0 \<notin> set (str ''dev'')" "0 \<notin> set (str ''&pct='')" "0 \<notin> set (str ''112'')"
    by (simp_all add: str_def chr_def)
  have "endpointName bootstrap_client = str ''dev'' @ [0]" by (simp add: bootstrap_client_def register_client_fields)
  then show ?thesis
    using copy_str_eq [OF n(1), of "[]" 200] copy_str_eq [OF n(2), of "str ''?ep=''" 200] copy_str_eq [OF n(3), of "str ''?ep=dev''" 200]
      copy_str_eq [OF n(4), of "str ''?ep=dev&pct=''" 200]
    by (simp add: bootstrap_query_def PRV_QUERY_BUFFER_LENGTH_def str_def)
qed

lemma bootstrap_client_options:
  "fst (split_option_loop (\<lambda>_. True) (chr CHR ''/'') (skip_first (chr CHR ''/'') (str ''/bs'')) [] 0) = [str ''bs'']"
  "fst (split_option_loop (\<lambda>_. True) (chr CHR ''&'') (skip_first (chr CHR ''?'') (str ''?ep=dev&pct=112'')) [] 0) = [str ''ep=dev'', str ''pct=112'']"
proof -
  have "segs_plain (chr CHR ''/'') [str ''bs'']" by (simp add: segs_plain_def str_def chr_def)
  from split_multi_string [of "\<lambda>_. True", OF _ this, of "[]" 0]
  show "fst (split_option_loop (\<lambda>_. True) (chr CHR ''/'') (skip_first (chr CHR ''/'') (str ''/bs'')) [] 0) = [str ''bs'']"
    by (simp add: skip_first_def str_def)
  have "segs_plain (chr CHR ''&'') [str ''ep=dev'', str ''pct=112'']" by (simp add: segs_plain_def str_def chr_def)
  from split_multi_string [of "\<lambda>_. True", OF _ this, of "[]" 0]
  show "fst (split_option_loop (\<lambda>_. True) (chr CHR ''&'') (skip_first (chr CHR ''?'') (str ''?ep=dev&pct=112'')) [] 0) = [str ''ep=dev'', str ''pct=112'']"
    by (simp add: skip_first_def str_def chr_def)
qed

lemma bootstrap_client_sendable:
  "sendable (message (bootstrap_tx register_platform (str ''?ep=dev&pct=112'') bootstrap_client 3 9 []))"
  by (simp add: bootstrap_tx_def bootstrap_request_def plain_tx_def Let_def setter_defs split_beta
      SET_OPTION_def media_defs coap_init_message_def register_platform_def bootstrap_client_options
      sendable_def size_ok_def multi_ok_def IS_OPTION_def option_numbers coap_serialize_get_size_def payload_len_def coap_sizes zero_packet_def)


text \<open>A delete callback of an object that takes the instance out of its list and changes nothing else of the client.\<close>

definition deletes_instances :: "u16 \<Rightarrow> ('a lwm2m \<Rightarrow> u16 \<Rightarrow> 'a lwm2m \<times> u8) \<Rightarrow> bool" where
  "deletes_instances oid del \<longleftrightarrow>
     (\<forall>c obj i. find_object c oid = Some obj \<and> i \<in> set (instanceList obj) \<longrightarrow>
        (\<exists>c' obj'. del c i = (c', COAP_202_DELETED) \<and> find_object c' oid = Some obj' \<and> instanceList obj' = remove1 i (instanceList obj) \<and>
           observedList c' = observedList c \<and> serverList c' = serverList c \<and> bootstrapServerList c' = bootstrapServerList c))"

lemma delete_others_ends:
  assumes "deleteFunc A oid = Some del" and "deletes_instances oid del"
  shows "length (filter (\<lambda>i. i \<noteq> keep) (instanceList obj)) = n \<Longrightarrow> find_object ctx oid = Some obj \<Longrightarrow> observedList ctx = Some obs \<Longrightarrow>
    LWM2M_MAX_ID \<notin> set (instanceList obj) \<Longrightarrow>
    \<exists>ctx' obj'. delete_others A fn keep oid (instanceList obj) ctx = Some (ctx', COAP_202_DELETED) \<and>
      find_object ctx' oid = Some obj' \<and> instanceList obj' = filter (\<lambda>i. i = keep) (instanceList obj) \<and>
      serverList ctx' = serverList ctx \<and> bootstrapServerList ctx' = bootstrapServerList ctx"
proof (induction n arbitrary: ctx obj obs)
  case (0 ctx obj obs)
  then have k: "\<forall>i\<in>set (instanceList obj). i = keep" by (auto simp: filter_empty_conv)
  have "\<forall>i\<in>set is. i = keep \<Longrightarrow> delete_others A fn keep oid is ctx = Some (ctx, COAP_202_DELETED)" for "is"
    by (induction "is") (subst delete_others.simps, simp)+
  then show ?case using k 0 by (auto simp: filter_id_conv)
next
  case (Suc n ctx obj obs)
  have "\<exists>ctx' obj'. delete_others A fn keep oid is ctx = Some (ctx', COAP_202_DELETED) \<and>
      find_object ctx' oid = Some obj' \<and> instanceList obj' = filter (\<lambda>i. i = keep) (instanceList obj) \<and>
      serverList ctx' = serverList ctx \<and> bootstrapServerList ctx' = bootstrapServerList ctx"
    if "\<exists>i\<in>set is. i \<noteq> keep" and "set is \<subseteq> set (instanceList obj)" for "is"
    using that
  proof (induction "is")
    case (Cons i "is")
    show ?case
    proof (cases "i = keep")
      case True
      then show ?thesis using Cons by (subst delete_others.simps) simp
    next
      case False
      have i: "i \<in> set (instanceList obj)" "i \<noteq> LWM2M_MAX_ID" using Cons.prems(2) Suc.prems(4) by auto
      with Suc.prems(2) assms(2) obtain c1 obj1 where d: "del ctx i = (c1, COAP_202_DELETED)" "find_object c1 oid = Some obj1"
        "instanceList obj1 = remove1 i (instanceList obj)" "observedList c1 = observedList ctx" "serverList c1 = serverList ctx"
        "bootstrapServerList c1 = bootstrapServerList ctx"
        unfolding deletes_instances_def by blast
      let ?u = "LWM2M_URI_RESET\<lparr>objectId := oid, instanceId := i\<rparr>"
      define c2 where "c2 = c1\<lparr>observedList := Some (filter (\<lambda>t. \<not> clear_matches ?u t) obs)\<rparr>"
      have "observe_clear ?u c1 = Some c2" unfolding c2_def using d(4) Suc.prems(3) by (intro observe_clear_filter) simp
      moreover have "LWM2M_URI_IS_SET_INSTANCE ?u" using i(2) by (simp add: LWM2M_URI_IS_SET_INSTANCE_def)
      ultimately have del: "object_delete A fn ?u ctx = Some (c2, COAP_202_DELETED)"
        using Suc.prems(2) assms(1) d(1) by (simp add: object_delete_def)
      have c2: "find_object c2 oid = Some obj1" "observedList c2 = Some (filter (\<lambda>t. \<not> clear_matches ?u t) obs)"
        "serverList c2 = serverList ctx" "bootstrapServerList c2 = bootstrapServerList ctx"
        using d by (simp_all add: c2_def)
      have rest: "filter (\<lambda>j. j \<noteq> keep) (remove1 i (instanceList obj)) = remove1 i (filter (\<lambda>j. j \<noteq> keep) (instanceList obj))"
        by (simp add: filter_remove1)
      have n: "length (filter (\<lambda>j. j \<noteq> keep) (instanceList obj1)) = n"
        unfolding d(3) rest using Suc.prems(1) i(1) False by (simp add: length_remove1)
      have m: "LWM2M_MAX_ID \<notin> set (instanceList obj1)" using Suc.prems(4) d(3) notin_set_remove1 by metis
      have f: "filter (\<lambda>j. j = keep) (instanceList obj1) = filter (\<lambda>j. j = keep) (instanceList obj)"
        unfolding d(3) using False by (simp add: filter_remove1 remove1_idem)
      show ?thesis
        using Suc.IH [OF n c2(1,2) m] False del c2 f by (subst delete_others.simps) simp
    qed
  qed simp
  moreover have "\<exists>i\<in>set (instanceList obj). i \<noteq> keep"
    using Suc.prems(1) by (metis (mono_tags, lifting) filter_False list.size(3) nat.distinct(1))
  ultimately show ?case by blast
qed

lemma security_only_once:
  "LWM2M_SECURITY_OBJECT_ID \<notin> set oids \<Longrightarrow> delete_security_objects A fn keep oids result ctx = Some (ctx, result)"
  by (induction oids) auto

lemma security_in_list:
  "distinct oids \<Longrightarrow> LWM2M_SECURITY_OBJECT_ID \<in> set oids \<Longrightarrow>
   delete_security_objects A fn keep oids result ctx = delete_security A fn keep LWM2M_SECURITY_OBJECT_ID result ctx"
proof (induction oids)
  case (Cons oid oids)
  have "do { (ctx, result) \<leftarrow> r; Some (ctx, result) } = r" for r :: "('b \<times> 'c) option" by (cases r) auto
  then show ?case using Cons by (cases "oid = LWM2M_SECURITY_OBJECT_ID") (auto simp: security_only_once)
qed simp

text \<open>C36: deleting the Security object in a bootstrap ends and leaves exactly the account of the bootstrap server
that asked for it: every other account is deleted, every other server is marked for removal.\<close>

theorem bootstrap_keeps_its_account:
  assumes "objects_ok ctx" and "find_object ctx LWM2M_SECURITY_OBJECT_ID = Some obj" and "deleteFunc A LWM2M_SECURITY_OBJECT_ID = Some del"
    and "deletes_instances LWM2M_SECURITY_OBJECT_ID del" and "observedList ctx = Some obs" and "LWM2M_MAX_ID \<notin> set (instanceList obj)"
    and "objectId uri = LWM2M_SECURITY_OBJECT_ID" and "\<not> LWM2M_URI_IS_SET_INSTANCE uri" and "\<not> LWM2M_URI_IS_SET_RESOURCE uri"
  shows "\<exists>ctx' obj'. bs_delete A fn uri srv ctx = Some (ctx', COAP_202_DELETED) \<and> find_object ctx' LWM2M_SECURITY_OBJECT_ID = Some obj' \<and>
    instanceList obj' = filter (\<lambda>i. i = srv) (instanceList obj) \<and> serverList ctx' = map (\<lambda>s. s\<lparr>dirty := True\<rparr>) (serverList ctx) \<and>
    bootstrapServerList ctx' = map (\<lambda>s. if secObjInstID s \<noteq> srv then s\<lparr>dirty := True\<rparr> else s) (bootstrapServerList ctx)"
proof -
  obtain ctx' obj' where d: "delete_others A fn srv LWM2M_SECURITY_OBJECT_ID (instanceList obj) ctx = Some (ctx', COAP_202_DELETED)"
    "find_object ctx' LWM2M_SECURITY_OBJECT_ID = Some obj'" "instanceList obj' = filter (\<lambda>i. i = srv) (instanceList obj)"
    "serverList ctx' = serverList ctx" "bootstrapServerList ctx' = bootstrapServerList ctx"
    using delete_others_ends [OF assms(3,4) refl assms(2,5,6)] by blast
  have "distinct (map objID (objectList ctx))" using assms(1) by (simp add: objects_ok_def sorted_ids_def strict_sorted_iff)
  moreover have "LWM2M_SECURITY_OBJECT_ID \<in> set (map objID (objectList ctx))"
    using assms(1,2) LWM2M_LIST_FIND_Some [of objID "objectList ctx" LWM2M_SECURITY_OBJECT_ID obj]
    by (auto simp: find_object_def objects_ok_def intro: rev_image_eqI)
  ultimately have "bs_delete A fn uri srv ctx = delete_security A fn srv LWM2M_SECURITY_OBJECT_ID COAP_202_DELETED ctx"
    using assms(7-9) by (simp add: bs_delete_def security_in_list)
  also have "\<dots> = Some (prv_tagAllServer (Some srv) ctx', COAP_202_DELETED)" using assms(2) d(1) by (simp add: delete_security_def)
  finally show ?thesis using d by (intro exI [of _ "prv_tagAllServer (Some srv) ctx'"] exI [of _ obj']) (simp add: prv_tagAllServer_def find_object_def)
qed

lemma example_deletes:
  "deletes_instances oid (\<lambda>c i. (change_instances oid (remove1 i) c, COAP_202_DELETED))"
  by (auto simp: deletes_instances_def find_change_instances) (simp_all add: change_instances_def)

theorem bootstrap_keeps_its_account_witness:
  "\<exists>ctx' obj'. bs_delete example_app True (LWM2M_URI_RESET\<lparr>objectId := 0\<rparr>) 0 account_client = Some (ctx', COAP_202_DELETED) \<and>
     find_object ctx' LWM2M_SECURITY_OBJECT_ID = Some obj' \<and> instanceList obj' = [0] \<and> map dirty (serverList ctx') = [True]"
proof -
  have c: "objects_ok account_client" "observedList account_client = observedList example_lwm2m"
    "find_object account_client LWM2M_SECURITY_OBJECT_ID = Some \<lparr>objID = 0, versionMajor = 0, versionMinor = 0, instanceList = [0, 1]\<rparr>"
    by (simp_all add: objects_ok_def account_client_def find_object_def LWM2M_SECURITY_OBJECT_ID_def sorted_ids_def)
  obtain obs where o: "observedList account_client = Some obs" using c(2) by (simp add: example_lwm2m_def)
  have d: "deleteFunc example_app LWM2M_SECURITY_OBJECT_ID = Some (\<lambda>c i. (change_instances LWM2M_SECURITY_OBJECT_ID (remove1 i) c, COAP_202_DELETED))"
    by (simp add: example_app_def)
  have u: "objectId (LWM2M_URI_RESET\<lparr>objectId := 0\<rparr>) = LWM2M_SECURITY_OBJECT_ID" "\<not> LWM2M_URI_IS_SET_INSTANCE (LWM2M_URI_RESET\<lparr>objectId := 0\<rparr>)"
    "\<not> LWM2M_URI_IS_SET_RESOURCE (LWM2M_URI_RESET\<lparr>objectId := 0\<rparr>)"
    by (simp_all add: LWM2M_URI_RESET_def LWM2M_URI_IS_SET_INSTANCE_def LWM2M_URI_IS_SET_RESOURCE_def LWM2M_MAX_ID_def LWM2M_SECURITY_OBJECT_ID_def)
  have "LWM2M_MAX_ID \<notin> set (instanceList \<lparr>objID = 0, versionMajor = 0, versionMinor = 0, instanceList = [0, 1]\<rparr>)"
    by (simp add: LWM2M_MAX_ID_def)
  from bootstrap_keeps_its_account [OF c(1,3) d example_deletes o this u, of True 0] show ?thesis
    by (auto simp: account_client_def example_lwm2m_def)
qed

text \<open>a Bootstrap-Write of a whole object loses the instance identifiers of the instances it creates: instance
5 becomes instance 0.\<close>

theorem bootstrap_write_loses_id:
  "bs_write_instances example_app (LWM2M_URI_RESET\<lparr>objectId := 3\<rparr>) [Data LWM2M_TYPE_OBJECT_INSTANCE 5 (asChildren [])] COAP_NO_ERROR account_client =
     Some (change_instances 3 (\<lambda>is. LWM2M_LIST_ADD id is 0) account_client, COAP_204_CHANGED)"
  by (simp add: bs_write_instance_def object_isInstanceNew_def find_object_def account_client_def has_instance_def object_createInstance_def
    example_app_def LWM2M_URI_RESET_def LWM2M_LIST_NEW_ID_def)

end
