(* ===== verification/Context.thy ===== *)
theory Context
  imports Bootstrap
begin

text \<open>
  The context of a client (\<^verbatim>\<open>core/liblwm2m.c\<close>): its creation and configuration, the objects, the periodic
  step with its state machine, and the end.

  A new context has no endpoint name: the list of its bytes is empty, not even a terminator is there.
  \<open>goto next_step\<close> in \<open>lwm2m_step\<close> is a call of the function of the next state; no call of it
  reaches a state twice, so no loop is needed.  Freed memory is gone: a server that is deleted is no
  longer in its list.
\<close>

section \<open>Creation and configuration\<close>

definition sizeof_context :: nat where "sizeof_context = 88"

text \<open>A context is zero but for the first message identifier; the block size and the error message belong to
  the whole program.\<close>

definition lwm2m_init :: "(nat \<Rightarrow> bool) \<Rightarrow> u16 \<Rightarrow> bytes \<Rightarrow> u16 \<Rightarrow> registration_context option" where
  "lwm2m_init mem block_size error_message rand_mid =
     (if \<not> mem sizeof_context then None
      else Some \<lparr>transactionList = [], nextMID = rand_mid, sent = [], altPath = None, serverList = [], bootstrapServerList = [],
        coap_block_size = block_size, coap_error_message = error_message, client_state = STATE_INITIAL, endpointName = [], msisdn = None, objectList = [],
        observedList = Some [], regData = []\<rparr>)"

definition lwm2m_strdup :: "(nat \<Rightarrow> bool) \<Rightarrow> bytes \<Rightarrow> bytes option c" where
  "lwm2m_strdup mem s = do { n \<leftarrow> strlen s; Some (if mem (n + 1) then Some (take (n + 1) s) else None) }"

definition LWM2M_DEVICE_OBJECT_ID :: u16 where "LWM2M_DEVICE_OBJECT_ID = 3"

definition mandatory_objects :: "lwm2m_object_t list \<Rightarrow> bool" where
  "mandatory_objects objs \<longleftrightarrow>
     (\<exists>obj\<in>set objs. objID obj = LWM2M_SECURITY_OBJECT_ID) \<and> (\<exists>obj\<in>set objs. objID obj = LWM2M_SERVER_OBJECT_ID) \<and>
     (\<exists>obj\<in>set objs. objID obj = LWM2M_DEVICE_OBJECT_ID)"

text \<open>The alternative path that is used: none when it is the root.\<close>

definition used_path :: "bytes option \<Rightarrow> bytes option c" where
  "used_path p = (case p of None \<Rightarrow> Some None | Some p \<Rightarrow> do { b \<leftarrow> rd p 1; Some (if b = 0 then None else Some p) })"

text \<open>An optional string is copied; \<open>None\<close> is a failed allocation.\<close>

definition dup_option :: "(nat \<Rightarrow> bool) \<Rightarrow> bytes option \<Rightarrow> bytes option option c" where
  "dup_option mem s =
     (case s of None \<Rightarrow> Some (Some None)
      | Some s \<Rightarrow> do { d \<leftarrow> lwm2m_strdup mem s; Some (case d of None \<Rightarrow> None | Some d \<Rightarrow> Some (Some d)) })"

definition lwm2m_configure ::
  "(nat \<Rightarrow> bool) \<Rightarrow> bytes option \<Rightarrow> bytes option \<Rightarrow> bytes option \<Rightarrow> lwm2m_object_t list \<Rightarrow> 'a lwm2m \<Rightarrow> ('a lwm2m \<times> u8) c" where
  "lwm2m_configure mem name phone path objs ctx =
     (if endpointName ctx \<noteq> [] \<or> objectList ctx \<noteq> [] then Some (ctx, COAP_400_BAD_REQUEST)
      else case name of None \<Rightarrow> Some (ctx, COAP_400_BAD_REQUEST) | Some name \<Rightarrow>
      if length objs < 3 then Some (ctx, COAP_400_BAD_REQUEST)
      else if \<not> mandatory_objects objs then Some (ctx, COAP_400_BAD_REQUEST)
      else do {
        valid \<leftarrow> (if path = None then Some True else utils_isAltPathValid path);
        if \<not> valid then Some (ctx, COAP_400_BAD_REQUEST)
        else do {
          path \<leftarrow> used_path path;
          n \<leftarrow> lwm2m_strdup mem name;
          case n of None \<Rightarrow> Some (ctx, COAP_500_INTERNAL_SERVER_ERROR) | Some n \<Rightarrow> do {
          let ctx = ctx\<lparr>endpointName := n\<rparr>;
          p \<leftarrow> dup_option mem phone;
          case p of None \<Rightarrow> Some (ctx, COAP_500_INTERNAL_SERVER_ERROR) | Some p \<Rightarrow> do {
          let ctx = (if phone = None then ctx else ctx\<lparr>msisdn := p\<rparr>);
          a \<leftarrow> dup_option mem path;
          case a of None \<Rightarrow> Some (ctx, COAP_500_INTERNAL_SERVER_ERROR) | Some a \<Rightarrow>
            let ctx = (if path = None then ctx else ctx\<lparr>altPath := a\<rparr>) in
            Some (ctx\<lparr>objectList := fold (\<lambda>obj objs. LWM2M_LIST_ADD objID objs obj) objs (objectList ctx)\<rparr>, COAP_NO_ERROR) } } } })"

section \<open>Objects\<close>

definition lwm2m_add_object ::
  "('a lwm2m) app_objects \<Rightarrow> ('a lwm2m) platform \<Rightarrow> lwm2m_object_t \<Rightarrow> 'a lwm2m \<Rightarrow> ('a lwm2m \<times> u8) c" where
  "lwm2m_add_object A P obj ctx =
     (if find_object ctx (objID obj) \<noteq> None then Some (ctx, COAP_406_NOT_ACCEPTABLE)
      else let ctx = ctx\<lparr>objectList := LWM2M_LIST_ADD objID (objectList ctx) obj\<rparr> in
           if client_state ctx = STATE_READY then lwm2m_update_registration A P 0 True ctx else Some (ctx, COAP_NO_ERROR))"

definition lwm2m_remove_object ::
  "('a lwm2m) app_objects \<Rightarrow> ('a lwm2m) platform \<Rightarrow> u16 \<Rightarrow> 'a lwm2m \<Rightarrow> ('a lwm2m \<times> u8) c" where
  "lwm2m_remove_object A P i ctx =
     (case LWM2M_LIST_RM objID (objectList ctx) i of (objs, removed) \<Rightarrow>
        let ctx = ctx\<lparr>objectList := objs\<rparr> in
        if removed = None then Some (ctx, COAP_404_NOT_FOUND)
        else if client_state ctx = STATE_READY then lwm2m_update_registration A P 0 True ctx else Some (ctx, COAP_NO_ERROR))"

section \<open>The periodic step\<close>

text \<open>The servers that are marked are deleted; the bootstrap servers that stay start again.\<close>

definition prv_refreshServerList :: "('a lwm2m) app_objects \<Rightarrow> ('a lwm2m) platform \<Rightarrow> 'a lwm2m \<Rightarrow> ('a lwm2m \<times> int) c" where
  "prv_refreshServerList A P ctx =
     (let add = (\<lambda>s ss. LWM2M_LIST_ADD secObjInstID ss s) in
      object_getServers A P False
        (ctx\<lparr>bootstrapServerList := fold add (map (\<lambda>s. s\<lparr>server_status := STATE_DEREGISTERED\<rparr>) (filter (\<lambda>s. \<not> dirty s) (bootstrapServerList ctx))) [],
             serverList := fold add (filter (\<lambda>s. \<not> dirty s) (serverList ctx)) []\<rparr>))"

text \<open>The states: the context, the timeout and the result, 0 to go on.\<close>

definition step_bootstrap_required ::
  "('a reg) platform \<Rightarrow> (u16 \<Rightarrow> session) \<Rightarrow> bytes \<Rightarrow> int \<Rightarrow> 'a reg \<Rightarrow> ('a reg \<times> int \<times> u8) c" where
  "step_bootstrap_required P connect stack timeout ctx =
     (if bootstrapServerList ctx \<noteq> []
      then do { (ctx, timeout) \<leftarrow> bootstrap_step P connect stack (gettime P) timeout
                  ((bootstrap_start connect ctx)\<lparr>client_state := STATE_BOOTSTRAPPING\<rparr>);
                Some (ctx, timeout, COAP_NO_ERROR) }
      else Some (ctx, timeout, COAP_503_SERVICE_UNAVAILABLE))"

definition step_register_required ::
  "('a reg) app_objects \<Rightarrow> ('a reg) platform \<Rightarrow> int \<Rightarrow> 'a reg \<Rightarrow> ('a reg \<times> int \<times> u8) c" where
  "step_register_required A P timeout ctx =
     do { (ctx, r) \<leftarrow> registration_start A P True ctx;
          Some (if r \<noteq> COAP_NO_ERROR then (ctx, timeout, r) else (ctx\<lparr>client_state := STATE_REGISTERING\<rparr>, timeout, COAP_NO_ERROR)) }"

definition step_initial ::
  "('a reg) app_objects \<Rightarrow> ('a reg) platform \<Rightarrow> (u16 \<Rightarrow> session) \<Rightarrow> bytes \<Rightarrow> int \<Rightarrow> 'a reg \<Rightarrow> ('a reg \<times> int \<times> u8) c" where
  "step_initial A P connect stack timeout ctx =
     do { (ctx, r) \<leftarrow> prv_refreshServerList A P ctx;
          if r \<noteq> 0 then Some (ctx, timeout, COAP_503_SERVICE_UNAVAILABLE)
          else if serverList ctx \<noteq> [] then step_register_required A P timeout (ctx\<lparr>client_state := STATE_REGISTER_REQUIRED\<rparr>)
          else step_bootstrap_required P connect stack timeout (ctx\<lparr>client_state := STATE_BOOTSTRAP_REQUIRED\<rparr>) }"

definition step_bootstrapping ::
  "('a reg) app_objects \<Rightarrow> ('a reg) platform \<Rightarrow> (u16 \<Rightarrow> session) \<Rightarrow> bytes \<Rightarrow> int \<Rightarrow> 'a reg \<Rightarrow> ('a reg \<times> int \<times> u8) c" where
  "step_bootstrapping A P connect stack timeout ctx =
     (case bootstrap_getStatus ctx of
        STATE_BS_FINISHED \<Rightarrow> step_initial A P connect stack timeout (ctx\<lparr>client_state := STATE_INITIAL\<rparr>)
      | STATE_BS_FAILED \<Rightarrow> Some (ctx, timeout, COAP_503_SERVICE_UNAVAILABLE)
      | _ \<Rightarrow> do { (ctx, timeout) \<leftarrow> bootstrap_step P connect stack (gettime P) timeout ctx; Some (ctx, timeout, COAP_NO_ERROR) })"

definition step_registering ::
  "('a reg) platform \<Rightarrow> (u16 \<Rightarrow> session) \<Rightarrow> bytes \<Rightarrow> int \<Rightarrow> 'a reg \<Rightarrow> ('a reg \<times> int \<times> u8) c" where
  "step_registering P connect stack timeout ctx =
     (case registration_getStatus ctx of
        STATE_REGISTERED \<Rightarrow> Some (ctx\<lparr>client_state := STATE_READY\<rparr>, timeout, COAP_NO_ERROR)
      | STATE_REG_FAILED \<Rightarrow> step_bootstrap_required P connect stack timeout (ctx\<lparr>client_state := STATE_BOOTSTRAP_REQUIRED\<rparr>)
      | _ \<Rightarrow> Some (ctx, timeout, COAP_NO_ERROR))"

definition step_ready ::
  "('a reg) platform \<Rightarrow> (u16 \<Rightarrow> session) \<Rightarrow> bytes \<Rightarrow> int \<Rightarrow> 'a reg \<Rightarrow> ('a reg \<times> int \<times> u8) c" where
  "step_ready P connect stack timeout ctx =
     (if registration_getStatus ctx = STATE_REG_FAILED
      then step_bootstrap_required P connect stack timeout (ctx\<lparr>client_state := STATE_BOOTSTRAP_REQUIRED\<rparr>)
      else Some (ctx, timeout, COAP_NO_ERROR))"

definition step_state ::
  "('a reg) app_objects \<Rightarrow> ('a reg) platform \<Rightarrow> (u16 \<Rightarrow> session) \<Rightarrow> bytes \<Rightarrow> int \<Rightarrow> 'a reg \<Rightarrow> ('a reg \<times> int \<times> u8) c" where
  "step_state A P connect stack timeout ctx =
     (case client_state ctx of
        STATE_INITIAL \<Rightarrow> step_initial A P connect stack timeout ctx
      | STATE_BOOTSTRAP_REQUIRED \<Rightarrow> step_bootstrap_required P connect stack timeout ctx
      | STATE_BOOTSTRAPPING \<Rightarrow> step_bootstrapping A P connect stack timeout ctx
      | STATE_REGISTER_REQUIRED \<Rightarrow> step_register_required A P timeout ctx
      | STATE_REGISTERING \<Rightarrow> step_registering P connect stack timeout ctx
      | STATE_READY \<Rightarrow> step_ready P connect stack timeout ctx)"

definition lwm2m_step ::
  "('a reg) app_objects \<Rightarrow> data_formats \<Rightarrow> ('a reg) platform \<Rightarrow> (u16 \<Rightarrow> session) \<Rightarrow> bytes \<Rightarrow> nat \<Rightarrow> int \<Rightarrow> 'a reg \<Rightarrow> ('a reg \<times> int \<times> u8) c" where
  "lwm2m_step A F P connect stack fuel timeout ctx =
     (let now = gettime P in
      if now < 0 then Some (ctx, timeout, COAP_500_INTERNAL_SERVER_ERROR)
      else do {
        (ctx, timeout, r) \<leftarrow> step_state A P connect stack timeout ctx;
        if r \<noteq> COAP_NO_ERROR then Some (ctx, timeout, r)
        else do {
          (ctx, timeout) \<leftarrow> observe_step A F P now timeout ctx;
          (ctx, timeout) \<leftarrow> registration_step P connect stack now timeout ctx;
          (ctx, timeout) \<leftarrow> transaction_step fuel P now timeout ctx;
          Some (ctx, timeout, COAP_NO_ERROR) } })"

section \<open>The end\<close>

fun deregister_loop :: "('a reg) platform \<Rightarrow> bytes \<Rightarrow> u16 list \<Rightarrow> 'a reg \<Rightarrow> ('a reg) c" where
  "deregister_loop P stack [] ctx = Some ctx"
| "deregister_loop P stack (i # is) ctx = do { ctx \<leftarrow> registration_deregister P stack i ctx; deregister_loop P stack is ctx }"

definition lwm2m_deregister :: "('a reg) platform \<Rightarrow> bytes \<Rightarrow> 'a reg \<Rightarrow> ('a reg) c" where
  "lwm2m_deregister P stack ctx = deregister_loop P stack (server_ids ctx) ctx"

text \<open>The callback of a transaction without a message: one of the client's own, or one of the platform.\<close>

definition reply_callback ::
  "('a reg) app_objects \<Rightarrow> ('a reg) platform \<Rightarrow> lwm2m_transaction_t \<Rightarrow> coap_packet_t option \<Rightarrow> 'a reg \<Rightarrow> ('a reg) c" where
  "reply_callback A P t m ctx =
     (case callback t of
        None \<Rightarrow> Some ctx
      | Some k \<Rightarrow>
          if k = REGISTRATION_REPLY then prv_handleRegistrationReply A P t m ctx
          else if k = UPDATE_REPLY then prv_handleRegistrationUpdateReply P t m ctx
          else if k = DEREGISTRATION_REPLY then prv_handleDeregistrationReply t ctx
          else if k = BOOTSTRAP_REPLY then prv_handleBootstrapReply P t m ctx
          else Some (callback_fn P k ctx t m))"

partial_function (option) prv_deleteTransactionList :: "('a reg) app_objects \<Rightarrow> ('a reg) platform \<Rightarrow> 'a reg \<Rightarrow> ('a reg) c" where
  "prv_deleteTransactionList A P ctx =
     (case transactionList ctx of
        [] \<Rightarrow> Some ctx
      | t # ts \<Rightarrow> do { ctx \<leftarrow> reply_callback A P t None (ctx\<lparr>transactionList := ts\<rparr>); prv_deleteTransactionList A P ctx })"

definition lwm2m_close :: "('a reg) app_objects \<Rightarrow> ('a reg) platform \<Rightarrow> bytes \<Rightarrow> 'a reg \<Rightarrow> ('a reg) c" where
  "lwm2m_close A P stack ctx =
     do { ctx \<leftarrow> lwm2m_deregister P stack ctx;
          prv_deleteTransactionList A P (ctx\<lparr>serverList := [], bootstrapServerList := [], observedList := Some []\<rparr>) }"

section \<open>The state machine\<close>

text \<open>The states between two steps: a client waits for its bootstrap or its registrations, or is ready.\<close>

inductive client_moves :: "'a lwm2m \<Rightarrow> lwm2m_client_state_t \<Rightarrow> bool" for ctx where
  register: "client_state ctx \<in> {STATE_INITIAL, STATE_REGISTER_REQUIRED} \<Longrightarrow> client_moves ctx STATE_REGISTERING"
| bootstrap: "client_state ctx \<in> {STATE_INITIAL, STATE_BOOTSTRAP_REQUIRED} \<Longrightarrow> client_moves ctx STATE_BOOTSTRAPPING"
| bootstrapped: "client_state ctx = STATE_BOOTSTRAPPING \<Longrightarrow> bootstrap_getStatus ctx = STATE_BS_FINISHED \<Longrightarrow>
    st \<in> {STATE_REGISTERING, STATE_BOOTSTRAPPING} \<Longrightarrow> client_moves ctx st"
| bootstrapping: "client_state ctx = STATE_BOOTSTRAPPING \<Longrightarrow> bootstrap_getStatus ctx = STATE_BS_PENDING \<Longrightarrow> client_moves ctx STATE_BOOTSTRAPPING"
| registering: "client_state ctx = STATE_REGISTERING \<Longrightarrow> registration_getStatus ctx = STATE_REG_PENDING \<Longrightarrow> client_moves ctx STATE_REGISTERING"
| registered: "client_state ctx = STATE_REGISTERING \<Longrightarrow> registration_getStatus ctx = STATE_REGISTERED \<Longrightarrow> client_moves ctx STATE_READY"
| ready: "client_state ctx = STATE_READY \<Longrightarrow> registration_getStatus ctx \<noteq> STATE_REG_FAILED \<Longrightarrow> client_moves ctx STATE_READY"
| failed: "client_state ctx \<in> {STATE_REGISTERING, STATE_READY} \<Longrightarrow> registration_getStatus ctx = STATE_REG_FAILED \<Longrightarrow>
    client_moves ctx STATE_BOOTSTRAPPING"

inductive_cases client_movesE: "client_moves ctx st"

lemma prepare_keeps:
  assumes "prepare_buffer P t = Some (Some t')"
  shows "retrans_counter t' = retrans_counter t" and "ack_received t' = ack_received t"
  using assms by (auto simp: prepare_buffer_def Let_def bind_eq_Some_conv split: if_splits)

text \<open>The first transmission of a message changes nothing but the transactions and what was sent.\<close>

lemma transaction_send_fresh:
  assumes "retrans_counter t = 0" and "\<not> ack_received t" and "0 \<le> gettime P" and "transaction_send P t ctx = Some (ctx', r)"
  shows "\<exists>out ts. ctx' = ctx\<lparr>sent := out, transactionList := ts\<rparr>"
proof -
  from assms(4) obtain p where p: "prepare_buffer P t = Some p" by (auto simp: transaction_send_def bind_eq_Some_conv)
  show ?thesis
  proof (cases p)
    case None
    have "\<exists>out ts. transaction_remove t ctx = ctx\<lparr>sent := out, transactionList := ts\<rparr>"
      by (intro exI [of _ "sent ctx"] exI [of _ "fst (LWM2M_LIST_RM mID (transactionList ctx) (mID t))"]) (simp add: transaction_remove_def)
    then show ?thesis using assms(4) p None by (simp add: transaction_send_def)
  next
    case (Some u)
    note u = prepare_keeps [OF p [unfolded Some]]
    then show ?thesis
      using assms p Some
      by (auto simp: transaction_send_def bind_eq_Some_conv tx_constants put_tx_def lwm2m_buffer_send_def)
  qed
qed

lemma transaction_new_fresh:
  fixes P :: "('a reg) platform"
  assumes "transaction_new P h meth None None m 4 None stack = Some (Some t)"
  shows "retrans_counter t = 0" and "\<not> ack_received t"
proof -
  have "t = plain_tx P h meth m stack"
    using assms by (simp add: transaction_new_def uri_set_ids_def rd_range_def generated_token_def plain_tx_def Let_def split: if_splits)
  then show "retrans_counter t = 0" "\<not> ack_received t" by (simp_all add: plain_tx_def)
qed

lemma send_request_state:
  assumes "retrans_counter t = 0" and "\<not> ack_received t" and "0 \<le> gettime P" and "send_request P t k a ctx = Some (ctx', ok)"
  shows "client_state ctx' = client_state ctx"
  using assms transaction_send_fresh [of "t\<lparr>callback := Some k, userData := a\<rparr>" P]
  by (fastforce simp: send_request_def Let_def bind_eq_Some_conv)

lemma set_bs_state [simp]: "client_state (set_bs i f ctx) = client_state ctx" "client_state (set_bs_status i st ctx) = client_state ctx"
  "client_state (bs_close i st ctx) = client_state ctx"
  by (simp_all add: set_bs_def set_bs_status_def bs_close_def)

lemma request_bootstrap_state:
  assumes "0 \<le> gettime P" and "prv_requestBootstrap P connect stack i ctx = Some ctx'"
  shows "client_state ctx' = client_state ctx"
proof -
  from assms(2) obtain q s where q: "bootstrap_query ctx = Some q" "bs_at i ctx = Some s"
    by (auto simp: prv_requestBootstrap_def bind_eq_Some_conv)
  define h where "h = (if sessionH s = 0 then connect i else sessionH s)"
  define c1 where "c1 = set_bs i (\<lambda>s. s\<lparr>sessionH := h\<rparr>) ctx"
  have c1: "client_state c1 = client_state ctx" by (simp add: c1_def)
  show ?thesis
  proof (cases "h = 0")
    case True
    then show ?thesis using assms(2) q c1 by (auto simp: prv_requestBootstrap_def Let_def h_def [symmetric] c1_def [symmetric])
  next
    case False
    with assms(2) q obtain t where t: "transaction_new P h COAP_POST None None (nextMID c1) 4 None stack = Some t"
      and r: "(case t of
              None \<Rightarrow> Some (set_bs_status i STATE_BS_FAILING (c1\<lparr>nextMID := nextMID c1 + 1\<rparr>))
            | Some t \<Rightarrow> do {
                (ctx, ok) \<leftarrow> send_request P (bootstrap_request P q t) BOOTSTRAP_REPLY (server_address i) (c1\<lparr>nextMID := nextMID c1 + 1\<rparr>);
                Some (if ok then set_bs_status i STATE_BS_INITIATED ctx else ctx) }) = Some ctx'"
      by (auto simp: prv_requestBootstrap_def Let_def bind_eq_Some_conv h_def [symmetric] c1_def [symmetric])
    show ?thesis
    proof (cases t)
      case None
      then show ?thesis using r c1 by auto
    next
      case (Some u)
      with r obtain c2 ok where c2: "send_request P (bootstrap_request P q u) BOOTSTRAP_REPLY (server_address i) (c1\<lparr>nextMID := nextMID c1 + 1\<rparr>) = Some (c2, ok)"
        "ctx' = (if ok then set_bs_status i STATE_BS_INITIATED c2 else c2)"
        by (auto simp: bind_eq_Some_conv)
      note f = transaction_new_fresh [OF t [unfolded Some]]
      have "client_state c2 = client_state c1"
        using send_request_state [OF _ _ assms(1) c2(1)] f by (simp add: bootstrap_request_def)
      then show ?thesis using c1 c2(2) by simp
    qed
  qed
qed

lemma bootstrap_step_state:
  assumes "0 \<le> gettime P" and "bootstrap_step P connect stack now timeout ctx = Some (ctx', timeout')"
  shows "client_state ctx' = client_state ctx"
proof -
  have 1: "client_state c' = client_state c" if "bootstrap_step_server P connect stack now i w c = Some (c', w')" for i w w' and c c' :: "'a reg"
  proof -
    from that obtain s where s: "bs_at i c = Some s" by (auto simp: bootstrap_step_server_def bind_eq_Some_conv)
    show ?thesis
      using that s request_bootstrap_state [OF assms(1), of connect stack i c]
      by (cases "server_status s") (auto simp: bootstrap_step_server_def bind_eq_Some_conv split: if_splits)
  qed
  have "bootstrap_step_servers P connect stack now is w c = Some (c', w') \<Longrightarrow> client_state c' = client_state c" for "is" w w' and c c' :: "'a reg"
  proof (induction "is" arbitrary: w c)
    case (Cons i "is")
    then show ?case using 1 by (fastforce simp: bind_eq_Some_conv)
  qed simp
  then show ?thesis using assms(2) by (simp add: bootstrap_step_def)
qed

lemma step_bootstrap_required_state:
  assumes "0 \<le> gettime P" and "step_bootstrap_required P connect stack timeout ctx = Some (ctx', timeout', COAP_NO_ERROR)"
  shows "client_state ctx' = STATE_BOOTSTRAPPING"
proof (cases "bootstrapServerList ctx = []")
  case True
  then show ?thesis using assms(2) by (simp add: step_bootstrap_required_def COAP_503_SERVICE_UNAVAILABLE_def COAP_NO_ERROR_def)
next
  case False
  then show ?thesis using assms(2) bootstrap_step_state [OF assms(1)]
    by (fastforce simp: step_bootstrap_required_def bind_eq_Some_conv)
qed

lemma step_register_required_state:
  assumes "step_register_required A P timeout ctx = Some (ctx', timeout', COAP_NO_ERROR)"
  shows "client_state ctx' = STATE_REGISTERING"
proof -
  from assms obtain c r where r: "registration_start A P True ctx = Some (c, r)" by (auto simp: step_register_required_def bind_eq_Some_conv)
  then have "ctx' = c\<lparr>client_state := STATE_REGISTERING\<rparr>" using assms by (cases "r = COAP_NO_ERROR") (auto simp: step_register_required_def)
  then show ?thesis by simp
qed

lemma step_initial_state:
  assumes "0 \<le> gettime P" and "step_initial A P connect stack timeout ctx = Some (ctx', timeout', COAP_NO_ERROR)"
  shows "client_state ctx' \<in> {STATE_REGISTERING, STATE_BOOTSTRAPPING}"
proof -
  from assms(2) obtain c r where r: "prv_refreshServerList A P ctx = Some (c, r)" by (auto simp: step_initial_def bind_eq_Some_conv)
  have "r = 0" using assms(2) r by (cases "r = 0") (auto simp: step_initial_def COAP_503_SERVICE_UNAVAILABLE_def COAP_NO_ERROR_def)
  then have "(if serverList c \<noteq> [] then step_register_required A P timeout (c\<lparr>client_state := STATE_REGISTER_REQUIRED\<rparr>)
      else step_bootstrap_required P connect stack timeout (c\<lparr>client_state := STATE_BOOTSTRAP_REQUIRED\<rparr>)) = Some (ctx', timeout', COAP_NO_ERROR)"
    using assms(2) r by (simp add: step_initial_def)
  then show ?thesis using step_register_required_state step_bootstrap_required_state [OF assms(1)] by (auto split: if_splits)
qed

lemma status_values:
  "bootstrap_getStatus ctx \<in> {STATE_BS_PENDING, STATE_BS_FINISHED, STATE_BS_FAILED}"
  "registration_getStatus ctx \<in> {STATE_REG_PENDING, STATE_REGISTERED, STATE_REG_FAILED}"
  unfolding bootstrap_getStatus_def registration_getStatus_def by (subst bs_status_eq; simp) (subst status_loop_eq; simp)



section \<open>Closing a registered client\<close>

definition deregister_tx :: "('a reg) platform \<Rightarrow> bytes \<Rightarrow> 'a reg \<Rightarrow> session \<Rightarrow> u16 \<Rightarrow> bytes \<Rightarrow> lwm2m_transaction_t" where
  "deregister_tx P loc ctx h i stack =
     (let t = plain_tx P h COAP_DELETE (nextMID ctx) stack in
      t\<lparr>message := fst (coap_set_header_uri_path (mem_ok P) (message t) loc), callback := Some DEREGISTRATION_REPLY, userData := server_address i\<rparr>)"

lemma deregister_tx_fields [simp]:
  "mID (deregister_tx P loc ctx h i stack) = nextMID ctx" "peerH (deregister_tx P loc ctx h i stack) = h"
  "\<not> ack_received (deregister_tx P loc ctx h i stack)" "buffer (deregister_tx P loc ctx h i stack) = None"
  "retrans_counter (deregister_tx P loc ctx h i stack) = 0" "userData (deregister_tx P loc ctx h i stack) = server_address i"
  "callback (deregister_tx P loc ctx h i stack) = Some DEREGISTRATION_REPLY"
  by (simp_all add: deregister_tx_def plain_tx_def Let_def)

lemma deregister_one_server:
  assumes "\<forall>n. mem_ok P n" and "0 \<le> gettime P" and "serverList ctx = [s]" and "sessionH s \<noteq> 0" and "deregisterable s" and "location s = Some loc"
    and "sendable (message (deregister_tx P loc ctx (sessionH s) (secObjInstID s) stack))" and "transactionList ctx = []"
  shows "\<exists>ctx' t. lwm2m_deregister P stack ctx = Some ctx' \<and> transactionList ctx' = [t] \<and>
    callback t = Some DEREGISTRATION_REPLY \<and> userData t = server_address (secObjInstID s) \<and>
    map server_status (serverList ctx') = [STATE_DEREG_PENDING] \<and>
    sent ctx' = sent ctx @ [(sessionH s, msg_bytes (message (deregister_tx P loc ctx (sessionH s) (secObjInstID s) stack)))]"
proof -
  let ?i = "secObjInstID s" and ?t = "deregister_tx P loc ctx (sessionH s) (secObjInstID s) stack"
  note o = one_server [OF assms(3), of ?i]
  let ?c = "ctx\<lparr>nextMID := nextMID ctx + 1\<rparr>"
  let ?d = "put_tx (first_sent P ?t) (?c\<lparr>transactionList := [?t], sent := sent ctx @ [(sessionH s, msg_bytes (message ?t))]\<rparr>)"
  let ?u = "(plain_tx P (sessionH s) COAP_DELETE (nextMID ctx) stack)\<lparr>message := fst (coap_set_header_uri_path (mem_ok P)
      (message (plain_tx P (sessionH s) COAP_DELETE (nextMID ctx) stack)) loc)\<rparr>"
  have t: "?u\<lparr>callback := Some DEREGISTRATION_REPLY, userData := server_address ?i\<rparr> = ?t" by (simp add: deregister_tx_def Let_def)
  have send: "send_request P ?u DEREGISTRATION_REPLY (server_address ?i) ?c = Some (?d, True)"
    using transaction_send_first [OF assms(7), of P "?c\<lparr>transactionList := [?t]\<rparr>"] assms(1,2,8)
    by (simp add: send_request_def Let_def t)
  have "lwm2m_deregister P stack ctx = Some (set_status ?i STATE_DEREG_PENDING ?d)"
    using o assms(1,4-6) send by (simp add: lwm2m_deregister_def registration_deregister_def transaction_new_plain Let_def)
  moreover have "transactionList (set_status ?i STATE_DEREG_PENDING ?d) = [first_sent P ?t]"
    by (simp add: set_status_def set_srv_def put_tx_def first_sent_def)
  ultimately show ?thesis
    using assms(3) by (simp add: set_status_def set_srv_def put_tx_def first_sent_def)
qed

text \<open>C40: closing a client that is registered with a server reads the memory of that server after it was freed:
the deregistration that \<open>lwm2m_close\<close> sends is still pending when the servers are deleted, and its
callback is run for the pending transactions afterwards.  The closing has no defined result.\<close>

theorem close_uses_freed_server:
  assumes "\<forall>n. mem_ok P n" and "0 \<le> gettime P" and "serverList ctx = [s]" and "sessionH s \<noteq> 0" and "deregisterable s" and "location s = Some loc"
    and "sendable (message (deregister_tx P loc ctx (sessionH s) (secObjInstID s) stack))" and "transactionList ctx = []"
  shows "lwm2m_close A P stack ctx = None"
proof -
  from deregister_one_server [OF assms] obtain ctx' t where
    d: "lwm2m_deregister P stack ctx = Some ctx'" "transactionList ctx' = [t]" "callback t = Some DEREGISTRATION_REPLY"
    "userData t = server_address (secObjInstID s)" by blast
  have "reply_callback A P t None (ctx'\<lparr>serverList := [], bootstrapServerList := [], observedList := Some [], transactionList := []\<rparr>) = None"
    using d(3,4) by (simp add: reply_callback_def prv_handleDeregistrationReply_def srv_at_def REGISTRATION_REPLY_def UPDATE_REPLY_def
      DEREGISTRATION_REPLY_def)
  then show ?thesis
    using d(1,2) by (simp add: lwm2m_close_def) (subst prv_deleteTransactionList.simps, simp)
qed

text \<open>A client whose servers have nothing to deregister and without pending transactions is closed.\<close>

lemma close_idle:
  assumes "\<forall>s\<in>set (serverList ctx). \<not> deregisterable s" and "distinct (server_ids ctx)" and "transactionList ctx = []"
  shows "lwm2m_close A P stack ctx = Some (ctx\<lparr>serverList := [], bootstrapServerList := [], observedList := Some []\<rparr>)"
proof -
  have 1: "registration_deregister P stack i ctx = Some ctx" if "i \<in> set (server_ids ctx)" for i
  proof -
    have "srv_at i ctx \<noteq> None" using that by (auto simp: srv_at_def server_ids_def find_None_iff)
    then obtain s where "srv_at i ctx = Some s" by blast
    moreover from this have "s \<in> set (serverList ctx)" by (auto simp: srv_at_def find_Some_iff)
    ultimately show ?thesis using assms(1) by (simp add: registration_deregister_def)
  qed
  have "set is \<subseteq> set (server_ids ctx) \<Longrightarrow> deregister_loop P stack is ctx = Some ctx" for "is"
    by (induction "is") (auto simp: 1)
  then have "lwm2m_deregister P stack ctx = Some ctx" by (simp add: lwm2m_deregister_def)
  then show ?thesis using assms(3) by (simp add: lwm2m_close_def) (subst prv_deleteTransactionList.simps, simp)
qed

definition registered_client :: registration_context where
  "registered_client = register_client\<lparr>serverList := [unregistered\<lparr>server_status := STATE_REGISTERED, location := Some (str ''/rd/5'')\<rparr>],
     transactionList := []\<rparr>"

lemma registered_client_sendable:
  "sendable (message (deregister_tx register_platform (str ''/rd/5'') registered_client 3 1 []))"
proof -
  have "segs_plain (chr CHR ''/'') [str ''rd'', str ''5'']" by (simp add: segs_plain_def str_def chr_def)
  from split_multi_string [of "\<lambda>_. True", OF _ this, of "[]" 0]
  have "fst (split_option_loop (\<lambda>_. True) (chr CHR ''/'') (skip_first (chr CHR ''/'') (str ''/rd/5'')) [] 0) = [str ''rd'', str ''5'']"
    by (simp add: skip_first_def str_def)
  then show ?thesis
    by (simp add: deregister_tx_def plain_tx_def Let_def setter_defs split_beta SET_OPTION_def media_defs coap_init_message_def register_platform_def
      sendable_def size_ok_def multi_ok_def IS_OPTION_def option_numbers coap_serialize_get_size_def payload_len_def coap_sizes zero_packet_def)
qed

theorem close_uses_freed_server_witness:
  "lwm2m_close silent_app register_platform [] registered_client = None"
proof -
  let ?s = "unregistered\<lparr>server_status := STATE_REGISTERED, location := Some (str ''/rd/5'')\<rparr>"
  have s: "sessionH ?s = 3" "secObjInstID ?s = 1" by (simp_all add: unregistered_def example_server_def)
  show ?thesis
    by (rule close_uses_freed_server [of register_platform registered_client ?s "str ''/rd/5''" "[]"])
       (use registered_client_sendable s in \<open>simp_all add: register_platform_def registered_client_def deregisterable_def\<close>)
qed

section \<open>From the first step to the registration\<close>

lemma payload_state [simp]: "registration_payload P (ctx\<lparr>client_state := x\<rparr>) = registration_payload P ctx"
proof -
  have r: "reg_path (ctx\<lparr>client_state := x\<rparr>) = reg_path ctx" by (simp add: reg_path_def)
  have l: "object_getRegisterPayloadBufferLength (ctx\<lparr>client_state := x\<rparr>) = object_getRegisterPayloadBufferLength ctx"
    unfolding object_getRegisterPayloadBufferLength_def r by simp
  have p: "object_getRegisterPayload n (ctx\<lparr>client_state := x\<rparr>) = object_getRegisterPayload n ctx" for n
    unfolding object_getRegisterPayload_def r by simp
  show ?thesis unfolding registration_payload_def l p ..
qed

lemma query_state [simp]: "server_query P s (ctx\<lparr>client_state := x\<rparr>) = server_query P s ctx"
proof -
  have n: "prv_getRegistrationQueryLength (ctx\<lparr>client_state := x\<rparr>) s = prv_getRegistrationQueryLength ctx s"
    by (simp add: prv_getRegistrationQueryLength_def)
  have q: "prv_getRegistrationQuery (ctx\<lparr>client_state := x\<rparr>) s k = prv_getRegistrationQuery ctx s k" for k
    by (simp add: prv_getRegistrationQuery_def)
  show ?thesis unfolding server_query_def n q ..
qed

lemma register_tx_state [simp]: "register_tx P q pl (ctx\<lparr>client_state := x\<rparr>) h stack = register_tx P q pl ctx h stack"
  by (simp add: register_tx_def registration_request_def new_address_def)

text \<open>A transaction that was just sent is not sent again in the same step.\<close>

lemma transaction_step_waits:
  assumes "transactionList ctx = [t]" and "retrans_time t = now + 2"
  shows "transaction_step (Suc fuel) P now timeout ctx = Some (ctx, min timeout 2)"
  using assms by (simp add: transaction_step_def min_def)


text \<open>A client with the account of the server it knows, which has not taken a step yet.\<close>

definition fresh_client :: registration_context where
  "fresh_client = register_client\<lparr>client_state := STATE_INITIAL, observedList := Some [], transactionList := [], bootstrapServerList := [],
     objectList := \<lparr>objID = 0, versionMajor = 0, versionMinor = 0, instanceList = [1]\<rparr> # objectList register_client\<rparr>"

lemma fresh_client_fields:
  "serverList fresh_client = [unregistered]" "reg_path fresh_client = Some (str ''/'' @ [0])" "observedList fresh_client = Some []"
  "objectList fresh_client = \<lparr>objID = 0, versionMajor = 0, versionMinor = 0, instanceList = [1]\<rparr> # objectList payload_client"
  "transactionList fresh_client = []" "client_state fresh_client = STATE_INITIAL" "bootstrapServerList fresh_client = []" "sent fresh_client = []"
  using register_client_fields by (simp_all add: fresh_client_def reg_path_def)

lemma fresh_client_refresh: "prv_refreshServerList silent_app register_platform fresh_client = Some (fresh_client, 0)"
proof -
  have "\<not> dirty unregistered" "secObjInstID unregistered = 1" by (simp_all add: unregistered_def example_server_def)
  moreover have "fresh_client\<lparr>bootstrapServerList := [], serverList := [unregistered]\<rparr> = fresh_client"
    using fresh_client_fields(1,7) by simp
  ultimately show ?thesis
    by (simp add: prv_refreshServerList_def Let_def fresh_client_fields object_getServers_def payload_client_def object_ids)
qed

lemma fresh_client_payload: "registration_payload register_platform fresh_client = Some (Some client_links)"
proof -
  have "LWM2M_OSCORE_OBJECT_ID \<notin> objID ` set (objectList fresh_client)"
    by (simp add: fresh_client_fields payload_client_def LWM2M_OSCORE_OBJECT_ID_def)
  note n = register_length_eq [OF fresh_client_fields(2) payload_client_path(2) this]
  note e = register_payload_eq [OF fresh_client_fields(2) payload_client_path(2)]
  have t: "register_text (str ''/'') fresh_client = client_links @ str '',''"
    by (simp add: register_text_def listed_objects_def fresh_client_fields payload_client_def LWM2M_SECURITY_OBJECT_ID_def object_text_def
      has_version_def version_link_def link_text_def REG_LWM2M_RESOURCE_TYPE_def client_links_def str_def chr_def dec_text.simps digit_char_def)
  show ?thesis using n e unfolding t by (simp add: registration_payload_def register_platform_def butlast_append) (simp add: client_links_def str_def)
qed

lemma fresh_client_query: "server_query register_platform unregistered fresh_client = Some (Some client_query)"
proof -
  have n: "prv_getRegistrationQueryLength fresh_client s = prv_getRegistrationQueryLength register_client s" for s
    by (simp add: prv_getRegistrationQueryLength_def fresh_client_def)
  have q: "prv_getRegistrationQuery fresh_client s k = prv_getRegistrationQuery register_client s k" for s k
    by (simp add: prv_getRegistrationQuery_def fresh_client_def)
  show ?thesis using register_client_query unfolding server_query_def n q .
qed


end
