(* ===== verification/Spec2Isabelle.thy ===== *)
theory Spec2Isabelle
  imports Context
begin

text \<open>
  Wakaama (\<^verbatim>\<open>src/\<close>) is a C implementation of the Lightweight M2M protocol.  Its parts are the CoAP
  layer (\<^verbatim>\<open>coap/\<close>: message codec, block-wise transfers, transactions), the LwM2M core (\<^verbatim>\<open>core/\<close>:
  lists, utilities, paths, the packet dispatcher, objects, registration, bootstrap, device management,
  observation, the periodic step), the data formats (\<^verbatim>\<open>data/\<close>: TLV, JSON, SenML, CBOR and the typed
  values) and the transports and examples.  A datagram is parsed by the codec; a request is
  reassembled, decoded to a path and handed to a handler, whose answer is serialized and sent; a
  response is matched with the transaction that sent the request, which retransmits until then; large
  payloads travel in blocks in both directions.  The handlers read and write the objects of the
  application through its callbacks.  The periodic step runs the state machine of the client
  (bootstrap, registration, ready), notifies the observers, keeps the registrations alive and
  retransmits.

  \<^bold>\<open>Theories and sources.\<close>
  \<^item> \<open>Wakaama_Base\<close>: integer types, checked buffer accesses, result codes, and the locales \<open>format\<close> and
    \<open>buffer_format\<close>, the contract of everything that is written to and read from bytes (interpreted
    for CoAP messages, TLV records, Base64 and decimal texts).
  \<^item> \<open>Lwm2m_List\<close>: \<^verbatim>\<open>core/list.c\<close>, on a store of nodes and on HOL lists, with a refinement between
    the two and the locale \<open>id_list\<close> for the clients of the lists.
  \<^item> \<open>Utils_Text\<close>, \<open>Utils_Misc\<close>, \<open>Base64\<close>: \<^verbatim>\<open>core/utils.c\<close>, text conversions, strings, media types,
    bindings, versions, Base64.  \<open>Uri\<close>: \<^verbatim>\<open>core/uri.c\<close>, paths from option segments and from text.
  \<^item> \<open>Lwm2m_Data\<close>, \<open>Tlv\<close>: the values of \<^verbatim>\<open>data/data.c\<close> and \<^verbatim>\<open>data/tlv.c\<close>.  \<open>Cbor\<close>: \<^verbatim>\<open>data/cbor.c\<close>.
    \<open>Ieee\<close>: the floating point arithmetic of the language on bit patterns.  \<open>Data_Format\<close>: floating
    point texts, values as text and the choice of a format.
  \<^item> \<open>Coap_Packet\<close>, \<open>Coap_Codec\<close>, \<open>Coap_Header\<close>: \<^verbatim>\<open>coap/er-coap-13/er-coap-13.c\<close>; the serializer and
    parser, their round trip and bounds, and the setters and getters of the options.
  \<^item> \<open>Coap_Block\<close>: \<^verbatim>\<open>coap/block.c\<close>.  \<open>Coap_Transaction\<close>: \<^verbatim>\<open>coap/transaction.c\<close> and \<open>message_send\<close>.
  \<^item> \<open>Packet\<close>, \<open>Handle_Packet\<close>: \<^verbatim>\<open>core/packet.c\<close>, the transactions of a block-wise request and the
    dispatcher \<open>lwm2m_handle_packet\<close> of a client, over a record of the handlers of requests.
    \<open>Upload\<close>: block-wise transfers from end to end.
  \<^item> \<open>Observe_List\<close>, \<open>Observe\<close>: the state of a client above CoAP, and \<^verbatim>\<open>core/observe.c\<close>: the list of
    observations, the requests, the attributes and the notifications.  \<open>Discover\<close>:
    \<^verbatim>\<open>core/discover.c\<close>.
  \<^item> \<open>Objects\<close>, \<open>Register_Payload\<close>, \<open>Servers\<close>: \<^verbatim>\<open>core/objects.c\<close>, the access to the objects through the
    callbacks of the application, the payload of a registration, the list of servers.
  \<^item> \<open>Management\<close>: \<^verbatim>\<open>core/management.c\<close>.  Its \<open>dm_handle\<close> is the device management handler of the
    dispatcher.
  \<^item> \<open>Registration_Query\<close>, \<open>Registration\<close>: \<^verbatim>\<open>core/registration.c\<close>, the query, the order and the retries of
    registrations, the messages with their replies and the periodic step.
  \<^item> \<open>Bootstrap_Discover\<close>, \<open>Bootstrap\<close>: \<^verbatim>\<open>core/bootstrap.c\<close>.  \<open>bs_command\<close>, \<open>bs_delete_all\<close> and
    \<open>bootstrap_handleFinish\<close> are the other handlers of the dispatcher.
  \<^item> \<open>Context\<close>: \<^verbatim>\<open>core/liblwm2m.c\<close>, creation and configuration, \<open>lwm2m_step\<close> and the end.
  \<^item> This theory: the exchange of a request and its response between two endpoints.

  \<^bold>\<open>Conventions.\<close>  The configuration is the default of \<^verbatim>\<open>wakaama.cmake\<close>: LwM2M 1.1, a client with
  bootstrap support, LP64, a block size of 1024, messages of at most 2048 bytes, no raw Block1
  requests.  A function of type \<open>'a c\<close> returns \<open>None\<close> for undefined behaviour: an access outside an
  object, a null or freed pointer, an uninitialized value, signed overflow, division by zero.
  Integers have the width of the source.  A buffer is a list of bytes with checked accesses; a
  nullable pointer is an option.  The argument \<open>mem\<close> (or \<open>mem_ok\<close> of the platform record) says which
  allocations succeed; releasing memory has no effect of its own.  The platform record holds the
  hooks of \<^verbatim>\<open>include/liblwm2m.h\<close> that an application supplies: allocator, clock (read once per
  call), comparison of sessions, transport, and the callbacks of transactions.  The record
  \<open>app_objects\<close> holds the callbacks of its objects, which may change the context; \<open>data_formats\<close> holds
  the formats that are not modelled.  A transaction is identified by its message id, a server by its
  session or by its Security instance.  The callbacks of transactions are numbered; those of the library
  (\<open>REGISTRATION_REPLY\<close>, \<open>UPDATE_REPLY\<close>, \<open>DEREGISTRATION_REPLY\<close>, \<open>BOOTSTRAP_REPLY\<close>) are defined in
  \<open>Registration\<close> and \<open>Bootstrap\<close> and run by \<open>reply_callback\<close> of \<open>Context\<close>.  \<open>transaction_step\<close> and
  \<open>transaction_handleResponse\<close> run callbacks through the platform record.  Static variables are part of
  the context.  Logging is left out.

  \<^bold>\<open>What is shown.\<close>
  \<^item> Formats: round trips of CoAP, TLV, CBOR values, Base64, paths and numbers, with the bounds of
    every write, and safety of the parsers on arbitrary input.
  \<^item> Lists: each operation on pointers implements the operation on sorted lists.
  \<^item> Transactions: the retransmission schedule, the invariant of every reachable state, termination
    of the periodic step, matching of responses.
  \<^item> Blocks: reassembly, retransmission, safety, uploads and downloads from end to end.
  \<^item> Dispatcher: what is sent for malformed datagrams, requests, uploads and downloads; the exchange
    theorem below connects the creation of a transaction, the codec, the decoding of paths, the
    dispatcher and the matching of responses.
  \<^item> Objects and management: what a Read, a Create and a Delete of every instance do; the parser of
    attributes is equivalent to a reference parser; every request keeps the invariant of the lists of
    a client; the links of Discover.
  \<^item> Observation: the list of observations stays consistent, a change that fulfils the conditions is
    notified, and the conditions on integers are exact.
  \<^item> Registration: the computed length of payload and query is the length of the text written, the
    schedule of retries, the life of one registration from its start to its answer.
  \<^item> Bootstrap: the life of a bootstrap, its summary, the account that survives a deletion of all
    accounts, and the bounds of Bootstrap-Discover.
  \<^item> Context: the transitions of the state machine, and a client that becomes ready by \<open>lwm2m_step\<close> and
    the answer to its registration.
  Where the code does not do what it means to, a theorem states what it does (overflows, null
  dereferences, a block number gap, the offset of a reduced block size, servers that \<open>lwm2m_close\<close>
  uses after they are freed).

  \<^bold>\<open>Fuel.\<close>  \<open>transaction_step\<close> runs with fuel \<open>2 ^ 16\<close>, one round per message id, shown to be enough;
  \<open>lwm2m_step\<close> passes its own fuel on to it.  The loop of \<open>prv_change_to_block1\<close> runs with fuel 16,
  since \<open>16 << n\<close> exceeds 16 bits for \<open>n = 12\<close>.  Partial functions are the walks over a store of nodes,
  which may be cyclic, and the loops that repeat until callbacks have emptied a list
  (\<open>delete_instances\<close>, \<open>delete_others\<close>, \<open>prv_deleteTransactionList\<close>): not to end is \<open>None\<close>, and the
  theorems about the first two state that they end.  All other loops are structural or have a
  termination proof.

  \<^bold>\<open>Not modelled.\<close>  JSON, SenML and link format parsers and \<open>utils_floatToText\<close>, which are parameters;
  the functions of the configuration of an LwM2M or bootstrap server in every file; \<open>lwm2m_send\<close> and
  reporting; the composite read; the handlers of raw Block1 requests, which are not compiled by
  default; transports, examples, command line and logging, which are input and output.
\<close>

section \<open>From the request to its response\<close>

lemma ack_of_answer:
  assumes "length (token q) \<le> 8" and "res \<noteq> 0" and "pl \<noteq> []"
  shows "coap_wf ((ack_of q)\<lparr>payload := Some pl, code := res\<rparr>)" "size_ok ((ack_of q)\<lparr>payload := Some pl, code := res\<rparr>)"
    "multi_ok ((ack_of q)\<lparr>payload := Some pl, code := res\<rparr>)"
  using assms
  by (simp_all add: coap_wf_def size_ok_def multi_ok_def unset_zero_def limits_ok_def known_options_def ack_of_def
      coap_init_message_def zero_packet_def IS_OPTION_def option_numbers COAP_EMPTY_MESSAGE_CODE_def)

text \<open>The piggybacked response to a request finishes its transaction.\<close>

lemma piggybacked_finishes:
  fixes P :: "('a tx_context_scheme) platform"
  assumes "transactionList ctx = ts @ t # us" and "\<forall>x\<in>set ts. \<not> concerns P s m x" and "session_is_equal P s (peerH t)"
    and "mtype m = COAP_TYPE_ACK" and "mid m = mID t" and "mid (message t) = mID t" and "\<not> ack_received t"
    and "code m \<noteq> COAP_401_UNAUTHORIZED" and "code (message t) \<le> COAP_DELETE"
    and "IS_OPTION (message t) COAP_OPTION_TOKEN \<longrightarrow> coap_get_header_token m = Some (token (message t))"
  shows "transaction_handleResponse P s m resp ctx =
    (let t' = t\<lparr>ack_received := True\<rparr> in
     Some (transaction_remove t' (run_callback P t' (Some m) (put_tx t' ctx)), resp, True))"
proof -
  have "transaction_handleResponse P s m resp ctx = handle_response_loop P s m resp (t # us) ctx"
    unfolding transaction_handleResponse_def assms(1) by (rule handle_response_prefix [OF assms(2)])
  moreover have "ack_transaction m t = (t\<lparr>ack_received := True\<rparr>, True, False)"
    using assms(4,5,7) by (simp add: ack_transaction_def)
  moreover have "prv_checkFinished (t\<lparr>ack_received := True\<rparr>) m"
    using assms(5,6,9,10) by (auto simp: prv_checkFinished_def Let_def)
  ultimately show ?thesis
    using assms(3,4,8) by (simp add: finish_transaction_def Let_def)
qed


definition example_content_handlers :: "client_context client_handlers" where
  "example_content_handlers = example_handlers\<lparr>dm_handleRequest :=
     (\<lambda>c u v m r. Some (c, r\<lparr>payload := Some (str ''Wakaama'')\<rparr>, COAP_205_CONTENT))\<rparr>"


end
